(* ===== verification/Smf_Prelude.thy ===== *)
theory Smf_Prelude
  imports Main "HOL-Library.Word" "HOL-Library.AList" "HOL-Library.Signed_Division"
begin

unbundle bit_operations_syntax

text \<open>
  Shared vocabulary of the development: the results of Go functions (a value, an
  error, or a run-time panic), fixed-width integers, and the functions of Go's
  standard library that the sources call (\<^verbatim>\<open>strconv.Atoi\<close>,
  \<^verbatim>\<open>strings.Split\<close>, \<^verbatim>\<open>strings.Fields\<close>, \<^verbatim>\<open>net.ParseIP\<close>,
  \<^verbatim>\<open>net.ParseCIDR\<close>, \<^verbatim>\<open>net.CIDRMask\<close>), each with the generic lemmas
  the component theories use.  Strings are lists of bytes; white space is the ASCII
  white space of \<^verbatim>\<open>unicode.IsSpace\<close>.
\<close>

named_theorems go_simps \<open>equations that evaluate the modelled standard library\<close>

section \<open>Values, errors and panics\<close>

type_synonym byte = "8 word"
type_synonym u8 = "8 word"
type_synonym u16 = "16 word"
type_synonym u32 = "32 word"
type_synonym u64 = "64 word"

text \<open>
  A Go function that returns \<^verbatim>\<open>(T, error)\<close> either returns a value, returns an
  error, or does not return because of a run-time panic (nil dereference, index out of
  range, division by zero, an explicit \<^verbatim>\<open>panic\<close>).
\<close>

datatype 'a result = Ok 'a | Err string | Panic string

fun bind_res :: "'a result \<Rightarrow> ('a \<Rightarrow> 'b result) \<Rightarrow> 'b result" where
  "bind_res (Ok x) f = f x"
| "bind_res (Err e) f = Err e"
| "bind_res (Panic e) f = Panic e"

fun is_Ok :: "'a result \<Rightarrow> bool" where
  "is_Ok (Ok _) = True"
| "is_Ok _ = False"

fun is_Panic :: "'a result \<Rightarrow> bool" where
  "is_Panic (Panic _) = True"
| "is_Panic _ = False"

lemma bind_res_Ok_iff [simp]:
  "bind_res r f = Ok y \<longleftrightarrow> (\<exists>x. r = Ok x \<and> f x = Ok y)"
  by (cases r) auto

lemma is_Panic_bind_res [simp]:
  "is_Panic (bind_res r f) \<longleftrightarrow> is_Panic r \<or> (\<exists>x. r = Ok x \<and> is_Panic (f x))"
  by (cases r) auto

text \<open>\<^verbatim>\<open>nth_res xs i\<close> is \<^verbatim>\<open>xs[i]\<close>: an index out of range panics.\<close>

definition nth_res :: "'a list \<Rightarrow> nat \<Rightarrow> 'a result" where
  "nth_res xs i = (if i < length xs then Ok (xs ! i) else Panic ''index out of range'')"

lemma nth_res_Ok_iff [simp]: "nth_res xs i = Ok x \<longleftrightarrow> i < length xs \<and> xs ! i = x"
  by (auto simp: nth_res_def)

lemma is_Panic_nth_res [simp]: "is_Panic (nth_res xs i) \<longleftrightarrow> length xs \<le> i"
  by (auto simp: nth_res_def)

section \<open>Integers\<close>

text \<open>\<^verbatim>\<open>int\<close> and \<^verbatim>\<open>int64\<close> arithmetic wraps at 64 bits.\<close>

definition s64 :: "int \<Rightarrow> int" where
  "s64 x = signed_take_bit 63 x"

lemma s64_id: "- (2 ^ 63) \<le> x \<Longrightarrow> x < 2 ^ 63 \<Longrightarrow> s64 x = x"
  by (simp add: s64_def signed_take_bit_int_eq_self)

definition max_int64 :: int where "max_int64 = 2 ^ 63 - 1"
definition min_int64 :: int where "min_int64 = - (2 ^ 63)"

lemmas int64_defs = s64_def max_int64_def min_int64_def

lemma smod_nonneg: "0 \<le> (a::int) \<Longrightarrow> 0 < b \<Longrightarrow> a smod b = a mod b"
  by (simp add: signed_modulo_int_def signed_divide_int_def sgn_if minus_div_mult_eq_mod
      mult.commute)

lemma sdiv_nonneg: "0 \<le> (a::int) \<Longrightarrow> 0 < b \<Longrightarrow> a sdiv b = a div b"
  by (auto simp: signed_divide_int_def sgn_if)

section \<open>Strings\<close>

definition digit_val :: "char \<Rightarrow> nat option" where
  "digit_val c = (let n = of_char c in if 48 \<le> n \<and> n \<le> 57 then Some (n - 48) else None)"

fun digits_val :: "nat \<Rightarrow> string \<Rightarrow> nat option" where
  "digits_val acc [] = Some acc"
| "digits_val acc (c # cs) =
     (case digit_val c of None \<Rightarrow> None | Some d \<Rightarrow> digits_val (10 * acc + d) cs)"

text \<open>The value of a non-empty digit string.\<close>

definition parse_nat :: "string \<Rightarrow> nat option" where
  "parse_nat s = (if s = [] then None else digits_val 0 s)"

text \<open>
  \<^verbatim>\<open>strconv.Atoi\<close>: the value and whether an error is returned.  On a syntax error
  the value is 0; out of range it is the nearest \<^verbatim>\<open>int\<close>.
\<close>

definition atoi_signed :: "bool \<Rightarrow> string \<Rightarrow> int \<times> bool" where
  "atoi_signed neg s = (case parse_nat s of
       None \<Rightarrow> (0, True)
     | Some n \<Rightarrow>
         (if neg then (if n \<le> 2 ^ 63 then (- int n, False) else (min_int64, True))
          else (if n < 2 ^ 63 then (int n, False) else (max_int64, True))))"

definition Atoi :: "string \<Rightarrow> int \<times> bool" where
  "Atoi s = (case s of
       [] \<Rightarrow> (0, True)
     | c # cs \<Rightarrow>
         (if c = CHR ''-'' then atoi_signed True cs
          else if c = CHR ''+'' then atoi_signed False cs
          else atoi_signed False s))"

lemma Atoi_bounds: "min_int64 \<le> fst (Atoi s) \<and> fst (Atoi s) \<le> max_int64"
  by (auto simp: Atoi_def atoi_signed_def max_int64_def min_int64_def
      split: list.splits option.splits)

lemmas [go_simps] =
  digit_val_def parse_nat_def atoi_signed_def Atoi_def max_int64_def min_int64_def

definition is_space :: "char \<Rightarrow> bool" where
  "is_space c \<longleftrightarrow> (let n = of_char c :: nat in n = 32 \<or> (9 \<le> n \<and> n \<le> 13))"

fun split_where :: "(char \<Rightarrow> bool) \<Rightarrow> string \<Rightarrow> string list" where
  "split_where p [] = [[]]"
| "split_where p (c # cs) =
     (if p c then [] # split_where p cs
      else (case split_where p cs of [] \<Rightarrow> [[c]] | w # ws \<Rightarrow> (c # w) # ws))"

text \<open>\<^verbatim>\<open>strings.Split\<close> with a one-byte separator, \<^verbatim>\<open>strings.Fields\<close> and
  \<^verbatim>\<open>strings.TrimSpace\<close>.\<close>

definition Split :: "char \<Rightarrow> string \<Rightarrow> string list" where
  "Split c s = split_where (\<lambda>x. x = c) s"

definition Fields :: "string \<Rightarrow> string list" where
  "Fields s = filter (\<lambda>w. w \<noteq> []) (split_where is_space s)"

definition TrimSpace :: "string \<Rightarrow> string" where
  "TrimSpace s = rev (dropWhile is_space (rev (dropWhile is_space s)))"

lemma split_where_nonempty [simp]: "split_where p s \<noteq> []"
  by (induction s) (auto split: list.splits)

lemma Split_nonempty [simp]: "Split c s \<noteq> []"
  by (simp add: Split_def)

lemma length_Split_pos [simp]: "0 < length (Split c s)"
  by simp

lemma split_where_none: "\<forall>c \<in> set s. \<not> p c \<Longrightarrow> split_where p s = [s]"
  by (induction s) auto

lemma Split_single: "c \<notin> set s \<Longrightarrow> Split c s = [s]"
  unfolding Split_def by (rule split_where_none) auto

lemma split_where_append:
  "\<forall>c \<in> set s. \<not> p c \<Longrightarrow> p d \<Longrightarrow> split_where p (s @ d # t) = s # split_where p t"
  by (induction s) auto

lemmas [go_simps] = is_space_def Split_def Fields_def TrimSpace_def

section \<open>IP addresses\<close>

text \<open>
  \<^verbatim>\<open>net.IP\<close> is a byte slice of length 4 or 16; the empty list is \<^verbatim>\<open>nil\<close>.
  An address literal is parsed as in \<^verbatim>\<open>netip.ParseAddr\<close> without a zone: the first
  \<^verbatim>\<open>.\<close> or \<^verbatim>\<open>:\<close> of the string decides between the two families.
\<close>

type_synonym ip = "byte list"

definition dec_octet :: "string \<Rightarrow> byte option" where
  "dec_octet f = (case parse_nat f of
       None \<Rightarrow> None
     | Some n \<Rightarrow> if (length f = 1 \<or> hd f \<noteq> CHR ''0'') \<and> n \<le> 255 then Some (of_nat n) else None)"

definition parse_ipv4 :: "string \<Rightarrow> ip option" where
  "parse_ipv4 s = (case Split (CHR ''.'') s of
       [a, b, c, d] \<Rightarrow>
         (case (dec_octet a, dec_octet b, dec_octet c, dec_octet d) of
            (Some w, Some x, Some y, Some z) \<Rightarrow> Some [w, x, y, z]
          | _ \<Rightarrow> None)
     | _ \<Rightarrow> None)"

definition hex_val :: "char \<Rightarrow> nat option" where
  "hex_val c = (let n = of_char c in
     if 48 \<le> n \<and> n \<le> 57 then Some (n - 48)
     else if 97 \<le> n \<and> n \<le> 102 then Some (n - 87)
     else if 65 \<le> n \<and> n \<le> 70 then Some (n - 55) else None)"


fun hex_number :: "nat \<Rightarrow> string \<Rightarrow> nat" where
  "hex_number acc [] = acc"
| "hex_number acc (c # cs) =
     hex_number (16 * acc + (case hex_val c of None \<Rightarrow> 0 | Some d \<Rightarrow> d)) cs"

text \<open>
  The IPv6 loop.  \<^verbatim>\<open>n\<close> is the number of 16-bit fields still free, \<^verbatim>\<open>acc\<close> the
  bytes read so far and \<^verbatim>\<open>ell\<close> the position of the ellipsis.
\<close>

definition ipv6_close :: "ip \<Rightarrow> nat option \<Rightarrow> ip option" where
  "ipv6_close acc ell =
     (case ell of
        None \<Rightarrow> if length acc = 16 then Some acc else None
      | Some e \<Rightarrow>
          if length acc < 16
          then Some (take e acc @ replicate (16 - length acc) 0 @ drop e acc)
          else None)"

fun ipv6_loop :: "nat \<Rightarrow> ip \<Rightarrow> nat option \<Rightarrow> string \<Rightarrow> ip option" where
  "ipv6_loop 0 acc ell s = (if s = [] then ipv6_close acc ell else None)"
| "ipv6_loop (Suc n) acc ell s =
     (let h = takeWhile (\<lambda>c. hex_val c \<noteq> None) s; r = dropWhile (\<lambda>c. hex_val c \<noteq> None) s in
      if h = [] \<or> 4 < length h then None
      else (case r of
          [] \<Rightarrow> ipv6_close (acc @ [of_nat (hex_number 0 h div 256), of_nat (hex_number 0 h)]) ell
        | c # cs \<Rightarrow>
            (if c = CHR ''.'' then
               (if (ell = None \<and> length acc \<noteq> 12) \<or> 16 < length acc + 4 then None
                else (case parse_ipv4 s of None \<Rightarrow> None | Some q \<Rightarrow> ipv6_close (acc @ q) ell))
             else if c \<noteq> CHR '':'' \<or> cs = [] then None
             else
               (let acc' = acc @ [of_nat (hex_number 0 h div 256), of_nat (hex_number 0 h)] in
                if hd cs = CHR '':''
                then (if ell \<noteq> None then None
                      else if tl cs = [] then ipv6_close acc' (Some (length acc'))
                      else ipv6_loop n acc' (Some (length acc')) (tl cs))
                else ipv6_loop n acc' ell cs))))"

definition parse_ipv6 :: "string \<Rightarrow> ip option" where
  "parse_ipv6 s =
     (case s of
        CHR '':'' # CHR '':'' # r \<Rightarrow>
          if r = [] then Some (replicate 16 0) else ipv6_loop 8 [] (Some 0) r
      | _ \<Rightarrow> ipv6_loop 8 [] None s)"

definition ParseAddr :: "string \<Rightarrow> ip option" where
  "ParseAddr s =
     (case dropWhile (\<lambda>c. c \<noteq> CHR ''.'' \<and> c \<noteq> CHR '':'' \<and> c \<noteq> CHR ''%'') s of
        [] \<Rightarrow> None
      | c # _ \<Rightarrow> if c = CHR ''.'' then parse_ipv4 s
                 else if c = CHR '':'' then parse_ipv6 s else None)"

definition v4InV6Prefix :: ip where
  "v4InV6Prefix = replicate 10 0 @ [255, 255]"

text \<open>\<^verbatim>\<open>net.ParseIP\<close> always answers 16 bytes, or nil; \<^verbatim>\<open>IP.To4\<close> and
  \<^verbatim>\<open>IP.To16\<close> convert.\<close>

definition To16 :: "ip \<Rightarrow> ip" where
  "To16 a = (if length a = 4 then v4InV6Prefix @ a else if length a = 16 then a else [])"

definition To4 :: "ip \<Rightarrow> ip" where
  "To4 a = (if length a = 4 then a
            else if length a = 16 \<and> take 12 a = v4InV6Prefix then drop 12 a else [])"

definition ParseIP :: "string \<Rightarrow> ip" where
  "ParseIP s = (case ParseAddr s of None \<Rightarrow> [] | Some a \<Rightarrow> To16 a)"

lemma length_v4InV6Prefix [simp]: "length v4InV6Prefix = 12"
  by (simp add: v4InV6Prefix_def)

lemma To4_To16: "length a = 4 \<Longrightarrow> To4 (To16 a) = a"
  by (simp add: To4_def To16_def)

lemma To4_length: "To4 a \<noteq> [] \<Longrightarrow> length (To4 a) = 4"
  by (auto simp: To4_def split: if_splits)

text \<open>\<^verbatim>\<open>net.CIDRMask(ones, bits)\<close>: nil unless \<^verbatim>\<open>0 <= ones <= bits\<close>.\<close>

definition mask_byte :: "nat \<Rightarrow> byte" where
  "mask_byte n = (if 8 \<le> n then 255 else of_nat (256 - 2 ^ (8 - n)))"

definition CIDRMask :: "int \<Rightarrow> nat \<Rightarrow> byte list" where
  "CIDRMask ones bits =
     (if (bits \<noteq> 32 \<and> bits \<noteq> 128) \<or> ones < 0 \<or> int bits < ones then []
      else map (\<lambda>i. mask_byte (nat ones - 8 * i)) [0 ..< bits div 8])"

lemma length_CIDRMask:
  "0 \<le> ones \<Longrightarrow> ones \<le> 32 \<Longrightarrow> length (CIDRMask ones 32) = 4"
  by (simp add: CIDRMask_def)

text \<open>\<^verbatim>\<open>net.ParseCIDR\<close>, of which the sources use the network only: its masked
  address and its mask.\<close>

definition ParseCIDR :: "string \<Rightarrow> (ip \<times> byte list) option" where
  "ParseCIDR s =
     (case dropWhile (\<lambda>c. c \<noteq> CHR ''/'') s of
        [] \<Rightarrow> None
      | _ # m \<Rightarrow>
          (case (ParseAddr (takeWhile (\<lambda>c. c \<noteq> CHR ''/'') s), parse_nat m) of
             (Some a, Some n) \<Rightarrow>
               if n \<le> 8 * length a
               then (let mask = CIDRMask (int n) (8 * length a) in Some (map2 (AND) a mask, mask))
               else None
           | _ \<Rightarrow> None))"

lemmas [go_simps] =
  dec_octet_def parse_ipv4_def hex_val_def ipv6_close_def parse_ipv6_def ParseAddr_def
  v4InV6Prefix_def To16_def To4_def ParseIP_def mask_byte_def CIDRMask_def ParseCIDR_def

section \<open>Maps\<close>

text \<open>
  A Go map is an association list with distinct keys: the order of the list is the order
  in which \<^verbatim>\<open>range\<close> happens to visit the entries, so a statement about every list
  is a statement about every iteration order.
\<close>

type_synonym 'v go_map = "(string \<times> 'v) list"

definition go_map_ok :: "'v go_map \<Rightarrow> bool" where
  "go_map_ok m \<longleftrightarrow> distinct (map fst m)"

lemma map_of_filter_keys:
  "distinct (map fst m) \<Longrightarrow>
   map_of (filter P m) k = (case map_of m k of None \<Rightarrow> None | Some v \<Rightarrow> if P (k, v) then Some v else None)"
proof (induction m)
  case Nil
  then show ?case by simp
next
  case (Cons a m)
  obtain n v where a: "a = (n, v)" by (cases a)
  show ?case
  proof (cases "n = k")
    case True
    with Cons.prems a have "map_of m k = None" by (auto simp: map_of_eq_None_iff)
    with Cons True a show ?thesis by auto
  next
    case False
    with Cons a show ?thesis by simp
  qed
qed

lemma distinct_map_filter_fst: "distinct (map fst m) \<Longrightarrow> distinct (map fst (filter P m))"
  by (rule distinct_map_filter)

text \<open>\<^verbatim>\<open>for k, v := range src { dst[k] = v }\<close> and
  \<^verbatim>\<open>for k := range src { delete(dst, k) }\<close>.\<close>

definition put_all :: "'v go_map \<Rightarrow> 'v go_map \<Rightarrow> 'v go_map" where
  "put_all src dst = fold (\<lambda>(k, v). AList.update k v) src dst"

definition delete_all :: "'w go_map \<Rightarrow> 'v go_map \<Rightarrow> 'v go_map" where
  "delete_all src dst = fold (\<lambda>(k, v). AList.delete k) src dst"

lemma map_of_put_all:
  "distinct (map fst src) \<Longrightarrow>
   map_of (put_all src dst) k = (case map_of src k of None \<Rightarrow> map_of dst k | Some v \<Rightarrow> Some v)"
proof (induction src arbitrary: dst)
  case Nil
  then show ?case by (simp add: put_all_def)
next
  case (Cons a src)
  obtain n v where a: "a = (n, v)" by (cases a)
  have "map_of (put_all src (AList.update n v dst)) k =
          (case map_of src k of None \<Rightarrow> map_of (AList.update n v dst) k | Some w \<Rightarrow> Some w)"
    using Cons by simp
  moreover have "n \<notin> fst ` set src" using Cons.prems a by auto
  ultimately show ?case
    using a by (auto simp: put_all_def update_conv map_of_eq_None_iff[symmetric] split: option.split)
qed

lemma map_of_delete_all:
  "map_of (delete_all src dst) k = (if k \<in> fst ` set src then None else map_of dst k)"
  by (induction src arbitrary: dst) (auto simp: delete_all_def delete_conv)

lemma distinct_put_all: "distinct (map fst dst) \<Longrightarrow> distinct (map fst (put_all src dst))"
  by (induction src arbitrary: dst) (auto simp: put_all_def distinct_update)

lemma distinct_delete_all: "distinct (map fst dst) \<Longrightarrow> distinct (map fst (delete_all src dst))"
  by (induction src arbitrary: dst) (auto simp: delete_all_def distinct_delete)

lemma map_of_Some_set: "map_of m k = Some v \<Longrightarrow> (k, v) \<in> set m"
  by (rule map_of_SomeD)

section \<open>Bytes\<close>

text \<open>Big-endian splitting of a 16-bit value.\<close>

definition hi8 :: "u16 \<Rightarrow> byte" where "hi8 w = ucast (drop_bit 8 w)"
definition lo8 :: "u16 \<Rightarrow> byte" where "lo8 w = ucast (w AND 255)"

definition be16 :: "byte \<Rightarrow> byte \<Rightarrow> u16" where
  "be16 h l = push_bit 8 (ucast h) OR ucast l"

lemma mask8_u16: "(255 :: u16) = mask 8"
  by (simp add: mask_eq_decr_exp)

lemma be16_split: "be16 (hi8 w) (lo8 w) = w"
proof (rule bit_word_eqI)
  fix n assume "n < LENGTH(16)"
  then show "bit (be16 (hi8 w) (lo8 w)) n \<longleftrightarrow> bit w n"
    unfolding be16_def hi8_def lo8_def mask8_u16
    by (auto simp: bit_simps possible_bit_def)
qed

end
