(* ===== verification/IP_Allocator.thy ===== *)
theory IP_Allocator
  imports Smf_Prelude
begin

text \<open>
  UE address allocation, \<^verbatim>\<open>src/context/ip_allocator.go\<close>: the identifier pool
  \<^verbatim>\<open>_IDPool\<close>, the arithmetic between an address and its offset in the pool's network,
  and the allocator that combines them.  The value of the environment variable
  \<^verbatim>\<open>SMF_COUNT\<close>, which every call reads, is the argument \<^verbatim>\<open>env\<close>.
  The pool's contract is the locale \<^verbatim>\<open>identifier_pool\<close>, interpreted at the end of the
  pool's section; the allocator's theorems rest on it.
\<close>

section \<open>The interface of an identifier pool\<close>

text \<open>
  What a client of a pool relies on: \<^verbatim>\<open>alloc\<close> hands out an identifier of the range
  that is not in use and marks exactly it, keeps the invariant, fails only when the whole
  range is in use and never panics; \<^verbatim>\<open>free\<close> and \<^verbatim>\<open>reserve\<close> change exactly one
  identifier.
\<close>

locale identifier_pool =
  fixes inv :: "'p \<Rightarrow> bool"
    and used :: "'p \<Rightarrow> int set"
    and ids :: "'p \<Rightarrow> int set"
    and alloc :: "'p \<Rightarrow> (int \<times> 'p) result"
    and free :: "int \<Rightarrow> 'p \<Rightarrow> 'p"
    and reserve :: "int \<Rightarrow> 'p \<Rightarrow> 'p"
  assumes alloc_spec: "inv p \<Longrightarrow> alloc p = Ok (i, q) \<Longrightarrow>
      i \<in> ids p \<and> i \<notin> used p \<and> used q = insert i (used p) \<and> ids q = ids p \<and> inv q"
    and alloc_total: "inv p \<Longrightarrow> \<not> ids p \<subseteq> used p \<Longrightarrow> is_Ok (alloc p)"
    and alloc_full: "inv p \<Longrightarrow> ids p \<subseteq> used p \<Longrightarrow> \<not> is_Ok (alloc p) \<and> \<not> is_Panic (alloc p)"
    and free_spec: "used (free i p) = used p - {i} \<and> ids (free i p) = ids p"
    and free_inv: "inv p \<Longrightarrow> inv (free i p)"
    and reserve_spec: "used (reserve i p) = insert i (used p) \<and> ids (reserve i p) = ids p"
    and reserve_inv: "inv p \<Longrightarrow> inv (reserve i p)"
begin

fun alloc_many :: "nat \<Rightarrow> 'p \<Rightarrow> (int list \<times> 'p) result" where
  "alloc_many 0 p = Ok ([], p)"
| "alloc_many (Suc n) p =
     bind_res (alloc p) (\<lambda>(i, q). bind_res (alloc_many n q) (\<lambda>(is, r). Ok (i # is, r)))"

lemma alloc_many_spec:
  "inv p \<Longrightarrow> alloc_many n p = Ok (is, q) \<Longrightarrow>
     length is = n \<and> distinct is \<and> set is \<subseteq> ids p - used p \<and> used q = set is \<union> used p \<and>
     ids q = ids p \<and> inv q"
proof (induction n arbitrary: p "is")
  case 0
  then show ?case by simp
next
  case (Suc n)
  from Suc.prems(2) obtain i p' js where
    a: "alloc p = Ok (i, p')" and m: "alloc_many n p' = Ok (js, q)" and eq: "is = i # js"
    by auto
  note s = alloc_spec[OF Suc.prems(1) a]
  with Suc.IH[OF _ m] show ?case by (auto simp: eq)
qed

lemma alloc_many_total:
  assumes "inv p" and "finite (ids p)" and "n \<le> card (ids p - used p)"
  shows "is_Ok (alloc_many n p)"
  using assms
proof (induction n arbitrary: p)
  case 0
  then show ?case by simp
next
  case (Suc n)
  from Suc.prems(3) have "ids p - used p \<noteq> {}" by (intro notI) simp
  then have "\<not> ids p \<subseteq> used p" by blast
  with Suc.prems(1) have "is_Ok (alloc p)" by (rule alloc_total)
  then obtain i p' where a: "alloc p = Ok (i, p')" by (cases "alloc p") auto
  note s = alloc_spec[OF Suc.prems(1) a]
  have "ids p' - used p' = (ids p - used p) - {i}" using s by auto
  then have "n \<le> card (ids p' - used p')" using s Suc.prems by simp
  with s Suc.prems have "is_Ok (alloc_many n p')" by (intro Suc.IH) auto
  with a show ?case by (cases "alloc_many n p'") auto
qed

lemma alloc_after_free:
  assumes "inv p" and "i \<in> ids p"
  shows "is_Ok (alloc (free i p))"
  using assms free_spec[of i p] free_inv[of p i] by (intro alloc_total) auto

lemma alloc_never_panics: "inv p \<Longrightarrow> \<not> is_Panic (alloc p)"
  by (metis alloc_full alloc_total is_Ok.simps(3) is_Panic.elims(2))

lemma alloc_avoids_reserved:
  "inv p \<Longrightarrow> alloc (reserve i p) = Ok (j, q) \<Longrightarrow> j \<noteq> i"
  using alloc_spec[OF reserve_inv] reserve_spec by blast

end

section \<open>The identifier pool\<close>

text \<open>\<^verbatim>\<open>isUsed\<close> is read through the presence of a key only, so it is a set.
  \<^verbatim>\<open>staticIps\<close> is nil until addresses are reserved.\<close>

record id_pool =
  staticIps :: "string go_map option"
  isUsed :: "int set"
  minValue :: int
  maxValue :: int
  index :: int

definition smfCount :: "string \<Rightarrow> int" where
  "smfCount env = fst (Atoi (if env = [] then ''1'' else env))"

definition firstId :: "string \<Rightarrow> int" where
  "firstId env = s64 ((smfCount env - 1) * 2500 + 1)"

definition newIDPool :: "string \<Rightarrow> int \<Rightarrow> int \<Rightarrow> id_pool" where
  "newIDPool env lo hi =
     \<lparr>staticIps = None, isUsed = {}, minValue = lo, maxValue = hi, index = firstId env\<rparr>"

text \<open>The two loops of \<^verbatim>\<open>allocate\<close>: the first identifier of an interval that is free.\<close>

function scan :: "int set \<Rightarrow> int \<Rightarrow> int \<Rightarrow> int option" where
  "scan u i hi = (if i \<le> hi then (if i \<notin> u then Some i else scan u (i + 1) hi) else None)"
  by pat_completeness auto
termination
  by (relation "measure (\<lambda>(u, i, hi). nat (hi + 1 - i))") auto

declare scan.simps [simp del]

definition allocate :: "string \<Rightarrow> id_pool \<Rightarrow> (int \<times> id_pool) result" where
  "allocate env p =
     (case scan (isUsed p) (index p) (maxValue p) of
        Some i \<Rightarrow>
          if maxValue p = 0 then Panic ''integer divide by zero''
          else (let nxt = i smod maxValue p + 1;
                    nxt' = (if nxt = 1 then firstId env else nxt)
                in Ok (i, p\<lparr>isUsed := insert i (isUsed p), index := nxt'\<rparr>))
      | None \<Rightarrow>
          if firstId env \<le> maxValue p
          then (case scan (isUsed p) (firstId env) (index p) of
                  Some i \<Rightarrow> Ok (i, p\<lparr>isUsed := insert i (isUsed p), index := i + 1\<rparr>)
                | None \<Rightarrow> Err ''no available value range to allocate id'')
          else Err ''no available value range to allocate id'')"

definition block :: "int \<Rightarrow> id_pool \<Rightarrow> id_pool" where
  "block i p = p\<lparr>isUsed := insert i (isUsed p)\<rparr>"

definition release :: "int \<Rightarrow> id_pool \<Rightarrow> id_pool" where
  "release i p = p\<lparr>isUsed := isUsed p - {i}\<rparr>"

lemma scan_Some_iff:
  "scan u i hi = Some j \<longleftrightarrow> i \<le> j \<and> j \<le> hi \<and> j \<notin> u \<and> {i..<j} \<subseteq> u"
proof (induction u i hi rule: scan.induct)
  case (1 u i hi)
  show ?case
  proof (cases "i \<le> hi \<and> i \<in> u")
    case True
    have "{i..<j} = insert i {i + 1..<j}" if "i < j" using that by auto
    moreover have "i = j \<or> i < j \<or> j < i" by auto
    ultimately show ?thesis using 1 True by (subst scan.simps) auto
  next
    case False
    then show ?thesis by (subst scan.simps) force
  qed
qed

lemma scan_None_iff: "scan u i hi = None \<longleftrightarrow> {i..hi} \<subseteq> u"
proof (induction u i hi rule: scan.induct)
  case (1 u i hi)
  show ?case
  proof (cases "i \<le> hi \<and> i \<in> u")
    case True
    have "{i..hi} = insert i {i + 1..hi}" using True by auto
    then show ?thesis using 1 True by (subst scan.simps) auto
  next
    case False
    then show ?thesis by (subst scan.simps) auto
  qed
qed

text \<open>
  The invariant of a pool of an instance whose \<^verbatim>\<open>SMF_COUNT\<close> is at least 1: the
  cursor stays between the instance's first identifier and the end of the range.
\<close>

definition pool_ids :: "string \<Rightarrow> id_pool \<Rightarrow> int set" where
  "pool_ids env p = {firstId env .. maxValue p}"

definition pool_inv :: "string \<Rightarrow> id_pool \<Rightarrow> bool" where
  "pool_inv env p \<longleftrightarrow>
     1 \<le> firstId env \<and> firstId env \<le> index p \<and> index p \<le> max (firstId env) (maxValue p)"

lemma pool_inv_new: "1 \<le> firstId env \<Longrightarrow> pool_inv env (newIDPool env lo hi)"
  by (simp add: pool_inv_def newIDPool_def)

lemma allocate_spec:
  assumes inv: "pool_inv env p" and ok: "allocate env p = Ok (i, q)"
  shows "i \<in> pool_ids env p \<and> i \<notin> isUsed p \<and> isUsed q = insert i (isUsed p) \<and>
         pool_ids env q = pool_ids env p \<and> pool_inv env q"
proof (cases "scan (isUsed p) (index p) (maxValue p)")
  case (Some j)
  then have j: "index p \<le> j" "j \<le> maxValue p" "j \<notin> isUsed p" by (simp_all add: scan_Some_iff)
  with inv have pos: "1 \<le> j" "0 < maxValue p" by (auto simp: pool_inv_def)
  have q: "i = j" "q = p\<lparr>isUsed := insert j (isUsed p),
      index := (if j mod maxValue p = 0 then firstId env else j mod maxValue p + 1)\<rparr>"
    using ok Some pos by (auto simp: allocate_def Let_def smod_nonneg)
  have "j mod maxValue p = (if j = maxValue p then 0 else j)" using j pos by auto
  then show ?thesis using q j inv by (auto simp: pool_inv_def pool_ids_def split: if_splits)
next
  case None
  with ok have f: "firstId env \<le> maxValue p" by (auto simp: allocate_def split: if_splits)
  from None ok f obtain s: "scan (isUsed p) (firstId env) (index p) = Some i"
    and q: "q = p\<lparr>isUsed := insert i (isUsed p), index := i + 1\<rparr>"
    by (auto simp: allocate_def split: option.splits)
  from None have "{index p..maxValue p} \<subseteq> isUsed p" by (simp add: scan_None_iff)
  moreover from inv f have "index p \<le> maxValue p" by (simp add: pool_inv_def)
  ultimately have "index p \<in> isUsed p" by auto
  moreover from s have i: "firstId env \<le> i" "i \<le> index p" "i \<notin> isUsed p"
    by (simp_all add: scan_Some_iff)
  ultimately have "i < index p" by (metis order_less_le)
  with i q inv f show ?thesis by (auto simp: pool_inv_def pool_ids_def)
qed

lemma allocate_cases:
  assumes inv: "pool_inv env p"
  shows "if pool_ids env p \<subseteq> isUsed p
         then allocate env p = Err ''no available value range to allocate id''
         else is_Ok (allocate env p)"
proof (cases "scan (isUsed p) (index p) (maxValue p)")
  case (Some j)
  then have j: "index p \<le> j" "j \<le> maxValue p" "j \<notin> isUsed p" by (simp_all add: scan_Some_iff)
  with inv have "j \<in> pool_ids env p" "maxValue p \<noteq> 0" by (auto simp: pool_inv_def pool_ids_def)
  with j(3) Some show ?thesis by (auto simp: allocate_def Let_def)
next
  case None
  then have hi: "{index p..maxValue p} \<subseteq> isUsed p" by (simp add: scan_None_iff)
  show ?thesis
  proof (cases "firstId env \<le> maxValue p")
    case True
    with inv have "pool_ids env p = {firstId env..index p} \<union> {index p..maxValue p}"
      by (auto simp: pool_inv_def pool_ids_def)
    with hi have "pool_ids env p \<subseteq> isUsed p \<longleftrightarrow> scan (isUsed p) (firstId env) (index p) = None"
      by (auto simp: scan_None_iff)
    with None True show ?thesis
      by (cases "scan (isUsed p) (firstId env) (index p)") (simp_all add: allocate_def)
  next
    case False
    then show ?thesis using None by (simp add: allocate_def pool_ids_def)
  qed
qed

interpretation ip_pool: identifier_pool "pool_inv env" isUsed "pool_ids env" "allocate env" release block
  for env
proof (unfold_locales, goal_cases)
  case (1 p i q)
  then show ?case by (rule allocate_spec)
next
  case (2 p)
  then show ?case using allocate_cases[of env p] by simp
next
  case (3 p)
  then show ?case using allocate_cases[of env p] by simp
qed (auto simp: release_def block_def pool_ids_def pool_inv_def)

section \<open>Addresses and offsets\<close>

text \<open>
  \<^verbatim>\<open>IPAddrWithOffset\<close> walks the address from its last byte to its first and stops as
  soon as the remaining offset is 0; \<^verbatim>\<open>add_offset\<close> is that loop on the reversed address.
\<close>

fun add_offset :: "byte list \<Rightarrow> int \<Rightarrow> int \<Rightarrow> byte list" where
  "add_offset [] carry off = []"
| "add_offset (b # bs) carry off =
     (if off = 0 then b # bs
      else (let val = uint b + carry + off smod 256
            in word_of_int (val smod 256) # add_offset bs (val sdiv 256) (off sdiv 256)))"

definition IPAddrWithOffset :: "ip \<Rightarrow> int \<Rightarrow> ip" where
  "IPAddrWithOffset a off = rev (add_offset (rev a) 0 off)"

text \<open>\<^verbatim>\<open>IPAddrOffset\<close> adds up the byte-wise differences, each taken modulo 256.\<close>

fun offset_loop :: "byte list \<Rightarrow> byte list \<Rightarrow> int \<Rightarrow> int \<Rightarrow> int" where
  "offset_loop (a # as) (b # bs) off ex =
     offset_loop as bs (s64 (off + s64 (uint (a - b) * ex))) (s64 (ex * 256))"
| "offset_loop _ _ off ex = off"

definition IPAddrOffset :: "ip \<Rightarrow> ip \<Rightarrow> int result" where
  "IPAddrOffset inp base =
     (if length inp < length base then Panic ''index out of range''
      else Ok (offset_loop (rev (take (length base) inp)) (rev base) 0 1))"

text \<open>The number a little-endian byte list stands for, and the byte-wise difference.\<close>

fun le_val :: "byte list \<Rightarrow> int" where
  "le_val [] = 0"
| "le_val (b # bs) = uint b + 256 * le_val bs"

fun diff_val :: "byte list \<Rightarrow> byte list \<Rightarrow> int" where
  "diff_val (a # as) (b # bs) = uint (a - b) + 256 * diff_val as bs"
| "diff_val _ _ = 0"

definition ip_val :: "ip \<Rightarrow> int" where
  "ip_val a = le_val (rev a)"

lemma uint_byte_bounds [simp]: "0 \<le> uint (b :: byte)" "uint (b :: byte) < 256"
  using uint_lt2p[of b] by simp_all

lemma le_val_bounds: "0 \<le> le_val bs \<and> le_val bs < 256 ^ length bs"
proof (induction bs)
  case Nil
  then show ?case by simp
next
  case (Cons b bs)
  have "uint b + 256 * le_val bs < 256 + 256 * le_val bs" by simp
  also have "\<dots> \<le> 256 * 256 ^ length bs" using Cons by simp
  finally show ?case using Cons by simp
qed

lemma diff_val_same [simp]: "diff_val bs bs = 0"
  by (induction bs) auto

lemma length_add_offset [simp]: "length (add_offset bs c off) = length bs"
  by (induction bs c off rule: add_offset.induct) (auto simp: Let_def)

lemma length_IPAddrWithOffset [simp]: "length (IPAddrWithOffset a off) = length a"
  by (simp add: IPAddrWithOffset_def)

lemma offset_loop_exact:
  "length as = length bs \<Longrightarrow> 0 \<le> off \<Longrightarrow> off < ex \<Longrightarrow> ex * 256 ^ length bs \<le> 2 ^ 56 \<Longrightarrow>
   offset_loop as bs off ex = off + ex * diff_val as bs"
proof (induction as bs off ex rule: offset_loop.induct)
  case (1 a as b bs off ex)
  have "ex \<le> ex * 256 ^ length bs" using "1.prems" mult_left_mono[of 1 "256 ^ length bs" ex] by simp
  moreover have "256 * (ex * 256 ^ length bs) \<le> 2 ^ 56" using "1.prems" by simp
  ultimately have ex: "ex * 256 \<le> 2 ^ 56" by linarith
  have "uint (a - b) * ex \<le> 255 * ex"
    using "1.prems" uint_byte_bounds(2)[of "a - b"] by (intro mult_right_mono) linarith+
  moreover define m where "m = uint (a - b) * ex"
  ultimately have u: "0 \<le> m" "m \<le> 255 * ex" using "1.prems" by auto
  have "s64 m = m" and "s64 (off + m) = off + m" and "s64 (ex * 256) = ex * 256"
    using u ex "1.prems"(2,3) by (auto intro!: s64_id)
  moreover have "0 \<le> off + m" and "off + m < ex * 256" using u "1.prems"(2,3) by auto
  ultimately have "offset_loop as bs (off + m) (ex * 256) = off + m + ex * 256 * diff_val as bs"
    using "1.IH" "1.prems" unfolding m_def[symmetric] by simp
  with \<open>s64 m = m\<close> \<open>s64 (off + m) = off + m\<close> \<open>s64 (ex * 256) = ex * 256\<close> show ?case
    unfolding offset_loop.simps diff_val.simps m_def[symmetric] by (simp add: m_def algebra_simps)
qed auto

text \<open>
  One byte of the loop when no carry arises: the low bits of the base that the offset can
  reach are zero.
\<close>

lemma aligned_byte:
  assumes al: "(uint (b :: byte) + 256 * v) mod 2 ^ h = 0" and o: "0 \<le> off" "off < 2 ^ h"
  shows "uint b + off mod 256 < 256 \<and> v mod 2 ^ (h - 8) = 0 \<and> off div 256 < 2 ^ (h - 8)"
proof (cases "8 \<le> h")
  case True
  then have p: "(2 :: int) ^ h = 256 * 2 ^ (h - 8)"
    using power_add[of "2 :: int" 8 "h - 8"] by simp
  from al have d: "256 * 2 ^ (h - 8) dvd uint b + 256 * v" by (simp add: p dvd_eq_mod_eq_0)
  then have "256 dvd uint b + 256 * v" by (rule dvd_mult_left)
  then have "256 dvd uint b" by (metis dvd_add_left_iff dvd_triv_left)
  then have b: "uint b = 0" using uint_byte_bounds[of b] by (metis zdvd_not_zless order_less_le)
  with d have "2 ^ (h - 8) dvd v" by simp
  moreover have "off div 256 < 2 ^ (h - 8)" using o p by (simp add: div_less_iff_less_mult)
  ultimately show ?thesis using b by (simp add: dvd_eq_mod_eq_0)
next
  case False
  have p: "(256 :: int) = 2 ^ h * 2 ^ (8 - h)" using False power_add[of "2 :: int" h "8 - h"] by simp
  from al have "2 ^ h dvd uint b + 256 * v" by (simp add: dvd_eq_mod_eq_0)
  moreover have "2 ^ h dvd 256 * v" by (subst p) simp
  ultimately have "2 ^ h dvd uint b" using dvd_add_left_iff by blast
  moreover have "2 ^ h dvd (256 :: int)" by (subst p) simp
  ultimately have "2 ^ h dvd 256 - uint b" by simp
  then have "2 ^ h \<le> 256 - uint b" using uint_byte_bounds(2)[of b] by (intro zdvd_imp_le) auto
  moreover have "(2 :: int) ^ h \<le> 2 ^ 7" using False by (intro power_increasing) auto
  ultimately show ?thesis using o False by auto
qed

lemma add_offset_aligned:
  "le_val bs mod 2 ^ h = 0 \<Longrightarrow> 0 \<le> off \<Longrightarrow> off < 2 ^ h \<Longrightarrow> h \<le> 8 * length bs \<Longrightarrow>
   le_val (add_offset bs 0 off) = le_val bs + off \<and> diff_val (add_offset bs 0 off) bs = off"
proof (induction bs arbitrary: h off)
  case Nil
  then show ?case by simp
next
  case (Cons b bs)
  show ?case
  proof (cases "off = 0")
    case True
    then show ?thesis by simp
  next
    case False
    note k = aligned_byte[OF Cons.prems(1)[simplified] Cons.prems(2,3)]
    have hl: "h - 8 \<le> 8 * length bs" using Cons.prems(4) by auto
    note IH = Cons.IH[of "h - 8" "off div 256"]
    have val: "0 \<le> uint b + off mod 256" "uint b + off mod 256 < 256" using k by auto
    then have eq: "add_offset (b # bs) 0 off =
        word_of_int (uint b + off mod 256) # add_offset bs 0 (off div 256)"
      using False Cons.prems(2) by (simp add: Let_def smod_nonneg sdiv_nonneg div_pos_pos_trivial)
    have "uint (word_of_int (uint b + off mod 256) :: byte) = uint b + off mod 256"
      using val by (subst uint_word_of_int) simp
    moreover have "uint (word_of_int (uint b + off mod 256) - b) = off mod 256"
      by (simp add: word_of_int_uint uint_word_of_int flip: wi_hom_add)
    ultimately show ?thesis
      unfolding eq using IH k hl Cons.prems(2) by (auto simp: pos_imp_zdiv_nonneg_iff)
  qed
qed

lemma IPAddrWithOffset_val:
  "ip_val a mod 2 ^ h = 0 \<Longrightarrow> 0 \<le> off \<Longrightarrow> off < 2 ^ h \<Longrightarrow> h \<le> 8 * length a \<Longrightarrow>
   ip_val (IPAddrWithOffset a off) = ip_val a + off"
  using add_offset_aligned[of "rev a" h off] by (simp add: ip_val_def IPAddrWithOffset_def)

lemma IPAddrOffset_WithOffset:
  assumes "ip_val a mod 2 ^ h = 0" and "0 \<le> off" and "off < 2 ^ h" and "h \<le> 32" and "length a = 4"
  shows "IPAddrOffset (IPAddrWithOffset a off) a = Ok off"
proof -
  have "diff_val (add_offset (rev a) 0 off) (rev a) = off"
    using add_offset_aligned[of "rev a" h off] assms by (simp add: ip_val_def)
  moreover have "offset_loop (add_offset (rev a) 0 off) (rev a) 0 1 =
      diff_val (add_offset (rev a) 0 off) (rev a)"
    using offset_loop_exact[of "add_offset (rev a) 0 off" "rev a" 0 1] assms by simp
  ultimately show ?thesis using assms by (simp add: IPAddrOffset_def IPAddrWithOffset_def)
qed

section \<open>The allocator\<close>

record ip_allocator =
  netIP :: ip
  netMask :: "byte list"
  g :: id_pool

function bit_loop :: "nat \<Rightarrow> int \<Rightarrow> int" where
  "bit_loop b cnt =
     (if b \<noteq> 0 then bit_loop (b div 2) (if b mod 2 \<noteq> 0 then cnt + 1 else cnt) else cnt)"
  by pat_completeness auto
termination
  by (relation "measure fst") auto

declare bit_loop.simps [simp del]

definition maskBits :: "byte list \<Rightarrow> int" where
  "maskBits m = fold (\<lambda>b cnt. bit_loop (unat b) cnt) m 0"

definition NewIPAllocator :: "string \<Rightarrow> string \<Rightarrow> ip_allocator result" where
  "NewIPAllocator env cidr =
     (case ParseCIDR cidr of
        None \<Rightarrow> Err ''invalid CIDR address''
      | Some (a, m) \<Rightarrow>
          (let n = 32 - maskBits m in
           if n < 0 then Panic ''negative shift amount''
           else Ok \<lparr>netIP = a, netMask = m, g = newIDPool env 1 (2 ^ nat n - 2)\<rparr>))"

definition staticIp :: "string \<Rightarrow> id_pool \<Rightarrow> string" where
  "staticIp imsi p =
     (case staticIps p of
        None \<Rightarrow> ''''
      | Some m \<Rightarrow> (case map_of m imsi of None \<Rightarrow> '''' | Some s \<Rightarrow> s))"

definition Allocate :: "string \<Rightarrow> string \<Rightarrow> ip_allocator \<Rightarrow> (ip \<times> ip_allocator) result" where
  "Allocate env imsi a =
     (let s = staticIp imsi (g a) in
      if s \<noteq> [] then Ok (To4 (ParseIP s), a)
      else (case allocate env (g a) of
              Err e \<Rightarrow> Err (''ip allocation failed'' @ e)
            | Panic e \<Rightarrow> Panic e
            | Ok (off, p) \<Rightarrow> Ok (IPAddrWithOffset (netIP a) off, a\<lparr>g := p\<rparr>)))"

definition BlockIp :: "ip \<Rightarrow> ip_allocator \<Rightarrow> ip_allocator result" where
  "BlockIp x a = bind_res (IPAddrOffset x (netIP a)) (\<lambda>off. Ok (a\<lparr>g := block off (g a)\<rparr>))"

fun block_static :: "string go_map \<Rightarrow> ip_allocator \<Rightarrow> ip_allocator result" where
  "block_static [] a = Ok a"
| "block_static ((imsi, s) # ips) a =
     (if To4 (ParseIP s) \<noteq> []
      then bind_res (BlockIp (To4 (ParseIP s)) a) (block_static ips)
      else block_static ips a)"

definition ReserveStaticIps :: "string go_map \<Rightarrow> ip_allocator \<Rightarrow> ip_allocator result" where
  "ReserveStaticIps ips a = block_static ips (a\<lparr>g := (g a)\<lparr>staticIps := Some ips\<rparr>\<rparr>)"

definition Release :: "string \<Rightarrow> ip \<Rightarrow> ip_allocator \<Rightarrow> ip_allocator result" where
  "Release imsi x a =
     (if staticIp imsi (g a) \<noteq> [] then Ok a
      else bind_res (IPAddrOffset x (netIP a)) (\<lambda>off. Ok (a\<lparr>g := release off (g a)\<rparr>)))"

text \<open>
  A well-formed IPv4 allocator: its network address has no host bits, its pool lies in the
  network, and the pool's invariant holds.
\<close>

definition hostBits :: "ip_allocator \<Rightarrow> nat" where
  "hostBits a = nat (32 - maskBits (netMask a))"

definition allocator_wf :: "string \<Rightarrow> ip_allocator \<Rightarrow> bool" where
  "allocator_wf env a \<longleftrightarrow>
     length (netIP a) = 4 \<and> hostBits a \<le> 32 \<and> ip_val (netIP a) mod 2 ^ hostBits a = 0 \<and>
     maxValue (g a) < 2 ^ hostBits a \<and> pool_inv env (g a)"

lemma allocator_wf_bounds:
  assumes "allocator_wf env a" and "i \<in> pool_ids env (g a)"
  shows "0 \<le> i \<and> i < 2 ^ hostBits a"
  using assms by (auto simp: allocator_wf_def pool_ids_def pool_inv_def)

lemma wf_IPAddrOffset:
  assumes "allocator_wf env a" and "i \<in> pool_ids env (g a)"
  shows "IPAddrOffset (IPAddrWithOffset (netIP a) i) (netIP a) = Ok i"
  using assms allocator_wf_bounds[OF assms] IPAddrOffset_WithOffset[of "netIP a" "hostBits a" i]
  by (simp add: allocator_wf_def)

lemma Allocate_dynamic:
  assumes wf: "allocator_wf env a" and dyn: "staticIp imsi (g a) = []"
    and ok: "Allocate env imsi a = Ok (x, b)"
  obtains i where "i \<in> pool_ids env (g a)" and "i \<notin> isUsed (g a)" and "x = IPAddrWithOffset (netIP a) i"
    and "isUsed (g b) = insert i (isUsed (g a))" and "allocator_wf env b"
    and "netIP b = netIP a" and "netMask b = netMask a" and "pool_ids env (g b) = pool_ids env (g a)"
    and "staticIps (g b) = staticIps (g a)"
proof -
  from ok dyn obtain i p where al: "allocate env (g a) = Ok (i, p)" and x: "x = IPAddrWithOffset (netIP a) i"
    and b: "b = a\<lparr>g := p\<rparr>"
    by (auto simp: Allocate_def Let_def split: result.splits)
  have inv: "pool_inv env (g a)" using wf by (simp add: allocator_wf_def)
  note s = ip_pool.alloc_spec[OF inv al]
  have "maxValue p = maxValue (g a) \<and> staticIps p = staticIps (g a)"
    using al by (auto simp: allocate_def Let_def split: option.splits if_splits)
  then show ?thesis
    using s wf x b by (intro that[of i]) (auto simp: allocator_wf_def hostBits_def pool_ids_def)
qed

lemma IPAddrWithOffset_inj:
  assumes "allocator_wf env a" and "i \<in> pool_ids env (g a)" and "j \<in> pool_ids env (g a)"
    and "IPAddrWithOffset (netIP a) i = IPAddrWithOffset (netIP a) j"
  shows "i = j"
proof -
  have "Ok i = Ok j"
    using wf_IPAddrOffset[OF assms(1,2)] wf_IPAddrOffset[OF assms(1,3)] assms(4) by metis
  then show ?thesis by simp
qed

text \<open>A run of the allocator for a list of subscribers.\<close>

fun allocate_all :: "string \<Rightarrow> string list \<Rightarrow> ip_allocator \<Rightarrow> (ip list \<times> ip_allocator) result" where
  "allocate_all env [] a = Ok ([], a)"
| "allocate_all env (imsi # rest) a =
     bind_res (Allocate env imsi a) (\<lambda>(x, b).
       bind_res (allocate_all env rest b) (\<lambda>(xs, c). Ok (x # xs, c)))"

lemma allocate_all_spec:
  assumes "allocator_wf env a" and "\<forall>imsi \<in> set imsis. staticIp imsi (g a) = []"
    and "allocate_all env imsis a = Ok (xs, b)"
  shows "\<exists>is. xs = map (IPAddrWithOffset (netIP a)) is \<and> distinct is \<and> length is = length imsis \<and>
           set is \<subseteq> pool_ids env (g a) - isUsed (g a) \<and> allocator_wf env b"
  using assms
proof (induction imsis arbitrary: a xs)
  case Nil
  then show ?case by simp
next
  case (Cons imsi imsis)
  from Cons.prems(3) obtain x c ys where al: "Allocate env imsi a = Ok (x, c)"
    and rest: "allocate_all env imsis c = Ok (ys, b)" and xs: "xs = x # ys"
    by auto
  from Cons.prems(2) have "staticIp imsi (g a) = []" by simp
  from Cons.prems(1) this al obtain i where
    i: "i \<in> pool_ids env (g a)" "i \<notin> isUsed (g a)" "x = IPAddrWithOffset (netIP a) i"
    and c: "isUsed (g c) = insert i (isUsed (g a))" "allocator_wf env c" "netIP c = netIP a"
      "netMask c = netMask a" "pool_ids env (g c) = pool_ids env (g a)"
      "staticIps (g c) = staticIps (g a)"
    by (rule Allocate_dynamic)
  have "\<forall>imsi \<in> set imsis. staticIp imsi (g c) = []"
    using Cons.prems(2) c(6) by (simp add: staticIp_def)
  from Cons.IH[OF c(2) this rest] obtain js where
    "ys = map (IPAddrWithOffset (netIP a)) js" "distinct js" "length js = length imsis"
    "set js \<subseteq> pool_ids env (g a) - isUsed (g c)" "allocator_wf env b"
    using c by auto
  then show ?case using i c xs by (intro exI[of _ "i # js"]) auto
qed

lemma BlockIp_used:
  "BlockIp x a = Ok b \<Longrightarrow>
     \<exists>i. IPAddrOffset x (netIP a) = Ok i \<and> isUsed (g b) = insert i (isUsed (g a)) \<and>
         b = a\<lparr>g := (g a)\<lparr>isUsed := insert i (isUsed (g a))\<rparr>\<rparr>"
  by (auto simp: BlockIp_def block_def)

lemma block_static_frame:
  "block_static ips a = Ok b \<Longrightarrow>
     netIP b = netIP a \<and> netMask b = netMask a \<and> staticIps (g b) = staticIps (g a) \<and>
     maxValue (g b) = maxValue (g a) \<and> index (g b) = index (g a) \<and> isUsed (g a) \<subseteq> isUsed (g b)"
  by (induction ips a rule: block_static.induct)
    (fastforce split: if_splits dest!: BlockIp_used)+

lemma block_static_blocks:
  assumes "block_static ips a = Ok b" and "(imsi, s) \<in> set ips" and "To4 (ParseIP s) \<noteq> []"
    and "IPAddrOffset (To4 (ParseIP s)) (netIP a) = Ok i"
  shows "i \<in> isUsed (g b)"
  using assms
proof (induction ips a rule: block_static.induct)
  case (1 a)
  then show ?case by simp
next
  case (2 k t ips a)
  show ?case
  proof (cases "(k, t) = (imsi, s)")
    case True
    with "2.prems" obtain c where c: "BlockIp (To4 (ParseIP s)) a = Ok c" "block_static ips c = Ok b"
      by auto
    from BlockIp_used[OF c(1)] "2.prems"(4) have "i \<in> isUsed (g c)" by auto
    with block_static_frame[OF c(2)] show ?thesis by blast
  next
    case False
    then show ?thesis using 2 by (auto split: if_splits dest!: BlockIp_used)
  qed
qed

lemma ReserveStaticIps_wf:
  assumes "allocator_wf env a" and "ReserveStaticIps ips a = Ok b"
  shows "allocator_wf env b \<and> netIP b = netIP a \<and> staticIps (g b) = Some ips"
  using assms block_static_frame[OF assms(2)[unfolded ReserveStaticIps_def]]
  by (simp add: allocator_wf_def hostBits_def pool_inv_def)

text \<open>The network of a parsed CIDR prefix has no host bits.\<close>

lemma mask_byte_dvd:
  assumes "k \<le> 8"
  shows "2 ^ (8 - k) dvd uint (b AND mask_byte k)"
proof -
  have "take_bit (8 - k) (uint (mask_byte k)) = 0"
  proof -
    have "\<forall>k \<in> {0, 1, 2, 3, 4, 5, 6, 7, 8}. take_bit (8 - k) (uint (mask_byte k)) = 0"
      by (simp add: mask_byte_def)
    moreover have "k \<in> {0, 1, 2, 3, 4, 5, 6, 7, 8}" using assms by auto
    ultimately show ?thesis by blast
  qed
  then have "take_bit (8 - k) (uint (b AND mask_byte k)) = 0" by (simp add: uint_and)
  then show ?thesis by (simp add: take_bit_eq_mod dvd_eq_mod_eq_0)
qed

lemma dvd_byte_step:
  assumes "2 ^ min h 8 dvd uint (u :: byte)" and "8 < h \<Longrightarrow> 2 ^ (h - 8) dvd v"
  shows "2 ^ h dvd uint u + 256 * v"
proof (cases "8 < h")
  case True
  then have p: "(2 :: int) ^ h = 256 * 2 ^ (h - 8)" using power_add[of "2 :: int" 8 "h - 8"] by simp
  from assms(1) True have "256 dvd uint u" by simp
  then have "uint u = 0" using uint_byte_bounds[of u] by (metis zdvd_not_zless order_less_le)
  with assms(2) True show ?thesis by (simp add: p)
next
  case False
  then have "(2 :: int) ^ h dvd 2 ^ 8" by (intro le_imp_power_dvd) simp
  then have "2 ^ h dvd 256 * v" by simp
  with assms(1) False show ?thesis by (simp add: min_def split: if_splits)
qed

lemma dvd_byte_split:
  assumes "2 ^ h dvd uint (b :: byte) + 256 * v"
  shows "2 ^ min h 8 dvd uint b" and "2 ^ (h - 8) dvd v"
proof -
  have "(2 :: int) ^ min h 8 dvd 2 ^ h" "(2 :: int) ^ min h 8 dvd 2 ^ 8" by (intro le_imp_power_dvd; simp)+
  then have "2 ^ min h 8 dvd uint b + 256 * v" "2 ^ min h 8 dvd 256 * v" using assms by (auto intro: dvd_trans)
  then show "2 ^ min h 8 dvd uint b" using dvd_add_left_iff by blast
  show "2 ^ (h - 8) dvd v" using aligned_byte[of b v h 0] assms by (simp add: dvd_eq_mod_eq_0)
qed

text \<open>The byte-wise difference between the zero address and an aligned base is aligned.\<close>

lemma diff_zero_aligned: "2 ^ h dvd le_val bs \<Longrightarrow> 2 ^ h dvd diff_val (replicate (length bs) 0) bs"
proof (induction bs arbitrary: h)
  case (Cons b bs)
  note sp = dvd_byte_split[OF Cons.prems[simplified]]
  have "uint (0 - b) = 0 \<or> uint (0 - b) = 256 - uint b" by (simp add: uint_word_ariths(4) zmod_zminus1_eq_if)
  moreover have "(2 :: int) ^ min h 8 dvd 256" using le_imp_power_dvd[of "min h 8" 8 "2 :: int"] by simp
  ultimately have "2 ^ min h 8 dvd uint (0 - b)" using sp(1) by (metis dvd_0_right dvd_diff)
  then show ?case using dvd_byte_step[of h "0 - b"] Cons.IH[OF sp(2)] by simp
qed simp

lemma IPAddrOffset_zero:
  assumes "length a = 4" and "2 ^ h dvd ip_val a"
  shows "\<exists>j. IPAddrOffset (To16 [0, 0, 0, 0]) a = Ok j \<and> 2 ^ h dvd j \<and> 0 \<le> j"
proof -
  have r: "rev (take 4 (To16 [0, 0, 0, 0])) = replicate (length (rev a)) 0"
    by (simp add: To16_def v4InV6Prefix_def assms(1) numeral_eq_Suc)
  have "offset_loop (replicate (length (rev a)) 0) (rev a) 0 1 = diff_val (replicate (length (rev a)) 0) (rev a)"
    using offset_loop_exact[of "replicate (length (rev a)) 0" "rev a" 0 1] assms(1) by simp
  moreover have "2 ^ h dvd diff_val (replicate (length (rev a)) 0) (rev a)"
    using assms(2) by (intro diff_zero_aligned) (simp add: ip_val_def)
  moreover have "0 \<le> diff_val as bs" for as bs
    by (induction as bs rule: diff_val.induct) auto
  moreover have "4 \<le> length (To16 [0, 0, 0, 0])" by (simp add: To16_def)
  ultimately show ?thesis using r assms(1) by (auto simp: IPAddrOffset_def)
qed

text \<open>Releasing the zero address frees no identifier of the pool.\<close>

lemma Release_zero:
  assumes "allocator_wf env a"
  shows "\<exists>b. Release imsi (To16 [0, 0, 0, 0]) a = Ok b \<and>
     isUsed (g b) \<inter> pool_ids env (g b) = isUsed (g a) \<inter> pool_ids env (g a) \<and> allocator_wf env b"
proof (cases "staticIp imsi (g a) = []")
  case True
  have d: "2 ^ hostBits a dvd ip_val (netIP a)" "length (netIP a) = 4"
    using assms by (simp_all add: allocator_wf_def dvd_eq_mod_eq_0)
  from IPAddrOffset_zero[OF d(2,1)] obtain j where
    j: "IPAddrOffset (To16 [0, 0, 0, 0]) (netIP a) = Ok j" "2 ^ hostBits a dvd j" "0 \<le> j" by blast
  have "j \<notin> pool_ids env (g a)"
  proof
    assume "j \<in> pool_ids env (g a)"
    moreover from this have "1 \<le> j" using assms by (auto simp: allocator_wf_def pool_inv_def pool_ids_def)
    ultimately show False using allocator_wf_bounds[OF assms, of j] zdvd_imp_le[OF j(2)] by simp
  qed
  then show ?thesis
    using True j(1) assms by (auto simp: Release_def release_def pool_ids_def allocator_wf_def hostBits_def pool_inv_def)
qed (use assms in \<open>simp add: Release_def\<close>)

lemma CIDRMask_32:
  assumes "n \<le> 32"
  shows "CIDRMask (int n) 32 = [mask_byte n, mask_byte (n - 8), mask_byte (n - 16), mask_byte (n - 24)]"
proof -
  have "[0 ..< 32 div 8] = [0, 1, 2, 3 :: nat]" by code_simp
  then show ?thesis using assms by (simp add: CIDRMask_def)
qed

lemma bit_loop_mask_byte: "bit_loop (unat (mask_byte k)) c = c + int (min k 8)"
proof (cases "k < 8")
  case True
  have "\<forall>k \<in> {0, 1, 2, 3, 4, 5, 6, 7}. bit_loop (unat (mask_byte k)) c = c + int k"
    by (simp add: mask_byte_def bit_loop.simps)
  moreover have "k \<in> {0, 1, 2, 3, 4, 5, 6, 7}" using True by auto
  ultimately show ?thesis using True by (metis less_imp_le min.absorb1)
next
  case False
  then show ?thesis by (simp add: mask_byte_def bit_loop.simps)
qed

lemma maskBits_CIDRMask: "n \<le> 32 \<Longrightarrow> maskBits (CIDRMask (int n) 32) = int n"
  by (auto simp: CIDRMask_32 maskBits_def bit_loop_mask_byte)

lemma masked_aligned:
  assumes "length a = 4" and "n \<le> 32"
  shows "ip_val (map2 (AND) a (CIDRMask (int n) 32)) mod 2 ^ (32 - n) = 0"
proof -
  obtain w x y z where a: "a = [w, x, y, z]"
    using assms(1) by (auto simp: numeral_eq_Suc length_Suc_conv)
  note m = CIDRMask_32[OF assms(2)]
  have byte: "2 ^ min (h - 8 * i) 8 dvd uint (b AND mask_byte (n - 8 * (3 - i)))"
    if "h = 32 - n" "8 * i < h" "i < 4" for i h and b :: byte
  proof -
    have "n - 8 * (3 - i) \<le> 8" and "min (h - 8 * i) 8 = 8 - (n - 8 * (3 - i))"
      using that assms(2) by auto
    then show ?thesis by (metis mask_byte_dvd)
  qed
  have "2 ^ (32 - n) dvd uint (z AND mask_byte (n - 24)) + 256 * (uint (y AND mask_byte (n - 16)) +
          256 * (uint (x AND mask_byte (n - 8)) + 256 * (uint (w AND mask_byte n) + 256 * 0)))"
    using byte[of "32 - n" 0 z] byte[of "32 - n" 1 y] byte[of "32 - n" 2 x] byte[of "32 - n" 3 w]
      assms(2)
    by (intro dvd_byte_step; cases "n = 32") auto
  then show ?thesis by (simp add: a m ip_val_def dvd_eq_mod_eq_0)
qed

lemma NewIPAllocator_wf:
  assumes new: "NewIPAllocator env cidr = Ok a" and v4: "length (netIP a) = 4"
    and first: "1 \<le> firstId env"
  shows "allocator_wf env a \<and> isUsed (g a) = {} \<and> staticIps (g a) = None"
proof -
  from new obtain m where pc: "ParseCIDR cidr = Some (netIP a, m)"
    and a: "a = \<lparr>netIP = netIP a, netMask = m, g = newIDPool env 1 (2 ^ nat (32 - maskBits m) - 2)\<rparr>"
    by (auto simp: NewIPAllocator_def Let_def split: option.splits if_splits)
  from pc obtain b n where b: "map2 (AND) b (CIDRMask (int n) (8 * length b)) = netIP a"
    "CIDRMask (int n) (8 * length b) = m" "n \<le> 8 * length b"
    by (auto simp: ParseCIDR_def Let_def split: list.splits option.splits if_splits)
  have "length (CIDRMask (int n) (8 * length b)) \<in> {0, length b}" by (simp add: CIDRMask_def)
  moreover have "length (map2 (AND) b (CIDRMask (int n) (8 * length b))) = 4" using v4 b by metis
  ultimately have l: "length b = 4" by auto
  with b have n: "maskBits m = int n" "n \<le> 32" using maskBits_CIDRMask[of n] by auto
  have al: "ip_val (netIP a) mod 2 ^ (32 - n) = 0" using b l n masked_aligned[of b n] by simp
  have nn: "nat (32 - int n) = 32 - n" by auto
  have "g a = newIDPool env 1 (2 ^ (32 - n) - 2)"
    by (subst a) (simp add: n nn)
  moreover have "hostBits a = 32 - n"
    unfolding hostBits_def by (subst a) (simp add: n nn)
  ultimately show ?thesis using v4 al first by (simp add: allocator_wf_def newIDPool_def pool_inv_def)
qed

section \<open>Properties\<close>

lemmas allocator_eval =
  Allocate_def staticIp_def allocate_def scan.simps IPAddrWithOffset_def smod_nonneg sdiv_nonneg
  Release_def release_def

text \<open>C1: dynamic addresses are pairwise distinct host addresses of the pool's network.  An
  allocator built from an IPv4 prefix by an instance with \<^verbatim>\<open>SMF_COUNT\<close> at least 1, asked
  for addresses for any list of subscribers, answers pairwise distinct IPv4 addresses, each
  at an offset between the instance's first identifier and the end of the pool.\<close>

theorem allocated_addresses_distinct:
  assumes "NewIPAllocator env cidr = Ok a" and "length (netIP a) = 4" and "1 \<le> firstId env"
    and "allocate_all env imsis a = Ok (xs, b)"
  shows "distinct xs \<and> length xs = length imsis \<and>
         (\<forall>x \<in> set xs. length x = 4 \<and> firstId env \<le> ip_val x - ip_val (netIP a) \<and>
            ip_val x - ip_val (netIP a) \<le> maxValue (g a))"
proof -
  have wf: "allocator_wf env a" and st: "staticIps (g a) = None"
    using NewIPAllocator_wf[OF assms(1-3)] by auto
  have "\<forall>imsi \<in> set imsis. staticIp imsi (g a) = []" using st by (simp add: staticIp_def)
  from allocate_all_spec[OF wf this assms(4)] obtain "is" where
    xs: "xs = map (IPAddrWithOffset (netIP a)) is" and d: "distinct is" "length is = length imsis"
    and sub: "set is \<subseteq> pool_ids env (g a)"
    by auto
  have inj: "inj_on (IPAddrWithOffset (netIP a)) (set is)"
    using sub IPAddrWithOffset_inj[OF wf] by (meson inj_onI subsetD)
  have "ip_val (IPAddrWithOffset (netIP a) i) = ip_val (netIP a) + i" if "i \<in> set is" for i
    using allocator_wf_bounds[OF wf] that sub wf
    by (intro IPAddrWithOffset_val[where h = "hostBits a"]) (auto simp: allocator_wf_def)
  then show ?thesis
    using xs d inj sub assms(2) by (auto simp: distinct_map pool_ids_def)
qed

theorem allocated_addresses_distinct_witness:
  "\<exists>a b. NewIPAllocator ''2'' ''10.1.0.0/16'' = Ok a \<and>
     allocate_all ''2'' [''imsi-1'', ''imsi-2''] a = Ok ([[10, 1, 9, 197], [10, 1, 9, 198]], b) \<and>
     distinct [[10, 1, 9, 197], [10, 1, 9, 198 :: byte]]"
proof -
  let ?p = "\<lparr>staticIps = None, isUsed = {}, minValue = 1, maxValue = 65534, index = 2501\<rparr>"
  let ?a = "\<lparr>netIP = [10, 1, 0, 0], netMask = [255, 255, 0, 0], g = ?p\<rparr>"
  let ?b = "?a\<lparr>g := ?p\<lparr>isUsed := {2502, 2501}, index := 2503\<rparr>\<rparr>"
  have f: "firstId ''2'' = 2501"
    by (simp add: firstId_def smfCount_def go_simps s64_def)
  have new: "NewIPAllocator ''2'' ''10.1.0.0/16'' = Ok ?a"
    by (simp add: NewIPAllocator_def newIDPool_def maskBits_def bit_loop.simps go_simps f
        upt_conv_Cons Let_def)
  have run: "allocate_all ''2'' [''imsi-1'', ''imsi-2''] ?a =
      Ok ([[10, 1, 9, 197], [10, 1, 9, 198]], ?b)"
    by (simp add: allocator_eval f)
  from allocated_addresses_distinct[OF new _ _ run] f
  have "distinct [[10, 1, 9, 197], [10, 1, 9, 198 :: byte]]" by simp
  with new run show ?thesis by blast
qed

text \<open>C3: allocation for a subscriber without a static address fails exactly when every
  identifier of the instance's range is in use, then with the error of the pool, and never
  panics.\<close>

theorem Allocate_fails_iff_exhausted:
  assumes "allocator_wf env a" and "staticIp imsi (g a) = []"
  shows "if pool_ids env (g a) \<subseteq> isUsed (g a)
         then Allocate env imsi a =
                Err (''ip allocation failed'' @ ''no available value range to allocate id'')
         else is_Ok (Allocate env imsi a)"
  using assms allocate_cases[of env "g a"]
  by (cases "pool_ids env (g a) \<subseteq> isUsed (g a)"; cases "allocate env (g a)")
    (auto simp: Allocate_def allocator_wf_def Let_def)

theorem Allocate_fails_iff_exhausted_witness:
  "\<exists>a b. NewIPAllocator '''' ''192.168.7.0/30'' = Ok a \<and>
     is_Ok (Allocate '''' ''imsi-9'' a) \<and>
     allocate_all '''' [''imsi-1'', ''imsi-2''] a = Ok ([[192, 168, 7, 1], [192, 168, 7, 2]], b) \<and>
     Allocate '''' ''imsi-3'' b =
       Err (''ip allocation failed'' @ ''no available value range to allocate id'')"
proof -
  let ?p = "\<lparr>staticIps = None, isUsed = {}, minValue = 1, maxValue = 2, index = 1\<rparr>"
  let ?a = "\<lparr>netIP = [192, 168, 7, 0], netMask = [255, 255, 255, 252], g = ?p\<rparr>"
  let ?b = "?a\<lparr>g := ?p\<lparr>isUsed := {2, 1}, index := 1\<rparr>\<rparr>"
  have f: "firstId '''' = 1" by (simp add: firstId_def smfCount_def go_simps s64_def)
  have new: "NewIPAllocator '''' ''192.168.7.0/30'' = Ok ?a"
    by (simp add: NewIPAllocator_def newIDPool_def maskBits_def bit_loop.simps go_simps f
        upt_conv_Cons Let_def)
  have run: "allocate_all '''' [''imsi-1'', ''imsi-2''] ?a =
      Ok ([[192, 168, 7, 1], [192, 168, 7, 2]], ?b)"
    by (simp add: allocator_eval f)
  have wf: "allocator_wf '''' ?a" using NewIPAllocator_wf[OF new] f by simp
  then have wfb: "allocator_wf '''' ?b" using f by (simp add: allocator_wf_def hostBits_def pool_inv_def)
  have "\<not> pool_ids '''' (g ?a) \<subseteq> isUsed (g ?a)" "pool_ids '''' (g ?b) \<subseteq> isUsed (g ?b)"
    using f by (auto simp: pool_ids_def)
  with Allocate_fails_iff_exhausted[OF wf, of "''imsi-9''"]
    Allocate_fails_iff_exhausted[OF wfb, of "''imsi-3''"] new run
  show ?thesis by (intro exI[of _ ?a] exI[of _ ?b]) (simp add: staticIp_def)
qed

text \<open>C2: an address reserved for some subscriber is never handed out dynamically.  After
  \<^verbatim>\<open>ReserveStaticIps\<close>, a subscriber without an entry in the map receives an address that
  differs from every reserved one.\<close>

theorem static_address_never_dynamic:
  assumes "allocator_wf env a" and "ReserveStaticIps ips a = Ok b"
    and "staticIp imsi (g b) = []" and "Allocate env imsi b = Ok (x, c)" and "(other, s) \<in> set ips"
  shows "x \<noteq> To4 (ParseIP s)"
proof
  assume x: "x = To4 (ParseIP s)"
  from ReserveStaticIps_wf[OF assms(1,2)] have wf: "allocator_wf env b" and net: "netIP b = netIP a"
    by auto
  from wf assms(3,4) obtain i where i: "i \<in> pool_ids env (g b)" "i \<notin> isUsed (g b)"
    and xi: "x = IPAddrWithOffset (netIP b) i"
    by (rule Allocate_dynamic)
  from wf xi have "length x = 4" by (simp add: allocator_wf_def)
  then have "To4 (ParseIP s) \<noteq> []" using x by auto
  moreover have "IPAddrOffset (To4 (ParseIP s)) (netIP a) = Ok i"
    using wf_IPAddrOffset[OF wf i(1)] x xi net by simp
  ultimately have "i \<in> isUsed (g b)"
    using block_static_blocks[OF assms(2)[unfolded ReserveStaticIps_def] assms(5)] by simp
  with i(2) show False by contradiction
qed

theorem static_address_never_dynamic_witness:
  "\<exists>a b c. NewIPAllocator '''' ''10.0.0.0/24'' = Ok a \<and>
     ReserveStaticIps [(''imsi-7'', ''10.0.0.1'')] a = Ok b \<and>
     Allocate '''' ''imsi-1'' b = Ok ([10, 0, 0, 2], c) \<and>
     [10, 0, 0, 2] \<noteq> To4 (ParseIP ''10.0.0.1'')"
proof -
  let ?p = "\<lparr>staticIps = None, isUsed = {}, minValue = 1, maxValue = 254, index = 1\<rparr>"
  let ?a = "\<lparr>netIP = [10, 0, 0, 0], netMask = [255, 255, 255, 0], g = ?p\<rparr>"
  let ?b = "?a\<lparr>g := ?p\<lparr>staticIps := Some [(''imsi-7'', ''10.0.0.1'')], isUsed := {1}\<rparr>\<rparr>"
  let ?c = "?b\<lparr>g := (g ?b)\<lparr>isUsed := {2, 1}, index := 3\<rparr>\<rparr>"
  have f: "firstId '''' = 1" by (simp add: firstId_def smfCount_def go_simps s64_def)
  have new: "NewIPAllocator '''' ''10.0.0.0/24'' = Ok ?a"
    by (simp add: NewIPAllocator_def newIDPool_def maskBits_def bit_loop.simps go_simps f
        upt_conv_Cons Let_def)
  have p: "To4 (ParseIP ''10.0.0.1'') = [10, 0, 0, 1]" by (simp add: go_simps)
  have res: "ReserveStaticIps [(''imsi-7'', ''10.0.0.1'')] ?a = Ok ?b"
    by (simp add: ReserveStaticIps_def BlockIp_def IPAddrOffset_def block_def p s64_def)
  have al: "Allocate '''' ''imsi-1'' ?b = Ok ([10, 0, 0, 2], ?c)"
    by (simp add: allocator_eval f)
  have wf: "allocator_wf '''' ?a" using NewIPAllocator_wf[OF new] f by simp
  from static_address_never_dynamic[OF wf res _ al, of "''imsi-7''" "''10.0.0.1''"]
  have "[10, 0, 0, 2] \<noteq> To4 (ParseIP ''10.0.0.1'')" by (simp add: staticIp_def)
  with new res al show ?thesis by blast
qed

text \<open>An allocated address is released to the pool it came from.\<close>

lemma Release_allocated:
  assumes "allocator_wf env a" and "staticIp imsi (g a) = []" and "Allocate env imsi a = Ok (x, b)"
  shows "\<exists>c. Release imsi x b = Ok c \<and> isUsed (g c) = isUsed (g a) \<and> allocator_wf env c"
proof -
  from assms obtain i where i: "i \<in> pool_ids env (g a)" "i \<notin> isUsed (g a)" "x = IPAddrWithOffset (netIP a) i"
    and b: "isUsed (g b) = insert i (isUsed (g a))" "allocator_wf env b" "netIP b = netIP a"
      "netMask b = netMask a" "pool_ids env (g b) = pool_ids env (g a)" "staticIps (g b) = staticIps (g a)"
    by (rule Allocate_dynamic)
  from wf_IPAddrOffset[OF assms(1) i(1)] have "IPAddrOffset x (netIP b) = Ok i" using i b by simp
  moreover have "staticIp imsi (g b) = []" using assms(2) b(6) by (simp add: staticIp_def)
  ultimately show ?thesis
    using b i ip_pool.free_inv[of env "g b" i]
    by (auto simp: Release_def release_def allocator_wf_def hostBits_def)
qed

text \<open>C4: releasing an address undoes its allocation: afterwards exactly the identifiers that
  were in use before the allocation are in use again.\<close>

theorem Release_undoes_Allocate:
  assumes "allocator_wf env a" and "staticIp imsi (g a) = []" and "Allocate env imsi a = Ok (x, b)"
  shows "\<exists>c. Release imsi x b = Ok c \<and> isUsed (g c) = isUsed (g a) \<and> allocator_wf env c"
  using assms by (rule Release_allocated)

theorem Release_undoes_Allocate_witness:
  "\<exists>a b c. NewIPAllocator '''' ''10.0.0.0/24'' = Ok a \<and> Allocate '''' ''imsi-1'' a = Ok ([10, 0, 0, 1], b) \<and>
     isUsed (g b) = {1} \<and> Release ''imsi-1'' [10, 0, 0, 1] b = Ok c \<and> isUsed (g c) = {}"
proof -
  let ?p = "\<lparr>staticIps = None, isUsed = {}, minValue = 1, maxValue = 254, index = 1\<rparr>"
  let ?a = "\<lparr>netIP = [10, 0, 0, 0], netMask = [255, 255, 255, 0], g = ?p\<rparr>"
  let ?b = "?a\<lparr>g := ?p\<lparr>isUsed := {1}, index := 2\<rparr>\<rparr>"
  have f: "firstId '''' = 1" by (simp add: firstId_def smfCount_def go_simps s64_def)
  have new: "NewIPAllocator '''' ''10.0.0.0/24'' = Ok ?a"
    by (simp add: NewIPAllocator_def newIDPool_def maskBits_def bit_loop.simps go_simps f
        upt_conv_Cons Let_def)
  have al: "Allocate '''' ''imsi-1'' ?a = Ok ([10, 0, 0, 1], ?b)" by (simp add: allocator_eval f)
  have wf: "allocator_wf '''' ?a" using NewIPAllocator_wf[OF new] f by simp
  from Release_undoes_Allocate[OF wf _ al] obtain c where
    "Release ''imsi-1'' [10, 0, 0, 1] ?b = Ok c" "isUsed (g c) = {}"
    by (auto simp: staticIp_def)
  with new al show ?thesis by (intro exI[of _ ?a] exI[of _ ?b] exI[of _ c]) simp
qed

text \<open>\<^verbatim>\<open>IPAddrWithOffset\<close> loses the carry out of the last byte it visits: the loop
  stops when the remaining offset is 0 although a carry is pending.  Adding 10 to 10.0.0.250
  gives 10.0.0.4 instead of 10.0.1.4.\<close>

lemma IPAddrWithOffset_drops_carry:
  "IPAddrWithOffset [10, 0, 0, 250] 10 = [10, 0, 0, 4] \<and>
   ip_val (IPAddrWithOffset [10, 0, 0, 250] 10) \<noteq> ip_val [10, 0, 0, 250] + 10"
  by (simp add: IPAddrWithOffset_def ip_val_def smod_nonneg sdiv_nonneg)

text \<open>An \<^verbatim>\<open>SMF_COUNT\<close> that is not a number counts as 0: the error of
  \<^verbatim>\<open>strconv.Atoi\<close> is logged only, the cursor starts at -2499, and the first address of
  the pool 10.0.0.0/24 is 10.0.247.61, outside of the network.\<close>

lemma malformed_SMF_COUNT_leaves_network:
  "\<exists>a b. NewIPAllocator ''one'' ''10.0.0.0/24'' = Ok a \<and> index (g a) = - 2499 \<and>
     Allocate ''one'' ''imsi-1'' a = Ok ([10, 0, 247, 61], b)"
proof -
  let ?p = "\<lparr>staticIps = None, isUsed = {}, minValue = 1, maxValue = 254, index = - 2499\<rparr>"
  let ?a = "\<lparr>netIP = [10, 0, 0, 0], netMask = [255, 255, 255, 0], g = ?p\<rparr>"
  have f: "firstId ''one'' = - 2499" by (simp add: firstId_def smfCount_def go_simps s64_def)
  have "NewIPAllocator ''one'' ''10.0.0.0/24'' = Ok ?a"
    by (simp add: NewIPAllocator_def newIDPool_def maskBits_def bit_loop.simps go_simps f
        upt_conv_Cons Let_def)
  moreover have "IPAddrWithOffset [10, 0, 0, 0] (- 2499) = [10, 0, 247, 61]"
    by (simp add: IPAddrWithOffset_def signed_modulo_int_def signed_divide_int_def)
  ultimately show ?thesis
    by (intro exI[of _ ?a] exI) (simp add: Allocate_def staticIp_def allocate_def scan.simps Let_def)
qed

end
