(* ===== verification/Bit_Rate.thy ===== *)
theory Bit_Rate
  imports Smf_Prelude
begin

text \<open>
  Bit rates written as text, \<^verbatim>\<open>src/util/qos_convert.go\<close>: the conversion of a rate
  with its unit to kbit/s that the QERs carry, and the normalisation applied before it.
\<close>

text \<open>\<^verbatim>\<open>strings.Split\<close> always answers at least one word; reading the second panics
  when there is no space.  An unknown unit leaves the result 0.\<close>

definition BitRateTokbps :: "string \<Rightarrow> u64 result" where
  "BitRateTokbps bitrate =
     (let s = Split (CHR '' '') bitrate; (digit, err) = Atoi (hd s) in
      if err then Ok 0
      else bind_res (nth_res s 1) (\<lambda>u.
        Ok (if u = ''bps'' then word_of_int (digit sdiv 1000)
            else if u = ''Kbps'' then word_of_int (digit * 1)
            else if u = ''Mbps'' then word_of_int (digit * 1000)
            else if u = ''Gbps'' then word_of_int (digit * 1000000)
            else if u = ''Tbps'' then word_of_int (digit * 1000000000)
            else 0)))"

definition NormalizeBitRate :: "string \<Rightarrow> string" where
  "NormalizeBitRate br =
     (let parts = Split (CHR ''.'') br in
      TrimSpace (if 1 < length parts then hd parts @ '' Kbps'' else br))"

text \<open>The rates of the units, in bit/s.\<close>

definition unit_bps :: "string \<Rightarrow> nat option" where
  "unit_bps = map_of [(''bps'', 1), (''Kbps'', 10 ^ 3), (''Mbps'', 10 ^ 6), (''Gbps'', 10 ^ 9), (''Tbps'', 10 ^ 12)]"

lemma digits_val_chars: "digits_val acc s = Some n \<Longrightarrow> c \<in> set s \<Longrightarrow> digit_val c \<noteq> None"
  by (induction acc s rule: digits_val.induct) (auto split: option.splits)

lemma parse_nat_chars: "parse_nat s = Some n \<Longrightarrow> c \<in> set s \<Longrightarrow> digit_val c \<noteq> None"
  by (auto simp: parse_nat_def split: if_splits dest: digits_val_chars)

lemma not_digit [simp]:
  "digit_val (CHR '' '') = None" "digit_val (CHR ''.'') = None" "digit_val (CHR ''-'') = None"
  "digit_val (CHR ''+'') = None" "digit_val (CHR ''/'') = None"
  by (simp_all add: digit_val_def)

lemma Atoi_digits:
  assumes "parse_nat ds = Some n" and "n < 2 ^ 63"
  shows "Atoi ds = (int n, False)"
proof (cases ds)
  case Nil
  then show ?thesis using assms by (simp add: parse_nat_def)
next
  case (Cons c cs)
  with assms parse_nat_chars[of ds n c] have "c \<noteq> CHR ''-''" "c \<noteq> CHR ''+''" by auto
  then show ?thesis using Cons assms by (simp add: Atoi_def atoi_signed_def)
qed

lemma Split_digits:
  "parse_nat ds = Some n \<Longrightarrow> digit_val c = None \<Longrightarrow> Split c (ds @ c # t) = ds # Split c t"
  unfolding Split_def by (rule split_where_append) (auto dest: parse_nat_chars)

text \<open>A non-negative decimal rate with a known unit converts to its value in kbit/s,
  rounded down, wherever that value fits the 64-bit result.\<close>

lemma BitRateTokbps_value:
  assumes "parse_nat ds = Some n" and "unit_bps u = Some b" and "n * b < 2 ^ 63"
  shows "BitRateTokbps (ds @ '' '' @ u) = Ok (of_nat (n * b div 1000))"
proof -
  have u: "CHR '' '' \<notin> set u"
    and b: "(u, b) \<in> {(''bps'', 1), (''Kbps'', 10 ^ 3), (''Mbps'', 10 ^ 6), (''Gbps'', 10 ^ 9), (''Tbps'', 10 ^ 12)}"
    using assms(2) by (auto simp: unit_bps_def split: if_splits)
  then have "n < 2 ^ 63" using assms(3) by auto
  with assms(1) have "Atoi ds = (int n, False)" by (rule Atoi_digits)
  moreover have "Split (CHR '' '') (ds @ CHR '' '' # u) = [ds, u]"
    using Split_digits[OF assms(1), of "CHR '' ''" u] Split_single[OF u] by simp
  ultimately have r: "BitRateTokbps (ds @ '' '' @ u) =
      Ok (if u = ''bps'' then word_of_int (int n sdiv 1000) else of_nat (n * (b div 1000)))"
    using b by (auto simp: BitRateTokbps_def nth_res_def)
  have "int n sdiv 1000 = int (n div 1000)" by (simp add: sdiv_nonneg zdiv_int)
  moreover have "n * b div 1000 = n * (b div 1000)" if "u \<noteq> ''bps''"
  proof -
    have "1000 dvd b" using b that by auto
    then show ?thesis by (simp add: div_mult_swap)
  qed
  moreover have "u = ''bps'' \<Longrightarrow> b = 1" using b by auto
  ultimately show ?thesis unfolding r by (cases "u = ''bps''") simp_all
qed

theorem BitRateTokbps_value_witness:
  "parse_nat ''250'' = Some 250 \<and> BitRateTokbps ''250 Mbps'' = Ok 250000"
proof -
  have d: "parse_nat ''250'' = Some 250" by (simp add: go_simps)
  moreover have u: "unit_bps ''Mbps'' = Some (10 ^ 6)" by (simp add: unit_bps_def)
  ultimately show ?thesis using BitRateTokbps_value[OF d u] by simp
qed

text \<open>Normalisation replaces the unit by kbit/s whenever the rate has a fraction:
  \<^verbatim>\<open>128.000000 Kbps\<close> becomes \<^verbatim>\<open>128 Kbps\<close> as its comment says, and
  \<^verbatim>\<open>100.5 Mbps\<close> becomes \<^verbatim>\<open>100 Kbps\<close>, a thousandth of the rate.\<close>

lemma NormalizeBitRate_loses_unit:
  "NormalizeBitRate ''128.000000 Kbps'' = ''128 Kbps'' \<and>
   NormalizeBitRate ''100.5 Mbps'' = ''100 Kbps'' \<and>
   BitRateTokbps (NormalizeBitRate ''100.5 Mbps'') = Ok 100 \<and>
   BitRateTokbps (NormalizeBitRate ''100 Mbps'') = Ok 100000"
  by (simp add: NormalizeBitRate_def BitRateTokbps_def go_simps nth_res_def)

end
