(* ===== verification/Qos_Policy.thy ===== *)
theory Qos_Policy
  imports Smf_Prelude
begin

text \<open>
  The policy data of a session, \<^verbatim>\<open>src/qos\<close>: what the PCF decides
  (\<^verbatim>\<open>models.SmPolicyDecision\<close>), what the session keeps (\<^verbatim>\<open>SmCtxtPolicyData\<close>),
  the difference between the two (\<^verbatim>\<open>BuildSmPolicyUpdate\<close>) and its commit
  (\<^verbatim>\<open>CommitSmPolicyDecision\<close>).  The records of the generated OpenAPI models hold the
  fields that the sources read.  PCC rules, QoS data and traffic control data share one
  contract, the locale \<^verbatim>\<open>policy_store\<close>, which is interpreted three times.
\<close>

section \<open>Policy data\<close>

datatype flow_direction = UPLINK | DOWNLINK | BIDIRECTIONAL | UNSPECIFIED

record flow_information =
  FlowDescription :: string
  PackFiltId :: string
  PacketFilterUsage :: bool
  FlowDirection :: flow_direction
  TosTrafficClass :: string
  FlowLabel :: string
  Spi :: string

record pcc_rule =
  PccRuleId :: string
  AppId :: string
  ContVer :: int
  Precedence :: int
  AfSigProtocol :: string
  AppReloc :: bool
  RefCondData :: string
  RefQosData :: "string list"
  RefTcData :: "string list"
  RefChgData :: "string list"
  RefUmData :: "string list"
  FlowInfos :: "flow_information list"

record arp =
  ArpPriorityLevel :: int
  PreemptCap :: string
  PreemptVuln :: string

record qos_data =
  QosId :: string
  Var5qi :: int
  MaxbrUl :: string
  MaxbrDl :: string
  GbrUl :: string
  GbrDl :: string
  Qnc :: bool
  PriorityLevel :: int
  AverWindow :: int
  MaxDataBurstVol :: int
  ReflectiveQos :: bool
  SharingKeyDl :: string
  SharingKeyUl :: string
  MaxPacketLossRateDl :: int
  MaxPacketLossRateUl :: int
  DefQosFlowIndication :: bool
  Arp :: "arp option"

record ambr =
  Uplink :: string
  Downlink :: string

record auth_def_qos =
  AdqVar5qi :: int
  AdqPriorityLevel :: int
  AdqArp :: "arp option"

record session_rule =
  SessRuleId :: string
  AuthSessAmbr :: "ambr option"
  AuthDefQos :: "auth_def_qos option"

record redirect_info =
  RedirectEnabled :: bool
  RedirectAddressType :: string
  RedirectServerAddress :: string

record route_info =
  RouteIpv4Addr :: string
  RouteIpv6Addr :: string
  PortNumber :: int

record route_to_location =
  Dnai :: string
  RouteProfId :: string
  RouteInfo :: "route_info option"

record up_path_chg_event =
  NotificationUri :: string
  NotifCorreId :: string
  DnaiChgType :: string

record tc_data =
  TcId :: string
  FlowStatus :: string
  MuteNotif :: bool
  TrafficSteeringPolIdDl :: string
  TrafficSteeringPolIdUl :: string
  RedirectInfo :: "redirect_info option"
  RouteToLocs :: "route_to_location list"
  UpPathChgEvent :: "up_path_chg_event option"

text \<open>A decision maps names to pointers; a nil pointer asks for the deletion of the name.\<close>

record sm_policy_decision =
  PccRules :: "pcc_rule option go_map"
  SessRules :: "session_rule option go_map"
  QosDecs :: "qos_data option go_map"
  TraffContDecs :: "tc_data option go_map"

text \<open>The \<^verbatim>\<open>add, mod, del\<close> maps of the update structures.\<close>

record 'v change =
  add :: "'v go_map"
  modi :: "'v go_map"
  del :: "'v option go_map"

type_synonym PccRulesUpdate = "pcc_rule change"
type_synonym QosFlowsUpdate = "qos_data change"
type_synonym TrafficControlUpdate = "tc_data change"

record SessRulesUpdate = "session_rule change" +
  ActiveSessRule :: "session_rule option"
  activeRuleName :: string

definition no_change :: "'v change" where
  "no_change = \<lparr>add = [], modi = [], del = []\<rparr>"

section \<open>Comparing two versions of a rule\<close>

fun stringSlicesEqual_from :: "string list \<Rightarrow> string list \<Rightarrow> bool" where
  "stringSlicesEqual_from (a # as) (b # bs) = (if a \<noteq> b then False else stringSlicesEqual_from as bs)"
| "stringSlicesEqual_from _ _ = True"

definition stringSlicesEqual :: "string list \<Rightarrow> string list \<Rightarrow> bool" where
  "stringSlicesEqual a b = (if length a \<noteq> length b then False else stringSlicesEqual_from a b)"

fun flows_differ :: "flow_information list \<Rightarrow> flow_information list \<Rightarrow> bool" where
  "flows_differ (a # as) (b # bs) = (if a \<noteq> b then True else flows_differ as bs)"
| "flows_differ _ _ = False"

definition GetPccRuleChanges :: "pcc_rule option \<Rightarrow> pcc_rule option \<Rightarrow> bool" where
  "GetPccRuleChanges s d = (case (s, d) of
     (Some s, Some d) \<Rightarrow>
       if PccRuleId s \<noteq> PccRuleId d \<or> AppId s \<noteq> AppId d \<or> ContVer s \<noteq> ContVer d \<or>
          Precedence s \<noteq> Precedence d \<or> AfSigProtocol s \<noteq> AfSigProtocol d \<or>
          AppReloc s \<noteq> AppReloc d \<or> RefCondData s \<noteq> RefCondData d then True
       else if \<not> stringSlicesEqual (RefQosData s) (RefQosData d) \<or>
          \<not> stringSlicesEqual (RefTcData s) (RefTcData d) \<or>
          \<not> stringSlicesEqual (RefChgData s) (RefChgData d) \<or>
          \<not> stringSlicesEqual (RefUmData s) (RefUmData d) then True
       else if length (FlowInfos s) \<noteq> length (FlowInfos d) then True
       else flows_differ (FlowInfos s) (FlowInfos d)
   | _ \<Rightarrow> True)"

definition GetQosDataChanges :: "qos_data option \<Rightarrow> qos_data option \<Rightarrow> bool" where
  "GetQosDataChanges q1 q2 = (case (q1, q2) of
     (Some a, Some b) \<Rightarrow>
       if QosId a \<noteq> QosId b \<or> Var5qi a \<noteq> Var5qi b \<or> MaxbrUl a \<noteq> MaxbrUl b \<or> MaxbrDl a \<noteq> MaxbrDl b \<or>
          GbrUl a \<noteq> GbrUl b \<or> GbrDl a \<noteq> GbrDl b \<or> Qnc a \<noteq> Qnc b \<or>
          PriorityLevel a \<noteq> PriorityLevel b \<or> AverWindow a \<noteq> AverWindow b \<or>
          MaxDataBurstVol a \<noteq> MaxDataBurstVol b \<or> ReflectiveQos a \<noteq> ReflectiveQos b \<or>
          SharingKeyDl a \<noteq> SharingKeyDl b \<or> SharingKeyUl a \<noteq> SharingKeyUl b \<or>
          MaxPacketLossRateDl a \<noteq> MaxPacketLossRateDl b \<or>
          MaxPacketLossRateUl a \<noteq> MaxPacketLossRateUl b \<or>
          DefQosFlowIndication a \<noteq> DefQosFlowIndication b then True
       else if (Arp a = None) \<noteq> (Arp b = None) then True
       else (case (Arp a, Arp b) of
           (Some x, Some y) \<Rightarrow>
             ArpPriorityLevel x \<noteq> ArpPriorityLevel y \<or> PreemptCap x \<noteq> PreemptCap y \<or>
             PreemptVuln x \<noteq> PreemptVuln y
         | _ \<Rightarrow> False)
   | _ \<Rightarrow> True)"

definition compareRedirectInfo :: "redirect_info option \<Rightarrow> redirect_info option \<Rightarrow> bool" where
  "compareRedirectInfo a b = (case (a, b) of
     (None, None) \<Rightarrow> True
   | (Some x, Some y) \<Rightarrow> RedirectEnabled x = RedirectEnabled y \<and>
       RedirectAddressType x = RedirectAddressType y \<and>
       RedirectServerAddress x = RedirectServerAddress y
   | _ \<Rightarrow> False)"

definition compareRouteInformation :: "route_info option \<Rightarrow> route_info option \<Rightarrow> bool" where
  "compareRouteInformation a b = (case (a, b) of
     (None, None) \<Rightarrow> True
   | (Some x, Some y) \<Rightarrow> RouteIpv4Addr x = RouteIpv4Addr y \<and> RouteIpv6Addr x = RouteIpv6Addr y \<and>
       PortNumber x = PortNumber y
   | _ \<Rightarrow> False)"

fun routes_equal :: "route_to_location list \<Rightarrow> route_to_location list \<Rightarrow> bool" where
  "routes_equal (a # as) (b # bs) =
     (if Dnai a \<noteq> Dnai b \<or> RouteProfId a \<noteq> RouteProfId b \<or>
         \<not> compareRouteInformation (RouteInfo a) (RouteInfo b)
      then False else routes_equal as bs)"
| "routes_equal _ _ = True"

definition compareRouteToLocations :: "route_to_location list \<Rightarrow> route_to_location list \<Rightarrow> bool" where
  "compareRouteToLocations a b = (if length a \<noteq> length b then False else routes_equal a b)"

definition compareUpPathChgEvent :: "up_path_chg_event option \<Rightarrow> up_path_chg_event option \<Rightarrow> bool" where
  "compareUpPathChgEvent a b = (case (a, b) of
     (None, None) \<Rightarrow> True
   | (Some x, Some y) \<Rightarrow> NotificationUri x = NotificationUri y \<and> NotifCorreId x = NotifCorreId y \<and>
       DnaiChgType x = DnaiChgType y
   | _ \<Rightarrow> False)"

definition GetTCDataChanges :: "tc_data option \<Rightarrow> tc_data option \<Rightarrow> bool" where
  "GetTCDataChanges p c = (case (p, c) of
     (Some a, Some b) \<Rightarrow>
       if TcId a \<noteq> TcId b \<or> FlowStatus a \<noteq> FlowStatus b \<or> MuteNotif a \<noteq> MuteNotif b \<or>
          TrafficSteeringPolIdDl a \<noteq> TrafficSteeringPolIdDl b \<or>
          TrafficSteeringPolIdUl a \<noteq> TrafficSteeringPolIdUl b then True
       else if \<not> compareRedirectInfo (RedirectInfo a) (RedirectInfo b) then True
       else if \<not> compareRouteToLocations (RouteToLocs a) (RouteToLocs b) then True
       else if \<not> compareUpPathChgEvent (UpPathChgEvent a) (UpPathChgEvent b) then True
       else False
   | _ \<Rightarrow> True)"

lemma stringSlicesEqual_iff: "stringSlicesEqual a b \<longleftrightarrow> a = b"
proof -
  have "length a = length b \<Longrightarrow> stringSlicesEqual_from a b \<longleftrightarrow> a = b"
    by (induction a b rule: stringSlicesEqual_from.induct) auto
  then show ?thesis by (auto simp: stringSlicesEqual_def)
qed

lemma flows_differ_iff: "length a = length b \<Longrightarrow> flows_differ a b \<longleftrightarrow> a \<noteq> b"
  by (induction a b rule: flows_differ.induct) auto

lemma compareRedirectInfo_iff: "compareRedirectInfo a b \<longleftrightarrow> a = b"
  by (auto simp: compareRedirectInfo_def split: option.splits)

lemma compareRouteInformation_iff: "compareRouteInformation a b \<longleftrightarrow> a = b"
  by (auto simp: compareRouteInformation_def split: option.splits)

lemma compareUpPathChgEvent_iff: "compareUpPathChgEvent a b \<longleftrightarrow> a = b"
  by (auto simp: compareUpPathChgEvent_def split: option.splits)

lemma compareRouteToLocations_iff: "compareRouteToLocations a b \<longleftrightarrow> a = b"
proof -
  have "length a = length b \<Longrightarrow> routes_equal a b \<longleftrightarrow> a = b"
    by (induction a b rule: routes_equal.induct) (auto simp: compareRouteInformation_iff)
  then show ?thesis by (auto simp: compareRouteToLocations_def)
qed

lemma GetPccRuleChanges_iff: "GetPccRuleChanges (Some s) (Some d) \<longleftrightarrow> s \<noteq> d"
  by (cases s; cases d) (auto simp: GetPccRuleChanges_def stringSlicesEqual_iff flows_differ_iff)

lemma GetQosDataChanges_iff: "GetQosDataChanges (Some a) (Some b) \<longleftrightarrow> a \<noteq> b"
  by (cases a; cases b) (auto simp: GetQosDataChanges_def split: option.splits)

lemma GetTCDataChanges_iff: "GetTCDataChanges (Some a) (Some b) \<longleftrightarrow> a \<noteq> b"
  by (cases a; cases b) (auto simp: GetTCDataChanges_def compareRedirectInfo_iff
      compareRouteToLocations_iff compareUpPathChgEvent_iff)

lemmas changes_iff = GetPccRuleChanges_iff GetQosDataChanges_iff GetTCDataChanges_iff

section \<open>The difference between a decision and the session's data\<close>

text \<open>
  One pass over the entries of the decision sorts every name into \<^verbatim>\<open>del\<close> (nil),
  \<^verbatim>\<open>add\<close> (unknown to the session) or \<^verbatim>\<open>mod\<close> (known, and changed).
\<close>

fun diff_entry ::
  "('v option \<Rightarrow> 'v option \<Rightarrow> bool) \<Rightarrow> 'v go_map \<Rightarrow> string \<times> 'v option \<Rightarrow> 'v change \<Rightarrow> 'v change" where
  "diff_entry changed ctxt (name, None) c = c\<lparr>del := AList.update name None (del c)\<rparr>"
| "diff_entry changed ctxt (name, Some r) c =
     (case map_of ctxt name of
        None \<Rightarrow> c\<lparr>add := AList.update name r (add c)\<rparr>
      | Some old \<Rightarrow>
          if changed (Some r) (Some old) then c\<lparr>modi := AList.update name r (modi c)\<rparr> else c)"

definition GetPccRulesUpdate :: "pcc_rule option go_map \<Rightarrow> pcc_rule go_map \<Rightarrow> PccRulesUpdate option" where
  "GetPccRulesUpdate pcf ctxt =
     (if length pcf = 0 then None else Some (fold (diff_entry GetPccRuleChanges ctxt) pcf no_change))"

definition GetQosFlowDescUpdate :: "qos_data option go_map \<Rightarrow> qos_data go_map \<Rightarrow> QosFlowsUpdate option" where
  "GetQosFlowDescUpdate pcf ctxt =
     (if length pcf = 0 then None else Some (fold (diff_entry GetQosDataChanges ctxt) pcf no_change))"

definition GetTrafficControlUpdate :: "tc_data option go_map \<Rightarrow> tc_data go_map \<Rightarrow> TrafficControlUpdate option" where
  "GetTrafficControlUpdate pcf ctxt =
     (if length pcf = 0 then None else Some (fold (diff_entry GetTCDataChanges ctxt) pcf no_change))"

text \<open>Session rules are not compared: every known rule counts as modified, and the last rule
  added becomes the active one.\<close>

fun sess_entry ::
  "session_rule go_map \<Rightarrow> string \<times> session_rule option \<Rightarrow> SessRulesUpdate \<Rightarrow> SessRulesUpdate" where
  "sess_entry ctxt (name, None) c = c\<lparr>del := AList.update name None (del c)\<rparr>"
| "sess_entry ctxt (name, Some r) c =
     (case map_of ctxt name of
        None \<Rightarrow> c\<lparr>add := AList.update name r (add c), ActiveSessRule := Some r, activeRuleName := name\<rparr>
      | Some _ \<Rightarrow> c\<lparr>modi := AList.update name r (modi c)\<rparr>)"

definition GetSessionRulesUpdate ::
  "session_rule option go_map \<Rightarrow> session_rule go_map \<Rightarrow> SessRulesUpdate option" where
  "GetSessionRulesUpdate pcf ctxt =
     (if length pcf = 0 then None
      else Some (fold (sess_entry ctxt) pcf
        \<lparr>add = [], modi = [], del = [], ActiveSessRule = None, activeRuleName = ''''\<rparr>))"

section \<open>Committing a difference\<close>

text \<open>The condition data of a decision is never looked at (\<^verbatim>\<open>GetConditionDataUpdate\<close>
  and its commit are empty), and charging data is initialised only.\<close>

record sm_ctxt_policy_data =
  SmCtxtPccRules :: "pcc_rule go_map"
  SmCtxtQosData :: "qos_data go_map"
  SmCtxtTCData :: "tc_data go_map"
  SessionRules :: "session_rule go_map"
  ActiveRule :: "session_rule option"
  ActiveRuleName :: string

definition Initialize :: "sm_ctxt_policy_data \<Rightarrow> sm_ctxt_policy_data" where
  "Initialize d = d\<lparr>SessionRules := [], SmCtxtPccRules := [], SmCtxtQosData := [], SmCtxtTCData := []\<rparr>"

definition commit_rules :: "('v, 'z) change_scheme \<Rightarrow> 'v go_map \<Rightarrow> 'v go_map" where
  "commit_rules u ctxt =
     (let ctxt1 = (if 0 < length (add u) then put_all (add u) ctxt else ctxt)
      in if 0 < length (del u) then delete_all (del u) ctxt1 else ctxt1)"

definition CommitPccRulesUpdate :: "sm_ctxt_policy_data \<Rightarrow> PccRulesUpdate \<Rightarrow> sm_ctxt_policy_data" where
  "CommitPccRulesUpdate d u = d\<lparr>SmCtxtPccRules := commit_rules u (SmCtxtPccRules d)\<rparr>"

definition CommitQosFlowDescUpdate :: "sm_ctxt_policy_data \<Rightarrow> QosFlowsUpdate \<Rightarrow> sm_ctxt_policy_data" where
  "CommitQosFlowDescUpdate d u = d\<lparr>SmCtxtQosData := commit_rules u (SmCtxtQosData d)\<rparr>"

definition CommitTrafficControlUpdate :: "sm_ctxt_policy_data \<Rightarrow> TrafficControlUpdate \<Rightarrow> sm_ctxt_policy_data" where
  "CommitTrafficControlUpdate d u = d\<lparr>SmCtxtTCData := commit_rules u (SmCtxtTCData d)\<rparr>"

definition CommitSessionRulesUpdate :: "sm_ctxt_policy_data \<Rightarrow> SessRulesUpdate \<Rightarrow> sm_ctxt_policy_data" where
  "CommitSessionRulesUpdate d u =
     d\<lparr>SessionRules := commit_rules u (SessionRules d),
       ActiveRule := ActiveSessRule u, ActiveRuleName := activeRuleName u\<rparr>"

text \<open>The update keeps a pointer to the decision it was computed from.\<close>

record policy_update =
  SessRuleUpdate :: "SessRulesUpdate option"
  PccRuleUpdate :: "PccRulesUpdate option"
  QosFlowUpdate :: "QosFlowsUpdate option"
  TCUpdate :: "TrafficControlUpdate option"
  SmPolicyDecision :: "sm_policy_decision option"

definition BuildSmPolicyUpdate :: "sm_ctxt_policy_data \<Rightarrow> sm_policy_decision \<Rightarrow> policy_update" where
  "BuildSmPolicyUpdate d dec =
     \<lparr>SessRuleUpdate = GetSessionRulesUpdate (SessRules dec) (SessionRules d),
      PccRuleUpdate = GetPccRulesUpdate (PccRules dec) (SmCtxtPccRules d),
      QosFlowUpdate = GetQosFlowDescUpdate (QosDecs dec) (SmCtxtQosData d),
      TCUpdate = GetTrafficControlUpdate (TraffContDecs dec) (SmCtxtTCData d),
      SmPolicyDecision = Some dec\<rparr>"

fun when_some :: "('s \<Rightarrow> 'u \<Rightarrow> 's) \<Rightarrow> 'u option \<Rightarrow> 's \<Rightarrow> 's" where
  "when_some f None d = d"
| "when_some f (Some u) d = f d u"

definition CommitSmPolicyDecision :: "sm_ctxt_policy_data \<Rightarrow> policy_update \<Rightarrow> sm_ctxt_policy_data" where
  "CommitSmPolicyDecision d u =
     (let d1 = when_some CommitQosFlowDescUpdate (QosFlowUpdate u) d;
          d2 = when_some CommitPccRulesUpdate (PccRuleUpdate u) d1;
          d3 = when_some CommitSessionRulesUpdate (SessRuleUpdate u) d2
      in when_some CommitTrafficControlUpdate (TCUpdate u) d3)"

section \<open>The contract of a policy store\<close>

text \<open>
  What the three stores have in common.  \<^verbatim>\<open>diff\<close> answers nothing for an empty decision
  and otherwise three maps; \<^verbatim>\<open>commit\<close> writes \<^verbatim>\<open>add\<close> and removes \<^verbatim>\<open>del\<close>.
\<close>

locale policy_store =
  fixes diff :: "'v option go_map \<Rightarrow> 'v go_map \<Rightarrow> 'v change option"
    and commit :: "'v change \<Rightarrow> 'v go_map \<Rightarrow> 'v go_map"
  assumes diff_None: "diff pcf ctxt = None \<longleftrightarrow> pcf = []"
    and diff_add: "distinct (map fst pcf) \<Longrightarrow> diff pcf ctxt = Some c \<Longrightarrow>
        map_of (add c) k = (if map_of ctxt k = None then Option.bind (map_of pcf k) id else None)"
    and diff_mod: "distinct (map fst pcf) \<Longrightarrow> diff pcf ctxt = Some c \<Longrightarrow>
        map_of (modi c) k = (case (map_of pcf k, map_of ctxt k) of
            (Some (Some r), Some old) \<Rightarrow> if r \<noteq> old then Some r else None | _ \<Rightarrow> None)"
    and diff_del: "distinct (map fst pcf) \<Longrightarrow> diff pcf ctxt = Some c \<Longrightarrow>
        k \<in> fst ` set (del c) \<longleftrightarrow> map_of pcf k = Some None"
    and diff_distinct: "diff pcf ctxt = Some c \<Longrightarrow> distinct (map fst (add c))"
    and commit_lookup: "distinct (map fst (add c)) \<Longrightarrow>
        map_of (commit c ctxt) k =
          (if k \<in> fst ` set (del c) then None
           else case map_of (add c) k of None \<Rightarrow> map_of ctxt k | Some r \<Rightarrow> Some r)"
begin

lemma committed:
  assumes "distinct (map fst pcf)" and "diff pcf ctxt = Some c"
  shows "map_of (commit c ctxt) k =
    (case map_of pcf k of
       None \<Rightarrow> map_of ctxt k
     | Some None \<Rightarrow> None
     | Some (Some r) \<Rightarrow> (case map_of ctxt k of None \<Rightarrow> Some r | Some old \<Rightarrow> Some old))"
  using diff_add[OF assms, of k] diff_del[OF assms, of k] commit_lookup[OF diff_distinct[OF assms(2)], of ctxt k]
  by (cases "map_of pcf k"; cases "map_of ctxt k") (auto split: option.splits)

text \<open>Seen again, a decision asks for no more additions, but for the same modifications.\<close>

lemma second_diff:
  assumes "distinct (map fst pcf)" and "diff pcf ctxt = Some c" and "diff pcf (commit c ctxt) = Some c'"
  shows "map_of (add c') = (\<lambda>_. None) \<and> map_of (modi c') = map_of (modi c)"
proof -
  have "map_of (add c') k = None" for k
    using diff_add[OF assms(1,3), of k] committed[OF assms(1,2), of k]
    by (auto split: option.splits simp: Option.bind_eq_None_conv)
  moreover have "map_of (modi c') k = map_of (modi c) k" for k
    using diff_mod[OF assms(1,3), of k] diff_mod[OF assms(1,2), of k] committed[OF assms(1,2), of k]
    by (cases "map_of pcf k"; cases "map_of ctxt k") (auto split: option.splits)
  ultimately show ?thesis by (intro conjI ext)
qed

lemma modification_lost:
  assumes "distinct (map fst pcf)" and "diff pcf ctxt = Some c" and "map_of (modi c) k = Some r"
  shows "map_of (commit c ctxt) k = map_of ctxt k \<and> map_of (commit c ctxt) k \<noteq> Some r"
  using diff_mod[OF assms(1,2), of k] assms(3) committed[OF assms(1,2), of k]
  by (auto split: option.splits if_splits)

end

text \<open>One pass of the loop, field by field.\<close>

lemma fold_diff_add:
  "distinct (map fst pcf) \<Longrightarrow>
   map_of (add (fold (diff_entry ch ctxt) pcf c)) k =
     (case map_of pcf k of
        Some (Some r) \<Rightarrow> if map_of ctxt k = None then Some r else map_of (add c) k
      | _ \<Rightarrow> map_of (add c) k)"
proof (induction pcf arbitrary: c)
  case (Cons a pcf)
  obtain n v where a: "a = (n, v)" by (cases a)
  have "n = k \<Longrightarrow> map_of pcf k = None" using Cons.prems a by (auto simp: map_of_eq_None_iff)
  with Cons a show ?case by (cases v) (auto simp: update_conv' split: option.splits)
qed simp

lemma fold_diff_mod:
  "distinct (map fst pcf) \<Longrightarrow>
   map_of (modi (fold (diff_entry ch ctxt) pcf c)) k =
     (case (map_of pcf k, map_of ctxt k) of
        (Some (Some r), Some old) \<Rightarrow> if ch (Some r) (Some old) then Some r else map_of (modi c) k
      | _ \<Rightarrow> map_of (modi c) k)"
proof (induction pcf arbitrary: c)
  case (Cons a pcf)
  obtain n v where a: "a = (n, v)" by (cases a)
  have "n = k \<Longrightarrow> map_of pcf k = None" using Cons.prems a by (auto simp: map_of_eq_None_iff)
  with Cons a show ?case by (cases v) (auto simp: update_conv' split: option.splits)
qed simp

lemma fold_diff_del:
  "distinct (map fst pcf) \<Longrightarrow>
   k \<in> fst ` set (del (fold (diff_entry ch ctxt) pcf c)) \<longleftrightarrow>
     map_of pcf k = Some None \<or> k \<in> fst ` set (del c)"
proof (induction pcf arbitrary: c)
  case (Cons a pcf)
  obtain n v where a: "a = (n, v)" by (cases a)
  have "n = k \<Longrightarrow> map_of pcf k = None" using Cons.prems a by (auto simp: map_of_eq_None_iff)
  with Cons a show ?case by (cases v) (auto simp: dom_update split: option.splits)
qed simp

lemma fold_diff_distinct:
  "distinct (map fst (add c)) \<Longrightarrow> distinct (map fst (add (fold (diff_entry ch ctxt) pcf c)))"
proof (induction pcf arbitrary: c)
  case (Cons a pcf)
  obtain n v where a: "a = (n, v)" by (cases a)
  have "distinct (map fst (add (diff_entry ch ctxt a c)))"
    using Cons.prems a by (cases v) (auto simp: distinct_update split: option.splits)
  with Cons.IH show ?case by simp
qed simp

lemma commit_rules_lookup:
  assumes "distinct (map fst (add c))"
  shows "map_of (commit_rules c ctxt) k =
    (if k \<in> fst ` set (del c) then None
     else case map_of (add c) k of None \<Rightarrow> map_of ctxt k | Some r \<Rightarrow> Some r)"
  using assms by (auto simp: commit_rules_def Let_def map_of_put_all map_of_delete_all)

lemmas fold_diff = fold_diff_add fold_diff_mod fold_diff_del fold_diff_distinct commit_rules_lookup

lemma policy_store_diff:
  assumes ch: "\<And>s d. ch (Some s) (Some d) \<longleftrightarrow> s \<noteq> d"
  shows "policy_store
    (\<lambda>pcf ctxt. if length pcf = 0 then None else Some (fold (diff_entry ch ctxt) pcf no_change))
    commit_rules"
proof (unfold_locales, goal_cases)
  case (2 pcf ctxt c k)
  then show ?case
    by (auto simp: fold_diff_add no_change_def split: option.splits if_splits)
next
  case (3 pcf ctxt c k)
  then show ?case
    by (auto simp: fold_diff_mod no_change_def ch split: option.splits if_splits)
next
  case (4 pcf ctxt c k)
  then have "c = fold (diff_entry ch ctxt) pcf no_change" by (simp split: if_splits)
  then show ?case using fold_diff_del[OF 4(1), of k ch ctxt no_change] by (simp add: no_change_def)
next
  case (5 pcf ctxt c)
  then show ?case by (auto simp: fold_diff_distinct no_change_def split: if_splits)
next
  case (6 c ctxt k)
  then show ?case by (rule commit_rules_lookup)
qed simp

interpretation pcc_store: policy_store GetPccRulesUpdate commit_rules
  unfolding GetPccRulesUpdate_def by (rule policy_store_diff) (rule GetPccRuleChanges_iff)

interpretation qos_store: policy_store GetQosFlowDescUpdate commit_rules
  unfolding GetQosFlowDescUpdate_def by (rule policy_store_diff) (rule GetQosDataChanges_iff)

interpretation tc_store: policy_store GetTrafficControlUpdate commit_rules
  unfolding GetTrafficControlUpdate_def by (rule policy_store_diff) (rule GetTCDataChanges_iff)

text \<open>Session rules run the same loop, with every known rule counting as changed.\<close>

lemma truncate_sess_entry:
  "change.truncate (sess_entry ctxt e c) =
     diff_entry (\<lambda>_ _. True) ctxt e (change.truncate c)"
  by (cases "(ctxt, e, c)" rule: sess_entry.cases)
    (auto simp: change.defs split: option.splits)

lemma truncate_fold_sess:
  "change.truncate (fold (sess_entry ctxt) pcf c) =
     fold (diff_entry (\<lambda>_ _. True) ctxt) pcf (change.truncate c)"
  by (induction pcf arbitrary: c) (simp_all add: truncate_sess_entry)

lemma truncate_fields:
  "add (change.truncate c) = add c" "modi (change.truncate c) = modi c" "del (change.truncate c) = del c"
  by (simp_all add: change.defs)

lemma fold_sess_fields:
  "add (fold (sess_entry ctxt) pcf c) = add (fold (diff_entry (\<lambda>_ _. True) ctxt) pcf (change.truncate c))"
  "del (fold (sess_entry ctxt) pcf c) = del (fold (diff_entry (\<lambda>_ _. True) ctxt) pcf (change.truncate c))"
  unfolding truncate_fold_sess[symmetric] by (simp_all add: truncate_fields)

lemma sess_committed:
  assumes "distinct (map fst pcf)" and "GetSessionRulesUpdate pcf ctxt = Some u"
  shows "map_of (commit_rules u ctxt) k =
    (case map_of pcf k of
       None \<Rightarrow> map_of ctxt k
     | Some None \<Rightarrow> None
     | Some (Some r) \<Rightarrow> (case map_of ctxt k of None \<Rightarrow> Some r | Some old \<Rightarrow> Some old))"
proof -
  let ?c = "\<lparr>add = [], modi = [], del = [], ActiveSessRule = None, activeRuleName = ''''\<rparr>"
  have u: "u = fold (sess_entry ctxt) pcf ?c"
    using assms(2) by (simp add: GetSessionRulesUpdate_def split: if_splits)
  have t: "change.truncate ?c = no_change" by (simp add: change.defs no_change_def)
  have "distinct (map fst (add u))"
    unfolding u fold_sess_fields t by (rule fold_diff_distinct) (simp add: no_change_def)
  moreover have "map_of (add u) k =
      (if map_of ctxt k = None then Option.bind (map_of pcf k) id else None)"
    unfolding u fold_sess_fields t
    using fold_diff_add[OF assms(1), of "\<lambda>_ _. True" ctxt no_change k]
    by (auto simp: no_change_def split: option.splits)
  moreover have "k \<in> fst ` set (del u) \<longleftrightarrow> map_of pcf k = Some None"
    unfolding u fold_sess_fields t
    using fold_diff_del[OF assms(1), of k "\<lambda>_ _. True" ctxt no_change] by (simp add: no_change_def)
  ultimately show ?thesis
    by (cases "map_of pcf k"; cases "map_of ctxt k") (auto simp: commit_rules_lookup split: option.splits)
qed

lemma fold_sess_active:
  assumes "distinct (map fst pcf)"
  shows "(ActiveSessRule (fold (sess_entry ctxt) pcf c), activeRuleName (fold (sess_entry ctxt) pcf c)) =
      (ActiveSessRule c, activeRuleName c) \<and>
      (\<forall>k r. map_of pcf k = Some (Some r) \<longrightarrow> map_of ctxt k \<noteq> None) \<or>
    (\<exists>k r. map_of pcf k = Some (Some r) \<and> map_of ctxt k = None \<and>
      ActiveSessRule (fold (sess_entry ctxt) pcf c) = Some r \<and>
      activeRuleName (fold (sess_entry ctxt) pcf c) = k)"
  using assms
proof (induction pcf arbitrary: c)
  case (Cons a pcf)
  obtain n v where a: "a = (n, v)" by (cases a)
  have n: "map_of pcf n = None" using Cons.prems a by (auto simp: map_of_eq_None_iff)
  have IH: "distinct (map fst pcf)" using Cons.prems by simp
  from Cons.IH[OF IH, of "sess_entry ctxt a c"] show ?case
  proof
    assume "\<exists>k r. map_of pcf k = Some (Some r) \<and> map_of ctxt k = None \<and>
      ActiveSessRule (fold (sess_entry ctxt) pcf (sess_entry ctxt a c)) = Some r \<and>
      activeRuleName (fold (sess_entry ctxt) pcf (sess_entry ctxt a c)) = k"
    then obtain k r where k: "map_of pcf k = Some (Some r)" "map_of ctxt k = None"
      "ActiveSessRule (fold (sess_entry ctxt) pcf (sess_entry ctxt a c)) = Some r"
      "activeRuleName (fold (sess_entry ctxt) pcf (sess_entry ctxt a c)) = k" by blast
    with n have "k \<noteq> n" by auto
    then show ?thesis using k a by (intro disjI2 exI[of _ k] exI[of _ r]) simp
  next
    assume old: "(ActiveSessRule (fold (sess_entry ctxt) pcf (sess_entry ctxt a c)),
        activeRuleName (fold (sess_entry ctxt) pcf (sess_entry ctxt a c))) =
      (ActiveSessRule (sess_entry ctxt a c), activeRuleName (sess_entry ctxt a c)) \<and>
      (\<forall>k r. map_of pcf k = Some (Some r) \<longrightarrow> map_of ctxt k \<noteq> None)"
    show ?thesis
    proof (cases "v \<noteq> None \<and> map_of ctxt n = None")
      case True
      then obtain r where "v = Some r" by auto
      then show ?thesis using old True a by (intro disjI2 exI[of _ n] exI[of _ r]) simp
    next
      case False
      then show ?thesis using old a by (cases v) (auto split: option.splits)
    qed
  qed
qed auto

section \<open>The sample decision\<close>

text \<open>\<^verbatim>\<open>src/qos/qos_utility.go\<close> builds a sample decision; fields it does not name
  have Go's zero values.  It serves as the concrete input of the witnesses.\<close>

definition zero_flow :: flow_information where
  "zero_flow = \<lparr>FlowDescription = '''', PackFiltId = '''', PacketFilterUsage = False,
     FlowDirection = UNSPECIFIED, TosTrafficClass = '''', FlowLabel = '''', Spi = ''''\<rparr>"

definition zero_pcc_rule :: pcc_rule where
  "zero_pcc_rule = \<lparr>PccRuleId = '''', AppId = '''', ContVer = 0, Precedence = 0, AfSigProtocol = '''',
     AppReloc = False, RefCondData = '''', RefQosData = [], RefTcData = [], RefChgData = [],
     RefUmData = [], FlowInfos = []\<rparr>"

definition zero_qos_data :: qos_data where
  "zero_qos_data = \<lparr>QosId = '''', Var5qi = 0, MaxbrUl = '''', MaxbrDl = '''', GbrUl = '''', GbrDl = '''',
     Qnc = False, PriorityLevel = 0, AverWindow = 0, MaxDataBurstVol = 0, ReflectiveQos = False,
     SharingKeyDl = '''', SharingKeyUl = '''', MaxPacketLossRateDl = 0, MaxPacketLossRateUl = 0,
     DefQosFlowIndication = False, Arp = None\<rparr>"

definition zero_tc_data :: tc_data where
  "zero_tc_data = \<lparr>TcId = '''', FlowStatus = '''', MuteNotif = False, TrafficSteeringPolIdDl = '''',
     TrafficSteeringPolIdUl = '''', RedirectInfo = None, RouteToLocs = [], UpPathChgEvent = None\<rparr>"

definition sample_flow :: "string \<Rightarrow> string \<Rightarrow> flow_information" where
  "sample_flow desc pid = zero_flow\<lparr>FlowDescription := desc, PackFiltId := pid,
     PacketFilterUsage := True, FlowDirection := BIDIRECTIONAL\<rparr>"

definition TestMakePccRules :: "pcc_rule option go_map" where
  "TestMakePccRules =
    [(''PccRule1'', Some (zero_pcc_rule\<lparr>PccRuleId := ''1'', Precedence := 111,
        RefQosData := [''QosData1''], RefTcData := [''TC1''],
        FlowInfos := [sample_flow ''permit out ip from 1.1.1.1 1000-1200 to assigned'' ''1'',
                      sample_flow ''permit out 17 from 3.3.3.3/24 3000 to 4.4.4.4/24 4000'' ''2'']\<rparr>)),
     (''PccRule2'', Some (zero_pcc_rule\<lparr>PccRuleId := ''2'', Precedence := 222,
        RefQosData := [''QosData2''], RefTcData := [''TC2''],
        FlowInfos := [sample_flow ''permit out ip from 5.5.5.5 1000-1200 to assigned'' ''1'',
                      sample_flow ''permit out 17 from 3.3.3.3/24 3000 to 4.4.4.4/24 4000'' ''2'']\<rparr>)),
     (''PccRuleDef'', Some (zero_pcc_rule\<lparr>PccRuleId := ''255'', Precedence := 255,
        RefQosData := [''QosData1''], RefTcData := [''TC1''],
        FlowInfos := [sample_flow ''permit out ip from any to assigned'' ''1'']\<rparr>))]"

definition TestMakeQosData :: "qos_data option go_map" where
  "TestMakeQosData =
    [(''QosData1'', Some (zero_qos_data\<lparr>QosId := ''1'', Var5qi := 9, MaxbrUl := ''101 Mbps'',
        MaxbrDl := ''201 Mbps'', GbrUl := ''11 Mbps'', GbrDl := ''21 Mbps'', PriorityLevel := 5,
        DefQosFlowIndication := True, Arp := Some \<lparr>ArpPriorityLevel = 3, PreemptCap = ''MAY_PREEMPT'',
          PreemptVuln = ''PREEMPTABLE''\<rparr>\<rparr>)),
     (''QosData2'', Some (zero_qos_data\<lparr>QosId := ''2'', Var5qi := 9, MaxbrUl := ''301 Mbps'',
        MaxbrDl := ''401 Mbps'', GbrUl := ''31 Mbps'', GbrDl := ''41 Mbps'', PriorityLevel := 3,
        DefQosFlowIndication := False, Arp := Some \<lparr>ArpPriorityLevel = 3, PreemptCap = ''NOT_PREEMPT'',
          PreemptVuln = ''NOT_PREEMPTABLE''\<rparr>\<rparr>))]"

definition TestMakeSessionRule :: "session_rule option go_map" where
  "TestMakeSessionRule =
    [(''SessRule1'', Some \<lparr>SessRuleId = ''RuleId-1'',
        AuthSessAmbr = Some \<lparr>Uplink = ''77 Mbps'', Downlink = ''99 Mbps''\<rparr>,
        AuthDefQos = Some \<lparr>AdqVar5qi = 9, AdqPriorityLevel = 8,
          AdqArp = Some \<lparr>ArpPriorityLevel = 8, PreemptCap = ''MAY_PREEMPT'', PreemptVuln = ''NOT_PREEMPTABLE''\<rparr>\<rparr>\<rparr>),
     (''SessRule2'', Some \<lparr>SessRuleId = ''RuleId-2'',
        AuthSessAmbr = Some \<lparr>Uplink = ''55 Mbps'', Downlink = ''33 Mbps''\<rparr>,
        AuthDefQos = Some \<lparr>AdqVar5qi = 9, AdqPriorityLevel = 7,
          AdqArp = Some \<lparr>ArpPriorityLevel = 7, PreemptCap = ''MAY_PREEMPT'', PreemptVuln = ''NOT_PREEMPTABLE''\<rparr>\<rparr>\<rparr>)]"

definition TestMakeTrafficControlData :: "tc_data option go_map" where
  "TestMakeTrafficControlData =
    [(''TC1'', Some (zero_tc_data\<lparr>TcId := ''TC1'', FlowStatus := ''ENABLED''\<rparr>)),
     (''TC2'', Some (zero_tc_data\<lparr>TcId := ''TC2'', FlowStatus := ''ENABLED''\<rparr>))]"

definition TestMakeSamplePolicyDecision :: sm_policy_decision where
  "TestMakeSamplePolicyDecision =
    \<lparr>PccRules = TestMakePccRules, SessRules = TestMakeSessionRule, QosDecs = TestMakeQosData,
     TraffContDecs = TestMakeTrafficControlData\<rparr>"

definition empty_policy_data :: sm_ctxt_policy_data where
  "empty_policy_data = Initialize \<lparr>SmCtxtPccRules = [], SmCtxtQosData = [], SmCtxtTCData = [],
     SessionRules = [], ActiveRule = None, ActiveRuleName = ''''\<rparr>"

lemmas sample_defs = TestMakePccRules_def TestMakeQosData_def TestMakeSessionRule_def
  TestMakeTrafficControlData_def TestMakeSamplePolicyDecision_def empty_policy_data_def Initialize_def
  zero_flow_def zero_pcc_rule_def zero_qos_data_def zero_tc_data_def sample_flow_def

section \<open>Properties\<close>

definition decision_ok :: "sm_policy_decision \<Rightarrow> bool" where
  "decision_ok dec \<longleftrightarrow> go_map_ok (PccRules dec) \<and> go_map_ok (SessRules dec) \<and>
     go_map_ok (QosDecs dec) \<and> go_map_ok (TraffContDecs dec)"

text \<open>What a store holds for a name once a decision has been applied.\<close>

definition applied :: "'v option go_map \<Rightarrow> 'v go_map \<Rightarrow> string \<Rightarrow> 'v option" where
  "applied pcf ctxt k =
     (case map_of pcf k of
        None \<Rightarrow> map_of ctxt k
      | Some None \<Rightarrow> None
      | Some (Some r) \<Rightarrow> (case map_of ctxt k of None \<Rightarrow> Some r | Some old \<Rightarrow> Some old))"

lemmas commit_defs = CommitSmPolicyDecision_def CommitPccRulesUpdate_def CommitQosFlowDescUpdate_def
  CommitTrafficControlUpdate_def CommitSessionRulesUpdate_def BuildSmPolicyUpdate_def

lemma commit_stores:
  "SmCtxtPccRules (CommitSmPolicyDecision d u) =
     when_some (\<lambda>m c. commit_rules c m) (PccRuleUpdate u) (SmCtxtPccRules d)"
  "SmCtxtQosData (CommitSmPolicyDecision d u) =
     when_some (\<lambda>m c. commit_rules c m) (QosFlowUpdate u) (SmCtxtQosData d)"
  "SmCtxtTCData (CommitSmPolicyDecision d u) =
     when_some (\<lambda>m c. commit_rules c m) (TCUpdate u) (SmCtxtTCData d)"
  "SessionRules (CommitSmPolicyDecision d u) =
     when_some (\<lambda>m c. commit_rules c m) (SessRuleUpdate u) (SessionRules d)"
  unfolding commit_defs Let_def
  by (cases "PccRuleUpdate u"; cases "QosFlowUpdate u"; cases "TCUpdate u"; cases "SessRuleUpdate u"; simp)+

lemma applied_when_some:
  assumes "diff = None \<longleftrightarrow> pcf = []"
    and "\<And>c. diff = Some c \<Longrightarrow> map_of (commit_rules c ctxt) k = applied pcf ctxt k"
  shows "map_of (when_some (\<lambda>m c. commit_rules c m) diff ctxt) k = applied pcf ctxt k"
  using assms by (cases diff) (auto simp: applied_def)

text \<open>C5: applying a decision.  After \<^verbatim>\<open>BuildSmPolicyUpdate\<close> and
  \<^verbatim>\<open>CommitSmPolicyDecision\<close>, in each of the four stores every name the decision does not
  mention keeps its entry, a nil entry is deleted, an unknown name is added, and a known name
  keeps the version it had, whatever the iteration order of the maps.\<close>

theorem decision_applied:
  assumes "decision_ok dec"
  shows "map_of (SmCtxtPccRules (CommitSmPolicyDecision d (BuildSmPolicyUpdate d dec))) k =
           applied (PccRules dec) (SmCtxtPccRules d) k \<and>
         map_of (SmCtxtQosData (CommitSmPolicyDecision d (BuildSmPolicyUpdate d dec))) k =
           applied (QosDecs dec) (SmCtxtQosData d) k \<and>
         map_of (SmCtxtTCData (CommitSmPolicyDecision d (BuildSmPolicyUpdate d dec))) k =
           applied (TraffContDecs dec) (SmCtxtTCData d) k \<and>
         map_of (SessionRules (CommitSmPolicyDecision d (BuildSmPolicyUpdate d dec))) k =
           applied (SessRules dec) (SessionRules d) k"
proof -
  have ok: "distinct (map fst (PccRules dec))" "distinct (map fst (QosDecs dec))"
    "distinct (map fst (TraffContDecs dec))" "distinct (map fst (SessRules dec))"
    using assms by (simp_all add: decision_ok_def go_map_ok_def)
  show ?thesis
    unfolding commit_stores BuildSmPolicyUpdate_def policy_update.simps
    using pcc_store.committed[OF ok(1)] qos_store.committed[OF ok(2)] tc_store.committed[OF ok(3)]
      sess_committed[OF ok(4)]
    by (intro conjI applied_when_some)
      (simp_all add: applied_def pcc_store.diff_None qos_store.diff_None tc_store.diff_None
        GetSessionRulesUpdate_def)
qed

theorem decision_applied_witness:
  "map_of (SmCtxtQosData (CommitSmPolicyDecision empty_policy_data
      (BuildSmPolicyUpdate empty_policy_data TestMakeSamplePolicyDecision))) ''QosData2'' =
    the (map_of TestMakeQosData ''QosData2'') \<and> decision_ok TestMakeSamplePolicyDecision"
proof -
  have "decision_ok TestMakeSamplePolicyDecision"
    by (simp add: decision_ok_def go_map_ok_def sample_defs)
  with decision_applied[OF this, of empty_policy_data "''QosData2''"] show ?thesis
    by (simp add: applied_def sample_defs)
qed

text \<open>Modifications are lost.  When a decision carries a new version of a rule, QoS data or
  traffic control data that the session knows, the update lists it in \<^verbatim>\<open>mod\<close>, yet the
  commit leaves the old version in place, and the same decision seen again is reported as the
  same modification.\<close>

lemma modifications_not_committed:
  assumes "decision_ok dec" and "GetQosFlowDescUpdate (QosDecs dec) (SmCtxtQosData d) = Some u"
    and "map_of (modi u) k = Some q"
    and "d' = CommitSmPolicyDecision d (BuildSmPolicyUpdate d dec)"
    and "GetQosFlowDescUpdate (QosDecs dec) (SmCtxtQosData d') = Some u'"
  shows "map_of (SmCtxtQosData d') k = map_of (SmCtxtQosData d) k \<and>
         map_of (SmCtxtQosData d') k \<noteq> Some q \<and> map_of (modi u') = map_of (modi u)"
proof -
  have ok: "distinct (map fst (QosDecs dec))" using assms(1) by (simp add: decision_ok_def go_map_ok_def)
  have d': "SmCtxtQosData d' = commit_rules u (SmCtxtQosData d)"
    by (simp add: assms(2,4) commit_stores BuildSmPolicyUpdate_def)
  show ?thesis
    using qos_store.modification_lost[OF ok assms(2,3)]
      qos_store.second_diff[OF ok assms(2) assms(5)[unfolded d']]
    unfolding d' by blast
qed

theorem modifications_not_committed_witness:
  "\<exists>d dec u q. decision_ok dec \<and> GetQosFlowDescUpdate (QosDecs dec) (SmCtxtQosData d) = Some u \<and>
     map_of (modi u) ''Q'' = Some q \<and>
     map_of (SmCtxtQosData (CommitSmPolicyDecision d (BuildSmPolicyUpdate d dec))) ''Q'' \<noteq> Some q"
proof -
  let ?q = "zero_qos_data\<lparr>Var5qi := 7\<rparr>"
  let ?d = "empty_policy_data\<lparr>SmCtxtQosData := [(''Q'', zero_qos_data)]\<rparr>"
  let ?dec = "\<lparr>PccRules = [], SessRules = [], QosDecs = [(''Q'', Some ?q)], TraffContDecs = []\<rparr>"
  let ?u = "\<lparr>add = [], modi = [(''Q'', ?q)], del = []\<rparr>"
  let ?d' = "CommitSmPolicyDecision ?d (BuildSmPolicyUpdate ?d ?dec)"
  have ok: "decision_ok ?dec" by (simp add: decision_ok_def go_map_ok_def)
  have ch: "?q \<noteq> zero_qos_data" by (simp add: zero_qos_data_def)
  have u: "GetQosFlowDescUpdate (QosDecs ?dec) (SmCtxtQosData ?d) = Some ?u"
    using ch by (simp add: GetQosFlowDescUpdate_def no_change_def GetQosDataChanges_iff)
  obtain u' where "GetQosFlowDescUpdate (QosDecs ?dec) (SmCtxtQosData ?d') = Some u'"
    by (simp add: GetQosFlowDescUpdate_def)
  from modifications_not_committed[OF ok u _ refl this, of "''Q''" ?q]
  have "map_of (SmCtxtQosData ?d') ''Q'' \<noteq> Some ?q" by (auto simp: ch[symmetric])
  with ok u show ?thesis by (intro exI[of _ ?d] exI[of _ ?dec] exI[of _ ?u] exI[of _ ?q]) simp
qed

text \<open>The active session rule.  Committing the session rules of a decision makes the active
  rule a rule of the decision that is new to the session and is stored under the active rule's
  name; when the decision adds no session rule, the active rule becomes nil even though the
  session still has rules.\<close>

lemma active_rule_after_commit:
  assumes "go_map_ok pcf" and "GetSessionRulesUpdate pcf (SessionRules d) = Some u"
    and "d' = CommitSessionRulesUpdate d u"
  shows "if \<exists>k r. map_of pcf k = Some (Some r) \<and> map_of (SessionRules d) k = None
         then \<exists>r. ActiveRule d' = Some r \<and> map_of (SessionRules d') (ActiveRuleName d') = Some r \<and>
                  map_of (SessionRules d) (ActiveRuleName d') = None
         else ActiveRule d' = None \<and> ActiveRuleName d' = ''''"
proof -
  have ok: "distinct (map fst pcf)" using assms(1) by (simp add: go_map_ok_def)
  let ?c = "\<lparr>add = [], modi = [], del = [], ActiveSessRule = None, activeRuleName = ''''\<rparr>"
  have u: "u = fold (sess_entry (SessionRules d)) pcf ?c"
    using assms(2) by (simp add: GetSessionRulesUpdate_def split: if_splits)
  have f: "ActiveRule d' = ActiveSessRule u" "ActiveRuleName d' = activeRuleName u"
    "SessionRules d' = commit_rules u (SessionRules d)"
    by (simp_all add: assms(3) CommitSessionRulesUpdate_def)
  from fold_sess_active[OF ok, of "SessionRules d" ?c, folded u] show ?thesis
    using sess_committed[OF ok assms(2)] by (auto simp: f)
qed

theorem active_rule_after_commit_witness:
  "\<exists>d u. GetSessionRulesUpdate TestMakeSessionRule (SessionRules d) = Some u \<and> SessionRules d \<noteq> [] \<and>
     ActiveRule d \<noteq> None \<and> ActiveRule (CommitSessionRulesUpdate d u) = None"
proof -
  let ?rules = "map (\<lambda>(k, v). (k, the v)) TestMakeSessionRule"
  let ?d = "empty_policy_data\<lparr>SessionRules := ?rules, ActiveRule := map_of ?rules ''SessRule2''\<rparr>"
  obtain u where u: "GetSessionRulesUpdate TestMakeSessionRule (SessionRules ?d) = Some u"
    by (simp add: GetSessionRulesUpdate_def TestMakeSessionRule_def)
  have ok: "go_map_ok TestMakeSessionRule" by (simp add: go_map_ok_def TestMakeSessionRule_def)
  have "\<not> (\<exists>k r. map_of TestMakeSessionRule k = Some (Some r) \<and> map_of (SessionRules ?d) k = None)"
    by (simp add: TestMakeSessionRule_def)
  with active_rule_after_commit[OF ok u refl] have "ActiveRule (CommitSessionRulesUpdate ?d u) = None"
    by (simp only: if_False)
  with u show ?thesis by (intro exI[of _ ?d] exI[of _ u]) (simp add: TestMakeSessionRule_def)
qed

text \<open>Change detection is exact: the three field-by-field comparisons report no change exactly
  when both pointers are non-nil and the two values agree in every field.\<close>

lemma change_detection_exact:
  "(\<not> GetPccRuleChanges p p') = (\<exists>r. p = Some r \<and> p' = Some r) \<and>
   (\<not> GetQosDataChanges q q') = (\<exists>r. q = Some r \<and> q' = Some r) \<and>
   (\<not> GetTCDataChanges t t') = (\<exists>r. t = Some r \<and> t' = Some r)"
  by (cases p; cases p'; cases q; cases q'; cases t; cases t')
    (simp_all add: changes_iff, (auto simp add: GetPccRuleChanges_def GetQosDataChanges_def GetTCDataChanges_def)?)

end
