(* ===== verification/Qos_Rule.thy ===== *)
theory Qos_Rule
  imports Qos_Policy
begin

text \<open>
  QoS rules for the UE, \<^verbatim>\<open>src/qos/qos_rule.go\<close>: flow descriptions are parsed into
  IP filters, IP filters become packet filter components, PCC rules become QoS rules, and QoS
  rules are marshalled for the NAS message.  The reading direction of TS 24.501 9.11.4.13 is
  given as a decoder, and the locale \<^verbatim>\<open>codec\<close> states what marshaller and decoder owe each
  other; it is interpreted for packet filters and for rules.
\<close>

section \<open>Data\<close>

abbreviation "OperationCodeCreateNewQoSRule \<equiv> 1 :: u8"
abbreviation "OperationCodeDeleteExistingQoSRule \<equiv> 2 :: u8"
abbreviation "OperationCodeModifyExistingQoSRuleAndAddPacketFilters \<equiv> 3 :: u8"
abbreviation "OperationCodeModifyExistingQoSRuleAndReplaceAllPacketFilters \<equiv> 4 :: u8"
abbreviation "OperationCodeModifyExistingQoSRuleAndDeletePacketFilters \<equiv> 5 :: u8"
abbreviation "OperationCodeModifyExistingQoSRuleWithoutModifyingPacketFilters \<equiv> 6 :: u8"

abbreviation "PacketFilterDirectionDownlink \<equiv> 1 :: u8"
abbreviation "PacketFilterDirectionUplink \<equiv> 2 :: u8"
abbreviation "PacketFilterDirectionBidirectional \<equiv> 3 :: u8"

abbreviation "PFComponentTypeMatchAll \<equiv> 0x01 :: u8"
abbreviation "PFComponentTypeIPv4RemoteAddress \<equiv> 0x10 :: u8"
abbreviation "PFComponentTypeIPv4LocalAddress \<equiv> 0x11 :: u8"
abbreviation "PFComponentTypeProtocolIdentifierOrNextHeader \<equiv> 0x30 :: u8"
abbreviation "PFComponentTypeSingleLocalPort \<equiv> 0x40 :: u8"
abbreviation "PFComponentTypeLocalPortRange \<equiv> 0x41 :: u8"
abbreviation "PFComponentTypeSingleRemotePort \<equiv> 0x50 :: u8"
abbreviation "PFComponentTypeRemotePortRange \<equiv> 0x51 :: u8"

record port_range =
  lowLimit :: string
  highLimit :: string

record ip_addr_v4 =
  addr :: string
  maskStr :: string

record ip_filter_rule =
  protoId :: string
  sPort :: string
  dPort :: string
  sPortRange :: port_range
  dPortRange :: port_range
  sAddrv4 :: ip_addr_v4
  dAddrv4 :: ip_addr_v4

record pf_component =
  ComponentValue :: "byte list"
  ComponentType :: u8

record packet_filter =
  Content :: "pf_component list"
  Direction :: u8
  PfIdentifier :: u8
  ContentLength :: u8

record qos_rule =
  PacketFilterList :: "packet_filter list"
  Identifier :: u8
  OperationCode :: u8
  DQR :: u8
  Segregation :: u8
  RulePrecedence :: u8
  QFI :: u8
  Length :: u8

definition zero_filter :: ip_filter_rule where
  "zero_filter = \<lparr>protoId = '''', sPort = '''', dPort = '''',
     sPortRange = \<lparr>lowLimit = '''', highLimit = ''''\<rparr>, dPortRange = \<lparr>lowLimit = '''', highLimit = ''''\<rparr>,
     sAddrv4 = \<lparr>addr = '''', maskStr = ''''\<rparr>, dAddrv4 = \<lparr>addr = '''', maskStr = ''''\<rparr>\<rparr>"

definition zero_rule :: qos_rule where
  "zero_rule = \<lparr>PacketFilterList = [], Identifier = 0, OperationCode = 0, DQR = 0, Segregation = 0,
     RulePrecedence = 0, QFI = 0, Length = 0\<rparr>"

section \<open>Flow descriptions\<close>

definition decodeIpFilterPortInfo :: "bool \<Rightarrow> string \<Rightarrow> ip_filter_rule \<Rightarrow> ip_filter_rule" where
  "decodeIpFilterPortInfo source tag f =
     (let ports = Split (CHR ''-'') tag in
      if 1 < length ports
      then (if source then f\<lparr>sPortRange := \<lparr>lowLimit = ports ! 0, highLimit = ports ! 1\<rparr>\<rparr>
            else f\<lparr>dPortRange := \<lparr>lowLimit = ports ! 0, highLimit = ports ! 1\<rparr>\<rparr>)
      else (if source then f\<lparr>sPort := ports ! 0\<rparr> else f\<lparr>dPort := ports ! 0\<rparr>))"

definition decodeIpFilterAddrv4 :: "bool \<Rightarrow> string \<Rightarrow> ip_filter_rule \<Rightarrow> ip_filter_rule" where
  "decodeIpFilterAddrv4 source tag f =
     (let ipAndMask = Split (CHR ''/'') tag;
          f1 = (if source then f\<lparr>sAddrv4 := (sAddrv4 f)\<lparr>addr := ipAndMask ! 0\<rparr>\<rparr>
                else f\<lparr>dAddrv4 := (dAddrv4 f)\<lparr>addr := ipAndMask ! 0\<rparr>\<rparr>)
      in if 1 < length ipAndMask
         then (if source then f1\<lparr>sAddrv4 := (sAddrv4 f1)\<lparr>maskStr := ipAndMask ! 1\<rparr>\<rparr>
               else f1\<lparr>dAddrv4 := (dAddrv4 f1)\<lparr>maskStr := ipAndMask ! 1\<rparr>\<rparr>)
         else f1)"

definition DecodeFlowDescToIPFilters :: "string \<Rightarrow> ip_filter_rule result" where
  "DecodeFlowDescToIPFilters flowDesc =
     (let tags = Fields flowDesc in
      bind_res (nth_res tags 2) (\<lambda>proto.
      bind_res (nth_res tags 4) (\<lambda>src.
        let f = decodeIpFilterAddrv4 True src (zero_filter\<lparr>protoId := proto\<rparr>) in
      bind_res (nth_res tags 6) (\<lambda>t6.
        if t6 = ''to'' then
          bind_res (nth_res tags 5) (\<lambda>sp.
          bind_res (nth_res tags 7) (\<lambda>dst.
            let f1 = decodeIpFilterAddrv4 False dst (decodeIpFilterPortInfo True sp f) in
            if length tags = 9
            then bind_res (nth_res tags 8) (\<lambda>dp. Ok (decodeIpFilterPortInfo False dp f1))
            else Ok f1))
        else
          (let f1 = decodeIpFilterAddrv4 False t6 f in
           if length tags = 8
           then bind_res (nth_res tags 7) (\<lambda>dp. Ok (decodeIpFilterPortInfo False dp f1))
           else Ok f1)))))"

definition IsMatchAllIPFilter :: "ip_filter_rule \<Rightarrow> bool" where
  "IsMatchAllIPFilter f \<longleftrightarrow> addr (sAddrv4 f) = ''any'' \<and> addr (dAddrv4 f) = ''assigned''"

section \<open>Packet filter components\<close>

definition buildPFCompAddr :: "bool \<Rightarrow> ip_addr_v4 \<Rightarrow> (pf_component \<times> u8) option" where
  "buildPFCompAddr local val =
     (if (if local then addr val = ''assigned'' else addr val = ''any'') then None
      else if ParseIP (addr val) = [] then None
      else if To4 (ParseIP (addr val)) = [] then None
      else Some (\<lparr>ComponentValue = To4 (ParseIP (addr val)) @
               (if maskStr val \<noteq> '''' then CIDRMask (fst (Atoi (maskStr val))) 32 else CIDRMask 32 32),
             ComponentType = (if local then PFComponentTypeIPv4LocalAddress
               else PFComponentTypeIPv4RemoteAddress)\<rparr>, 9))"

definition port_bytes :: "int \<Rightarrow> byte list" where
  "port_bytes port = (let port16 = word_of_int port in [hi8 port16, lo8 port16])"

definition buildPFCompPort :: "bool \<Rightarrow> string \<Rightarrow> (pf_component \<times> u8) option" where
  "buildPFCompPort local val =
     (if val = '''' then None
      else Some (\<lparr>ComponentValue = (let (port, err) = Atoi val in if err then [0, 0] else port_bytes port),
             ComponentType = (if local then PFComponentTypeSingleLocalPort
               else PFComponentTypeSingleRemotePort)\<rparr>, 3))"

definition buildPFCompPortRange :: "bool \<Rightarrow> port_range \<Rightarrow> (pf_component \<times> u8) option" where
  "buildPFCompPortRange local val =
     (if lowLimit val = '''' \<or> highLimit val = '''' then None
      else (let (lo, lerr) = Atoi (lowLimit val); (hi, herr) = Atoi (highLimit val);
                v = (if lerr then [0, 0, 0, 0] else port_bytes lo)
            in Some (\<lparr>ComponentValue = (if herr then v else v @ port_bytes hi),
                 ComponentType = (if local then PFComponentTypeLocalPortRange
                   else PFComponentTypeRemotePortRange)\<rparr>, 5)))"

definition BuildPFCompProtocolId :: "string \<Rightarrow> (pf_component \<times> u8) option" where
  "BuildPFCompProtocolId val =
     (if val = ''ip'' then None
      else (let (pfcVal, err) = Atoi val in
            if err then None
            else Some (\<lparr>ComponentValue = [word_of_int pfcVal],
                   ComponentType = PFComponentTypeProtocolIdentifierOrNextHeader\<rparr>, 2)))"

text \<open>\<^verbatim>\<open>if pfc, len := build(...); pfc != nil\<close>: append the component and add its length.\<close>

fun add_component :: "(pf_component \<times> u8) option \<Rightarrow> packet_filter \<Rightarrow> packet_filter" where
  "add_component None pf = pf"
| "add_component (Some (pfc, n)) pf =
     pf\<lparr>Content := Content pf @ [pfc], ContentLength := ContentLength pf + n\<rparr>"

definition GetPfContent :: "string \<Rightarrow> packet_filter \<Rightarrow> packet_filter result" where
  "GetPfContent flowDesc pf =
     bind_res (DecodeFlowDescToIPFilters flowDesc) (\<lambda>ipf.
       if IsMatchAllIPFilter ipf
       then Ok (pf\<lparr>Content := [\<lparr>ComponentValue = [], ComponentType = PFComponentTypeMatchAll\<rparr>],
                   ContentLength := ContentLength pf + 1\<rparr>)
       else Ok (fold add_component
          [BuildPFCompProtocolId (protoId ipf), buildPFCompAddr False (sAddrv4 ipf),
           buildPFCompPort False (sPort ipf), buildPFCompPortRange False (sPortRange ipf),
           buildPFCompAddr True (dAddrv4 ipf), buildPFCompPort True (dPort ipf),
           buildPFCompPortRange True (dPortRange ipf)]
          (pf\<lparr>Content := []\<rparr>)))"

section \<open>QoS rules from PCC rules\<close>

definition btou :: "bool \<Rightarrow> u8" where
  "btou b = (if b then 1 else 0)"

definition GetQosRuleIdFromPccRuleId :: "string \<Rightarrow> u8" where
  "GetQosRuleIdFromPccRuleId s = (let (i, err) = Atoi s in if err then 0 else word_of_int i)"

definition GetQosFlowIdFromQosId :: "string \<Rightarrow> u8" where
  "GetQosFlowIdFromQosId s = (let (i, err) = Atoi s in if err then 0 else word_of_int i)"

definition GetPfId :: "string \<Rightarrow> u8" where
  "GetPfId s = (if s = '''' then 0 else (let (i, err) = Atoi s in if err then 0 else word_of_int i))"

fun GetPfDirectionFromPccFlowInfo :: "flow_direction \<Rightarrow> u8" where
  "GetPfDirectionFromPccFlowInfo UPLINK = PacketFilterDirectionUplink"
| "GetPfDirectionFromPccFlowInfo DOWNLINK = PacketFilterDirectionDownlink"
| "GetPfDirectionFromPccFlowInfo BIDIRECTIONAL = PacketFilterDirectionBidirectional"
| "GetPfDirectionFromPccFlowInfo UNSPECIFIED = PacketFilterDirectionBidirectional"

definition GetPacketFilterFromFlowInfo :: "flow_information \<Rightarrow> packet_filter result" where
  "GetPacketFilterFromFlowInfo flow =
     GetPfContent (FlowDescription flow)
       \<lparr>Content = [], Direction = GetPfDirectionFromPccFlowInfo (FlowDirection flow),
        PfIdentifier = GetPfId (PackFiltId flow), ContentLength = 0\<rparr>"

fun map_res :: "('a \<Rightarrow> 'b result) \<Rightarrow> 'a list \<Rightarrow> 'b list result" where
  "map_res f [] = Ok []"
| "map_res f (x # xs) = bind_res (f x) (\<lambda>y. bind_res (map_res f xs) (\<lambda>ys. Ok (y # ys)))"

definition BuildPacketFilterListFromPccRule :: "pcc_rule \<Rightarrow> qos_rule \<Rightarrow> qos_rule result" where
  "BuildPacketFilterListFromPccRule rule q =
     bind_res (map_res GetPacketFilterFromFlowInfo (FlowInfos rule)) (\<lambda>pfs.
       Ok (q\<lparr>PacketFilterList := pfs\<rparr>))"

definition BuildAddDefaultQosRule :: "u8 \<Rightarrow> qos_rule" where
  "BuildAddDefaultQosRule defQFI =
     zero_rule\<lparr>Identifier := 255, DQR := 1, OperationCode := OperationCodeCreateNewQoSRule,
       RulePrecedence := 255, QFI := defQFI,
       PacketFilterList := [\<lparr>Content = [\<lparr>ComponentValue = [], ComponentType = PFComponentTypeMatchAll\<rparr>],
         Direction = PacketFilterDirectionBidirectional, PfIdentifier = 255, ContentLength = 1\<rparr>]\<rparr>"

text \<open>The PCC rule and the QoS data are pointers; a nil QoS data panics when it is read.\<close>

definition rule_header :: "pcc_rule \<Rightarrow> qos_data \<Rightarrow> u8 \<Rightarrow> qos_rule" where
  "rule_header rule q opCode =
     zero_rule\<lparr>Identifier := GetQosRuleIdFromPccRuleId (PccRuleId rule),
       DQR := btou (DefQosFlowIndication q), OperationCode := opCode,
       RulePrecedence := word_of_int (Precedence rule), QFI := GetQosFlowIdFromQosId (QosId q)\<rparr>"

definition BuildAddQoSRuleFromPccRule :: "pcc_rule \<Rightarrow> qos_data option \<Rightarrow> u8 \<Rightarrow> qos_rule result" where
  "BuildAddQoSRuleFromPccRule rule qosData opCode =
     (case qosData of
        None \<Rightarrow> Panic ''nil pointer dereference''
      | Some q \<Rightarrow> BuildPacketFilterListFromPccRule rule (rule_header rule q opCode))"

definition BuildModifyQosRuleFromPccRule :: "pcc_rule \<Rightarrow> qos_data option \<Rightarrow> u8 \<Rightarrow> qos_rule result" where
  "BuildModifyQosRuleFromPccRule rule qosData opCode =
     (case qosData of
        None \<Rightarrow> Panic ''nil pointer dereference''
      | Some q \<Rightarrow>
          if opCode = OperationCodeModifyExistingQoSRuleAndAddPacketFilters \<or>
             opCode = OperationCodeModifyExistingQoSRuleAndReplaceAllPacketFilters \<or>
             opCode = OperationCodeModifyExistingQoSRuleAndDeletePacketFilters
          then BuildPacketFilterListFromPccRule rule (rule_header rule q opCode)
          else Ok (rule_header rule q opCode))"

definition BuildDeleteQosRuleFromPccRule :: "string \<Rightarrow> qos_rule option" where
  "BuildDeleteQosRuleFromPccRule pccRuleId =
     (if pccRuleId = '''' then None
      else Some (zero_rule\<lparr>Identifier := GetQosRuleIdFromPccRuleId pccRuleId,
             OperationCode := OperationCodeDeleteExistingQoSRule, DQR := 0, QFI := 0\<rparr>))"

definition GetQoSDataFromPolicyDecision :: "sm_policy_decision option \<Rightarrow> string \<Rightarrow> qos_data option" where
  "GetQoSDataFromPolicyDecision dec ref =
     (case dec of None \<Rightarrow> None
      | Some d \<Rightarrow> (case map_of (QosDecs d) ref of None \<Rightarrow> None | Some q \<Rightarrow> q))"

definition build_entry :: "sm_policy_decision option \<Rightarrow> string \<times> pcc_rule \<Rightarrow> qos_rule result" where
  "build_entry dec e =
     bind_res (nth_res (RefQosData (snd e)) 0) (\<lambda>ref.
       BuildAddQoSRuleFromPccRule (snd e) (GetQoSDataFromPolicyDecision dec ref)
         OperationCodeCreateNewQoSRule)"

definition BuildQosRules :: "policy_update \<Rightarrow> qos_rule list result" where
  "BuildQosRules u =
     (case PccRuleUpdate u of
        None \<Rightarrow> Ok []
      | Some c \<Rightarrow>
          bind_res (map_res (build_entry (SmPolicyDecision u)) (add c)) (\<lambda>added.
          bind_res (map_res (build_entry (SmPolicyDecision u)) (modi c)) (\<lambda>modified.
            Ok (added @ modified @
                List.map_filter (\<lambda>e. BuildDeleteQosRuleFromPccRule (fst e)) (del c)))))"

definition BuildQosRulespdumod :: "policy_update \<Rightarrow> qos_rule list result" where
  "BuildQosRulespdumod u =
     (case PccRuleUpdate u of
        None \<Rightarrow> Ok []
      | Some c \<Rightarrow>
          bind_res (map_res (build_entry (SmPolicyDecision u)) (add c)) (\<lambda>added.
          bind_res (map_res (build_entry (SmPolicyDecision u)) (modi c)) (\<lambda>modified.
            Ok (added @ modified @
                List.map_filter (\<lambda>e. BuildDeleteQosRuleFromPccRule (fst e)) (del c)))))"

section \<open>Marshalling\<close>

definition component_bytes :: "pf_component \<Rightarrow> byte list" where
  "component_bytes p = ComponentType p # ComponentValue p"

definition content_bytes :: "packet_filter \<Rightarrow> byte list" where
  "content_bytes pf = concat (map component_bytes (Content pf))"

definition PacketFilter_MarshalBinary :: "packet_filter \<Rightarrow> byte list" where
  "PacketFilter_MarshalBinary pf =
     (push_bit 4 (Direction pf) OR PfIdentifier pf) # ContentLength pf # content_bytes pf"

definition rule_content :: "qos_rule \<Rightarrow> byte list" where
  "rule_content r =
     (push_bit 5 (OperationCode r) OR push_bit 4 (DQR r) OR of_nat (length (PacketFilterList r))) #
     concat (map PacketFilter_MarshalBinary (PacketFilterList r)) @
     (if OperationCode r \<noteq> OperationCodeDeleteExistingQoSRule
      then [RulePrecedence r, push_bit 6 (Segregation r) OR QFI r] else [])"

definition QosRule_MarshalBinary :: "qos_rule \<Rightarrow> byte list" where
  "QosRule_MarshalBinary r =
     (let n = of_nat (length (rule_content r)) :: u16
      in Identifier r # hi8 n # lo8 n # rule_content r)"

definition QoSRules_MarshalBinary :: "qos_rule list \<Rightarrow> byte list" where
  "QoSRules_MarshalBinary rs = concat (map QosRule_MarshalBinary rs)"

section \<open>The contract between marshaller and decoder\<close>

text \<open>
  A decoder consumes exactly the bytes a marshaller writes for one well-formed value and
  answers the part of the value that is on the wire; sequences then follow.
\<close>

fun decode_n :: "(byte list \<Rightarrow> ('b \<times> byte list) option) \<Rightarrow> nat \<Rightarrow> byte list \<Rightarrow> ('b list \<times> byte list) option" where
  "decode_n dec 0 bs = Some ([], bs)"
| "decode_n dec (Suc n) bs =
     (case dec bs of
        None \<Rightarrow> None
      | Some (x, r) \<Rightarrow>
          (case decode_n dec n r of None \<Rightarrow> None | Some (xs, r') \<Rightarrow> Some (x # xs, r')))"

fun decode_all :: "(byte list \<Rightarrow> ('b \<times> byte list) option) \<Rightarrow> nat \<Rightarrow> byte list \<Rightarrow> 'b list option" where
  "decode_all dec 0 bs = (if bs = [] then Some [] else None)"
| "decode_all dec (Suc n) bs =
     (if bs = [] then Some []
      else (case dec bs of
              None \<Rightarrow> None
            | Some (x, r) \<Rightarrow> map_option (\<lambda>xs. x # xs) (decode_all dec n r)))"

locale codec =
  fixes enc :: "'a \<Rightarrow> byte list"
    and dec :: "byte list \<Rightarrow> ('b \<times> byte list) option"
    and view :: "'a \<Rightarrow> 'b"
    and wf :: "'a \<Rightarrow> bool"
  assumes dec_enc: "wf x \<Longrightarrow> dec (enc x @ rest) = Some (view x, rest)"
    and enc_nonempty: "enc x \<noteq> []"
begin

lemma decode_n_enc:
  "\<forall>x \<in> set xs. wf x \<Longrightarrow> decode_n dec (length xs) (concat (map enc xs) @ rest) = Some (map view xs, rest)"
  by (induction xs) (simp_all add: dec_enc)

lemma decode_all_enc:
  "\<forall>x \<in> set xs. wf x \<Longrightarrow> length xs \<le> fuel \<Longrightarrow>
   decode_all dec fuel (concat (map enc xs)) = Some (map view xs)"
proof (induction xs arbitrary: fuel)
  case Nil
  then show ?case by (cases fuel) simp_all
next
  case (Cons x xs)
  then obtain n where "fuel = Suc n" "length xs \<le> n" by (cases fuel) auto
  with Cons show ?case by (simp add: dec_enc enc_nonempty)
qed

lemma length_enc: "length xs \<le> length (concat (map enc xs))"
proof (induction xs)
  case (Cons x xs)
  have "1 \<le> length (enc x)" using enc_nonempty[of x] by (cases "enc x") auto
  with Cons show ?case by simp
qed simp

lemma decode_bytes: "\<forall>x \<in> set xs. wf x \<Longrightarrow>
   decode_all dec (length (concat (map enc xs))) (concat (map enc xs)) = Some (map view xs)"
  by (rule decode_all_enc) (auto simp only: length_enc)

end

section \<open>Bit fields of one octet\<close>

lemma bit_bound: "unat (w :: 8 word) < 2 ^ k \<Longrightarrow> bit w n \<Longrightarrow> n < k"
proof -
  assume "unat w < 2 ^ k" and b: "bit w n"
  then have "take_bit k (unat w) = unat w" by (intro take_bit_nat_eq_self)
  moreover have "bit (unat w) n" using b by (simp add: bit_unsigned_iff)
  ultimately show "n < k" by (metis bit_take_bit_iff)
qed

lemma mask_u8: "(3 :: u8) = mask 2" "(7 :: u8) = mask 3" "(15 :: u8) = mask 4" "(63 :: u8) = mask 6"
  "(1 :: u8) = mask 1"
  by (simp_all add: mask_eq_decr_exp)

text \<open>Reading a field back: the upper field above \<^verbatim>\<open>k\<close> bits of the lower one.\<close>

lemma field_hi:
  assumes "unat lo < 2 ^ k" and "unat hi < 2 ^ m" and "k + m \<le> 8"
  shows "drop_bit k (push_bit k hi OR lo) AND mask m = (hi :: u8)"
proof (rule bit_word_eqI)
  fix n assume "n < LENGTH(8)"
  then show "bit (drop_bit k (push_bit k hi OR lo) AND mask m) n \<longleftrightarrow> bit hi n"
    using bit_bound[OF assms(1), of "k + n"] bit_bound[OF assms(2), of n] assms(3)
    by (auto simp: bit_simps possible_bit_def)
qed

lemma field_lo:
  assumes "unat lo < 2 ^ k"
  shows "(push_bit k hi OR lo) AND mask k = (lo :: u8)"
proof (rule bit_word_eqI)
  fix n assume "n < LENGTH(8)"
  then show "bit ((push_bit k hi OR lo) AND mask k) n \<longleftrightarrow> bit lo n"
    using bit_bound[OF assms, of n] by (auto simp: bit_simps possible_bit_def)
qed

text \<open>The three fields of a rule's first content octet.\<close>

lemma header_fields:
  fixes opc dqr n :: u8
  assumes "unat opc < 2 ^ 3" and "unat dqr < 2 ^ 1" and "unat n < 2 ^ 4"
  defines "h \<equiv> push_bit 5 opc OR push_bit 4 dqr OR n"
  shows "drop_bit 5 h AND mask 3 = opc" and "drop_bit 4 h AND mask 1 = dqr" and "h AND mask 4 = n"
proof -
  note b = bit_bound[OF assms(1)] bit_bound[OF assms(2)] bit_bound[OF assms(3)]
  show "drop_bit 5 h AND mask 3 = opc"
    by (rule bit_word_eqI) (auto simp: h_def bit_simps possible_bit_def dest: b)
  show "drop_bit 4 h AND mask 1 = dqr"
    by (rule bit_word_eqI) (auto simp: h_def bit_simps possible_bit_def dest: b)
  show "h AND mask 4 = n"
    by (rule bit_word_eqI) (auto simp: h_def bit_simps possible_bit_def dest: b)
qed

section \<open>Decoding\<close>

type_synonym pf_view = "u8 \<times> u8 \<times> byte list"

text \<open>Octet 1 of a packet filter: bits 6 and 5 the direction, bits 4 to 1 the identifier.\<close>

fun decode_pf :: "byte list \<Rightarrow> (pf_view \<times> byte list) option" where
  "decode_pf (h # l # rest) =
     (if unat l \<le> length rest
      then Some ((drop_bit 4 h AND 3, h AND 15, take (unat l) rest), drop (unat l) rest)
      else None)"
| "decode_pf _ = None"

record rule_view =
  vIdentifier :: u8
  vOperation :: u8
  vDQR :: u8
  vFilters :: "pf_view list"
  vTail :: "(u8 \<times> u8 \<times> u8) option"

text \<open>The content of a rule: operation code in bits 8 to 6, DQR in bit 5, number of filters in
  bits 4 to 1, the filters, and except for a deletion the precedence, segregation and QFI.\<close>

fun decode_content :: "u8 \<Rightarrow> byte list \<Rightarrow> rule_view option" where
  "decode_content i (h # bs) =
     (case decode_n decode_pf (unat (h AND 15)) bs of
        None \<Rightarrow> None
      | Some (fs, r) \<Rightarrow>
          (case r of
             [] \<Rightarrow> if drop_bit 5 h AND 7 = 2
                  then Some \<lparr>vIdentifier = i, vOperation = 2, vDQR = drop_bit 4 h AND 1, vFilters = fs, vTail = None\<rparr>
                  else None
           | [p, q] \<Rightarrow> if drop_bit 5 h AND 7 = 2 then None
                  else Some \<lparr>vIdentifier = i, vOperation = drop_bit 5 h AND 7, vDQR = drop_bit 4 h AND 1,
                         vFilters = fs, vTail = Some (p, drop_bit 6 q AND 1, q AND 63)\<rparr>
           | _ \<Rightarrow> None))"
| "decode_content i [] = None"

fun decode_rule :: "byte list \<Rightarrow> (rule_view \<times> byte list) option" where
  "decode_rule (i # h # l # rest) =
     (let n = unat (be16 h l) in
      if n \<le> length rest
      then map_option (\<lambda>v. (v, drop n rest)) (decode_content i (take n rest))
      else None)"
| "decode_rule _ = None"

definition decode_rules :: "byte list \<Rightarrow> rule_view list option" where
  "decode_rules bs = decode_all decode_rule (length bs) bs"

definition pf_wf :: "packet_filter \<Rightarrow> bool" where
  "pf_wf pf \<longleftrightarrow> unat (Direction pf) < 4 \<and> unat (PfIdentifier pf) < 16 \<and>
     unat (ContentLength pf) = length (content_bytes pf)"

definition rule_wf :: "qos_rule \<Rightarrow> bool" where
  "rule_wf r \<longleftrightarrow> unat (OperationCode r) < 8 \<and> unat (DQR r) < 2 \<and> length (PacketFilterList r) < 16 \<and>
     (\<forall>pf \<in> set (PacketFilterList r). pf_wf pf) \<and> unat (Segregation r) < 2 \<and> unat (QFI r) < 64"

definition view_pf :: "packet_filter \<Rightarrow> pf_view" where
  "view_pf pf = (Direction pf, PfIdentifier pf, content_bytes pf)"

definition view_rule :: "qos_rule \<Rightarrow> rule_view" where
  "view_rule r =
     \<lparr>vIdentifier = Identifier r, vOperation = OperationCode r, vDQR = DQR r,
      vFilters = map view_pf (PacketFilterList r),
      vTail = (if OperationCode r = OperationCodeDeleteExistingQoSRule then None
        else Some (RulePrecedence r, Segregation r, QFI r))\<rparr>"

interpretation pf_codec: codec PacketFilter_MarshalBinary decode_pf view_pf pf_wf
proof (unfold_locales, goal_cases)
  case (1 pf rest)
  let ?h = "push_bit 4 (Direction pf) OR PfIdentifier pf"
  have "drop_bit 4 ?h AND 3 = Direction pf" and "?h AND 15 = PfIdentifier pf"
    unfolding mask_u8 using 1 by (intro field_hi field_lo; simp add: pf_wf_def)+
  then show ?case
    using 1 unfolding PacketFilter_MarshalBinary_def view_pf_def pf_wf_def append_Cons decode_pf.simps
    by (simp only:) simp
qed (simp add: PacketFilter_MarshalBinary_def)

lemma decode_rule_content:
  assumes wf: "rule_wf r"
  shows "decode_content (Identifier r) (rule_content r) = Some (view_rule r)"
proof -
  let ?n = "of_nat (length (PacketFilterList r)) :: u8"
  let ?h = "push_bit 5 (OperationCode r) OR push_bit 4 (DQR r) OR ?n"
  let ?q = "push_bit 6 (Segregation r) OR QFI r"
  have n: "unat ?n = length (PacketFilterList r)" using wf by (simp add: rule_wf_def unat_of_nat)
  have h: "drop_bit 5 ?h AND 7 = OperationCode r" "drop_bit 4 ?h AND 1 = DQR r" "?h AND 15 = ?n"
    unfolding mask_u8 using wf by (intro header_fields; simp add: rule_wf_def n)+
  have q: "drop_bit 6 ?q AND 1 = Segregation r" "?q AND 63 = QFI r"
    unfolding mask_u8 using wf by (intro field_hi field_lo; simp add: rule_wf_def)+
  have "\<forall>pf \<in> set (PacketFilterList r). pf_wf pf" using wf by (simp add: rule_wf_def)
  note dec = pf_codec.decode_n_enc[OF this]
  show ?thesis
    unfolding rule_content_def decode_content.simps h n dec option.case prod.case
    by (cases "OperationCode r = 2") (simp_all only: h q view_rule_def if_True if_False not_True_eq_False
        not_False_eq_True list.case simp_thms)
qed

interpretation rule_codec: codec QosRule_MarshalBinary decode_rule view_rule
  "\<lambda>r. rule_wf r \<and> length (rule_content r) < 2 ^ 16"
proof (unfold_locales, goal_cases)
  case (1 r rest)
  let ?n = "of_nat (length (rule_content r)) :: u16"
  have "unat ?n = length (rule_content r)" using 1 by (simp add: unat_of_nat)
  with 1 show ?case
    by (simp add: QosRule_MarshalBinary_def Let_def be16_split decode_rule_content)
qed (simp add: QosRule_MarshalBinary_def Let_def)

section \<open>Lengths of the components\<close>

definition mask_ok :: "ip_addr_v4 \<Rightarrow> bool" where
  "mask_ok a \<longleftrightarrow> maskStr a = '''' \<or> (0 \<le> fst (Atoi (maskStr a)) \<and> fst (Atoi (maskStr a)) \<le> 32)"

definition range_ok :: "port_range \<Rightarrow> bool" where
  "range_ok r \<longleftrightarrow> lowLimit r = '''' \<or> highLimit r = '''' \<or> snd (Atoi (lowLimit r)) = snd (Atoi (highLimit r))"

text \<open>Filters whose masks lie between 0 and 32 and whose port ranges have either two numbers
  or none.\<close>

definition filter_ok :: "ip_filter_rule \<Rightarrow> bool" where
  "filter_ok f \<longleftrightarrow> mask_ok (sAddrv4 f) \<and> mask_ok (dAddrv4 f) \<and> range_ok (sPortRange f) \<and> range_ok (dPortRange f)"

fun comp_ok :: "(pf_component \<times> u8) option \<Rightarrow> bool" where
  "comp_ok None = True"
| "comp_ok (Some (c, n)) \<longleftrightarrow> n = of_nat (length (component_bytes c)) \<and> length (component_bytes c) \<le> 9"

lemma length_port_bytes [simp]: "length (port_bytes p) = 2"
  by (simp add: port_bytes_def Let_def)

lemma comp_ok_build:
  "comp_ok (BuildPFCompProtocolId s)"
  "comp_ok (buildPFCompPort l s)"
  "mask_ok a \<Longrightarrow> comp_ok (buildPFCompAddr l a)"
  "range_ok r \<Longrightarrow> comp_ok (buildPFCompPortRange l r)"
proof -
  show "comp_ok (BuildPFCompProtocolId s)"
    by (simp add: BuildPFCompProtocolId_def component_bytes_def split: prod.split)
  show "comp_ok (buildPFCompPort l s)"
    by (simp add: buildPFCompPort_def component_bytes_def split: prod.split)
  show "mask_ok a \<Longrightarrow> comp_ok (buildPFCompAddr l a)"
    by (auto simp: buildPFCompAddr_def component_bytes_def mask_ok_def To4_length length_CIDRMask)
  show "range_ok r \<Longrightarrow> comp_ok (buildPFCompPortRange l r)"
    by (auto simp: buildPFCompPortRange_def component_bytes_def range_ok_def split: prod.split)
qed

lemma fold_add_component:
  assumes "\<forall>c \<in> set cs. comp_ok c" and "ContentLength pf = of_nat (length (content_bytes pf))"
  shows "ContentLength (fold add_component cs pf) = of_nat (length (content_bytes (fold add_component cs pf))) \<and>
         length (content_bytes (fold add_component cs pf)) \<le> length (content_bytes pf) + 9 * length cs \<and>
         Direction (fold add_component cs pf) = Direction pf \<and>
         PfIdentifier (fold add_component cs pf) = PfIdentifier pf"
  using assms
proof (induction cs arbitrary: pf)
  case (Cons c cs)
  let ?pf = "add_component c pf"
  have "ContentLength ?pf = of_nat (length (content_bytes ?pf)) \<and>
      length (content_bytes ?pf) \<le> length (content_bytes pf) + 9 \<and>
      Direction ?pf = Direction pf \<and> PfIdentifier ?pf = PfIdentifier pf"
    using Cons.prems by (cases "(c, pf)" rule: add_component.cases) (auto simp: content_bytes_def)
  with Cons.IH[of ?pf] Cons.prems(1) show ?case by fastforce
qed simp

section \<open>Properties\<close>



text \<open>The length octet of a packet filter.  For every flow description that parses into a
  filter with valid masks and port ranges, the packet filter built from it has a length octet
  equal to the number of octets of its components and a direction that fits its two bits.\<close>

lemma packet_filter_length:
  assumes "DecodeFlowDescToIPFilters (FlowDescription fl) = Ok f" and "filter_ok f"
  shows "\<exists>pf. GetPacketFilterFromFlowInfo fl = Ok pf \<and> unat (ContentLength pf) = length (content_bytes pf) \<and>
           unat (Direction pf) < 4 \<and> PfIdentifier pf = GetPfId (PackFiltId fl)"
proof -
  let ?pf = "\<lparr>Content = [], Direction = GetPfDirectionFromPccFlowInfo (FlowDirection fl),
     PfIdentifier = GetPfId (PackFiltId fl), ContentLength = 0\<rparr>"
  let ?cs = "[BuildPFCompProtocolId (protoId f), buildPFCompAddr False (sAddrv4 f),
     buildPFCompPort False (sPort f), buildPFCompPortRange False (sPortRange f),
     buildPFCompAddr True (dAddrv4 f), buildPFCompPort True (dPort f), buildPFCompPortRange True (dPortRange f)]"
  have "\<forall>c \<in> set ?cs. comp_ok c" using assms(2) by (simp add: filter_ok_def comp_ok_build)
  from fold_add_component[OF this, of ?pf]
  have "unat (ContentLength (fold add_component ?cs ?pf)) = length (content_bytes (fold add_component ?cs ?pf))"
    and "Direction (fold add_component ?cs ?pf) = Direction ?pf"
    and "PfIdentifier (fold add_component ?cs ?pf) = PfIdentifier ?pf"
    by (auto simp: content_bytes_def unat_of_nat simp del: fold_simps)
  moreover have "unat (Direction ?pf) < 4" by (cases "FlowDirection fl") simp_all
  ultimately show ?thesis
    using assms(1)
    by (auto simp: GetPacketFilterFromFlowInfo_def GetPfContent_def content_bytes_def component_bytes_def
        simp del: fold_simps)
qed

theorem packet_filter_length_witness:
  "\<exists>f pf. DecodeFlowDescToIPFilters ''permit out 17 from 3.3.3.3/24 3000 to 4.4.4.4/24 4000'' = Ok f \<and>
     filter_ok f \<and>
     GetPacketFilterFromFlowInfo (sample_flow ''permit out 17 from 3.3.3.3/24 3000 to 4.4.4.4/24 4000'' ''2'') = Ok pf \<and>
     unat (ContentLength pf) = length (content_bytes pf)"
proof -
  let ?s = "''permit out 17 from 3.3.3.3/24 3000 to 4.4.4.4/24 4000''"
  let ?f = "zero_filter\<lparr>protoId := ''17'', sAddrv4 := \<lparr>addr = ''3.3.3.3'', maskStr = ''24''\<rparr>,
      sPort := ''3000'', dAddrv4 := \<lparr>addr = ''4.4.4.4'', maskStr = ''24''\<rparr>, dPort := ''4000''\<rparr>"
  have dec: "DecodeFlowDescToIPFilters ?s = Ok ?f"
    by (simp add: DecodeFlowDescToIPFilters_def go_simps nth_res_def decodeIpFilterAddrv4_def
        decodeIpFilterPortInfo_def zero_filter_def)
  have ok: "filter_ok ?f" by (simp add: filter_ok_def mask_ok_def range_ok_def zero_filter_def go_simps)
  have "FlowDescription (sample_flow ?s ''2'') = ?s" by (simp add: sample_flow_def zero_flow_def)
  with packet_filter_length[of "sample_flow ?s ''2''" ?f] dec ok show ?thesis by auto
qed

text \<open>A port range with one malformed bound breaks the length octet: from
  \<^verbatim>\<open>1000-x\<close> the component carries two octets of value, three with its type, while the
  length counts five.\<close>

lemma malformed_port_range_length:
  "buildPFCompPortRange False \<lparr>lowLimit = ''1000'', highLimit = ''x''\<rparr> =
     Some (\<lparr>ComponentValue = [3, 232], ComponentType = PFComponentTypeRemotePortRange\<rparr>, 5) \<and>
   buildPFCompPortRange False \<lparr>lowLimit = ''x'', highLimit = ''1000''\<rparr> =
     Some (\<lparr>ComponentValue = [0, 0, 0, 0, 3, 232], ComponentType = PFComponentTypeRemotePortRange\<rparr>, 5)"
  by (simp add: buildPFCompPortRange_def port_bytes_def hi8_def lo8_def go_simps Let_def)

text \<open>Parsing a flow description never returns an error value; it panics exactly when the
  description has fewer than seven words, or exactly seven with \<^verbatim>\<open>to\<close> as the last.\<close>

lemma flow_description_panics_iff:
  "is_Panic (DecodeFlowDescToIPFilters d) \<longleftrightarrow>
     length (Fields d) < 7 \<or> (length (Fields d) = 7 \<and> Fields d ! 6 = ''to'')"
  by (auto simp: DecodeFlowDescToIPFilters_def Let_def)

section \<open>The rules built for an update\<close>

lemma map_res_map:
  assumes "map_res f xs = Ok ys" and "\<And>x y. f x = Ok y \<Longrightarrow> g y = h x"
  shows "map g ys = map h xs"
  using assms by (induction xs arbitrary: ys) auto

lemma build_entry_fields:
  assumes "build_entry dec e = Ok r"
  shows "(OperationCode r, Identifier r, RulePrecedence r) =
    (OperationCodeCreateNewQoSRule, GetQosRuleIdFromPccRuleId (PccRuleId (snd e)),
     word_of_int (Precedence (snd e)))"
  using assms
  by (auto simp: build_entry_def BuildAddQoSRuleFromPccRule_def BuildPacketFilterListFromPccRule_def
      rule_header_def zero_rule_def split: option.splits)

lemma delete_entries_fields:
  "map (\<lambda>r. (OperationCode r, Identifier r, RulePrecedence r))
     (List.map_filter (\<lambda>e. BuildDeleteQosRuleFromPccRule (fst e)) m) =
   map (\<lambda>e. (OperationCodeDeleteExistingQoSRule, GetQosRuleIdFromPccRuleId (fst e), 0))
     (filter (\<lambda>e. fst e \<noteq> '''') m)"
  by (induction m) (auto simp: List.map_filter_simps BuildDeleteQosRuleFromPccRule_def zero_rule_def)

text \<open>The QoS rules of an update.  Whenever \<^verbatim>\<open>BuildQosRules\<close> returns, it returns one rule
  for each added and each modified PCC rule, in that order, with the operation \<^verbatim>\<open>create\<close>, the
  identifier of the PCC rule and its precedence, and then one \<^verbatim>\<open>delete\<close> rule for each
  deleted entry with a non-empty key, whose identifier is read from the key of the map.\<close>

lemma BuildQosRules_operations:
  assumes "PccRuleUpdate u = Some c" and "BuildQosRules u = Ok rs"
  shows "map (\<lambda>r. (OperationCode r, Identifier r, RulePrecedence r)) rs =
     map (\<lambda>e. (OperationCodeCreateNewQoSRule, GetQosRuleIdFromPccRuleId (PccRuleId (snd e)),
        word_of_int (Precedence (snd e)))) (add c @ modi c) @
     map (\<lambda>e. (OperationCodeDeleteExistingQoSRule, GetQosRuleIdFromPccRuleId (fst e), 0))
        (filter (\<lambda>e. fst e \<noteq> '''') (del c))"
proof -
  from assms obtain as ms where
    a: "map_res (build_entry (SmPolicyDecision u)) (add c) = Ok as" and
    m: "map_res (build_entry (SmPolicyDecision u)) (modi c) = Ok ms" and
    rs: "rs = as @ ms @ List.map_filter (\<lambda>e. BuildDeleteQosRuleFromPccRule (fst e)) (del c)"
    by (auto simp: BuildQosRules_def)
  show ?thesis
    unfolding rs map_append delete_entries_fields
    using map_res_map[OF a build_entry_fields] map_res_map[OF m build_entry_fields] by simp
qed

theorem BuildQosRules_operations_witness:
  "\<exists>rs. BuildQosRules \<lparr>SessRuleUpdate = None,
       PccRuleUpdate = Some \<lparr>add = [(''PccRuleDef'', the (the (map_of TestMakePccRules ''PccRuleDef'')))],
         modi = [], del = [(''7'', None)]\<rparr>,
       QosFlowUpdate = None, TCUpdate = None, SmPolicyDecision = Some TestMakeSamplePolicyDecision\<rparr> = Ok rs \<and>
     map (\<lambda>r. (OperationCode r, Identifier r, RulePrecedence r)) rs = [(1, 255, 255), (2, 7, 0)]"
proof -
  let ?c = "\<lparr>add = [(''PccRuleDef'', the (the (map_of TestMakePccRules ''PccRuleDef'')))],
     modi = [], del = [(''7'', None :: pcc_rule option)]\<rparr>"
  let ?u = "\<lparr>SessRuleUpdate = None, PccRuleUpdate = Some ?c,
     QosFlowUpdate = None, TCUpdate = None, SmPolicyDecision = Some TestMakeSamplePolicyDecision\<rparr>"
  have dec: "DecodeFlowDescToIPFilters ''permit out ip from any to assigned'' =
      Ok (zero_filter\<lparr>protoId := ''ip'', sAddrv4 := \<lparr>addr = ''any'', maskStr = ''''\<rparr>,
        dAddrv4 := \<lparr>addr = ''assigned'', maskStr = ''''\<rparr>\<rparr>)"
    by (simp add: DecodeFlowDescToIPFilters_def go_simps nth_res_def decodeIpFilterAddrv4_def zero_filter_def)
  have "\<exists>rs. BuildQosRules ?u = Ok rs"
    by (simp add: BuildQosRules_def build_entry_def BuildAddQoSRuleFromPccRule_def
        BuildPacketFilterListFromPccRule_def GetQoSDataFromPolicyDecision_def
        GetPacketFilterFromFlowInfo_def GetPfContent_def IsMatchAllIPFilter_def sample_defs dec)
  then obtain rs where rs: "BuildQosRules ?u = Ok rs" ..
  from BuildQosRules_operations[OF _ rs, of ?c] rs show ?thesis
    by (simp add: GetQosRuleIdFromPccRuleId_def go_simps sample_defs)
qed

text \<open>Deletion does not reach the rule it means.  A rule sent with the identifier read from its
  \<^verbatim>\<open>PccRuleId\<close> is deleted by the identifier read from its name in the map: for the sample
  decision the rule named \<^verbatim>\<open>PccRule1\<close> is created as rule 1 and deleted as rule 0.\<close>

lemma deletion_uses_rule_name:
  "Identifier (rule_header (the (the (map_of TestMakePccRules ''PccRule1''))) q OperationCodeCreateNewQoSRule) = 1 \<and>
   map_option Identifier (BuildDeleteQosRuleFromPccRule ''PccRule1'') = Some 0 \<and>
   map_option Identifier (BuildDeleteQosRuleFromPccRule ''1'') = Some 1"
  by (simp add: rule_header_def BuildDeleteQosRuleFromPccRule_def GetQosRuleIdFromPccRuleId_def go_simps
      sample_defs zero_rule_def)

end
