(* ===== verification/Qos_Flow.thy ===== *)
theory Qos_Flow
  imports Qos_Rule
begin

text \<open>
  The authorized QoS flow descriptions sent to the UE, \<^verbatim>\<open>src/qos/qos_flow.go\<close>: building a
  description for an added, modified or deleted flow, the bit-rate parameters, and the bytes of the
  information element, with a decoder of TS 24.501 9.11.4.12 on the specification side.
  \<^verbatim>\<open>strconv.ParseFloat\<close> followed by the conversion to \<^verbatim>\<open>uint16\<close>, which Go leaves
  implementation-defined out of range, is the argument \<^verbatim>\<open>rate16\<close> of the definitions that use
  it; the type octet comes from the NAS library and is the argument \<^verbatim>\<open>ieType\<close>.
\<close>

section \<open>Descriptions and parameters\<close>

abbreviation (input) QFDParameterId5Qi :: u8 where "QFDParameterId5Qi \<equiv> 1"
abbreviation (input) QFDParameterIdGfbrUl :: u8 where "QFDParameterIdGfbrUl \<equiv> 2"
abbreviation (input) QFDParameterIdGfbrDl :: u8 where "QFDParameterIdGfbrDl \<equiv> 3"
abbreviation (input) QFDParameterIdMfbrUl :: u8 where "QFDParameterIdMfbrUl \<equiv> 4"
abbreviation (input) QFDParameterIdMfbrDl :: u8 where "QFDParameterIdMfbrDl \<equiv> 5"
abbreviation (input) QFBitRate1Kbps :: u8 where "QFBitRate1Kbps \<equiv> 1"
abbreviation (input) QFBitRate1Mbps :: u8 where "QFBitRate1Mbps \<equiv> 6"
abbreviation (input) QFBitRate1Gbps :: u8 where "QFBitRate1Gbps \<equiv> 11"
abbreviation (input) QFDOpCreate :: u8 where "QFDOpCreate \<equiv> 0x20"
abbreviation (input) QFDOpModify :: u8 where "QFDOpModify \<equiv> 0x40"
abbreviation (input) QFDOpDelete :: u8 where "QFDOpDelete \<equiv> 0x60"
abbreviation (input) QFDQfiBitmask :: u8 where "QFDQfiBitmask \<equiv> 0x3f"
abbreviation (input) QFDOpCodeBitmask :: u8 where "QFDOpCodeBitmask \<equiv> 0xe0"
abbreviation (input) QFDEbit :: u8 where "QFDEbit \<equiv> 0x40"
abbreviation (input) QFDFixLen :: u8 where "QFDFixLen \<equiv> 3"

record qos_flow_parameter =
  ParamContent :: "byte list"
  ParamId :: u8
  ParamLen :: u8

record qos_flow_description =
  ParamList :: "qos_flow_parameter list"
  Qfi :: u8
  OpCode :: u8
  NumOfParam :: u8
  QFDLen :: u8

record qfd_authorized =
  QfdContent :: "byte list"
  IeType :: u8
  IeLen :: u16

definition new_qfd :: qos_flow_description where
  "new_qfd = \<lparr>ParamList = [], Qfi = 0, OpCode = 0, NumOfParam = 0, QFDLen = QFDFixLen\<rparr>"

definition SetQoSFlowDescQfi :: "u8 \<Rightarrow> qos_flow_description \<Rightarrow> qos_flow_description" where
  "SetQoSFlowDescQfi val f = f\<lparr>Qfi := QFDQfiBitmask AND val\<rparr>"

definition SetQoSFlowDescOpCode :: "u8 \<Rightarrow> qos_flow_description \<Rightarrow> qos_flow_description" where
  "SetQoSFlowDescOpCode val f = f\<lparr>OpCode := QFDOpCodeBitmask AND val\<rparr>"

definition SetQFDEBitCreateNewQFD :: "qos_flow_description \<Rightarrow> qos_flow_description" where
  "SetQFDEBitCreateNewQFD f = f\<lparr>NumOfParam := NumOfParam f OR QFDEbit\<rparr>"

definition SetQFDEBitDeleteExistingQFD :: "qos_flow_description \<Rightarrow> qos_flow_description" where
  "SetQFDEBitDeleteExistingQFD f = f\<lparr>NumOfParam := NumOfParam f AND NOT QFDEbit\<rparr>"

definition SetQFDEBitModExtendParamQFD :: "qos_flow_description \<Rightarrow> qos_flow_description" where
  "SetQFDEBitModExtendParamQFD f = f\<lparr>NumOfParam := NumOfParam f AND NOT QFDEbit\<rparr>"

definition SetQFDEBitModReplaceAllParamQFD :: "qos_flow_description \<Rightarrow> qos_flow_description" where
  "SetQFDEBitModReplaceAllParamQFD f = f\<lparr>NumOfParam := NumOfParam f OR QFDEbit\<rparr>"

section \<open>Bit rates\<close>

text \<open>A rate that does not parse leaves the value 0; the two words are read by index.\<close>

definition GetBitRate :: "(string \<Rightarrow> u16 option) \<Rightarrow> string \<Rightarrow> (u16 \<times> u8) result" where
  "GetBitRate rate16 sBitRate =
     (let sl = Fields sBitRate in
      bind_res (nth_res sl 0) (\<lambda>r.
      bind_res (nth_res sl 1) (\<lambda>u.
        Ok (case rate16 r of None \<Rightarrow> 0 | Some v \<Rightarrow> v,
            if u = ''Kbps'' then QFBitRate1Kbps
            else if u = ''Mbps'' then QFBitRate1Mbps
            else if u = ''Gbps'' then QFBitRate1Gbps
            else QFBitRate1Mbps))))"

definition SetQosFlowParamBitRate :: "u8 \<Rightarrow> u8 \<Rightarrow> u16 \<Rightarrow> qos_flow_parameter" where
  "SetQosFlowParamBitRate rateType rateUnit rateVal =
     \<lparr>ParamContent = [rateUnit] @ [hi8 rateVal, lo8 rateVal], ParamId = rateType, ParamLen = 3\<rparr>"

definition AddQosFlowParam5Qi :: "u8 \<Rightarrow> qos_flow_description \<Rightarrow> qos_flow_description" where
  "AddQosFlowParam5Qi val q =
     q\<lparr>NumOfParam := NumOfParam q + 1,
       ParamList := ParamList q @ [\<lparr>ParamContent = [val], ParamId = QFDParameterId5Qi, ParamLen = 1\<rparr>],
       QFDLen := QFDLen q + 3\<rparr>"

definition addQosFlowRateParam ::
    "(string \<Rightarrow> u16 option) \<Rightarrow> string \<Rightarrow> u8 \<Rightarrow> qos_flow_description \<Rightarrow> qos_flow_description result" where
  "addQosFlowRateParam rate16 rate rateType q =
     bind_res (GetBitRate rate16 rate) (\<lambda>(bitRate, unit).
       Ok (q\<lparr>NumOfParam := NumOfParam q + 1,
             ParamList := ParamList q @ [SetQosFlowParamBitRate rateType unit bitRate],
             QFDLen := QFDLen q + 5\<rparr>))"

text \<open>\<^verbatim>\<open>if rate != "" { qfd.addQosFlowRateParam(rate, id) }\<close>, four times in both builders.\<close>

definition add_rate ::
    "(string \<Rightarrow> u16 option) \<Rightarrow> string \<Rightarrow> u8 \<Rightarrow> qos_flow_description \<Rightarrow> qos_flow_description result" where
  "add_rate rate16 rate i q = (if rate \<noteq> '''' then addQosFlowRateParam rate16 rate i q else Ok q)"

definition add_rates ::
    "(string \<Rightarrow> u16 option) \<Rightarrow> qos_data \<Rightarrow> qos_flow_description \<Rightarrow> qos_flow_description result" where
  "add_rates rate16 qd q =
     bind_res (add_rate rate16 (MaxbrUl qd) QFDParameterIdMfbrUl q) (\<lambda>q.
     bind_res (add_rate rate16 (MaxbrDl qd) QFDParameterIdMfbrDl q) (\<lambda>q.
     bind_res (add_rate rate16 (GbrUl qd) QFDParameterIdGfbrUl q) (\<lambda>q.
       add_rate rate16 (GbrDl qd) QFDParameterIdGfbrDl q)))"

section \<open>The information element\<close>

definition param_bytes :: "qos_flow_parameter \<Rightarrow> byte list" where
  "param_bytes p = ParamId p # ParamLen p # ParamContent p"

definition qfd_bytes :: "qos_flow_description \<Rightarrow> byte list" where
  "qfd_bytes q = Qfi q # OpCode q # NumOfParam q # concat (map param_bytes (ParamList q))"

definition AddQFD :: "qos_flow_description \<Rightarrow> qfd_authorized \<Rightarrow> qfd_authorized" where
  "AddQFD q d = d\<lparr>QfdContent := QfdContent d @ qfd_bytes q, IeLen := IeLen d + ucast (QFDLen q)\<rparr>"

definition add_qfd :: "(string \<Rightarrow> u16 option) \<Rightarrow> qos_data \<Rightarrow> qos_flow_description result" where
  "add_qfd rate16 qd =
     bind_res (add_rates rate16 qd
         (AddQosFlowParam5Qi (word_of_int (Var5qi qd))
           (SetQoSFlowDescOpCode QFDOpCreate
             (SetQoSFlowDescQfi (GetQosFlowIdFromQosId (QosId qd)) new_qfd))))
       (\<lambda>q. Ok (SetQFDEBitCreateNewQFD q))"

definition BuildAddQosFlowDescFromQoSDesc ::
    "(string \<Rightarrow> u16 option) \<Rightarrow> qos_data \<Rightarrow> qfd_authorized \<Rightarrow> qfd_authorized result" where
  "BuildAddQosFlowDescFromQoSDesc rate16 qd d = bind_res (add_qfd rate16 qd) (\<lambda>q. Ok (AddQFD q d))"

definition mod_qfd :: "(string \<Rightarrow> u16 option) \<Rightarrow> qos_data \<Rightarrow> qos_flow_description result" where
  "mod_qfd rate16 qd =
     (let q = SetQoSFlowDescOpCode QFDOpModify
                (SetQoSFlowDescQfi (GetQosFlowIdFromQosId (QosId qd)) new_qfd) in
      bind_res (add_rates rate16 qd
          (if Var5qi qd \<noteq> 0 then AddQosFlowParam5Qi (word_of_int (Var5qi qd)) q else q))
        (\<lambda>q. Ok (SetQFDEBitCreateNewQFD q)))"

definition BuildModQosFlowDescFromQoSDesc ::
    "(string \<Rightarrow> u16 option) \<Rightarrow> qos_data \<Rightarrow> qfd_authorized \<Rightarrow> qfd_authorized result" where
  "BuildModQosFlowDescFromQoSDesc rate16 qd d = bind_res (mod_qfd rate16 qd) (\<lambda>q. Ok (AddQFD q d))"

definition del_qfd :: "u8 \<Rightarrow> qos_flow_description" where
  "del_qfd qfi =
     SetQFDEBitDeleteExistingQFD (SetQoSFlowDescOpCode QFDOpDelete (SetQoSFlowDescQfi qfi new_qfd))"

definition BuildDelQosFlowDescFromQoSDesc :: "u8 \<Rightarrow> qfd_authorized \<Rightarrow> qfd_authorized" where
  "BuildDelQosFlowDescFromQoSDesc qfi d = AddQFD (del_qfd qfi) d"

definition AddDefaultQosFlowDescription :: "session_rule \<Rightarrow> qfd_authorized \<Rightarrow> qfd_authorized result" where
  "AddDefaultQosFlowDescription sessRule d =
     (case AuthDefQos sessRule of
        None \<Rightarrow> Panic ''nil pointer dereference''
      | Some a \<Rightarrow> Ok (AddQFD (SetQFDEBitCreateNewQFD (AddQosFlowParam5Qi (word_of_int (AdqVar5qi a))
           (SetQoSFlowDescOpCode QFDOpCreate (SetQoSFlowDescQfi (word_of_int (AdqVar5qi a)) new_qfd)))) d))"

fun fold_res :: "('a \<Rightarrow> 's \<Rightarrow> 's result) \<Rightarrow> 'a list \<Rightarrow> 's \<Rightarrow> 's result" where
  "fold_res f [] s = Ok s"
| "fold_res f (x # xs) s = bind_res (f x s) (fold_res f xs)"

text \<open>The key of a deleted entry as QFI; without QoS flow updates the QFI 0 is skipped, with them
  it is not.\<close>

definition del_pcc :: "string \<Rightarrow> qfd_authorized \<Rightarrow> qfd_authorized" where
  "del_pcc pccRuleID d =
     (let (qfiVal, err) = Atoi pccRuleID; qfi = word_of_int qfiVal in
      if err then d else if qfi = 0 then d else BuildDelQosFlowDescFromQoSDesc qfi d)"

definition del_flow :: "string \<Rightarrow> qfd_authorized \<Rightarrow> qfd_authorized" where
  "del_flow qfiStr d =
     (let (qfiVal, err) = Atoi qfiStr in
      if err then d else BuildDelQosFlowDescFromQoSDesc (word_of_int qfiVal) d)"

definition BuildAuthorizedQosFlowDescriptions ::
    "u8 \<Rightarrow> (string \<Rightarrow> u16 option) \<Rightarrow> policy_update \<Rightarrow> qfd_authorized result" where
  "BuildAuthorizedQosFlowDescriptions ieType rate16 u =
     (let d0 = \<lparr>QfdContent = [], IeType = ieType, IeLen = 0\<rparr> in
      bind_res
        (case QosFlowUpdate u of
           None \<Rightarrow>
             (case PccRuleUpdate u of
                None \<Rightarrow> Panic ''nil pointer dereference''
              | Some c \<Rightarrow> Ok (fold (\<lambda>e. del_pcc (fst e)) (del c) d0))
         | Some c \<Rightarrow>
             bind_res (fold_res (\<lambda>e. BuildAddQosFlowDescFromQoSDesc rate16 (snd e)) (add c) d0) (\<lambda>d.
             bind_res (fold_res (\<lambda>e. BuildAddQosFlowDescFromQoSDesc rate16 (snd e)) (modi c) d) (\<lambda>d.
               Ok (fold (\<lambda>e. del_flow (fst e)) (del c) d))))
        (\<lambda>d. Ok (d\<lparr>IeLen := of_nat (length (QfdContent d))\<rparr>)))"

definition IsEmpty :: "qfd_authorized \<Rightarrow> bool" where
  "IsEmpty d \<longleftrightarrow> IeLen d = 0 \<or> length (QfdContent d) = 0"

definition Validate :: "qfd_authorized \<Rightarrow> unit result" where
  "Validate d =
     (if IeLen d \<noteq> of_nat (length (QfdContent d)) then Err ''length mismatch''
      else if IeLen d = 0 then Err ''empty QoS flow descriptions''
      else Ok ())"

section \<open>Access to an update\<close>

definition GetModified :: "QosFlowsUpdate option \<Rightarrow> qos_data go_map" where
  "GetModified q = (case q of None \<Rightarrow> [] | Some c \<Rightarrow> modi c)"

definition GetAdded :: "QosFlowsUpdate option \<Rightarrow> qos_data go_map" where
  "GetAdded q = (case q of None \<Rightarrow> [] | Some c \<Rightarrow> add c)"

definition GetDeleted :: "QosFlowsUpdate option \<Rightarrow> qos_data option go_map" where
  "GetDeleted q = (case q of None \<Rightarrow> [] | Some c \<Rightarrow> del c)"

text \<open>The first default flow in iteration order; a nil entry panics when it is read, and the
  process exits (\<^verbatim>\<open>Fatalln\<close>) when there is none.\<close>

fun default_qos :: "qos_data option go_map \<Rightarrow> qos_data result" where
  "default_qos [] = Panic ''default Qos Data not received from PCF''"
| "default_qos ((i, None) # m) = Panic ''nil pointer dereference''"
| "default_qos ((i, Some q) # m) = (if DefQosFlowIndication q then Ok q else default_qos m)"

definition GetDefaultQoSDataFromPolicyDecision :: "sm_policy_decision \<Rightarrow> qos_data result" where
  "GetDefaultQoSDataFromPolicyDecision dec = default_qos (QosDecs dec)"

section \<open>Decoding\<close>

type_synonym param_view = "u8 \<times> byte list"
type_synonym qfd_view = "u8 \<times> u8 \<times> u8 \<times> param_view list"

fun decode_param :: "byte list \<Rightarrow> (param_view \<times> byte list) option" where
  "decode_param (i # l # rest) =
     (if unat l \<le> length rest then Some ((i, take (unat l) rest), drop (unat l) rest) else None)"
| "decode_param _ = None"

text \<open>QFI in bits 6 to 1 of the first octet, operation in bits 8 to 6 of the second, E bit and
  number of parameters in bit 7 and bits 6 to 1 of the third.\<close>

fun decode_qfd :: "byte list \<Rightarrow> (qfd_view \<times> byte list) option" where
  "decode_qfd (q # p # n # rest) =
     map_option (\<lambda>(ps, r). ((q AND 63, drop_bit 5 p, drop_bit 6 n AND 1, ps), r))
       (decode_n decode_param (unat (n AND 63)) rest)"
| "decode_qfd _ = None"

definition decode_qfds :: "byte list \<Rightarrow> qfd_view list option" where
  "decode_qfds bs = decode_all decode_qfd (length bs) bs"

definition view_param :: "qos_flow_parameter \<Rightarrow> param_view" where
  "view_param p = (ParamId p, ParamContent p)"

definition view_qfd :: "qos_flow_description \<Rightarrow> qfd_view" where
  "view_qfd q = (Qfi q AND 63, drop_bit 5 (OpCode q), drop_bit 6 (NumOfParam q) AND 1, map view_param (ParamList q))"

definition param_wf :: "qos_flow_parameter \<Rightarrow> bool" where
  "param_wf p \<longleftrightarrow> unat (ParamLen p) = length (ParamContent p)"

definition qfd_wf :: "qos_flow_description \<Rightarrow> bool" where
  "qfd_wf q \<longleftrightarrow> unat (NumOfParam q AND 63) = length (ParamList q) \<and> (\<forall>p \<in> set (ParamList q). param_wf p)"

interpretation param_codec: codec param_bytes decode_param view_param param_wf
  by unfold_locales (simp_all add: param_bytes_def view_param_def param_wf_def)

interpretation qfd_codec: codec qfd_bytes decode_qfd view_qfd qfd_wf
proof (unfold_locales, goal_cases)
  case (1 q rest)
  then have "\<forall>p \<in> set (ParamList q). param_wf p" by (simp add: qfd_wf_def)
  note dec = param_codec.decode_n_enc[OF this]
  have n: "unat (NumOfParam q AND 63) = length (ParamList q)" using 1 by (simp add: qfd_wf_def)
  show ?case unfolding qfd_bytes_def append_Cons decode_qfd.simps n dec by (simp add: view_qfd_def)
qed (simp add: qfd_bytes_def)

section \<open>Building a description\<close>

text \<open>While a description is built its counters follow its parameters.\<close>

definition building :: "nat \<Rightarrow> qos_flow_description \<Rightarrow> bool" where
  "building k q \<longleftrightarrow> length (ParamList q) \<le> k \<and> (\<forall>p \<in> set (ParamList q). param_wf p) \<and>
     NumOfParam q = of_nat (length (ParamList q)) \<and> QFDLen q = of_nat (length (qfd_bytes q)) \<and>
     length (qfd_bytes q) \<le> 3 + 5 * length (ParamList q)"

definition rate_view :: "(string \<Rightarrow> u16 option) \<Rightarrow> u8 \<Rightarrow> string \<Rightarrow> param_view list" where
  "rate_view rate16 i r =
     (if r = '''' then []
      else case GetBitRate rate16 r of Ok (v, u) \<Rightarrow> [(i, [u, hi8 v, lo8 v])] | _ \<Rightarrow> [])"

definition rate_views :: "(string \<Rightarrow> u16 option) \<Rightarrow> qos_data \<Rightarrow> param_view list" where
  "rate_views rate16 qd =
     rate_view rate16 QFDParameterIdMfbrUl (MaxbrUl qd) @ rate_view rate16 QFDParameterIdMfbrDl (MaxbrDl qd) @
     rate_view rate16 QFDParameterIdGfbrUl (GbrUl qd) @ rate_view rate16 QFDParameterIdGfbrDl (GbrDl qd)"

lemma building_new: "building 0 (SetQoSFlowDescOpCode a (SetQoSFlowDescQfi b new_qfd))"
  by (simp add: building_def new_qfd_def SetQoSFlowDescOpCode_def SetQoSFlowDescQfi_def qfd_bytes_def)

lemma building_mono: "building k q \<Longrightarrow> k \<le> j \<Longrightarrow> building j q"
  by (auto simp: building_def)

lemma building_5Qi: "building k q \<Longrightarrow> building (Suc k) (AddQosFlowParam5Qi v q)"
  by (auto simp: building_def AddQosFlowParam5Qi_def qfd_bytes_def param_bytes_def param_wf_def)

lemma add_rate_step:
  assumes "add_rate rate16 r i q = Ok q'" and "building k q"
  shows "building (Suc k) q' \<and> Qfi q' = Qfi q \<and> OpCode q' = OpCode q \<and>
    map view_param (ParamList q') = map view_param (ParamList q) @ rate_view rate16 i r"
  using assms
  by (auto simp: add_rate_def addQosFlowRateParam_def building_def SetQosFlowParamBitRate_def
      qfd_bytes_def param_bytes_def param_wf_def rate_view_def view_param_def split: if_splits)

lemma add_rates_step:
  assumes "add_rates rate16 qd q = Ok q'" and "building k q"
  shows "building (k + 4) q'" and "Qfi q' = Qfi q" and "OpCode q' = OpCode q"
    and "map view_param (ParamList q') = map view_param (ParamList q) @ rate_views rate16 qd"
proof -
  from assms(1) obtain a b c where
    s: "add_rate rate16 (MaxbrUl qd) 4 q = Ok a" "add_rate rate16 (MaxbrDl qd) 5 a = Ok b"
       "add_rate rate16 (GbrUl qd) 2 b = Ok c" "add_rate rate16 (GbrDl qd) 3 c = Ok q'"
    by (auto simp: add_rates_def)
  note a = add_rate_step[OF s(1) assms(2)]
  note b = add_rate_step[OF s(2) conjunct1[OF a]]
  note c = add_rate_step[OF s(3) conjunct1[OF b]]
  note d = add_rate_step[OF s(4) conjunct1[OF c]]
  have e: "k + 4 = Suc (Suc (Suc (Suc k)))" by simp
  show "building (k + 4) q'" unfolding e by (rule conjunct1[OF d])
  show "Qfi q' = Qfi q" "OpCode q' = OpCode q"
    "map view_param (ParamList q') = map view_param (ParamList q) @ rate_views rate16 qd"
    using a b c d by (simp_all add: rate_views_def)
qed

text \<open>Setting the E bit does not disturb the number of parameters.\<close>

lemma ebit_fields:
  assumes "n < 64"
  shows "unat (((of_nat n :: u8) OR 64) AND 63) = n" and "drop_bit 6 ((of_nat n :: u8) OR 64) AND 1 = 1"
proof -
  have u: "unat (of_nat n :: u8) = n" using assms by (simp add: unat_of_nat)
  have e: "(of_nat n :: u8) OR 64 = push_bit 6 1 OR of_nat n" by (simp add: or.commute)
  have "(push_bit 6 1 OR of_nat n) AND (63 :: u8) = of_nat n" unfolding mask_u8
    using assms by (intro field_lo) (simp add: u)
  with u e show "unat (((of_nat n :: u8) OR 64) AND 63) = n" by simp
  have "drop_bit 6 (push_bit 6 1 OR of_nat n) AND mask 1 = (1 :: u8)"
    using assms by (intro field_hi) (simp_all add: u)
  with e show "drop_bit 6 ((of_nat n :: u8) OR 64) AND 1 = 1" by simp
qed

lemma finish_create:
  assumes "building k q" and "k \<le> 50"
  shows "qfd_wf (SetQFDEBitCreateNewQFD q)"
    and "view_qfd (SetQFDEBitCreateNewQFD q) = (Qfi q AND 63, drop_bit 5 (OpCode q), 1, map view_param (ParamList q))"
    and "unat (QFDLen (SetQFDEBitCreateNewQFD q)) = length (qfd_bytes (SetQFDEBitCreateNewQFD q))"
proof -
  have n: "length (ParamList q) < 64" and num: "NumOfParam q = of_nat (length (ParamList q))"
    using assms by (simp_all add: building_def)
  show "qfd_wf (SetQFDEBitCreateNewQFD q)"
    using assms(1) ebit_fields(1)[OF n] by (simp add: qfd_wf_def SetQFDEBitCreateNewQFD_def building_def num)
  show "view_qfd (SetQFDEBitCreateNewQFD q) = (Qfi q AND 63, drop_bit 5 (OpCode q), 1, map view_param (ParamList q))"
    using ebit_fields(2)[OF n] by (simp add: view_qfd_def SetQFDEBitCreateNewQFD_def num)
  have l: "length (qfd_bytes (SetQFDEBitCreateNewQFD q)) = length (qfd_bytes q)"
    by (simp add: SetQFDEBitCreateNewQFD_def qfd_bytes_def)
  moreover have "length (qfd_bytes q) < 256" using assms by (simp add: building_def)
  ultimately show "unat (QFDLen (SetQFDEBitCreateNewQFD q)) = length (qfd_bytes (SetQFDEBitCreateNewQFD q))"
    using assms(1) by (simp add: l building_def SetQFDEBitCreateNewQFD_def unat_of_nat)
qed

section \<open>What an update puts on the wire\<close>

text \<open>A created flow: its QFI, operation 1 (create), E bit 1, 5QI first and then the rates.\<close>

definition flow_view :: "(string \<Rightarrow> u16 option) \<Rightarrow> qos_data \<Rightarrow> qfd_view" where
  "flow_view rate16 qd =
     (GetQosFlowIdFromQosId (QosId qd) AND 63, 1, 1,
      (QFDParameterId5Qi, [word_of_int (Var5qi qd)]) # rate_views rate16 qd)"

text \<open>A deleted flow: the key as QFI, operation 3 (delete), E bit 0, no parameters.\<close>

definition key_qfi :: "string \<Rightarrow> u8 option" where
  "key_qfi s = (let (i, err) = Atoi s in if err then None else Some (word_of_int i))"

definition delete_view :: "u8 \<Rightarrow> qfd_view" where
  "delete_view qfi = (qfi AND 63, 3, 0, [])"

lemma add_qfd_created:
  assumes "add_qfd rate16 qd = Ok q"
  shows "qfd_wf q" and "view_qfd q = flow_view rate16 qd" and "unat (QFDLen q) = length (qfd_bytes q)"
proof -
  let ?b = "SetQoSFlowDescOpCode 32 (SetQoSFlowDescQfi (GetQosFlowIdFromQosId (QosId qd)) new_qfd)"
  from assms obtain p where p: "add_rates rate16 qd (AddQosFlowParam5Qi (word_of_int (Var5qi qd)) ?b) = Ok p"
    and q: "q = SetQFDEBitCreateNewQFD p" by (auto simp: add_qfd_def)
  note st = add_rates_step[OF p building_5Qi[OF building_new]]
  note fin = finish_create[OF st(1), simplified]
  show "qfd_wf q" "unat (QFDLen q) = length (qfd_bytes q)" using fin q by simp_all
  have "(63 AND x) AND 63 = x AND 63" for x :: u8
    by (simp only: and.assoc and.commute[of 63] and.idem)
  then show "view_qfd q = flow_view rate16 qd"
    using fin(2) q st(2-4)
    by (simp add: flow_view_def AddQosFlowParam5Qi_def SetQoSFlowDescOpCode_def SetQoSFlowDescQfi_def
        new_qfd_def view_param_def)
qed

lemma del_qfd_deleted: "qfd_wf (del_qfd qfi)" "view_qfd (del_qfd qfi) = delete_view qfi"
  "unat (QFDLen (del_qfd qfi)) = length (qfd_bytes (del_qfd qfi))"
proof -
  have "(63 AND x) AND 63 = x AND 63" for x :: u8
    by (simp only: and.assoc and.commute[of 63] and.idem)
  then show "view_qfd (del_qfd qfi) = delete_view qfi"
    by (simp add: view_qfd_def delete_view_def del_qfd_def SetQFDEBitDeleteExistingQFD_def
        SetQoSFlowDescOpCode_def SetQoSFlowDescQfi_def new_qfd_def)
qed (simp_all add: qfd_wf_def del_qfd_def SetQFDEBitDeleteExistingQFD_def
        SetQoSFlowDescOpCode_def SetQoSFlowDescQfi_def new_qfd_def qfd_bytes_def)

text \<open>The element holds exactly the given descriptions.\<close>

definition holds_qfds :: "qfd_view list \<Rightarrow> qfd_authorized \<Rightarrow> bool" where
  "holds_qfds vs d \<longleftrightarrow> (\<exists>qs. QfdContent d = concat (map qfd_bytes qs) \<and> map view_qfd qs = vs \<and>
     (\<forall>q \<in> set qs. qfd_wf q))"

lemma holds_qfds_AddQFD:
  "holds_qfds vs d \<Longrightarrow> qfd_wf q \<Longrightarrow> holds_qfds (vs @ [view_qfd q]) (AddQFD q d)"
  unfolding holds_qfds_def AddQFD_def
  by (elim exE conjE, rule_tac x = "qs @ [q]" in exI) auto

lemma holds_qfds_decode: "holds_qfds vs d \<Longrightarrow> decode_qfds (QfdContent d) = Some vs"
  unfolding holds_qfds_def decode_qfds_def using qfd_codec.decode_bytes by auto

lemma BuildAdd_Ok_iff:
  "BuildAddQosFlowDescFromQoSDesc rate16 qd d = Ok d' \<longleftrightarrow> (\<exists>q. add_qfd rate16 qd = Ok q \<and> AddQFD q d = d')"
  by (simp add: BuildAddQosFlowDescFromQoSDesc_def)

lemma holds_qfds_add:
  "fold_res (\<lambda>e. BuildAddQosFlowDescFromQoSDesc rate16 (snd e)) m d = Ok d' \<Longrightarrow> holds_qfds vs d \<Longrightarrow>
   holds_qfds (vs @ map (\<lambda>e. flow_view rate16 (snd e)) m) d'"
proof (induction m arbitrary: d vs)
  case (Cons e m)
  from Cons.prems(1) obtain q where q: "add_qfd rate16 (snd e) = Ok q"
    and r: "fold_res (\<lambda>e. BuildAddQosFlowDescFromQoSDesc rate16 (snd e)) m (AddQFD q d) = Ok d'"
    by (auto simp: BuildAdd_Ok_iff)
  from Cons.IH[OF r holds_qfds_AddQFD[OF Cons.prems(2) add_qfd_created(1)[OF q]]]
  show ?case by (simp add: add_qfd_created(2)[OF q])
qed simp

lemma holds_qfds_del:
  "holds_qfds vs d \<Longrightarrow>
   holds_qfds (vs @ map delete_view (List.map_filter (\<lambda>e. key_qfi (fst e)) m)) (fold (\<lambda>e. del_flow (fst e)) m d)"
proof (induction m arbitrary: d vs)
  case (Cons e m)
  show ?case
  proof (cases "Atoi (fst e)")
    case (Pair i err)
    show ?thesis
    proof (cases err)
      case True
      then show ?thesis using Cons Pair by (simp add: del_flow_def key_qfi_def List.map_filter_simps)
    next
      case False
      have "holds_qfds (vs @ [delete_view (word_of_int i)]) (del_flow (fst e) d)"
        using holds_qfds_AddQFD[OF Cons.prems del_qfd_deleted(1)] False Pair
        by (simp add: del_flow_def BuildDelQosFlowDescFromQoSDesc_def del_qfd_deleted(2))
      from Cons.IH[OF this] False Pair show ?thesis by (simp add: key_qfi_def List.map_filter_simps)
    qed
  qed
qed (simp add: List.map_filter_simps)

text \<open>The length that \<^verbatim>\<open>AddQFD\<close> adds is the number of octets it appends.\<close>

lemma mod_qfd_len:
  assumes "mod_qfd rate16 qd = Ok q"
  shows "unat (QFDLen q) = length (qfd_bytes q)"
proof -
  let ?b = "SetQoSFlowDescOpCode 64 (SetQoSFlowDescQfi (GetQosFlowIdFromQosId (QosId qd)) new_qfd)"
  let ?q = "if Var5qi qd \<noteq> 0 then AddQosFlowParam5Qi (word_of_int (Var5qi qd)) ?b else ?b"
  from assms obtain p where p: "add_rates rate16 qd ?q = Ok p" and q: "q = SetQFDEBitCreateNewQFD p"
    by (auto simp: mod_qfd_def Let_def)
  have "building 1 ?q"
  proof (cases "Var5qi qd = 0")
    case True
    then show ?thesis using building_mono[OF building_new, of 1] by simp
  next
    case False
    then show ?thesis using building_5Qi[OF building_new, of "word_of_int (Var5qi qd)" 64] by simp
  qed
  from finish_create(3)[OF add_rates_step(1)[OF p this]] q show ?thesis by simp
qed

lemma AddQFD_IeLen:
  assumes "IeLen d = of_nat (length (QfdContent d))" and "unat (QFDLen q) = length (qfd_bytes q)"
  shows "IeLen (AddQFD q d) = of_nat (length (QfdContent (AddQFD q d))) \<and> QfdContent (AddQFD q d) \<noteq> []"
proof -
  have "(ucast (QFDLen q) :: u16) = of_nat (unat (QFDLen q))" by simp
  then show ?thesis using assms by (simp add: AddQFD_def qfd_bytes_def)
qed

lemma Validate_consistent:
  assumes "IeLen d = of_nat (length (QfdContent d))" and "QfdContent d \<noteq> []" and "length (QfdContent d) < 2 ^ 16"
  shows "Validate d = Ok () \<and> \<not> IsEmpty d"
proof -
  have "unat (of_nat (length (QfdContent d)) :: u16) = length (QfdContent d)" using assms(3) by (simp add: unat_of_nat)
  then have "IeLen d \<noteq> 0" using assms(1,2) by auto
  then show ?thesis using assms by (simp add: Validate_def IsEmpty_def)
qed

lemma Default_AddQFD:
  assumes "AddDefaultQosFlowDescription sr d = Ok d'"
  shows "\<exists>q. d' = AddQFD q d \<and> unat (QFDLen q) = length (qfd_bytes q)"
  using assms finish_create(3)[OF building_5Qi[OF building_new]]
  by (auto simp: AddDefaultQosFlowDescription_def split: option.splits)

section \<open>Properties\<close>

text \<open>C7: what the UE reads.  Whenever the descriptions for an update of the QoS flows are built,
  the element parses, and a receiver finds exactly one \<^verbatim>\<open>create\<close> description for each added and
  then each modified flow, with its QFI, 5QI and the rates that are present, followed by one
  \<^verbatim>\<open>delete\<close> description for each deleted key that is a number.  The length field is the number
  of octets modulo 65536.\<close>

theorem authorized_flows_decode:
  assumes "QosFlowUpdate u = Some c"
    and "BuildAuthorizedQosFlowDescriptions ieType rate16 u = Ok d"
  shows "decode_qfds (QfdContent d) =
      Some (map (\<lambda>e. flow_view rate16 (snd e)) (add c @ modi c) @
            map delete_view (List.map_filter (\<lambda>e. key_qfi (fst e)) (del c))) \<and>
    IeLen d = of_nat (length (QfdContent d))"
proof -
  let ?d0 = "\<lparr>QfdContent = [], IeType = ieType, IeLen = 0\<rparr>"
  from assms obtain a b where
    a: "fold_res (\<lambda>e. BuildAddQosFlowDescFromQoSDesc rate16 (snd e)) (add c) ?d0 = Ok a" and
    b: "fold_res (\<lambda>e. BuildAddQosFlowDescFromQoSDesc rate16 (snd e)) (modi c) a = Ok b" and
    d: "d = (fold (\<lambda>e. del_flow (fst e)) (del c) b)\<lparr>IeLen := of_nat (length (QfdContent (fold (\<lambda>e. del_flow (fst e)) (del c) b)))\<rparr>"
    by (auto simp: BuildAuthorizedQosFlowDescriptions_def Let_def)
  have "holds_qfds [] ?d0" by (simp add: holds_qfds_def)
  note h = holds_qfds_del[OF holds_qfds_add[OF b holds_qfds_add[OF a this]], of "del c"]
  from holds_qfds_decode[OF h] show ?thesis by (simp add: d)
qed

theorem authorized_flows_decode_witness:
  "\<exists>d. BuildAuthorizedQosFlowDescriptions 0x79 (\<lambda>s. if s = ''10'' then Some 10 else None)
       \<lparr>SessRuleUpdate = None, PccRuleUpdate = None,
        QosFlowUpdate = Some \<lparr>add = [(''a'', zero_qos_data\<lparr>QosId := ''2'', Var5qi := 9, MaxbrUl := ''10 Mbps''\<rparr>)],
          modi = [], del = [(''5'', None), (''x'', None)]\<rparr>,
        TCUpdate = None, SmPolicyDecision = None\<rparr> = Ok d \<and>
     QfdContent d = [2, 32, 66, 1, 1, 9, 4, 3, 6, 0, 10, 5, 96, 0] \<and>
     decode_qfds (QfdContent d) = Some [(2, 1, 1, [(1, [9]), (4, [6, 0, 10])]), (5, 3, 0, [])]"
proof -
  let ?r = "\<lambda>s. if s = ''10'' then Some 10 else None"
  let ?c = "\<lparr>add = [(''a'', zero_qos_data\<lparr>QosId := ''2'', Var5qi := 9, MaxbrUl := ''10 Mbps''\<rparr>)],
     modi = [], del = [(''5'', None :: qos_data option), (''x'', None)]\<rparr>"
  let ?u = "\<lparr>SessRuleUpdate = None, PccRuleUpdate = None, QosFlowUpdate = Some ?c, TCUpdate = None, SmPolicyDecision = None\<rparr>"
  let ?d = "\<lparr>QfdContent = [2, 32, 66, 1, 1, 9, 4, 3, 6, 0, 10, 5, 96, 0], IeType = 0x79, IeLen = 14\<rparr>"
  have b: "BuildAuthorizedQosFlowDescriptions 0x79 ?r ?u = Ok ?d"
    by (simp add: BuildAuthorizedQosFlowDescriptions_def BuildAddQosFlowDescFromQoSDesc_def add_qfd_def
        add_rates_def add_rate_def addQosFlowRateParam_def GetBitRate_def SetQosFlowParamBitRate_def
        AddQosFlowParam5Qi_def SetQoSFlowDescOpCode_def SetQoSFlowDescQfi_def SetQFDEBitCreateNewQFD_def
        new_qfd_def AddQFD_def qfd_bytes_def param_bytes_def zero_qos_data_def GetQosFlowIdFromQosId_def
        del_flow_def BuildDelQosFlowDescFromQoSDesc_def del_qfd_def SetQFDEBitDeleteExistingQFD_def
        nth_res_def hi8_def lo8_def go_simps)
  from authorized_flows_decode[OF _ b, of ?c] b show ?thesis
    by (simp add: flow_view_def delete_view_def rate_views_def rate_view_def GetBitRate_def
        key_qfi_def List.map_filter_simps GetQosFlowIdFromQosId_def zero_qos_data_def nth_res_def
        hi8_def lo8_def go_simps)
qed

text \<open>C8: the length bookkeeping of the element.  Every way of adding a description (create,
  modify, delete, default flow) keeps the length field equal to the number of octets modulo 65536,
  so an element that was consistent and stays short of 64 KiB passes \<^verbatim>\<open>Validate\<close> after each.\<close>

theorem adding_keeps_IeLen:
  assumes "IeLen d = of_nat (length (QfdContent d))"
    and "BuildAddQosFlowDescFromQoSDesc rate16 qd d = Ok d' \<or> BuildModQosFlowDescFromQoSDesc rate16 qd d = Ok d' \<or>
         BuildDelQosFlowDescFromQoSDesc qfi d = d' \<or> AddDefaultQosFlowDescription sr d = Ok d'"
    and "length (QfdContent d') < 2 ^ 16"
  shows "IeLen d' = of_nat (length (QfdContent d')) \<and> Validate d' = Ok () \<and> \<not> IsEmpty d'"
proof -
  from assms(2) obtain q where q: "d' = AddQFD q d" "unat (QFDLen q) = length (qfd_bytes q)"
    using add_qfd_created(3)[of rate16 qd] mod_qfd_len[of rate16 qd] del_qfd_deleted(3)[of qfi] Default_AddQFD[of sr d d']
    by (auto simp: BuildAdd_Ok_iff BuildModQosFlowDescFromQoSDesc_def BuildDelQosFlowDescFromQoSDesc_def)
  note l = AddQFD_IeLen[OF assms(1) q(2), folded q(1)]
  with Validate_consistent[OF _ _ assms(3)] show ?thesis by blast
qed

theorem adding_keeps_IeLen_witness:
  "\<exists>d'. AddDefaultQosFlowDescription \<lparr>SessRuleId = ''r'', AuthSessAmbr = None,
       AuthDefQos = Some \<lparr>AdqVar5qi = 9, AdqPriorityLevel = 8, AdqArp = None\<rparr>\<rparr>
       \<lparr>QfdContent = [5, 96, 0], IeType = 0x79, IeLen = 3\<rparr> = Ok d' \<and>
     QfdContent d' = [5, 96, 0, 9, 32, 65, 1, 1, 9] \<and> IeLen d' = 9 \<and> Validate d' = Ok ()"
proof -
  let ?sr = "\<lparr>SessRuleId = ''r'', AuthSessAmbr = None,
     AuthDefQos = Some \<lparr>AdqVar5qi = 9, AdqPriorityLevel = 8, AdqArp = None\<rparr>\<rparr>"
  let ?d = "\<lparr>QfdContent = [5, 96, 0], IeType = 0x79, IeLen = 3\<rparr> :: qfd_authorized"
  let ?d' = "\<lparr>QfdContent = [5, 96, 0, 9, 32, 65, 1, 1, 9], IeType = 0x79, IeLen = 9\<rparr> :: qfd_authorized"
  have a: "AddDefaultQosFlowDescription ?sr ?d = Ok ?d'"
    by (simp add: AddDefaultQosFlowDescription_def AddQosFlowParam5Qi_def SetQoSFlowDescOpCode_def
        SetQoSFlowDescQfi_def SetQFDEBitCreateNewQFD_def new_qfd_def AddQFD_def qfd_bytes_def param_bytes_def)
  then show ?thesis using adding_keeps_IeLen[of ?d _ _ ?d' _ ?sr] by simp
qed

text \<open>A rate in a unit other than Kbps, Mbps and Gbps is signalled as Mbit/s: with any way of
  reading the number, \<^verbatim>\<open>500 bps\<close> and \<^verbatim>\<open>500 Tbps\<close> are encoded like \<^verbatim>\<open>500 Mbps\<close>, and a
  rate without a unit panics.\<close>

lemma GetBitRate_unknown_unit:
  "GetBitRate rate16 ''500 bps'' = GetBitRate rate16 ''500 Mbps'' \<and>
   GetBitRate rate16 ''500 Tbps'' = GetBitRate rate16 ''500 Mbps'' \<and>
   is_Panic (GetBitRate rate16 ''500'')"
  by (simp add: GetBitRate_def nth_res_def go_simps)

end
