(* ===== verification/Pfcp_Transport.thy ===== *)
theory Pfcp_Transport
  imports Smf_Prelude
begin

text \<open>
  The PFCP transport, \<^verbatim>\<open>src/pfcp/udp\<close>: the table of outstanding transactions, sending a
  message, the goroutine that resends a request until a response arrives, and the read loop that
  matches responses to requests.  The goroutines are interleaved by a step relation; the network
  and the timers are the inputs of the steps.  Marshalling and parsing belong to the PFCP library
  and are arguments.  An address is its printed form, as in the keys of the table.
\<close>

section \<open>Messages and transactions\<close>

datatype message_type =
    HeartbeatRequest | HeartbeatResponse
  | PFDManagementRequest | PFDManagementResponse
  | AssociationSetupRequest | AssociationSetupResponse
  | AssociationUpdateRequest | AssociationUpdateResponse
  | AssociationReleaseRequest | AssociationReleaseResponse
  | VersionNotSupportedResponse
  | NodeReportRequest | NodeReportResponse
  | SessionSetDeletionRequest | SessionSetDeletionResponse
  | SessionEstablishmentRequest | SessionEstablishmentResponse
  | SessionModificationRequest | SessionModificationResponse
  | SessionDeletionRequest | SessionDeletionResponse
  | SessionReportRequest | SessionReportResponse
  | OtherMessage u8

record pfcp_message =
  MsgType :: message_type
  Sequence :: u32

definition IsRequest :: "pfcp_message \<Rightarrow> bool" where
  "IsRequest msg = (case MsgType msg of
      HeartbeatRequest \<Rightarrow> True | PFDManagementRequest \<Rightarrow> True | AssociationSetupRequest \<Rightarrow> True
    | AssociationUpdateRequest \<Rightarrow> True | AssociationReleaseRequest \<Rightarrow> True | NodeReportRequest \<Rightarrow> True
    | SessionSetDeletionRequest \<Rightarrow> True | SessionEstablishmentRequest \<Rightarrow> True
    | SessionModificationRequest \<Rightarrow> True | SessionDeletionRequest \<Rightarrow> True | SessionReportRequest \<Rightarrow> True
    | _ \<Rightarrow> False)"

definition IsResponse :: "pfcp_message \<Rightarrow> bool" where
  "IsResponse msg = (case MsgType msg of
      HeartbeatResponse \<Rightarrow> True | PFDManagementResponse \<Rightarrow> True | AssociationSetupResponse \<Rightarrow> True
    | AssociationUpdateResponse \<Rightarrow> True | AssociationReleaseResponse \<Rightarrow> True | NodeReportResponse \<Rightarrow> True
    | SessionSetDeletionResponse \<Rightarrow> True | SessionEstablishmentResponse \<Rightarrow> True
    | SessionModificationResponse \<Rightarrow> True | SessionDeletionResponse \<Rightarrow> True | SessionReportResponse \<Rightarrow> True
    | _ \<Rightarrow> False)"

datatype TransactionType = SendingRequest | SendingResponse

datatype EventType = ReceiveResendRequest | ReceiveValidResponse

text \<open>The event data is nil, a \<^verbatim>\<open>PfcpEventData\<close> with or without an error handler, or a value of
  some other type.\<close>

datatype event_data = NoEventData | PfcpEventData (hasErrHandler: bool) (LSEID: u64) | OtherEventData

text \<open>Where the goroutine of a transaction is: before the write of an iteration, in the
  \<^verbatim>\<open>select\<close> of an iteration, returned from \<^verbatim>\<open>Start\<close> with an error or nil, or ended.\<close>

datatype pc = Sending nat | Waiting nat | Returned "string option" | Ended

record transaction =
  EventChannel :: "EventType list"
  DestAddr :: string
  ConsumerAddr :: string
  EventData :: event_data
  SendMsg :: "byte list"
  SequenceNumber :: u32
  MessageType :: message_type
  TxType :: TransactionType
  pc :: pc
  writes :: nat

abbreviation (input) NumOfResend :: nat where "NumOfResend \<equiv> 3"

definition NewTransaction ::
    "pfcp_message \<Rightarrow> byte list \<Rightarrow> string \<Rightarrow> string \<Rightarrow> event_data \<Rightarrow> transaction" where
  "NewTransaction pfcpMSG binaryMSG localAddr destAddr eventData =
     (let tx = \<lparr>EventChannel = [], DestAddr = destAddr, ConsumerAddr = '''', EventData = eventData,
        SendMsg = binaryMSG, SequenceNumber = Sequence pfcpMSG, MessageType = MsgType pfcpMSG,
        TxType = SendingRequest, pc = Sending 0, writes = 0\<rparr> in
      if IsRequest pfcpMSG then tx\<lparr>TxType := SendingRequest, ConsumerAddr := localAddr\<rparr>
      else if IsResponse pfcpMSG then tx\<lparr>TxType := SendingResponse, ConsumerAddr := destAddr\<rparr>
      else tx)"

section \<open>The resend loop\<close>

text \<open>What the environment contributes: the result of the write, a ready event channel, or the
  timer.\<close>

datatype start_input = Write "string option" | Receive | TimerFires

text \<open>The end of an iteration: the next one, or the return value when the loop is exhausted.\<close>

definition next_iter :: "nat \<Rightarrow> transaction \<Rightarrow> transaction" where
  "next_iter i tx =
     tx\<lparr>pc := (if i + 1 < NumOfResend then Sending (i + 1)
              else Returned (if TxType tx = SendingRequest then Some ''request timeout'' else None))\<rparr>"

definition start_step :: "start_input \<Rightarrow> transaction \<Rightarrow> transaction option" where
  "start_step inp tx = (case (pc tx, inp) of
      (Sending i, Write None) \<Rightarrow> Some (tx\<lparr>pc := Waiting i, writes := writes tx + 1\<rparr>)
    | (Sending i, Write (Some e)) \<Rightarrow> Some (tx\<lparr>pc := Returned (Some e)\<rparr>)
    | (Waiting i, Receive) \<Rightarrow>
        (case EventChannel tx of
           [] \<Rightarrow> None
         | e # es \<Rightarrow>
             (let tx' = tx\<lparr>EventChannel := es\<rparr> in
              Some (if TxType tx = SendingRequest \<and> e = ReceiveValidResponse
                    then tx'\<lparr>pc := Returned None\<rparr> else next_iter i tx')))
    | (Waiting i, TimerFires) \<Rightarrow>
        Some (if TxType tx = SendingRequest then next_iter i tx
              else tx\<lparr>pc := Returned (Some ''response timeout'')\<rparr>)
    | _ \<Rightarrow> None)"

section \<open>The server\<close>

text \<open>The tables hold pointers to transactions; a pointer is a number.\<close>

type_synonym tid = nat
type_synonym tx_table = "u32 \<rightharpoonup> tid"

definition TxTable_Store :: "u32 \<Rightarrow> tid \<Rightarrow> tx_table \<Rightarrow> tx_table" where
  "TxTable_Store sequenceNumber tx t = t(sequenceNumber \<mapsto> tx)"

definition TxTable_Load :: "u32 \<Rightarrow> tx_table option \<Rightarrow> tid option" where
  "TxTable_Load sequenceNumber t = (case t of None \<Rightarrow> None | Some m \<Rightarrow> m sequenceNumber)"

definition TxTable_Delete :: "u32 \<Rightarrow> tx_table \<Rightarrow> tx_table" where
  "TxTable_Delete sequenceNumber t = t(sequenceNumber := None)"

record pfcp_server =
  Addr :: string
  Conn :: "string option"
  ConsumerTable :: "string \<rightharpoonup> tx_table"

definition ConsumerTable_Load :: "string \<Rightarrow> pfcp_server \<Rightarrow> tx_table option" where
  "ConsumerTable_Load consumerAddr sv = ConsumerTable sv consumerAddr"

definition ConsumerTable_Store :: "string \<Rightarrow> tx_table \<Rightarrow> pfcp_server \<Rightarrow> pfcp_server" where
  "ConsumerTable_Store consumerAddr t sv = sv\<lparr>ConsumerTable := (ConsumerTable sv)(consumerAddr \<mapsto> t)\<rparr>"

text \<open>
  The insertion after the first look-up of the table, whose answer is \<^verbatim>\<open>exist\<close>; another
  goroutine may run in between.
\<close>

definition put_from :: "bool \<Rightarrow> tid \<Rightarrow> transaction \<Rightarrow> pfcp_server \<Rightarrow> unit result \<times> pfcp_server" where
  "put_from exist tid tx sv =
     (let sv1 = (if \<not> exist then ConsumerTable_Store (ConsumerAddr tx) Map.empty sv else sv) in
      case ConsumerTable_Load (ConsumerAddr tx) sv1 of
        None \<Rightarrow> (Panic ''nil pointer dereference'', sv1)
      | Some txTable \<Rightarrow>
          if TxTable_Load (SequenceNumber tx) (Some txTable) = None
          then (Ok (), ConsumerTable_Store (ConsumerAddr tx)
                        (TxTable_Store (SequenceNumber tx) tid txTable) sv1)
          else (Err ''insert tx error: duplicate sequence number'', sv1))"

definition PutTransaction :: "tid \<Rightarrow> transaction \<Rightarrow> pfcp_server \<Rightarrow> unit result \<times> pfcp_server" where
  "PutTransaction tid tx sv =
     put_from (ConsumerTable_Load (ConsumerAddr tx) sv \<noteq> None) tid tx sv"

definition removeTransaction :: "transaction \<Rightarrow> pfcp_server option \<Rightarrow> unit result \<times> pfcp_server option" where
  "removeTransaction tx server = (case server of
      None \<Rightarrow> (Err ''PFCP server is not initialized'', None)
    | Some sv \<Rightarrow>
        (case ConsumerTable_Load (ConsumerAddr tx) sv of
           None \<Rightarrow> (Err ''remove tx error: transaction doesn't exist'', Some sv)
         | Some txTable \<Rightarrow>
             if TxTable_Load (SequenceNumber tx) (Some txTable) \<noteq> None
             then (Ok (), Some (ConsumerTable_Store (ConsumerAddr tx)
                           (TxTable_Delete (SequenceNumber tx) txTable) sv))
             else (Err ''remove tx error: transaction doesn't exist'', Some sv)))"

definition findTransaction ::
    "pfcp_message \<Rightarrow> string \<Rightarrow> pfcp_server option \<Rightarrow> tid option result" where
  "findTransaction msg consumerAddr server = (case server of
      None \<Rightarrow> Err ''PFCP server is not initialized''
    | Some sv \<Rightarrow>
        if IsResponse msg then
          (case ConsumerTable_Load consumerAddr sv of
             None \<Rightarrow> Err ''txTable not found''
           | Some txTable \<Rightarrow>
               (case TxTable_Load (Sequence msg) (Some txTable) of
                  None \<Rightarrow> Err ''sequence number not found''
                | Some tx \<Rightarrow> Ok (Some tx)))
        else if IsRequest msg then
          (case ConsumerTable_Load consumerAddr sv of
             None \<Rightarrow> Ok None
           | Some txTable \<Rightarrow>
               (case TxTable_Load (Sequence msg) (Some txTable) of None \<Rightarrow> Ok None | Some tx \<Rightarrow> Ok (Some tx)))
        else Ok None)"

text \<open>
  The state that the goroutines share: the server, the transactions by pointer, the position of
  the read loop, and what has been handed on: the messages dispatched and the calls of the error
  handlers.
\<close>

datatype read_outcome = ReadOutcome (msgOf: pfcp_message) (dataOf: event_data) (errOf: "string option")

datatype reader = Reading | Delivering tid EventType read_outcome

record pfcp_state =
  Server :: "pfcp_server option"
  txs :: "tid \<rightharpoonup> transaction"
  nextTid :: tid
  reader :: reader
  dispatched :: "(pfcp_message \<times> event_data) list"
  failures :: "(tid \<times> pfcp_message \<times> string) list"

section \<open>Sending\<close>

definition SendPfcp ::
    "(pfcp_message \<Rightarrow> byte list option) \<Rightarrow> pfcp_message \<Rightarrow> string \<Rightarrow> event_data \<Rightarrow> pfcp_state \<Rightarrow>
     unit result \<times> pfcp_state" where
  "SendPfcp marshal msg addr eventData s = (case Server s of
      None \<Rightarrow> (Err ''PFCP server is not initialized'', s)
    | Some sv \<Rightarrow>
        (case Conn sv of
           None \<Rightarrow> (Err ''PFCP server is not listening'', s)
         | Some localAddr \<Rightarrow>
             (case marshal msg of
                None \<Rightarrow> (Err ''marshal error'', s)
              | Some buf \<Rightarrow>
                  (let tx = NewTransaction msg buf localAddr addr eventData; tid = nextTid s in
                   case PutTransaction tid tx sv of
                     (Ok _, sv') \<Rightarrow>
                       (Ok (), s\<lparr>Server := Some sv', txs := (txs s)(tid \<mapsto> tx), nextTid := tid + 1\<rparr>)
                   | (e, sv') \<Rightarrow> (e, s\<lparr>Server := Some sv'\<rparr>)))))"

text \<open>The end of a life cycle: the transaction is removed, and a failure is handed to the error
  handler together with the message parsed back from the bytes that were sent.\<close>

definition startTxLifeCycle ::
    "(byte list \<Rightarrow> pfcp_message option) \<Rightarrow> tid \<Rightarrow> transaction \<Rightarrow> pfcp_state \<Rightarrow> pfcp_state" where
  "startTxLifeCycle parse tid tx s = (case pc tx of
      Returned sendErr \<Rightarrow>
        (let s1 = s\<lparr>Server := snd (removeTransaction tx (Server s)), txs := (txs s)(tid \<mapsto> tx\<lparr>pc := Ended\<rparr>)\<rparr> in
         case (sendErr, EventData tx) of
           (Some e, PfcpEventData True lseid) \<Rightarrow>
             (case parse (SendMsg tx) of
                None \<Rightarrow> s1
              | Some msg \<Rightarrow> s1\<lparr>failures := failures s @ [(tid, msg, e)]\<rparr>)
         | _ \<Rightarrow> s1)
    | _ \<Rightarrow> s)"

section \<open>Receiving\<close>

text \<open>
  One call of \<^verbatim>\<open>readPfcpMessage\<close> up to its send on the event channel: either it returns at once
  (with nothing, when there is no message to hand on) or it has an event to deliver first.
\<close>

datatype read_action = ReadError string | ReadReturns read_outcome | ReadDelivers tid EventType read_outcome

definition readPfcpMessage ::
    "(byte list \<Rightarrow> pfcp_message option) \<Rightarrow> (string \<times> byte list) option \<Rightarrow> pfcp_state \<Rightarrow> read_action result" where
  "readPfcpMessage parse datagram s = (case Server s of
      None \<Rightarrow> Ok (ReadError ''PFCP server is not initialized'')
    | Some sv \<Rightarrow>
        if Conn sv = None then Ok (ReadError ''PFCP server is not listening'')
        else (case datagram of
            None \<Rightarrow> Ok (ReadError ''read error'')
          | Some (addr, buf) \<Rightarrow>
              (case parse buf of
                 None \<Rightarrow> Ok (ReadError ''parse error'')
               | Some msg \<Rightarrow>
                   if IsRequest msg then
                     (case findTransaction msg addr (Server s) of
                        Err e \<Rightarrow> Ok (ReadReturns (ReadOutcome msg NoEventData (Some e)))
                      | Panic e \<Rightarrow> Panic e
                      | Ok (Some tid) \<Rightarrow>
                          Ok (ReadDelivers tid ReceiveResendRequest
                            (ReadOutcome msg NoEventData (Some ''receive resend PFCP request'')))
                      | Ok None \<Rightarrow> Ok (ReadReturns (ReadOutcome msg NoEventData None)))
                   else if IsResponse msg then
                     (case findTransaction msg (Addr sv) (Server s) of
                        Err e \<Rightarrow> Ok (ReadReturns (ReadOutcome msg NoEventData (Some e)))
                      | Panic e \<Rightarrow> Panic e
                      | Ok None \<Rightarrow> Panic ''nil pointer dereference''
                      | Ok (Some tid) \<Rightarrow>
                          (case txs s tid of
                             None \<Rightarrow> Panic ''nil pointer dereference''
                           | Some tx \<Rightarrow>
                               Ok (ReadDelivers tid ReceiveValidResponse (ReadOutcome msg (EventData tx) None))))
                   else Ok (ReadReturns (ReadOutcome msg NoEventData None)))))"

text \<open>The read loop of \<^verbatim>\<open>Run\<close>: a message without an error is dispatched.\<close>

definition handle_outcome :: "read_outcome \<Rightarrow> pfcp_state \<Rightarrow> pfcp_state" where
  "handle_outcome r s =
     (if errOf r = None then s\<lparr>dispatched := dispatched s @ [(msgOf r, dataOf r)]\<rparr> else s)"

definition read_action :: "read_action \<Rightarrow> pfcp_state \<Rightarrow> pfcp_state" where
  "read_action a s = (case a of
      ReadError e \<Rightarrow> s
    | ReadReturns r \<Rightarrow> handle_outcome r s
    | ReadDelivers tid e r \<Rightarrow> s\<lparr>reader := Delivering tid e r\<rparr>)"

text \<open>The event channel has one slot: the send goes through only when the slot is free.\<close>

definition deliver :: "pfcp_state \<Rightarrow> pfcp_state option" where
  "deliver s = (case reader s of
      Reading \<Rightarrow> None
    | Delivering tid e r \<Rightarrow>
        (case txs s tid of
           None \<Rightarrow> None
         | Some tx \<Rightarrow>
             if length (EventChannel tx) < 1
             then Some (handle_outcome r
               (s\<lparr>reader := Reading, txs := (txs s)(tid \<mapsto> tx\<lparr>EventChannel := EventChannel tx @ [e]\<rparr>)\<rparr>))
             else None))"

section \<open>Interleaving\<close>

inductive pfcp_step ::
    "(pfcp_message \<Rightarrow> byte list option) \<Rightarrow> (byte list \<Rightarrow> pfcp_message option) \<Rightarrow> pfcp_state \<Rightarrow> pfcp_state \<Rightarrow> bool"
  for marshal parse where
  send: "pfcp_step marshal parse s (snd (SendPfcp marshal msg addr ed s))"
| resend: "txs s tid = Some tx \<Longrightarrow> start_step inp tx = Some tx' \<Longrightarrow>
    pfcp_step marshal parse s (s\<lparr>txs := (txs s)(tid \<mapsto> tx')\<rparr>)"
| finish: "txs s tid = Some tx \<Longrightarrow> pc tx = Returned r \<Longrightarrow>
    pfcp_step marshal parse s (startTxLifeCycle parse tid tx s)"
| read: "reader s = Reading \<Longrightarrow> readPfcpMessage parse datagram s = Ok a \<Longrightarrow>
    pfcp_step marshal parse s (read_action a s)"
| delivery: "deliver s = Some s' \<Longrightarrow> pfcp_step marshal parse s s'"

inductive pfcp_reachable ::
    "(pfcp_message \<Rightarrow> byte list option) \<Rightarrow> (byte list \<Rightarrow> pfcp_message option) \<Rightarrow> pfcp_state \<Rightarrow> pfcp_state \<Rightarrow> bool"
  for marshal parse s0 where
  refl: "pfcp_reachable marshal parse s0 s0"
| step: "pfcp_reachable marshal parse s0 s \<Longrightarrow> pfcp_step marshal parse s s' \<Longrightarrow> pfcp_reachable marshal parse s0 s'"

text \<open>The state after \<^verbatim>\<open>Run\<close> has opened the socket: the configured address and the local
  address of the connection.\<close>

definition Run :: "string \<Rightarrow> string \<Rightarrow> pfcp_state" where
  "Run addr localAddr =
     \<lparr>Server = Some \<lparr>Addr = addr, Conn = Some localAddr, ConsumerTable = Map.empty\<rparr>,
      txs = Map.empty, nextTid = 0, reader = Reading, dispatched = [], failures = []\<rparr>"

section \<open>The contract of the table\<close>

text \<open>
  A registry holds one entry per key: an insertion is refused exactly when the key is taken, and
  removal frees the key.  A client that keeps a set of live objects in step with the registry finds
  every live object, and nothing else, under its key.
\<close>

locale registry =
  fixes lookup :: "'t \<Rightarrow> 'k \<Rightarrow> nat option"
    and key :: "'x \<Rightarrow> 'k"
    and put :: "'x \<Rightarrow> nat \<Rightarrow> 't \<Rightarrow> unit result \<times> 't"
    and remove :: "'x \<Rightarrow> 't \<Rightarrow> 't"
  assumes put_fresh: "lookup t (key x) = None \<Longrightarrow>
      fst (put x i t) = Ok () \<and> lookup (snd (put x i t)) = (lookup t)(key x \<mapsto> i)"
    and put_taken: "lookup t (key x) = Some j \<Longrightarrow>
      (\<exists>e. fst (put x i t) = Err e) \<and> lookup (snd (put x i t)) = lookup t"
    and lookup_remove: "lookup (remove x t) = (lookup t)(key x := None)"
begin

definition agrees :: "'t \<Rightarrow> (nat \<Rightarrow> 'k option) \<Rightarrow> bool" where
  "agrees t live \<longleftrightarrow> (\<forall>k i. lookup t k = Some i \<longleftrightarrow> live i = Some k)"

lemma put_succeeds_iff: "fst (put x i t) = Ok () \<longleftrightarrow> lookup t (key x) = None"
  using put_fresh[of t x i] put_taken[of t x _ i] by (cases "lookup t (key x)") auto

lemma agrees_put:
  assumes "agrees t live" and "live i = None" and "fst (put x i t) = Ok ()"
  shows "agrees (snd (put x i t)) (live(i \<mapsto> key x))"
proof -
  have n: "lookup t (key x) = None" using assms(3) by (simp add: put_succeeds_iff)
  then have l: "lookup (snd (put x i t)) = (lookup t)(key x \<mapsto> i)" using put_fresh by blast
  have "live j \<noteq> Some (key x)" for j
    using assms(1) n unfolding agrees_def by (metis option.distinct(1))
  then show ?thesis using assms(1,2) unfolding agrees_def l by (auto split: if_splits)
qed

lemma agrees_refused:
  assumes "agrees t live" and "fst (put x i t) \<noteq> Ok ()"
  shows "agrees (snd (put x i t)) live"
  using assms put_taken[of t x _ i] by (cases "lookup t (key x)") (auto simp: put_succeeds_iff agrees_def)

lemma agrees_remove:
  assumes "agrees t live" and "live i = Some (key x)"
  shows "agrees (remove x t) (live(i := None))"
proof -
  have "live j = Some (key x) \<longleftrightarrow> j = i" for j
    using assms unfolding agrees_def by (metis option.inject)
  moreover have "live i = Some k \<longleftrightarrow> k = key x" for k using assms(2) by auto
  ultimately show ?thesis using assms(1) unfolding agrees_def lookup_remove by auto
qed

lemma agrees_inj: "agrees t live \<Longrightarrow> live i = Some k \<Longrightarrow> live j = Some k \<Longrightarrow> i = j"
  unfolding agrees_def by (metis option.inject)

end

fun tx_lookup :: "pfcp_server \<Rightarrow> string \<times> u32 \<Rightarrow> tid option" where
  "tx_lookup sv (a, q) = TxTable_Load q (ConsumerTable_Load a sv)"

definition tx_key :: "transaction \<Rightarrow> string \<times> u32" where
  "tx_key tx = (ConsumerAddr tx, SequenceNumber tx)"

lemmas table_defs = tx_key_def TxTable_Load_def TxTable_Store_def TxTable_Delete_def
  ConsumerTable_Load_def ConsumerTable_Store_def put_from_def PutTransaction_def removeTransaction_def

interpretation tx_registry: registry tx_lookup tx_key "\<lambda>tx i sv. PutTransaction i tx sv"
  "\<lambda>tx sv. the (snd (removeTransaction tx (Some sv)))"
proof (unfold_locales, goal_cases)
  case (1 sv tx i)
  then show ?case
    by (cases "ConsumerTable sv (ConsumerAddr tx)") (auto simp: table_defs fun_eq_iff Let_def)
next
  case (2 sv tx j i)
  then show ?case
    by (cases "ConsumerTable sv (ConsumerAddr tx)") (auto simp: table_defs fun_eq_iff Let_def)
next
  case (3 tx sv)
  then show ?case
    by (cases "ConsumerTable sv (ConsumerAddr tx)") (auto simp: table_defs fun_eq_iff Let_def)
qed

section \<open>The invariant of the transport\<close>

text \<open>The key of a transaction whose life cycle has not ended.\<close>

definition outstanding :: "pfcp_state \<Rightarrow> tid \<Rightarrow> (string \<times> u32) option" where
  "outstanding s tid = (case txs s tid of
      None \<Rightarrow> None | Some tx \<Rightarrow> if pc tx = Ended then None else Some (tx_key tx))"

text \<open>The number of writes follows the position in the loop, and the channel holds at most one event.\<close>

definition tx_ok :: "transaction \<Rightarrow> bool" where
  "tx_ok tx \<longleftrightarrow> length (EventChannel tx) \<le> 1 \<and>
     (case pc tx of
        Sending i \<Rightarrow> i < NumOfResend \<and> writes tx = i
      | Waiting i \<Rightarrow> i < NumOfResend \<and> writes tx = i + 1
      | _ \<Rightarrow> writes tx \<le> NumOfResend)"

definition pfcp_inv :: "pfcp_state \<Rightarrow> bool" where
  "pfcp_inv s \<longleftrightarrow> (\<exists>sv. Server s = Some sv \<and> tx_registry.agrees sv (outstanding s)) \<and>
     (\<forall>tid tx. txs s tid = Some tx \<longrightarrow> tid < nextTid s \<and> tx_ok tx)"

inductive_cases pfcp_stepE: "pfcp_step marshal parse s s'"

lemma start_step_cases:
  assumes "start_step inp tx = Some tx'"
  obtains (sent) i where "pc tx = Sending i" "inp = Write None" "tx' = tx\<lparr>pc := Waiting i, writes := writes tx + 1\<rparr>"
  | (failed) i e where "pc tx = Sending i" "inp = Write (Some e)" "tx' = tx\<lparr>pc := Returned (Some e)\<rparr>"
  | (answered) i es where "pc tx = Waiting i" "inp = Receive" "EventChannel tx = ReceiveValidResponse # es"
      "TxType tx = SendingRequest" "tx' = tx\<lparr>EventChannel := es, pc := Returned None\<rparr>"
  | (other_event) i e es where "pc tx = Waiting i" "inp = Receive" "EventChannel tx = e # es"
      "\<not> (TxType tx = SendingRequest \<and> e = ReceiveValidResponse)" "tx' = next_iter i (tx\<lparr>EventChannel := es\<rparr>)"
  | (timeout) i where "pc tx = Waiting i" "inp = TimerFires" "TxType tx = SendingRequest" "tx' = next_iter i tx"
  | (given_up) i where "pc tx = Waiting i" "inp = TimerFires" "TxType tx = SendingResponse"
      "tx' = tx\<lparr>pc := Returned (Some ''response timeout'')\<rparr>"
  using assms
  by (auto simp: start_step_def Let_def split: pc.splits start_input.splits option.splits list.splits if_splits
      intro: TransactionType.exhaust[of "TxType tx"])

lemma start_step_frame:
  assumes "start_step inp tx = Some tx'"
  shows "tx_key tx' = tx_key tx" and "pc tx \<noteq> Ended" and "pc tx' \<noteq> Ended"
    and "EventData tx' = EventData tx" and "TxType tx' = TxType tx" and "SendMsg tx' = SendMsg tx"
  using assms by (cases rule: start_step_cases; simp add: tx_key_def next_iter_def)+

lemma start_step_tx_ok:
  assumes "start_step inp tx = Some tx'" and "tx_ok tx"
  shows "tx_ok tx'"
  using assms by (cases rule: start_step_cases) (auto simp: tx_ok_def next_iter_def split: if_splits)

lemma NewTransaction_fresh [simp]:
  "pc (NewTransaction m b l d e) = Sending 0" "tx_ok (NewTransaction m b l d e)"
  "EventChannel (NewTransaction m b l d e) = []"
  "EventData (NewTransaction m b l d e) = e" "SequenceNumber (NewTransaction m b l d e) = Sequence m"
  by (simp_all add: NewTransaction_def tx_ok_def Let_def)

text \<open>Sending either changes nothing that is registered, or registers a new transaction.\<close>

lemma SendPfcp_cases:
  assumes "Server s = Some sv"
  obtains (unchanged) e where "SendPfcp marshal msg addr ed s = (Err e, s)"
  | (refused) l buf e sv' where "Conn sv = Some l" "marshal msg = Some buf"
      "PutTransaction (nextTid s) (NewTransaction msg buf l addr ed) sv = (e, sv')" "e \<noteq> Ok ()"
      "SendPfcp marshal msg addr ed s = (e, s\<lparr>Server := Some sv'\<rparr>)"
  | (sent) l buf sv' where "Conn sv = Some l" "marshal msg = Some buf"
      "PutTransaction (nextTid s) (NewTransaction msg buf l addr ed) sv = (Ok (), sv')"
      "SendPfcp marshal msg addr ed s = (Ok (), s\<lparr>Server := Some sv',
          txs := (txs s)(nextTid s \<mapsto> NewTransaction msg buf l addr ed), nextTid := nextTid s + 1\<rparr>)"
proof (cases "Conn sv")
  case None
  then show ?thesis using assms by (intro unchanged) (simp add: SendPfcp_def)
next
  case l: (Some l)
  show ?thesis
  proof (cases "marshal msg")
    case None
    then show ?thesis using assms l by (intro unchanged) (simp add: SendPfcp_def)
  next
    case b: (Some buf)
    obtain e sv' where p: "PutTransaction (nextTid s) (NewTransaction msg buf l addr ed) sv = (e, sv')"
      by (cases "PutTransaction (nextTid s) (NewTransaction msg buf l addr ed) sv")
    show ?thesis
    proof (cases "e = Ok ()")
      case True
      then show ?thesis using assms l b p by (intro sent) (simp_all add: SendPfcp_def Let_def)
    next
      case False
      then show ?thesis using assms l b p
        by (intro refused) (auto simp add: SendPfcp_def Let_def split: result.split)
    qed
  qed
qed

lemma pfcp_inv_send:
  assumes "pfcp_inv s"
  shows "pfcp_inv (snd (SendPfcp marshal msg addr ed s))"
proof -
  from assms obtain sv where sv: "Server s = Some sv" and ag: "tx_registry.agrees sv (outstanding s)"
    by (auto simp: pfcp_inv_def)
  have tx: "\<forall>tid tx. txs s tid = Some tx \<longrightarrow> tid < nextTid s \<and> tx_ok tx" using assms by (simp add: pfcp_inv_def)
  have fresh: "txs s (nextTid s) = None" using tx by (metis less_irrefl not_None_eq)
  from sv show ?thesis
  proof (cases rule: SendPfcp_cases[where marshal = marshal and msg = msg and addr = addr and ed = ed])
    case (refused l buf e sv')
    have "tx_registry.agrees sv' (outstanding s)"
      using tx_registry.agrees_refused[OF ag, where x = "NewTransaction msg buf l addr ed" and i = "nextTid s"] refused
      by simp
    then show ?thesis using refused tx by (simp add: pfcp_inv_def outstanding_def[abs_def])
  next
    case (sent l buf sv')
    let ?tx = "NewTransaction msg buf l addr ed"
    have "tx_registry.agrees sv' ((outstanding s)(nextTid s \<mapsto> tx_key ?tx))"
      using tx_registry.agrees_put[OF ag, where x = ?tx and i = "nextTid s"] sent fresh
      by (simp add: outstanding_def)
    moreover have "outstanding (snd (SendPfcp marshal msg addr ed s)) = (outstanding s)(nextTid s \<mapsto> tx_key ?tx)"
      using sent(4) by (auto simp: outstanding_def fun_eq_iff)
    ultimately show ?thesis using sent(4) tx
      by (auto simp add: pfcp_inv_def split: if_splits) (metis less_SucI)
  qed (use assms in simp)
qed

lemma pfcp_inv_update:
  assumes "pfcp_inv s" and "txs s tid = Some tx" and "tx_key tx' = tx_key tx" and "pc tx' = Ended \<longleftrightarrow> pc tx = Ended"
    and "tx_ok tx'" and "Server s' = Server s" and "txs s' = (txs s)(tid \<mapsto> tx')" and "nextTid s' = nextTid s"
  shows "pfcp_inv s'"
proof -
  have "outstanding s' = outstanding s" using assms by (auto simp: outstanding_def fun_eq_iff)
  then show ?thesis using assms by (auto simp: pfcp_inv_def)
qed

lemma pfcp_inv_resend:
  assumes "pfcp_inv s" and "txs s tid = Some tx" and "start_step inp tx = Some tx'"
  shows "pfcp_inv (s\<lparr>txs := (txs s)(tid \<mapsto> tx')\<rparr>)"
proof -
  have "tx_ok tx" using assms(1,2) by (simp add: pfcp_inv_def)
  then show ?thesis
    using start_step_frame[OF assms(3)] start_step_tx_ok[OF assms(3)] pfcp_inv_update[OF assms(1,2)] by simp
qed

lemma startTxLifeCycle_frame:
  assumes "pc tx = Returned r"
  shows "Server (startTxLifeCycle parse tid tx s) = snd (removeTransaction tx (Server s))"
    and "txs (startTxLifeCycle parse tid tx s) = (txs s)(tid \<mapsto> tx\<lparr>pc := Ended\<rparr>)"
    and "nextTid (startTxLifeCycle parse tid tx s) = nextTid s"
  using assms
  by (simp_all add: startTxLifeCycle_def Let_def split: option.split event_data.split bool.split)

lemma pfcp_inv_finish:
  assumes "pfcp_inv s" and "txs s tid = Some tx" and "pc tx = Returned r"
  shows "pfcp_inv (startTxLifeCycle parse tid tx s)"
proof -
  from assms(1) obtain sv where sv: "Server s = Some sv" and ag: "tx_registry.agrees sv (outstanding s)"
    by (auto simp: pfcp_inv_def)
  note fr = startTxLifeCycle_frame[OF assms(3), of parse tid s]
  have "\<exists>sv'. snd (removeTransaction tx (Some sv)) = Some sv'"
    by (simp add: removeTransaction_def split: option.split)
  then obtain sv' where sv': "snd (removeTransaction tx (Some sv)) = Some sv'" ..
  have "outstanding s tid = Some (tx_key tx)" using assms(2,3) by (simp add: outstanding_def)
  from tx_registry.agrees_remove[OF ag this] sv'
  have "tx_registry.agrees sv' ((outstanding s)(tid := None))" by simp
  moreover have "outstanding (startTxLifeCycle parse tid tx s) = (outstanding s)(tid := None)"
    by (auto simp: outstanding_def fun_eq_iff fr)
  moreover have "tx_ok (tx\<lparr>pc := Ended\<rparr>)"
  proof -
    have "tx_ok tx" using assms(1,2) by (simp add: pfcp_inv_def)
    then show ?thesis using assms(3) by (simp add: tx_ok_def)
  qed
  ultimately show ?thesis using assms sv sv' by (auto simp: pfcp_inv_def fr)
qed

lemma handle_outcome_frame [simp]:
  "Server (handle_outcome r s) = Server s" "txs (handle_outcome r s) = txs s"
  "nextTid (handle_outcome r s) = nextTid s" "reader (handle_outcome r s) = reader s"
  by (simp_all add: handle_outcome_def)

lemma pfcp_inv_read: "pfcp_inv s \<Longrightarrow> pfcp_inv (read_action a s)"
  by (cases a) (simp_all add: read_action_def pfcp_inv_def outstanding_def[abs_def])

lemma pfcp_inv_deliver:
  assumes "pfcp_inv s" and "deliver s = Some s'"
  shows "pfcp_inv s'"
proof -
  from assms(2) obtain tid e r tx where d: "reader s = Delivering tid e r" "txs s tid = Some tx"
    "length (EventChannel tx) < 1"
    "s' = handle_outcome r (s\<lparr>reader := Reading, txs := (txs s)(tid \<mapsto> tx\<lparr>EventChannel := EventChannel tx @ [e]\<rparr>)\<rparr>)"
    by (auto simp: deliver_def split: reader.splits option.splits if_splits)
  have "tx_ok tx" using assms(1) d(2) by (simp add: pfcp_inv_def)
  then have "tx_ok (tx\<lparr>EventChannel := EventChannel tx @ [e]\<rparr>)" using d(3) by (cases "pc tx") (simp_all add: tx_ok_def)
  then show ?thesis
    by (intro pfcp_inv_update[OF assms(1) d(2), of "tx\<lparr>EventChannel := EventChannel tx @ [e]\<rparr>"])
      (simp_all add: d(4) tx_key_def)
qed

lemma pfcp_inv_reachable: "pfcp_reachable marshal parse (Run addr l) s \<Longrightarrow> pfcp_inv s"
proof (induction rule: pfcp_reachable.induct)
  case refl
  show ?case
    by (simp add: pfcp_inv_def Run_def tx_registry.agrees_def outstanding_def TxTable_Load_def
        ConsumerTable_Load_def)
next
  case (step s s')
  from step.hyps(2) step.IH show ?case
    by cases (auto intro: pfcp_inv_send pfcp_inv_resend pfcp_inv_finish pfcp_inv_read pfcp_inv_deliver)
qed

section \<open>A blocked read loop\<close>

text \<open>The read loop has an event for a transaction that has ended with its channel full.\<close>

definition stuck :: "pfcp_state \<Rightarrow> bool" where
  "stuck s \<longleftrightarrow> (\<exists>tid e r tx. reader s = Delivering tid e r \<and> txs s tid = Some tx \<and> tid < nextTid s \<and>
     pc tx = Ended \<and> length (EventChannel tx) = 1)"

lemma SendPfcp_frame:
  "txs (snd (SendPfcp marshal msg addr ed s)) = txs s \<or>
   (\<exists>tx. txs (snd (SendPfcp marshal msg addr ed s)) = (txs s)(nextTid s \<mapsto> tx))"
  "nextTid s \<le> nextTid (snd (SendPfcp marshal msg addr ed s))"
  "reader (snd (SendPfcp marshal msg addr ed s)) = reader s"
  "dispatched (snd (SendPfcp marshal msg addr ed s)) = dispatched s"
  "failures (snd (SendPfcp marshal msg addr ed s)) = failures s"
  by (auto simp: SendPfcp_def Let_def split: option.split prod.split result.split)

lemma startTxLifeCycle_reader [simp]:
  "reader (startTxLifeCycle parse tid tx s) = reader s"
  "dispatched (startTxLifeCycle parse tid tx s) = dispatched s"
  by (simp_all add: startTxLifeCycle_def Let_def split: pc.split option.split event_data.split bool.split)

lemma stuck_step:
  assumes "stuck s" and "pfcp_step marshal parse s s'"
  shows "stuck s'"
proof -
  from assms(1) obtain tid e r tx where st: "reader s = Delivering tid e r" "txs s tid = Some tx"
    "tid < nextTid s" "pc tx = Ended" "length (EventChannel tx) = 1" by (auto simp: stuck_def)
  from assms(2) show ?thesis
  proof cases
    case (send msg addr ed)
    have "txs s' tid = Some tx"
      using SendPfcp_frame(1)[of marshal msg addr ed s] st(2,3) send by auto
    moreover have "tid < nextTid s'" "reader s' = reader s"
      using SendPfcp_frame(2,3)[where marshal = marshal and msg = msg and addr = addr and ed = ed and s = s] st(3) send
      by auto
    ultimately show ?thesis using st by (auto simp: stuck_def)
  next
    case (resend tid' tx' inp tx'')
    then have "tid' \<noteq> tid" using start_step_frame(2)[of inp tx' tx''] st by auto
    then show ?thesis using st resend by (auto simp: stuck_def)
  next
    case (finish tid' tx' r')
    then have "tid' \<noteq> tid" using st by auto
    then show ?thesis using st startTxLifeCycle_frame[OF finish(3), of parse tid' s] finish(1)
      by (auto simp: stuck_def)
  next
    case (read datagram a)
    then show ?thesis using st by simp
  next
    case delivery
    then show ?thesis using st by (simp add: deliver_def)
  qed
qed

lemma stuck_reachable: "pfcp_reachable marshal parse s s' \<Longrightarrow> stuck s \<Longrightarrow> reader s' \<noteq> Reading"
proof -
  assume "pfcp_reachable marshal parse s s'" and "stuck s"
  then have "stuck s'" by (induction rule: pfcp_reachable.induct) (auto intro: stuck_step)
  then show ?thesis by (auto simp: stuck_def)
qed

section \<open>A concrete run\<close>

text \<open>A heartbeat request with sequence number 1, and a peer that answers each of its copies.\<close>

definition hb_req :: pfcp_message where "hb_req = \<lparr>MsgType = HeartbeatRequest, Sequence = 1\<rparr>"
definition hb_rsp :: pfcp_message where "hb_rsp = \<lparr>MsgType = HeartbeatResponse, Sequence = 1\<rparr>"
definition hb_marshal :: "pfcp_message \<Rightarrow> byte list option" where
  "hb_marshal m = Some [if IsRequest m then 1 else 2]"
definition hb_parse :: "byte list \<Rightarrow> pfcp_message option" where
  "hb_parse bs = Some (if bs = [1] then hb_req else hb_rsp)"

definition hb_tx :: "EventType list \<Rightarrow> pc \<Rightarrow> nat \<Rightarrow> transaction" where
  "hb_tx ch p n = \<lparr>EventChannel = ch, DestAddr = ''upf'', ConsumerAddr = ''smf'', EventData = PfcpEventData True 7,
     SendMsg = [1], SequenceNumber = 1, MessageType = HeartbeatRequest, TxType = SendingRequest, pc = p, writes = n\<rparr>"

definition hb_state :: "tx_table \<Rightarrow> transaction \<Rightarrow> reader \<Rightarrow> nat \<Rightarrow> pfcp_state" where
  "hb_state t tx r n = \<lparr>Server = Some \<lparr>Addr = ''smf'', Conn = Some ''smf'', ConsumerTable = [''smf'' \<mapsto> t]\<rparr>,
     txs = [0 \<mapsto> tx], nextTid = 1, reader = r,
     dispatched = replicate n (hb_rsp, PfcpEventData True 7), failures = []\<rparr>"

abbreviation hb_pending :: reader where
  "hb_pending \<equiv> Delivering 0 ReceiveValidResponse (ReadOutcome hb_rsp (PfcpEventData True 7) None)"

lemmas hb_defs = hb_req_def hb_rsp_def hb_marshal_def hb_parse_def hb_tx_def hb_state_def IsRequest_def IsResponse_def

lemma hb_send: "pfcp_step hb_marshal hb_parse (Run ''smf'' ''smf'') (hb_state [1 \<mapsto> 0] (hb_tx [] (Sending 0) 0) Reading 0)"
  using pfcp_step.send[of hb_marshal hb_parse "Run ''smf'' ''smf''" hb_req "''upf''" "PfcpEventData True 7"]
  by (simp add: SendPfcp_def NewTransaction_def table_defs hb_defs Run_def Let_def)

lemma hb_resend:
  "start_step inp tx = Some tx' \<Longrightarrow> pfcp_step hb_marshal hb_parse (hb_state t tx r n) (hb_state t tx' r n)"
  using pfcp_step.resend[of "hb_state t tx r n" 0 tx inp tx' hb_marshal hb_parse] by (simp add: hb_state_def)

lemma hb_read:
  "pfcp_step hb_marshal hb_parse (hb_state [1 \<mapsto> 0] (hb_tx ch p w) Reading n) (hb_state [1 \<mapsto> 0] (hb_tx ch p w) hb_pending n)"
  using pfcp_step.read[of "hb_state [1 \<mapsto> 0] (hb_tx ch p w) Reading n" hb_parse "Some (''upf'', [2])"
      "ReadDelivers 0 ReceiveValidResponse (ReadOutcome hb_rsp (PfcpEventData True 7) None)" hb_marshal]
  by (simp add: readPfcpMessage_def findTransaction_def table_defs hb_defs read_action_def)

lemma hb_deliver:
  "pfcp_step hb_marshal hb_parse (hb_state t (hb_tx [] p w) hb_pending n)
     (hb_state t (hb_tx [ReceiveValidResponse] p w) Reading (Suc n))"
  by (rule pfcp_step.delivery)
    (simp add: deliver_def handle_outcome_def hb_state_def hb_tx_def replicate_append_same)

lemma hb_finish:
  "pfcp_step hb_marshal hb_parse (hb_state [1 \<mapsto> 0] (hb_tx ch (Returned None) w) r n)
     (hb_state Map.empty (hb_tx ch Ended w) r n)"
  using pfcp_step.finish[of "hb_state [1 \<mapsto> 0] (hb_tx ch (Returned None) w) r n" 0 "hb_tx ch (Returned None) w" None hb_marshal hb_parse]
  by (simp add: startTxLifeCycle_def table_defs hb_state_def hb_tx_def)

lemma hb_start:
  "start_step (Write None) (hb_tx ch (Sending i) w) = Some (hb_tx ch (Waiting i) (Suc w))"
  "start_step Receive (hb_tx (ReceiveValidResponse # ch) (Waiting i) w) = Some (hb_tx ch (Returned None) w)"
  by (simp_all add: start_step_def hb_tx_def Let_def)

text \<open>Three responses arrive before the answered transaction is removed.\<close>

lemma hb_stuck_reachable:
  "pfcp_reachable hb_marshal hb_parse (Run ''smf'' ''smf'')
     (hb_state Map.empty (hb_tx [ReceiveValidResponse] Ended (Suc 0)) hb_pending (Suc (Suc 0)))"
proof -
  note st = pfcp_reachable.step[where marshal = hb_marshal and parse = hb_parse]
  note sent = st[OF st[OF pfcp_reachable.refl hb_send] hb_resend[OF hb_start(1)]]
  note answered = st[OF st[OF st[OF sent hb_read] hb_deliver] hb_resend[OF hb_start(2)]]
  note again = st[OF st[OF answered hb_read] hb_deliver]
  show ?thesis by (rule st[OF st[OF again hb_read] hb_finish])
qed

section \<open>One transaction on its own\<close>

text \<open>A run of one resend loop: its own steps, and the events that the read loop puts into its
  channel in between.\<close>

fun start_run :: "(start_input + EventType) list \<Rightarrow> transaction \<Rightarrow> transaction option" where
  "start_run [] tx = Some tx"
| "start_run (Inl inp # is) tx = (case start_step inp tx of None \<Rightarrow> None | Some tx' \<Rightarrow> start_run is tx')"
| "start_run (Inr e # is) tx =
     (if length (EventChannel tx) < 1 then start_run is (tx\<lparr>EventChannel := EventChannel tx @ [e]\<rparr>) else None)"

definition budget :: "transaction \<Rightarrow> nat" where
  "budget tx = (case pc tx of
      Sending i \<Rightarrow> 2 * (NumOfResend - i) | Waiting i \<Rightarrow> 2 * (NumOfResend - i) - 1 | _ \<Rightarrow> 0)"

lemma start_step_budget:
  assumes "start_step inp tx = Some tx'" and "tx_ok tx"
  shows "budget tx' < budget tx"
  using assms by (cases rule: start_step_cases) (auto simp: tx_ok_def budget_def next_iter_def)

lemma start_step_success:
  assumes "start_step inp tx = Some tx'" and "pc tx' = Returned None" and "TxType tx' = SendingRequest"
  shows "ReceiveValidResponse \<in> set (EventChannel tx)"
  using assms by (cases rule: start_step_cases) (auto simp: next_iter_def split: if_splits)

lemma start_step_channel:
  "start_step inp tx = Some tx' \<Longrightarrow> set (EventChannel tx') \<subseteq> set (EventChannel tx)"
  by (erule start_step_cases) (auto simp: next_iter_def)

lemma tx_ok_push: "tx_ok tx \<Longrightarrow> length (EventChannel tx) < 1 \<Longrightarrow> tx_ok (tx\<lparr>EventChannel := EventChannel tx @ [e]\<rparr>)"
  by (cases "pc tx") (simp_all add: tx_ok_def)

lemma start_run_bounds:
  "start_run is tx = Some tx' \<Longrightarrow> tx_ok tx \<Longrightarrow> length (filter isl is) + budget tx' \<le> budget tx \<and> tx_ok tx'"
proof (induction "is" tx rule: start_run.induct)
  case (2 inp "is" tx)
  then obtain tx1 where "start_step inp tx = Some tx1" "start_run is tx1 = Some tx'"
    by (auto split: option.splits)
  with 2 start_step_budget[of inp tx tx1] start_step_tx_ok[of inp tx tx1] show ?case by auto
next
  case (3 e "is" tx)
  then have l: "length (EventChannel tx) < 1" by (auto split: if_splits)
  note tx_ok_push[OF 3(3) l, of e]
  moreover have "budget (tx\<lparr>EventChannel := EventChannel tx @ [e]\<rparr>) = budget tx" by (simp add: budget_def)
  ultimately show ?case using 3 l by simp
qed simp

lemma start_run_success:
  "start_run is tx = Some tx' \<Longrightarrow> pc tx' = Returned None \<Longrightarrow> TxType tx' = SendingRequest \<Longrightarrow> pc tx \<noteq> Returned None \<Longrightarrow>
   ReceiveValidResponse \<in> set (EventChannel tx) \<or> Inr ReceiveValidResponse \<in> set is"
proof (induction "is" tx rule: start_run.induct)
  case (2 inp "is" tx)
  then obtain tx1 where st: "start_step inp tx = Some tx1" and r: "start_run is tx1 = Some tx'"
    by (auto split: option.splits)
  show ?case
  proof (cases "pc tx1 = Returned None")
    case True
    have "TxType tx1 = SendingRequest"
      using r 2(4) by (induction "is" tx1 rule: start_run.induct)
        (auto split: option.splits if_splits dest: start_step_frame(5))
    with start_step_success[OF st True] show ?thesis by simp
  next
    case False
    with 2(1)[OF st r 2(3,4)] start_step_channel[OF st] show ?thesis by auto
  qed
next
  case (3 e "is" tx)
  then show ?case by (auto split: if_splits)
qed simp

lemma start_run_not_Ended: "start_run is tx = Some tx' \<Longrightarrow> pc tx \<noteq> Ended \<Longrightarrow> pc tx' \<noteq> Ended"
  by (induction "is" tx rule: start_run.induct)
    (auto split: option.splits if_splits dest: start_step_frame(3))

section \<open>Properties\<close>



text \<open>Duplicate responses can stop the read loop for good.  The event channel of a transaction
  has one slot and nobody empties it after \<^verbatim>\<open>Start\<close> has returned: there is a run, in which three
  responses to one request arrive before its transaction is removed, after which the read loop is
  blocked in every later state, so that no further PFCP message is ever read.\<close>

lemma read_loop_blocks:
  "\<exists>s. pfcp_reachable hb_marshal hb_parse (Run ''smf'' ''smf'') s \<and> length (dispatched s) = 2 \<and>
     (\<nexists>s'. pfcp_reachable hb_marshal hb_parse s s' \<and> reader s' = Reading)"
proof -
  let ?s = "hb_state Map.empty (hb_tx [ReceiveValidResponse] Ended (Suc 0)) hb_pending (Suc (Suc 0))"
  have "stuck ?s" by (simp add: stuck_def hb_state_def hb_tx_def)
  then have "\<nexists>s'. pfcp_reachable hb_marshal hb_parse ?s s' \<and> reader s' = Reading"
    using stuck_reachable by blast
  moreover have "length (dispatched ?s) = 2" by (simp add: hb_state_def)
  ultimately show ?thesis using hb_stuck_reachable by blast
qed

text \<open>C11: the resend loop ends.  However its steps are interleaved with events of the read loop, the
  loop of a new transaction takes at most six steps of its own and writes the message at most three
  times; while it has not returned, a write or its timer can always move it on; and a request
  returns nil only after a valid response was put into its channel.\<close>

theorem Start_bounded:
  assumes "start_run is (NewTransaction msg buf l addr ed) = Some tx"
  shows "length (filter isl is) \<le> 6 \<and> writes tx \<le> NumOfResend \<and>
    ((\<exists>r. pc tx = Returned r) \<or> start_step (Write None) tx \<noteq> None \<or> start_step TimerFires tx \<noteq> None) \<and>
    (pc tx = Returned None \<and> TxType tx = SendingRequest \<longrightarrow> Inr ReceiveValidResponse \<in> set is)"
proof -
  note b = start_run_bounds[OF assms NewTransaction_fresh(2)]
  have "budget (NewTransaction msg buf l addr ed) = 6" by (simp add: budget_def)
  then have "length (filter isl is) \<le> 6 \<and> writes tx \<le> NumOfResend"
    using b by (auto simp: tx_ok_def split: pc.splits)
  moreover have "(\<exists>r. pc tx = Returned r) \<or> start_step (Write None) tx \<noteq> None \<or> start_step TimerFires tx \<noteq> None"
    using start_run_not_Ended[OF assms] by (cases "pc tx") (auto simp: start_step_def)
  moreover have "pc tx = Returned None \<and> TxType tx = SendingRequest \<longrightarrow> Inr ReceiveValidResponse \<in> set is"
    using start_run_success[OF assms] by simp
  ultimately show ?thesis by blast
qed

theorem Start_bounded_witness:
  "\<exists>tx. start_run [Inl (Write None), Inl TimerFires, Inl (Write None), Inr ReceiveResendRequest, Inl Receive,
        Inl (Write None), Inl TimerFires] (NewTransaction hb_req [1] ''smf'' ''upf'' NoEventData) = Some tx \<and>
     pc tx = Returned (Some ''request timeout'') \<and> writes tx \<le> 3"
proof -
  let ?is = "[Inl (Write None), Inl TimerFires, Inl (Write None), Inr ReceiveResendRequest, Inl Receive,
        Inl (Write None), Inl TimerFires]"
  have "\<exists>tx. start_run ?is (NewTransaction hb_req [1] ''smf'' ''upf'' NoEventData) = Some tx \<and>
      pc tx = Returned (Some ''request timeout'')"
    by (simp add: NewTransaction_def hb_req_def IsRequest_def start_step_def next_iter_def Let_def)
  with Start_bounded[of ?is] show ?thesis by blast
qed



text \<open>Two first requests can lose one of them.  \<^verbatim>\<open>PutTransaction\<close> looks for the table, then
  stores an empty one: when a second goroutine has looked before the first has stored, its empty
  table replaces the one that holds the first transaction.  Both calls succeed, and the first
  transaction is not found any more.\<close>

lemma concurrent_first_requests_lose_one:
  assumes "ConsumerTable_Load (ConsumerAddr tx1) sv = None"
    and "ConsumerAddr tx2 = ConsumerAddr tx1" and "SequenceNumber tx2 \<noteq> SequenceNumber tx1"
  defines "exist2 \<equiv> (ConsumerTable_Load (ConsumerAddr tx2) sv \<noteq> None)"
    and "r1 \<equiv> PutTransaction 1 tx1 sv"
  defines "r2 \<equiv> put_from exist2 2 tx2 (snd r1)"
  shows "fst r1 = Ok () \<and> fst r2 = Ok () \<and> tx_lookup (snd r1) (tx_key tx1) = Some 1 \<and>
    tx_lookup (snd r2) (tx_key tx1) = None \<and> tx_lookup (snd r2) (tx_key tx2) = Some 2"
  using assms(1-3) by (simp add: r1_def r2_def exist2_def table_defs)

theorem concurrent_first_requests_lose_one_witness:
  "tx_lookup (snd (put_from False 2 (hb_tx [] (Sending 0) 0\<lparr>SequenceNumber := 2\<rparr>)
      (snd (PutTransaction 1 (hb_tx [] (Sending 0) 0) \<lparr>Addr = ''smf'', Conn = Some ''smf'', ConsumerTable = Map.empty\<rparr>))))
      (''smf'', 1) = None"
  using concurrent_first_requests_lose_one[of "hb_tx [] (Sending 0) 0"
      "\<lparr>Addr = ''smf'', Conn = Some ''smf'', ConsumerTable = Map.empty\<rparr>" "hb_tx [] (Sending 0) 0\<lparr>SequenceNumber := 2\<rparr>"]
  by (simp add: hb_tx_def ConsumerTable_Load_def tx_key_def)

text \<open>The calls of the error handlers: each belongs to a transaction that has ended, and none is
  called twice.\<close>

definition failures_inv :: "pfcp_state \<Rightarrow> bool" where
  "failures_inv s \<longleftrightarrow> distinct (map fst (failures s)) \<and>
     (\<forall>f \<in> set (failures s). \<exists>tx. txs s (fst f) = Some tx \<and> pc tx = Ended \<and> fst f < nextTid s)"

lemma startTxLifeCycle_failures:
  assumes "pc tx = Returned r"
  shows "failures (startTxLifeCycle parse tid tx s) = failures s \<or>
    (\<exists>m e. failures (startTxLifeCycle parse tid tx s) = failures s @ [(tid, m, e)] \<and> r = Some e)"
  using assms by (simp add: startTxLifeCycle_def Let_def split: option.split event_data.split bool.split)

lemma failures_frame [simp]:
  "failures (handle_outcome r s) = failures s" "failures (read_action a s) = failures s"
  "txs (read_action a s) = txs s" "nextTid (read_action a s) = nextTid s"
  by (simp_all add: handle_outcome_def read_action_def split: read_action.split)

lemma failures_inv_step:
  assumes "pfcp_step marshal parse s s'" and "failures_inv s" and "pfcp_inv s"
  shows "failures_inv s'"
  using assms(1)
proof cases
  case (send msg addr ed)
  then show ?thesis
    using SendPfcp_frame[where marshal = marshal and msg = msg and addr = addr and ed = ed and s = s] assms(2)
    unfolding failures_inv_def by (metis fun_upd_apply less_irrefl less_le_trans)
next
  case (resend tid tx inp tx')
  then have "pc tx \<noteq> Ended" using start_step_frame(2) by blast
  then show ?thesis using resend assms(2) by (auto simp: failures_inv_def)
next
  case (finish tid tx r)
  have "tid < nextTid s" using assms(3) finish(2) by (auto simp: pfcp_inv_def)
  moreover have "tid \<notin> fst ` set (failures s)" using assms(2) finish(2,3) by (auto simp: failures_inv_def)
  ultimately show ?thesis
    using startTxLifeCycle_failures[OF finish(3), of parse tid s] startTxLifeCycle_frame[OF finish(3), of parse tid s]
      assms(2) finish(1)
    by (auto simp: failures_inv_def)
next
  case (read datagram a)
  then show ?thesis using assms(2) by (simp add: failures_inv_def)
next
  case delivery
  have k: "(\<exists>tx. txs s i = Some tx \<and> pc tx = Ended) = (\<exists>tx. txs s' i = Some tx \<and> pc tx = Ended)" for i
    using delivery by (auto simp: deliver_def split: reader.splits option.splits if_splits)
  moreover have "failures s' = failures s" "nextTid s' = nextTid s"
    using delivery by (auto simp: deliver_def split: reader.splits option.splits if_splits)
  ultimately show ?thesis using assms(2) unfolding failures_inv_def by metis
qed



end
