(* ===== verification/Sm_Context.thy ===== *)
theory Sm_Context
  imports IP_Allocator Qos_Flow
begin

text \<open>
  Session management contexts, \<^verbatim>\<open>src/context/sm_context.go\<close>: the pools that find a context by
  reference, by subscriber and session id, and by PFCP session id; creation and removal of a
  context; the release of its address; the negotiation of the session type; and the commit of
  pending policy updates.  Contexts are objects that several pools point to, so they live in a
  heap and the pools hold pointers.  The fields are those that the modelled operations use.
  Metrics, logging and the message stream are left out.
\<close>

section \<open>Contexts and pools\<close>

datatype SMContextState =
    SmStateInit | SmStateActivePending | SmStateActive | SmStateInActivePending | SmStateModify
  | SmStatePfcpCreatePending | SmStatePfcpModify | SmStatePfcpRelease | SmStateRelease
  | SmStateN1N2TransferPending

datatype pdu_session_type = IPV4 | IPV6 | IPV4_V6 | UNSTRUCTURED | ETHERNET

record ue_ip_addr =
  UeIp :: ip
  UpfProvided :: bool

text \<open>\<^verbatim>\<open>PFCPContext\<close> maps the address of a UPF to the local session id; \<^verbatim>\<open>DNNInfo\<close> names the
  address allocator of the data network.\<close>

record sm_context =
  Ref :: string
  Supi :: string
  Ident :: string
  Dnn :: string
  DNNInfo :: string
  PDUSessionID :: int
  State :: SMContextState
  PDUAddress :: "ue_ip_addr option"
  PFCPContext :: "u64 go_map"
  AllowedSessionTypes :: "pdu_session_type list option"
  SelectedPDUSessionType :: u8
  EstAcceptCause5gSMValue :: u8
  SmPolicyUpdates :: "policy_update list"
  SmPolicyData :: sm_ctxt_policy_data
  ActiveTxn :: "nat option"
  TxnBus :: "nat list"

type_synonym ptr = nat

record sm_pools =
  heap :: "ptr \<rightharpoonup> sm_context"
  nextPtr :: ptr
  smContextPool :: "string \<rightharpoonup> ptr"
  canonicalRef :: "string \<rightharpoonup> string"
  seidSMContextMap :: "u64 \<rightharpoonup> ptr"
  smContextActive :: u64
  allocators :: "string \<Rightarrow> ip_allocator"
  EnableDbStore :: bool
  dbRef :: "string \<rightharpoonup> sm_context"
  dbSeid :: "u64 \<rightharpoonup> string"

text \<open>The verb \<^verbatim>\<open>%d\<close>.\<close>

fun nat_digits :: "nat \<Rightarrow> string" where
  "nat_digits n = (if n < 10 then [char_of (48 + n)] else nat_digits (n div 10) @ [char_of (48 + n mod 10)])"

declare nat_digits.simps [simp del]

definition fmt_d :: "int \<Rightarrow> string" where
  "fmt_d i = (if i < 0 then CHR ''-'' # nat_digits (nat (- i)) else nat_digits (nat i))"

definition canonicalName :: "string \<Rightarrow> int \<Rightarrow> string" where
  "canonicalName identifier pduSessID = identifier @ ''-'' @ fmt_d pduSessID"

definition ResolveRef :: "string \<Rightarrow> int \<Rightarrow> sm_pools \<Rightarrow> string result" where
  "ResolveRef identifier pduSessID s = (case canonicalRef s (canonicalName identifier pduSessID) of
      Some ref \<Rightarrow> Ok ref
    | None \<Rightarrow> Err ''not found in SMContext'')"

definition incSMContextActive :: "sm_pools \<Rightarrow> sm_pools" where
  "incSMContextActive s = s\<lparr>smContextActive := smContextActive s + 1\<rparr>"

definition decSMContextActive :: "sm_pools \<Rightarrow> sm_pools" where
  "decSMContextActive s = s\<lparr>smContextActive := smContextActive s + NOT 0\<rparr>"

text \<open>A new context; the reference is a fresh UUID and an argument.\<close>

definition new_context :: "string \<Rightarrow> string \<Rightarrow> int \<Rightarrow> sm_context" where
  "new_context ref identifier pduSessID =
     \<lparr>Ref = ref, Supi = '''', Ident = identifier, Dnn = '''', DNNInfo = '''', PDUSessionID = pduSessID,
      State = SmStateInit, PDUAddress = None, PFCPContext = [], AllowedSessionTypes = None,
      SelectedPDUSessionType = 0, EstAcceptCause5gSMValue = 0, SmPolicyUpdates = [],
      SmPolicyData = Initialize empty_policy_data, ActiveTxn = None, TxnBus = []\<rparr>"

definition NewSMContext :: "string \<Rightarrow> string \<Rightarrow> int \<Rightarrow> sm_pools \<Rightarrow> ptr \<times> sm_pools" where
  "NewSMContext ref identifier pduSessID s =
     (let p = nextPtr s in
      (p, incSMContextActive (s\<lparr>heap := (heap s)(p \<mapsto> new_context ref identifier pduSessID), nextPtr := p + 1,
            smContextPool := (smContextPool s)(ref \<mapsto> p),
            canonicalRef := (canonicalRef s)(canonicalName identifier pduSessID \<mapsto> ref)\<rparr>)))"

definition ChangeState :: "SMContextState \<Rightarrow> sm_context \<Rightarrow> sm_context" where
  "ChangeState nextState c = c\<lparr>State := nextState\<rparr>"

text \<open>
  The variable that receives the context from the database shadows the named result: the context
  is stored in the pool, and nil is returned.
\<close>

definition GetSMContext :: "string \<Rightarrow> sm_pools \<Rightarrow> ptr option \<times> sm_pools" where
  "GetSMContext ref s = (case smContextPool s ref of
      Some p \<Rightarrow> (Some p, s)
    | None \<Rightarrow>
        (if EnableDbStore s
         then (case dbRef s ref of
                 Some c \<Rightarrow> (None, s\<lparr>heap := (heap s)(nextPtr s \<mapsto> c), nextPtr := nextPtr s + 1,
                             smContextPool := (smContextPool s)(ref \<mapsto> nextPtr s)\<rparr>)
               | None \<Rightarrow> (None, s))
         else (None, s)))"

definition GetSMContextBySEID :: "u64 \<Rightarrow> sm_pools \<Rightarrow> ptr option \<times> sm_pools" where
  "GetSMContextBySEID seid s = (case seidSMContextMap s seid of
      Some p \<Rightarrow> (Some p, s)
    | None \<Rightarrow>
        (if EnableDbStore s
         then (case dbSeid s seid of None \<Rightarrow> (None, s) | Some ref \<Rightarrow> GetSMContext ref s)
         else (None, s)))"

section \<open>Removal\<close>

text \<open>\<^verbatim>\<open>net.IPv4(0, 0, 0, 0)\<close> is the sixteen-byte form.\<close>

definition ReleaseUeIpAddr :: "sm_context \<Rightarrow> ip_allocator \<Rightarrow> (sm_context \<times> ip_allocator) result" where
  "ReleaseUeIpAddr c a = (case PDUAddress c of
      None \<Rightarrow> Ok (c, a)
    | Some u \<Rightarrow>
        if UeIp u \<noteq> [] \<and> \<not> UpfProvided u
        then bind_res (Release (Supi c) (UeIp u) a) (\<lambda>a'.
               Ok (c\<lparr>PDUAddress := Some (u\<lparr>UeIp := To16 [0, 0, 0, 0]\<rparr>)\<rparr>, a'))
        else Ok (c, a))"

definition ReleasePduSessionID :: "sm_context \<Rightarrow> sm_context" where
  "ReleasePduSessionID c = (if PDUSessionID c \<noteq> 0 then c\<lparr>PDUSessionID := 0\<rparr> else c)"

definition RemoveSMContext :: "string \<Rightarrow> sm_pools \<Rightarrow> sm_pools result" where
  "RemoveSMContext ref s = (case smContextPool s ref of
      None \<Rightarrow> Panic ''nil pointer dereference''
    | Some p \<Rightarrow>
        (case heap s p of
           None \<Rightarrow> Panic ''nil pointer dereference''
         | Some c0 \<Rightarrow>
             (let c = ChangeState SmStateRelease c0;
                  seids = map snd (PFCPContext c);
                  s1 = s\<lparr>seidSMContextMap := fold (\<lambda>q m. m(q := None)) seids (seidSMContextMap s),
                         dbSeid := (if EnableDbStore s then fold (\<lambda>q m. m(q := None)) seids (dbSeid s) else dbSeid s)\<rparr>
              in bind_res (ReleaseUeIpAddr c (allocators s (DNNInfo c))) (\<lambda>(c', a).
                   Ok (decSMContextActive
                     (s1\<lparr>heap := (heap s)(p \<mapsto> c'),
                         allocators := (allocators s)(DNNInfo c := a),
                         smContextPool := (smContextPool s)(ref := None),
                         canonicalRef := (canonicalRef s)(canonicalName (Supi c') (PDUSessionID c') := None),
                         dbRef := (if EnableDbStore s then (dbRef s)(Ref c' := None) else dbRef s)\<rparr>))))))"

section \<open>The session type\<close>

text \<open>The NAS library: the code of a session type, its inverse, and two causes.\<close>

record nas_lib =
  PDUSessionTypeToModels :: "u8 \<Rightarrow> pdu_session_type option"
  ModelsToPDUSessionType :: "pdu_session_type \<Rightarrow> u8"
  IPv4OnlyAllowed :: u8
  IPv6OnlyAllowed :: u8

text \<open>The flags for IPv4, IPv6 and Ethernet collected from the subscribed types.\<close>

fun allow_flags :: "pdu_session_type list \<Rightarrow> bool \<times> bool \<times> bool \<Rightarrow> bool \<times> bool \<times> bool" where
  "allow_flags [] f = f"
| "allow_flags (t # ts) (v4, v6, eth) = allow_flags ts (case t of
      IPV4 \<Rightarrow> (True, v6, eth) | IPV6 \<Rightarrow> (v4, True, eth) | IPV4_V6 \<Rightarrow> (True, True, eth)
    | ETHERNET \<Rightarrow> (v4, v6, True) | UNSTRUCTURED \<Rightarrow> (v4, v6, eth))"

definition type_supported :: "string \<Rightarrow> bool \<times> bool \<times> bool \<Rightarrow> bool" where
  "type_supported supported f = (case f of (v4, v6, eth) \<Rightarrow>
     (if supported = ''IPv4'' then v4
      else if supported = ''IPv6'' then v6
      else if supported = ''IPv4v6'' then v4 \<or> v6
      else if supported = ''Ethernet'' then eth
      else True))"

definition isAllowedPDUSessionType ::
    "nas_lib \<Rightarrow> string \<Rightarrow> u8 \<Rightarrow> sm_context \<Rightarrow> unit result \<times> sm_context" where
  "isAllowedPDUSessionType nas supported requested c = (case AllowedSessionTypes c of
      None \<Rightarrow> (Err ''no subscription pdu session type info'', c)
    | Some ts \<Rightarrow>
        (let f = allow_flags ts (False, False, False); (v4, v6, eth) = f in
         if \<not> type_supported supported f then (Err ''no SupportedPDUSessionType in DNN configuration'', c)
         else
           (let c = c\<lparr>EstAcceptCause5gSMValue := 0\<rparr>;
                sel = (\<lambda>t. c\<lparr>SelectedPDUSessionType := ModelsToPDUSessionType nas t\<rparr>) in
            case PDUSessionTypeToModels nas requested of
              Some IPV4 \<Rightarrow> if v4 then (Ok (), sel IPV4) else (Err ''PduSessionType_IPV4 is not allowed'', c)
            | Some IPV6 \<Rightarrow> if v6 then (Ok (), sel IPV6) else (Err ''PduSessionType_IPV6 is not allowed'', c)
            | Some IPV4_V6 \<Rightarrow>
                if v4 \<and> v6 then (Ok (), sel IPV4_V6)
                else if v4 then (Ok (), (sel IPV4)\<lparr>EstAcceptCause5gSMValue := IPv4OnlyAllowed nas\<rparr>)
                else if v6 then (Ok (), (sel IPV6)\<lparr>EstAcceptCause5gSMValue := IPv6OnlyAllowed nas\<rparr>)
                else (Err ''PduSessionType_IPV4_V6 is not allowed'', c)
            | Some ETHERNET \<Rightarrow> if eth then (Ok (), sel ETHERNET) else (Err ''PduSessionType_ETHERNET is not allowed'', c)
            | Some UNSTRUCTURED \<Rightarrow> (Err ''unstructured PDU Session type'', sel UNSTRUCTURED)
            | None \<Rightarrow> (Err ''requested PDU Sesstion type is not supported'', c))))"

text \<open>The address octets of the NAS message: twelve bytes, the first of the address, and a length.
  The case for IPv6 has an empty body, which in Go does not fall through.\<close>

definition PDUAddressToNAS :: "nas_lib \<Rightarrow> sm_context \<Rightarrow> (byte list \<times> u8) result" where
  "PDUAddressToNAS nas c = (case PDUAddress c of
      None \<Rightarrow> Panic ''nil pointer dereference''
    | Some u \<Rightarrow>
        (let addr = take 12 (UeIp u @ replicate 12 0); t = SelectedPDUSessionType c in
         Ok (addr,
           if t = ModelsToPDUSessionType nas IPV4 then 4 + 1
           else if t = ModelsToPDUSessionType nas IPV6 then 0
           else if t = ModelsToPDUSessionType nas IPV4_V6 then 12 + 1
           else 0)))"

section \<open>Pending policy updates\<close>

definition SelectedSessionRule :: "sm_context \<Rightarrow> session_rule option" where
  "SelectedSessionRule c = (case SmPolicyUpdates c of
      u # _ \<Rightarrow>
        (case SessRuleUpdate u of
           Some r \<Rightarrow> (case ActiveSessRule r of Some sr \<Rightarrow> Some sr | None \<Rightarrow> ActiveRule (SmPolicyData c))
         | None \<Rightarrow> ActiveRule (SmPolicyData c))
    | [] \<Rightarrow> ActiveRule (SmPolicyData c))"

text \<open>With a successful status the first update is committed, and indexing an empty list panics;
  then the first update is dropped.\<close>

definition CommitSmPolicyDecision_ctx :: "bool \<Rightarrow> sm_context \<Rightarrow> sm_context result" where
  "CommitSmPolicyDecision_ctx status c =
     bind_res
       (if status
        then bind_res (nth_res (SmPolicyUpdates c) 0) (\<lambda>u.
               Ok (c\<lparr>SmPolicyData := CommitSmPolicyDecision (SmPolicyData c) u\<rparr>))
        else Ok c)
       (\<lambda>c. Ok (if 1 \<le> length (SmPolicyUpdates c) then c\<lparr>SmPolicyUpdates := tl (SmPolicyUpdates c)\<rparr> else c))"

section \<open>Lemmas\<close>

lemma fold_delete: "fold (\<lambda>q m. m(q := None)) qs m q = (if q \<in> set qs then None else m q)"
  by (induction qs arbitrary: m) auto

lemma fold_put: "fold (\<lambda>q m. m(q \<mapsto> p)) qs m q = (if q \<in> set qs then Some p else m q)"
  by (induction qs arbitrary: m) auto

lemma fold_delete_put:
  "\<forall>q \<in> set qs. m q = None \<Longrightarrow> fold (\<lambda>q m. m(q := None)) qs (fold (\<lambda>q m. m(q \<mapsto> p)) qs m) = m"
  by (auto simp: fun_eq_iff fold_delete fold_put)

lemma nat_digits_zero: "nat_digits n = ''0'' \<Longrightarrow> n = 0"
proof -
  assume z: "nat_digits n = ''0''"
  have ne: "nat_digits k \<noteq> []" for k by (subst nat_digits.simps) simp
  show "n = 0"
  proof (cases "n < 10")
    case True
    then have "n \<in> {0, 1, 2, 3, 4, 5, 6, 7, 8, 9}" by auto
    then show ?thesis using z by (auto simp: nat_digits.simps char_of_def)
  next
    case False
    then show ?thesis using z ne[of "n div 10"] by (subst (asm) nat_digits.simps) auto
  qed
qed

lemma canonicalName_zero: "canonicalName i 0 = canonicalName i n \<Longrightarrow> n = 0"
proof -
  assume "canonicalName i 0 = canonicalName i n"
  moreover have "fmt_d 0 = ''0''" by (simp add: fmt_d_def nat_digits.simps char_of_def bit_0)
  ultimately have "fmt_d n = ''0''" by (simp add: canonicalName_def)
  then show "n = 0" by (cases "n < 0") (auto simp: fmt_d_def dest: nat_digits_zero)
qed

text \<open>What is allowed by the subscribed types.\<close>

definition permitted :: "pdu_session_type list \<Rightarrow> pdu_session_type \<Rightarrow> bool" where
  "permitted ts t = (case t of
      IPV4 \<Rightarrow> IPV4 \<in> set ts \<or> IPV4_V6 \<in> set ts
    | IPV6 \<Rightarrow> IPV6 \<in> set ts \<or> IPV4_V6 \<in> set ts
    | IPV4_V6 \<Rightarrow> IPV4_V6 \<in> set ts \<or> (IPV4 \<in> set ts \<and> IPV6 \<in> set ts)
    | ETHERNET \<Rightarrow> ETHERNET \<in> set ts
    | UNSTRUCTURED \<Rightarrow> False)"

lemma allow_flags_iff:
  "allow_flags ts (a, b, c) =
     (a \<or> permitted ts IPV4, b \<or> permitted ts IPV6, c \<or> permitted ts ETHERNET)"
  by (induction ts "(a, b, c)" arbitrary: a b c rule: allow_flags.induct)
    (auto simp: permitted_def split: pdu_session_type.splits)

lemma permitted_IPV4_V6: "permitted ts IPV4 \<and> permitted ts IPV6 \<longleftrightarrow> permitted ts IPV4_V6"
  by (auto simp: permitted_def)

lemma RemoveSMContext_Some:
  assumes "smContextPool s ref = Some p" and "heap s p = Some c"
    and "ReleaseUeIpAddr (ChangeState SmStateRelease c) (allocators s (DNNInfo c)) = Ok (c', a)"
  shows "\<exists>s'. RemoveSMContext ref s = Ok s' \<and> smContextPool s' = (smContextPool s)(ref := None) \<and>
    canonicalRef s' = (canonicalRef s)(canonicalName (Supi c') (PDUSessionID c') := None) \<and>
    seidSMContextMap s' = fold (\<lambda>q m. m(q := None)) (map snd (PFCPContext c)) (seidSMContextMap s) \<and>
    smContextActive s' = smContextActive s - 1 \<and> allocators s' = (allocators s)(DNNInfo c := a) \<and>
    heap s' = (heap s)(p \<mapsto> c')"
proof -
  have "(NOT 0 :: u64) = - 1" by simp
  moreover have "DNNInfo (ChangeState SmStateRelease c) = DNNInfo c"
    "PFCPContext (ChangeState SmStateRelease c) = PFCPContext c" by (simp_all add: ChangeState_def)
  ultimately show ?thesis
    using assms by (simp add: RemoveSMContext_def Let_def decSMContextActive_def)
qed

lemma ReleaseUeIpAddr_frame:
  "ReleaseUeIpAddr c a = Ok (c', a') \<Longrightarrow> Supi c' = Supi c \<and> PDUSessionID c' = PDUSessionID c \<and> Ref c' = Ref c"
  by (auto simp: ReleaseUeIpAddr_def split: option.splits if_splits)

section \<open>Properties\<close>

text \<open>C13: removing a session undoes its creation.  Take a session created for a subscriber and a
  session id that were not known, whose context was filled in since then with that subscriber and
  id, with an address from the allocator of its network and with fresh PFCP session ids registered
  for it.  Then its removal succeeds and leaves every pool, the count of active sessions and the
  addresses in use as they were before the creation.\<close>

theorem remove_undoes_create:
  assumes "smContextPool s ref = None" and "canonicalRef s (canonicalName supi n) = None"
    and new: "NewSMContext ref supi n s = (p, s1)"
    and c: "Supi c = supi" "PDUSessionID c = n" "PDUAddress c = Some \<lparr>UeIp = x, UpfProvided = False\<rparr>"
    and seids: "\<forall>q \<in> set (map snd (PFCPContext c)). seidSMContextMap s q = None"
    and wf: "allocator_wf env (allocators s (DNNInfo c))" "staticIp supi (g (allocators s (DNNInfo c))) = []"
    and al: "Allocate env supi (allocators s (DNNInfo c)) = Ok (x, a)"
    and s2: "s2 = s1\<lparr>heap := (heap s1)(p \<mapsto> c),
        seidSMContextMap := fold (\<lambda>q m. m(q \<mapsto> p)) (map snd (PFCPContext c)) (seidSMContextMap s1),
        allocators := (allocators s1)(DNNInfo c := a)\<rparr>"
  shows "\<exists>s3. RemoveSMContext ref s2 = Ok s3 \<and> smContextPool s3 = smContextPool s \<and>
    canonicalRef s3 = canonicalRef s \<and> seidSMContextMap s3 = seidSMContextMap s \<and>
    smContextActive s3 = smContextActive s \<and>
    isUsed (g (allocators s3 (DNNInfo c))) = isUsed (g (allocators s (DNNInfo c)))"
proof -
  from Release_allocated[OF wf al] obtain b where b: "Release supi x a = Ok b"
    "isUsed (g b) = isUsed (g (allocators s (DNNInfo c)))" by blast
  from wf al obtain i where "x = IPAddrWithOffset (netIP (allocators s (DNNInfo c))) i"
    by (rule Allocate_dynamic)
  then have "length x = 4" using wf(1) by (simp add: allocator_wf_def)
  then have x: "x \<noteq> []" by auto
  let ?c = "(ChangeState SmStateRelease c)\<lparr>PDUAddress := Some \<lparr>UeIp = To16 [0, 0, 0, 0], UpfProvided = False\<rparr>\<rparr>"
  have rel: "ReleaseUeIpAddr (ChangeState SmStateRelease c) (allocators s2 (DNNInfo c)) = Ok (?c, b)"
    using c b x by (simp add: ReleaseUeIpAddr_def ChangeState_def s2)
  have pool: "smContextPool s2 ref = Some p" "heap s2 p = Some c"
    using new s2 by (auto simp: NewSMContext_def incSMContextActive_def Let_def)
  have s1: "smContextPool s1 = (smContextPool s)(ref \<mapsto> p)" "seidSMContextMap s1 = seidSMContextMap s"
    "canonicalRef s1 = (canonicalRef s)(canonicalName supi n \<mapsto> ref)" "smContextActive s1 = smContextActive s + 1"
    using new by (auto simp: NewSMContext_def incSMContextActive_def Let_def)
  have n: "canonicalName (Supi ?c) (PDUSessionID ?c) = canonicalName supi n" using c by (simp add: ChangeState_def)
  from RemoveSMContext_Some[OF pool rel] obtain s3 where s3: "RemoveSMContext ref s2 = Ok s3"
    "smContextPool s3 = (smContextPool s2)(ref := None)"
    "canonicalRef s3 = (canonicalRef s2)(canonicalName supi n := None)"
    "seidSMContextMap s3 = fold (\<lambda>q m. m(q := None)) (map snd (PFCPContext c)) (seidSMContextMap s2)"
    "smContextActive s3 = smContextActive s2 - 1" "allocators s3 = (allocators s2)(DNNInfo c := b)"
    unfolding n by blast
  have "seidSMContextMap s3 = seidSMContextMap s" unfolding s3(4) using seids by (simp add: s2 s1 fold_delete_put)
  moreover have "smContextPool s3 = smContextPool s" "canonicalRef s3 = canonicalRef s"
    using assms(1,2) by (auto simp: s3(2,3) s2 s1)
  ultimately show ?thesis using s3 b by (auto simp: s2 s1)
qed

definition sample_pool :: id_pool where
  "sample_pool = \<lparr>staticIps = None, isUsed = {}, minValue = 1, maxValue = 254, index = 1\<rparr>"

definition sample_allocator :: ip_allocator where
  "sample_allocator = \<lparr>netIP = [10, 0, 0, 0], netMask = [255, 255, 255, 0], g = sample_pool\<rparr>"

definition sample_pools :: sm_pools where
  "sample_pools = \<lparr>heap = Map.empty, nextPtr = 0, smContextPool = Map.empty, canonicalRef = Map.empty,
     seidSMContextMap = Map.empty, smContextActive = 0, allocators = (\<lambda>_. sample_allocator),
     EnableDbStore = False, dbRef = Map.empty, dbSeid = Map.empty\<rparr>"

lemma sample_firstId: "firstId '''' = 1"
  by (simp add: firstId_def smfCount_def go_simps s64_def)

lemma sample_allocator_wf: "allocator_wf '''' sample_allocator"
proof -
  have "NewIPAllocator '''' ''10.0.0.0/24'' = Ok sample_allocator"
    by (simp add: NewIPAllocator_def newIDPool_def maskBits_def bit_loop.simps go_simps sample_firstId
        upt_conv_Cons Let_def sample_allocator_def sample_pool_def)
  from NewIPAllocator_wf[OF this] show ?thesis by (simp add: sample_firstId sample_allocator_def)
qed

lemma sample_Allocate:
  "Allocate '''' ''imsi-1'' sample_allocator =
     Ok ([10, 0, 0, 1], sample_allocator\<lparr>g := sample_pool\<lparr>isUsed := {1}, index := 2\<rparr>\<rparr>)"
  by (simp add: allocator_eval sample_firstId sample_allocator_def sample_pool_def)

lemma sample_static: "staticIp imsi (g sample_allocator) = []"
  by (simp add: staticIp_def sample_allocator_def sample_pool_def)

definition sample_context :: sm_context where
  "sample_context = (new_context ''ref-1'' ''imsi-1'' 5)\<lparr>Supi := ''imsi-1'',
     PDUAddress := Some \<lparr>UeIp = [10, 0, 0, 1], UpfProvided = False\<rparr>, PFCPContext := [(''upf'', 7)]\<rparr>"

theorem remove_undoes_create_witness:
  "\<exists>p s1 s2 s3. NewSMContext ''ref-1'' ''imsi-1'' 5 sample_pools = (p, s1) \<and> smContextPool s2 ''ref-1'' = Some p \<and>
     seidSMContextMap s2 7 = Some p \<and> RemoveSMContext ''ref-1'' s2 = Ok s3 \<and>
     smContextPool s3 = Map.empty \<and> seidSMContextMap s3 = Map.empty \<and> canonicalRef s3 = Map.empty"
proof -
  obtain p s1 where new: "NewSMContext ''ref-1'' ''imsi-1'' 5 sample_pools = (p, s1)"
    by (cases "NewSMContext ''ref-1'' ''imsi-1'' 5 sample_pools")
  let ?a = "sample_allocator\<lparr>g := sample_pool\<lparr>isUsed := {1}, index := 2\<rparr>\<rparr>"
  let ?s2 = "s1\<lparr>heap := (heap s1)(p \<mapsto> sample_context),
        seidSMContextMap := fold (\<lambda>q m. m(q \<mapsto> p)) (map snd (PFCPContext sample_context)) (seidSMContextMap s1),
        allocators := (allocators s1)(DNNInfo sample_context := ?a)\<rparr>"
  have "\<exists>s3. RemoveSMContext ''ref-1'' ?s2 = Ok s3 \<and> smContextPool s3 = smContextPool sample_pools \<and>
    canonicalRef s3 = canonicalRef sample_pools \<and> seidSMContextMap s3 = seidSMContextMap sample_pools \<and>
    smContextActive s3 = smContextActive sample_pools \<and>
    isUsed (g (allocators s3 (DNNInfo sample_context))) = isUsed (g (allocators sample_pools (DNNInfo sample_context)))"
    by (rule remove_undoes_create[where env = "''''", OF _ _ new _ _ _ _ _ _ _ refl])
      (simp_all add: sample_pools_def sample_context_def new_context_def sample_allocator_wf sample_static sample_Allocate)
  then obtain s3 where "RemoveSMContext ''ref-1'' ?s2 = Ok s3" "smContextPool s3 = Map.empty"
    "seidSMContextMap s3 = Map.empty" "canonicalRef s3 = Map.empty" by (auto simp: sample_pools_def)
  moreover have "smContextPool ?s2 ''ref-1'' = Some p" "seidSMContextMap ?s2 7 = Some p"
    using new by (auto simp: NewSMContext_def Let_def incSMContextActive_def sample_context_def)
  ultimately show ?thesis using new by (intro exI[of _ p] exI[of _ s1] exI[of _ ?s2] exI[of _ s3]) simp
qed

text \<open>Releasing the address of a session twice is harmless.  The teardown paths release the
  address and then remove the context, which releases it again; the second release carries the
  zero address and frees no identifier of the pool, so it cannot give away the address of another
  session.\<close>

lemma second_release_harmless:
  assumes "ReleaseUeIpAddr c a = Ok (c1, a1)" and "allocator_wf env a1"
    and "PDUAddress c = Some \<lparr>UeIp = x, UpfProvided = False\<rparr>" and "x \<noteq> []"
  shows "\<exists>c2 a2. ReleaseUeIpAddr c1 a1 = Ok (c2, a2) \<and>
     isUsed (g a2) \<inter> pool_ids env (g a2) = isUsed (g a1) \<inter> pool_ids env (g a1) \<and> allocator_wf env a2"
proof -
  have z: "To16 [0, 0, 0, 0] \<noteq> []" by (simp add: To16_def v4InV6Prefix_def)
  have c1: "PDUAddress c1 = Some \<lparr>UeIp = To16 [0, 0, 0, 0], UpfProvided = False\<rparr>" "Supi c1 = Supi c"
    using assms(1,3,4) by (auto simp: ReleaseUeIpAddr_def)
  from Release_zero[OF assms(2), of "Supi c1"] obtain b where
    "Release (Supi c1) (To16 [0, 0, 0, 0]) a1 = Ok b"
    "isUsed (g b) \<inter> pool_ids env (g b) = isUsed (g a1) \<inter> pool_ids env (g a1)" "allocator_wf env b" by blast
  then show ?thesis using c1 z by (simp add: ReleaseUeIpAddr_def)
qed

theorem second_release_harmless_witness:
  "\<exists>c1 a1 c2 a2. ReleaseUeIpAddr sample_context (sample_allocator\<lparr>g := sample_pool\<lparr>isUsed := {1, 2}, index := 3\<rparr>\<rparr>) = Ok (c1, a1) \<and>
     isUsed (g a1) = {2} \<and> ReleaseUeIpAddr c1 a1 = Ok (c2, a2) \<and> 2 \<in> isUsed (g a2)"
proof -
  let ?a = "sample_allocator\<lparr>g := sample_pool\<lparr>isUsed := {1, 2}, index := 3\<rparr>\<rparr>"
  let ?a1 = "sample_allocator\<lparr>g := sample_pool\<lparr>isUsed := {2}, index := 3\<rparr>\<rparr>"
  let ?c1 = "sample_context\<lparr>PDUAddress := Some \<lparr>UeIp = To16 [0, 0, 0, 0], UpfProvided = False\<rparr>\<rparr>"
  have r: "ReleaseUeIpAddr sample_context ?a = Ok (?c1, ?a1)"
    by (simp add: ReleaseUeIpAddr_def sample_context_def Release_def release_def IPAddrOffset_def
        sample_allocator_def sample_pool_def staticIp_def s64_def insert_Diff_if)
  have wf: "allocator_wf '''' ?a1"
    using sample_allocator_wf
    by (simp add: allocator_wf_def hostBits_def pool_inv_def sample_allocator_def sample_pool_def sample_firstId)
  from second_release_harmless[OF r wf] obtain c2 a2 where s: "ReleaseUeIpAddr ?c1 ?a1 = Ok (c2, a2)"
    "isUsed (g a2) \<inter> pool_ids '''' (g a2) = isUsed (g ?a1) \<inter> pool_ids '''' (g ?a1)"
    by (auto simp: sample_context_def)
  have "2 \<in> isUsed (g ?a1) \<inter> pool_ids '''' (g ?a1)" by (simp add: pool_ids_def sample_firstId sample_pool_def)
  then have "2 \<in> isUsed (g a2)" using s(2) by blast
  with r s(1) show ?thesis by (intro exI[of _ ?c1] exI[of _ ?a1] exI[of _ c2] exI[of _ a2]) simp
qed

text \<open>A session whose id was released leaves its name behind.  When the id of a session is reset
  before the context is removed, as the handling of a UE-requested release does, the removal
  deletes the name of session 0 and the name of the session stays: it resolves to a reference that
  is in no pool.\<close>

lemma released_id_leaves_name:
  assumes "NewSMContext ref supi n s = (p, s1)" and "n \<noteq> 0" and "Supi c = supi" "PDUSessionID c = n"
    and "s2 = s1\<lparr>heap := (heap s1)(p \<mapsto> ReleasePduSessionID c)\<rparr>" and "RemoveSMContext ref s2 = Ok s3"
  shows "ResolveRef supi n s3 = Ok ref \<and> smContextPool s3 ref = None"
proof -
  have pool: "smContextPool s2 ref = Some p" "heap s2 p = Some (ReleasePduSessionID c)"
    and name: "canonicalRef s2 (canonicalName supi n) = Some ref"
    using assms(1,5) by (auto simp: NewSMContext_def incSMContextActive_def Let_def)
  have id: "PDUSessionID (ReleasePduSessionID c) = 0" by (simp add: ReleasePduSessionID_def)
  from assms(6) pool obtain c' a where
    rel: "ReleaseUeIpAddr (ChangeState SmStateRelease (ReleasePduSessionID c))
      (allocators s2 (DNNInfo (ReleasePduSessionID c))) = Ok (c', a)"
    by (auto simp: RemoveSMContext_def Let_def ChangeState_def)
  have "PDUSessionID c' = 0" using ReleaseUeIpAddr_frame[OF rel] id by (simp add: ChangeState_def)
  then have "canonicalName (Supi c') (PDUSessionID c') \<noteq> canonicalName supi n"
    using ReleaseUeIpAddr_frame[OF rel] assms(2,3) canonicalName_zero[of supi n]
    by (auto simp: ChangeState_def ReleasePduSessionID_def)
  with RemoveSMContext_Some[OF pool rel] assms(6) name show ?thesis by (auto simp: ResolveRef_def)
qed

theorem released_id_leaves_name_witness:
  "\<exists>p s1 s3. NewSMContext ''ref-1'' ''imsi-1'' 5 sample_pools = (p, s1) \<and>
     RemoveSMContext ''ref-1'' (s1\<lparr>heap := (heap s1)(p \<mapsto> ReleasePduSessionID (new_context ''ref-1'' ''imsi-1'' 5\<lparr>Supi := ''imsi-1''\<rparr>))\<rparr>) = Ok s3 \<and>
     ResolveRef ''imsi-1'' 5 s3 = Ok ''ref-1'' \<and> smContextPool s3 ''ref-1'' = None"
proof -
  let ?c = "new_context ''ref-1'' ''imsi-1'' 5\<lparr>Supi := ''imsi-1''\<rparr>"
  obtain p s1 where new: "NewSMContext ''ref-1'' ''imsi-1'' 5 sample_pools = (p, s1)"
    by (cases "NewSMContext ''ref-1'' ''imsi-1'' 5 sample_pools")
  let ?s2 = "s1\<lparr>heap := (heap s1)(p \<mapsto> ReleasePduSessionID ?c)\<rparr>"
  have "\<exists>s3. RemoveSMContext ''ref-1'' ?s2 = Ok s3"
    using new by (auto simp: NewSMContext_def incSMContextActive_def Let_def RemoveSMContext_def
        ReleaseUeIpAddr_def ReleasePduSessionID_def ChangeState_def new_context_def)
  then obtain s3 where s3: "RemoveSMContext ''ref-1'' ?s2 = Ok s3" ..
  from released_id_leaves_name[OF new _ _ _ refl s3] new s3 show ?thesis
    by (auto simp: new_context_def)
qed

text \<open>The negotiated session type.  When the request is accepted, the selected type is permitted
  by the subscription; it is the requested one with cause 0, or, for a dual-stack request, the only
  address family that the subscription permits, with the cause that says so.\<close>

lemma session_type_negotiated:
  assumes "AllowedSessionTypes c = Some ts" and "isAllowedPDUSessionType nas supported requested c = (Ok (), c')"
  shows "\<exists>req sel. PDUSessionTypeToModels nas requested = Some req \<and> permitted ts sel \<and>
    SelectedPDUSessionType c' = ModelsToPDUSessionType nas sel \<and>
    (if permitted ts req then sel = req \<and> EstAcceptCause5gSMValue c' = 0
     else req = IPV4_V6 \<and> (sel = IPV4 \<and> EstAcceptCause5gSMValue c' = IPv4OnlyAllowed nas \<or>
                           sel = IPV6 \<and> EstAcceptCause5gSMValue c' = IPv6OnlyAllowed nas))"
  using assms permitted_IPV4_V6[of ts]
  by (auto simp: isAllowedPDUSessionType_def allow_flags_iff Let_def
      split: option.splits pdu_session_type.splits if_splits)

text \<open>The codes of TS 24.501.\<close>

definition nas_24501 :: nas_lib where
  "nas_24501 = \<lparr>
     PDUSessionTypeToModels = (\<lambda>b. map_of [(1, IPV4), (2, IPV6), (3, IPV4_V6), (4, UNSTRUCTURED), (5, ETHERNET)] b),
     ModelsToPDUSessionType = (\<lambda>t. case t of IPV4 \<Rightarrow> 1 | IPV6 \<Rightarrow> 2 | IPV4_V6 \<Rightarrow> 3 | UNSTRUCTURED \<Rightarrow> 4 | ETHERNET \<Rightarrow> 5),
     IPv4OnlyAllowed = 50, IPv6OnlyAllowed = 51\<rparr>"

theorem session_type_negotiated_witness:
  "\<exists>c'. isAllowedPDUSessionType nas_24501 ''IPv4'' 3 (sample_context\<lparr>AllowedSessionTypes := Some [IPV4, ETHERNET]\<rparr>) = (Ok (), c') \<and>
     SelectedPDUSessionType c' = 1 \<and> EstAcceptCause5gSMValue c' = 50"
proof -
  let ?c = "sample_context\<lparr>AllowedSessionTypes := Some [IPV4, ETHERNET]\<rparr>"
  let ?c' = "?c\<lparr>SelectedPDUSessionType := 1, EstAcceptCause5gSMValue := 50\<rparr>"
  have r: "isAllowedPDUSessionType nas_24501 ''IPv4'' 3 ?c = (Ok (), ?c')"
    by (simp add: isAllowedPDUSessionType_def type_supported_def nas_24501_def)
  from session_type_negotiated[OF _ r] show ?thesis
    using r by (auto simp: nas_24501_def permitted_def)
qed

text \<open>The address of an IPv6 session is announced with length 0: the case for IPv6 is empty and
  does not fall through to the one for dual stack.\<close>

lemma PDUAddressToNAS_IPv6_length:
  "PDUAddressToNAS nas_24501 (sample_context\<lparr>SelectedPDUSessionType := 1\<rparr>) = Ok ([10, 0, 0, 1, 0, 0, 0, 0, 0, 0, 0, 0], 5) \<and>
   map_option snd (case PDUAddressToNAS nas_24501 (sample_context\<lparr>SelectedPDUSessionType := 2\<rparr>) of Ok r \<Rightarrow> Some r | _ \<Rightarrow> None) = Some 0 \<and>
   map_option snd (case PDUAddressToNAS nas_24501 (sample_context\<lparr>SelectedPDUSessionType := 3\<rparr>) of Ok r \<Rightarrow> Some r | _ \<Rightarrow> None) = Some 13"
  by (simp add: PDUAddressToNAS_def nas_24501_def sample_context_def numeral_eq_Suc Let_def)

text \<open>A context that is only in the database is not found at first: \<^verbatim>\<open>GetSMContext\<close> stores it in
  the pool and returns nil, and finds it when it is asked again.\<close>

lemma database_context_found_late:
  assumes "smContextPool s ref = None" and "EnableDbStore s" and "dbRef s ref = Some c"
  shows "\<exists>s1 p. GetSMContext ref s = (None, s1) \<and> GetSMContext ref s1 = (Some p, s1) \<and> heap s1 p = Some c"
  using assms by (simp add: GetSMContext_def)

theorem database_context_found_late_witness:
  "fst (GetSMContext ''ref-1'' (sample_pools\<lparr>EnableDbStore := True, dbRef := [''ref-1'' \<mapsto> sample_context]\<rparr>)) = None"
  using database_context_found_late[of "sample_pools\<lparr>EnableDbStore := True, dbRef := [''ref-1'' \<mapsto> sample_context]\<rparr>" "''ref-1''" sample_context]
  by (auto simp: sample_pools_def)

end
