(* ===== verification/Txn_Fsm.thy ===== *)
theory Txn_Fsm
  imports Sm_Context
begin

text \<open>
  Transactions and the two state machines that drive them: the life cycle of a transaction
  (\<^verbatim>\<open>src/transaction/transaction.go\<close>, \<^verbatim>\<open>src/fsm/txnFsm.go\<close>) and the state machine of a session
  (\<^verbatim>\<open>src/fsm/handler.go\<close>).  The procedures of the producer package that a handler calls, the
  message stream and the generator of references are arguments (\<^verbatim>\<open>producer_ops\<close>); a procedure may
  change the whole state.  The send on the unbuffered status channel is one step, as the requester
  waits for it.
\<close>

section \<open>Transactions\<close>

datatype SmfMsgType =
    MsgTypeNone | CreateSmContext | UpdateSmContext | ReleaseSmContext | NotifySmContextStatus
  | RetrieveSmContext | NsmfPDUSessionCreate | NsmfPDUSessionUpdate | NsmfPDUSessionRelease
  | NnrfNFRegister | NnrfNFDeRegister | NnrfNFInstanceDeRegister | NnrfNFDiscoveryUdm
  | NnrfNFDiscoveryPcf | NnrfNFDiscoveryAmf | SmSubscriptionDataRetrieval | SmPolicyAssociationCreate
  | SmPolicyAssociationDelete | SmPolicyUpdateNotification | SmPolicyTerminationNotification
  | N1N2MessageTransfer | PfcpSessCreateFailure | N1N2MessageTransferFailureNotification
  | PfcpSessCreate | PfcpSessModify | PfcpSessRelease

datatype TxnEvent =
    TxnEventInit | TxnEventDecode | TxnEventLoadCtxt | TxnEventCtxtPost | TxnEventRun
  | TxnEventProcess | TxnEventSuccess | TxnEventFailure | TxnEventTimeout | TxnEventAbort
  | TxnEventSave | TxnEventCollision | TxnEventQueue | TxnEventEnd | TxnEventExit

text \<open>
  The field \<^verbatim>\<open>Ctxt\<close> is an interface: a nil interface is different from an interface that holds a
  nil pointer to a context.
\<close>

datatype ctxt_iface = NilIface | CtxtIface "ptr option"

record txn =
  MsgType :: SmfMsgType
  ReqSupi :: string
  ReqPduSessionId :: int
  Ctxt :: ctxt_iface
  CtxtKey :: string
  Rsp :: "nat option"
  TxnErr :: "string option"
  NextTxn :: "nat option"

definition new_txn :: "SmfMsgType \<Rightarrow> txn" where
  "new_txn msgType = \<lparr>MsgType = msgType, ReqSupi = '''', ReqPduSessionId = 0, Ctxt = NilIface, CtxtKey = '''',
     Rsp = None, TxnErr = None, NextTxn = None\<rparr>"

record fsm_state =
  pools :: sm_pools
  txns :: "nat \<rightharpoonup> txn"
  TxnId :: nat
  statuses :: "(nat \<times> bool) list"

definition AddTxn :: "nat \<Rightarrow> nat list \<Rightarrow> nat list" where
  "AddTxn t txnBus = txnBus @ [t]"

definition PopTxn :: "nat list \<Rightarrow> nat option \<times> nat list" where
  "PopTxn txnBus = (case txnBus of t # rest \<Rightarrow> (Some t, rest) | [] \<Rightarrow> (None, txnBus))"

section \<open>The procedures that the handlers call\<close>

datatype PFCPSessionResponseStatus =
    SessionUpdateSuccess | SessionUpdateFailed | SessionReleaseSuccess | SessionReleaseFailed
  | SessionUpdateTimeout | SessionReleaseTimeout | SessionEstablishSuccess | SessionEstablishFailed
  | SessionEstablishTimeout

record producer_ops =
  HandlePDUSessionSMContextCreate :: "nat \<Rightarrow> fsm_state \<Rightarrow> (string option \<times> fsm_state) result"
  HandlePDUSessionSMContextUpdate :: "nat \<Rightarrow> fsm_state \<Rightarrow> (string option \<times> fsm_state) result"
  HandlePDUSessionSMContextRelease :: "nat \<Rightarrow> fsm_state \<Rightarrow> (string option \<times> fsm_state) result"
  HandlePduSessN1N2TransFailInd :: "nat \<Rightarrow> fsm_state \<Rightarrow> (string option \<times> fsm_state) result"
  HandleSMPolicyUpdateNotify :: "nat \<Rightarrow> fsm_state \<Rightarrow> (string option \<times> fsm_state) result"
  HandlePduSessionContextReplacement :: "string \<Rightarrow> fsm_state \<Rightarrow> (string option \<times> fsm_state) result"
  SendPFCPRules :: "ptr \<Rightarrow> fsm_state \<Rightarrow> (PFCPSessionResponseStatus \<times> fsm_state) result"
  SendPduSessN1N2Transfer :: "ptr \<Rightarrow> bool \<Rightarrow> fsm_state \<Rightarrow> (string option \<times> fsm_state) result"
  PublishMsgEvent :: "string \<Rightarrow> string option"
  newURN :: "fsm_state \<Rightarrow> string"

definition upd_txn :: "nat \<Rightarrow> (txn \<Rightarrow> txn) \<Rightarrow> fsm_state \<Rightarrow> fsm_state" where
  "upd_txn t f s = s\<lparr>txns := (case txns s t of None \<Rightarrow> txns s | Some x \<Rightarrow> (txns s)(t \<mapsto> f x))\<rparr>"

definition upd_ctx :: "ptr \<Rightarrow> (sm_context \<Rightarrow> sm_context) \<Rightarrow> fsm_state \<Rightarrow> fsm_state" where
  "upd_ctx p f s = s\<lparr>pools := (pools s)\<lparr>heap :=
     (case heap (pools s) p of None \<Rightarrow> heap (pools s) | Some c \<Rightarrow> (heap (pools s))(p \<mapsto> f c))\<rparr>\<rparr>"

text \<open>A transaction by its pointer, the pointer in its context field (a nil interface panics in the
  type assertion), and the context itself (a nil pointer panics when it is read).\<close>

definition the_txn :: "nat \<Rightarrow> fsm_state \<Rightarrow> txn result" where
  "the_txn t s = (case txns s t of None \<Rightarrow> Panic ''nil pointer dereference'' | Some x \<Rightarrow> Ok x)"

definition assert_ctx :: "txn \<Rightarrow> ptr option result" where
  "assert_ctx x = (case Ctxt x of NilIface \<Rightarrow> Panic ''interface conversion: interface is nil'' | CtxtIface p \<Rightarrow> Ok p)"

definition deref_ctx :: "ptr option \<Rightarrow> fsm_state \<Rightarrow> (ptr \<times> sm_context) result" where
  "deref_ctx p s = (case p of None \<Rightarrow> Panic ''nil pointer dereference''
    | Some p \<Rightarrow> (case heap (pools s) p of None \<Rightarrow> Panic ''nil pointer dereference'' | Some c \<Rightarrow> Ok (p, c)))"

definition the_ctx :: "nat \<Rightarrow> fsm_state \<Rightarrow> (txn \<times> ptr \<times> sm_context) result" where
  "the_ctx t s = bind_res (the_txn t s) (\<lambda>x. bind_res (assert_ctx x) (\<lambda>p.
     bind_res (deref_ctx p s) (\<lambda>(p, c). Ok (x, p, c))))"

section \<open>The session state machine\<close>

datatype SmEvent =
    SmEventInvalid | SmEventPduSessCreate | SmEventPduSessModify | SmEventPduSessRelease
  | SmEventPfcpSessCreate | SmEventPfcpSessCreateFailure | SmEventPfcpSessModify | SmEventPfcpSessRelease
  | SmEventPduSessN1N2Transfer | SmEventPduSessN1N2TransferFailureIndication | SmEventPolicyUpdateNotify

text \<open>A handler answers the next state, an error, and the state it leaves behind.\<close>

type_synonym event_handler = "nat \<Rightarrow> fsm_state \<Rightarrow> (SMContextState \<times> string option \<times> fsm_state) result"

definition EmptyEventHandler :: event_handler where
  "EmptyEventHandler t s = bind_res (the_ctx t s) (\<lambda>(x, p, c).
     Ok (State c, Some ''fsm error, unhandled event'', s))"

text \<open>The error of the publication shadows the error of the procedure.\<close>

definition HandleStateInitEventPduSessCreate :: "producer_ops \<Rightarrow> event_handler" where
  "HandleStateInitEventPduSessCreate ops t s =
     bind_res (HandlePDUSessionSMContextCreate ops t s) (\<lambda>(err, s).
       case err of
         Some _ \<Rightarrow>
           (let perr = PublishMsgEvent ops ''Smf_msg_type_pdu_sess_create_rsp_failure'';
                errorMessage = (case perr of None \<Rightarrow> '''' | Some e \<Rightarrow> e) in
            Ok (SmStateInit, Some (''pdu session create: '' @ errorMessage), upd_txn t (\<lambda>x. x\<lparr>TxnErr := perr\<rparr>) s))
       | None \<Rightarrow> Ok (SmStatePfcpCreatePending, None, s))"

definition HandleStatePfcpCreatePendingEventPfcpSessCreate :: "producer_ops \<Rightarrow> event_handler" where
  "HandleStatePfcpCreatePendingEventPfcpSessCreate ops t s =
     bind_res (the_ctx t s) (\<lambda>(x, p, c).
     bind_res (SendPFCPRules ops p s) (\<lambda>(status, s).
       if status = SessionEstablishSuccess then Ok (SmStateN1N2TransferPending, None, s)
       else Ok (SmStatePfcpCreatePending, Some ''pfcp establishment failure'', s)))"

definition HandleStateN1N2TransferPendingEventN1N2Transfer :: "producer_ops \<Rightarrow> event_handler" where
  "HandleStateN1N2TransferPendingEventN1N2Transfer ops t s =
     bind_res (the_ctx t s) (\<lambda>(x, p, c).
     bind_res (SendPduSessN1N2Transfer ops p True s) (\<lambda>(err, s).
       case err of
         Some _ \<Rightarrow>
           (case PublishMsgEvent ops ''Smf_msg_type_pdu_sess_modify_rsp_failure'' of
              None \<Rightarrow> Panic ''nil pointer dereference''
            | Some e \<Rightarrow> Ok (SmStateN1N2TransferPending, Some (''N1N2 Transfer failure error, '' @ e), s))
       | None \<Rightarrow> Ok (SmStateActive, None, s)))"

definition HandleStatePfcpCreatePendingEventPfcpSessCreateFailure :: "producer_ops \<Rightarrow> event_handler" where
  "HandleStatePfcpCreatePendingEventPfcpSessCreateFailure ops t s =
     bind_res (the_ctx t s) (\<lambda>(x, p, c).
     bind_res (SendPduSessN1N2Transfer ops p False s) (\<lambda>(err, s).
       case err of
         Some e \<Rightarrow> Ok (SmStateN1N2TransferPending, Some (''N1N2 Transfer failure error, '' @ e), s)
       | None \<Rightarrow> Ok (SmStateInit, None, s)))"

definition HandleStateActiveEventPduSessModify :: "producer_ops \<Rightarrow> event_handler" where
  "HandleStateActiveEventPduSessModify ops t s =
     bind_res (the_ctx t s) (\<lambda>(x, p, c).
     bind_res (HandlePDUSessionSMContextUpdate ops t s) (\<lambda>(err, s). Ok (SmStateActive, err, s)))"

definition HandleStateActiveEventPduSessRelease :: "producer_ops \<Rightarrow> event_handler" where
  "HandleStateActiveEventPduSessRelease ops t s =
     bind_res (the_ctx t s) (\<lambda>(x, p, c).
     bind_res (HandlePDUSessionSMContextRelease ops t s) (\<lambda>(err, s).
       case err of
         Some _ \<Rightarrow>
           (case PublishMsgEvent ops ''Smf_msg_type_pdu_sess_release_rsp_failure'' of
              None \<Rightarrow> Panic ''nil pointer dereference''
            | Some e \<Rightarrow> Ok (SmStateInit, Some e, s))
       | None \<Rightarrow> Ok (SmStateInit, None, s)))"

definition HandleStateActiveEventPduSessN1N2TransFailInd :: "producer_ops \<Rightarrow> event_handler" where
  "HandleStateActiveEventPduSessN1N2TransFailInd ops t s =
     bind_res (the_ctx t s) (\<lambda>(x, p, c).
     bind_res (HandlePduSessN1N2TransFailInd ops t s) (\<lambda>(err, s). Ok (SmStateInit, err, s)))"

definition HandleStateActiveEventPolicyUpdateNotify :: "producer_ops \<Rightarrow> event_handler" where
  "HandleStateActiveEventPolicyUpdateNotify ops t s =
     bind_res (the_ctx t s) (\<lambda>(x, p, c).
     bind_res (HandleSMPolicyUpdateNotify ops t s) (\<lambda>(err, s).
       case err of
         Some e \<Rightarrow> Ok (SmStateActive, Some (''pdu session create error, '' @ e), upd_txn t (\<lambda>x. x\<lparr>TxnErr := Some e\<rparr>) s)
       | None \<Rightarrow> Ok (SmStateActive, None, s)))"

definition SmfFsmHandler :: "producer_ops \<Rightarrow> SMContextState \<Rightarrow> SmEvent \<Rightarrow> event_handler" where
  "SmfFsmHandler ops state event = (case (state, event) of
      (SmStateInit, SmEventPduSessCreate) \<Rightarrow> HandleStateInitEventPduSessCreate ops
    | (SmStatePfcpCreatePending, SmEventPfcpSessCreate) \<Rightarrow> HandleStatePfcpCreatePendingEventPfcpSessCreate ops
    | (SmStatePfcpCreatePending, SmEventPfcpSessCreateFailure) \<Rightarrow> HandleStatePfcpCreatePendingEventPfcpSessCreateFailure ops
    | (SmStateN1N2TransferPending, SmEventPduSessN1N2Transfer) \<Rightarrow> HandleStateN1N2TransferPendingEventN1N2Transfer ops
    | (SmStateActive, SmEventPduSessModify) \<Rightarrow> HandleStateActiveEventPduSessModify ops
    | (SmStateActive, SmEventPduSessRelease) \<Rightarrow> HandleStateActiveEventPduSessRelease ops
    | (SmStateActive, SmEventPduSessN1N2TransferFailureIndication) \<Rightarrow> HandleStateActiveEventPduSessN1N2TransFailInd ops
    | (SmStateActive, SmEventPolicyUpdateNotify) \<Rightarrow> HandleStateActiveEventPolicyUpdateNotify ops
    | _ \<Rightarrow> EmptyEventHandler)"

definition HandleEvent :: "producer_ops \<Rightarrow> ptr \<Rightarrow> SmEvent \<Rightarrow> nat \<Rightarrow> fsm_state \<Rightarrow> (string option \<times> fsm_state) result" where
  "HandleEvent ops p event t s = bind_res (deref_ctx (Some p) s) (\<lambda>(_, c).
     bind_res (SmfFsmHandler ops (State c) event t s) (\<lambda>(nextState, err, s).
       case err of
         Some e \<Rightarrow> Ok (Some e, s)
       | None \<Rightarrow> Ok (None, upd_ctx p (ChangeState nextState) s)))"

section \<open>The life cycle of a transaction\<close>

type_synonym txn_handler = "nat \<Rightarrow> fsm_state \<Rightarrow> (TxnEvent \<times> string option \<times> fsm_state) result"

definition TxnInit :: txn_handler where
  "TxnInit t s = Ok (TxnEventDecode, None, s)"

definition TxnDecode :: txn_handler where
  "TxnDecode t s = Ok (TxnEventLoadCtxt, None, s)"

text \<open>A fresh context for a create request, after an old one was replaced.\<close>

definition load_create :: "producer_ops \<Rightarrow> nat \<Rightarrow> txn \<Rightarrow> fsm_state \<Rightarrow> fsm_state result" where
  "load_create ops t x s =
     bind_res
       (case ResolveRef (ReqSupi x) (ReqPduSessionId x) (pools s) of
          Ok smCtxtRef \<Rightarrow> HandlePduSessionContextReplacement ops smCtxtRef s
        | _ \<Rightarrow> Ok (None, s))
       (\<lambda>(_, s).
          let (p, pl) = NewSMContext (newURN ops s) (ReqSupi x) (ReqPduSessionId x) (pools s);
              key = (case ResolveRef (ReqSupi x) (ReqPduSessionId x) pl of Ok r \<Rightarrow> r | _ \<Rightarrow> '''')
          in Ok (upd_txn t (\<lambda>x. x\<lparr>Ctxt := CtxtIface (Some p), CtxtKey := key\<rparr>) (s\<lparr>pools := pl\<rparr>)))"

text \<open>A context looked up by its reference; the interface then holds a pointer, nil or not.\<close>

definition load_ref :: "nat \<Rightarrow> txn \<Rightarrow> fsm_state \<Rightarrow> fsm_state" where
  "load_ref t x s = (let (p, pl) = GetSMContext (CtxtKey x) (pools s) in
     upd_txn t (\<lambda>x. x\<lparr>Ctxt := CtxtIface p\<rparr>) (s\<lparr>pools := pl\<rparr>))"

definition check_ctxt :: txn_handler where
  "check_ctxt t s = bind_res (the_txn t s) (\<lambda>x. bind_res (assert_ctx x) (\<lambda>p.
     if p = None then Ok (TxnEventFailure, Some ''ctxt not found'', s) else Ok (TxnEventCtxtPost, None, s)))"

definition TxnLoadCtxt :: "producer_ops \<Rightarrow> txn_handler" where
  "TxnLoadCtxt ops t s = bind_res (the_txn t s) (\<lambda>x. case MsgType x of
      CreateSmContext \<Rightarrow> bind_res (load_create ops t x s) (check_ctxt t)
    | UpdateSmContext \<Rightarrow> check_ctxt t (load_ref t x s)
    | ReleaseSmContext \<Rightarrow> check_ctxt t (load_ref t x s)
    | SmPolicyUpdateNotification \<Rightarrow> check_ctxt t (load_ref t x s)
    | PfcpSessCreate \<Rightarrow> check_ctxt t s
    | N1N2MessageTransfer \<Rightarrow> check_ctxt t s
    | PfcpSessCreateFailure \<Rightarrow> check_ctxt t s
    | N1N2MessageTransferFailureNotification \<Rightarrow> check_ctxt t (load_ref t x s)
    | _ \<Rightarrow> Ok (TxnEventFailure, Some ''invalid Msg to load Txn'', s))"

definition TxnCtxtPost :: txn_handler where
  "TxnCtxtPost t s = bind_res (the_ctx t s) (\<lambda>(x, p, c).
     if ActiveTxn c \<noteq> None
     then Ok (TxnEventQueue, None, upd_ctx p (\<lambda>c. c\<lparr>TxnBus := AddTxn t (TxnBus c)\<rparr>) s)
     else Ok (TxnEventRun, None, s))"

definition TxnCtxtRun :: txn_handler where
  "TxnCtxtRun t s = bind_res (the_ctx t s) (\<lambda>(x, p, c).
     Ok (TxnEventProcess, None, upd_ctx p (\<lambda>c. c\<lparr>ActiveTxn := Some t\<rparr>) s))"

fun sm_event :: "SmfMsgType \<Rightarrow> SmEvent" where
  "sm_event CreateSmContext = SmEventPduSessCreate"
| "sm_event UpdateSmContext = SmEventPduSessModify"
| "sm_event ReleaseSmContext = SmEventPduSessRelease"
| "sm_event PfcpSessCreate = SmEventPfcpSessCreate"
| "sm_event PfcpSessCreateFailure = SmEventPfcpSessCreateFailure"
| "sm_event N1N2MessageTransfer = SmEventPduSessN1N2Transfer"
| "sm_event N1N2MessageTransferFailureNotification = SmEventPduSessN1N2TransferFailureIndication"
| "sm_event SmPolicyUpdateNotification = SmEventPolicyUpdateNotify"
| "sm_event _ = SmEventInvalid"

definition ensure_pooled :: "ptr \<Rightarrow> sm_context \<Rightarrow> fsm_state \<Rightarrow> fsm_state" where
  "ensure_pooled p c s =
     (if EnableDbStore (pools s) \<and> smContextPool (pools s) (Ref c) = None
      then s\<lparr>pools := (pools s)\<lparr>smContextPool := (smContextPool (pools s))(Ref c \<mapsto> p)\<rparr>\<rparr> else s)"

definition TxnProcess :: "producer_ops \<Rightarrow> txn_handler" where
  "TxnProcess ops t s = bind_res (the_txn t s) (\<lambda>x. bind_res (assert_ctx x) (\<lambda>p.
     case p of
       None \<Rightarrow> Ok (TxnEventFailure, Some ''TxnProcess, invalid SM Ctxt'', s)
     | Some p \<Rightarrow> bind_res (deref_ctx (Some p) s) (\<lambda>(_, c).
         bind_res (HandleEvent ops p (sm_event (MsgType x)) t (ensure_pooled p c s)) (\<lambda>(err, s).
           case err of
             Some e \<Rightarrow> Ok (TxnEventFailure, Some e, s)
           | None \<Rightarrow> Ok (TxnEventSuccess, None, s)))))"

text \<open>A follow-up transaction for the same context is put on the bus.\<close>

definition post_next :: "SmfMsgType \<Rightarrow> ctxt_iface \<Rightarrow> ptr \<Rightarrow> fsm_state \<Rightarrow> fsm_state" where
  "post_next msgType i p s =
     upd_ctx p (\<lambda>c. c\<lparr>TxnBus := AddTxn (TxnId s + 1) (TxnBus c)\<rparr>)
       (s\<lparr>txns := (txns s)(TxnId s + 1 \<mapsto> (new_txn msgType)\<lparr>Ctxt := i\<rparr>), TxnId := TxnId s + 1\<rparr>)"

definition put_status :: "nat \<Rightarrow> bool \<Rightarrow> fsm_state \<Rightarrow> fsm_state" where
  "put_status t ok s = s\<lparr>statuses := statuses s @ [(t, ok)]\<rparr>"

definition TxnSuccess :: txn_handler where
  "TxnSuccess t s = bind_res (the_txn t s) (\<lambda>x.
     bind_res
       (if MsgType x = PfcpSessCreate
        then bind_res (the_ctx t s) (\<lambda>(x, p, c). Ok (post_next N1N2MessageTransfer (Ctxt x) p s))
        else Ok s)
       (\<lambda>s. Ok (TxnEventSave, None, put_status t True s)))"

text \<open>The comparison of the context with nil is one of interfaces.\<close>

definition TxnFailure :: txn_handler where
  "TxnFailure t s = bind_res (the_txn t s) (\<lambda>x.
     bind_res
       (case MsgType x of
          PfcpSessCreate \<Rightarrow>
            (case Ctxt x of
               NilIface \<Rightarrow> Ok s
             | CtxtIface q \<Rightarrow> bind_res (deref_ctx q s) (\<lambda>(p, c).
                 Ok (if State c = SmStatePfcpCreatePending then post_next PfcpSessCreateFailure (Ctxt x) p s else s)))
        | UpdateSmContext \<Rightarrow> Ok (if Ctxt x = NilIface then upd_txn t (\<lambda>x. x\<lparr>Rsp := Some 404\<rparr>) s else s)
        | ReleaseSmContext \<Rightarrow> Ok (if Ctxt x = NilIface then upd_txn t (\<lambda>x. x\<lparr>Rsp := Some 404\<rparr>) s else s)
        | _ \<Rightarrow> Ok s)
       (\<lambda>s. Ok (TxnEventEnd, None, put_status t False s)))"

definition TxnAbort :: txn_handler where "TxnAbort t s = Ok (TxnEventEnd, None, s)"
definition TxnTimeout :: txn_handler where "TxnTimeout t s = Ok (TxnEventEnd, None, s)"

text \<open>A successful insertion or replacement in the collection of the database.\<close>

definition StoreSmContextInDB :: "sm_context \<Rightarrow> fsm_state \<Rightarrow> fsm_state" where
  "StoreSmContextInDB c s = s\<lparr>pools := (pools s)\<lparr>dbRef := (dbRef (pools s))(Ref c \<mapsto> c)\<rparr>\<rparr>"

definition TxnSave :: txn_handler where
  "TxnSave t s =
     (if EnableDbStore (pools s)
      then bind_res (the_ctx t s) (\<lambda>(x, p, c). Ok (TxnEventEnd, None, StoreSmContextInDB c s))
      else Ok (TxnEventEnd, None, s))"

definition TxnEnd :: txn_handler where
  "TxnEnd t s = bind_res (the_txn t s) (\<lambda>x. bind_res (assert_ctx x) (\<lambda>q.
     case q of
       None \<Rightarrow> Ok (TxnEventExit, None, s)
     | Some _ \<Rightarrow> bind_res (deref_ctx q s) (\<lambda>(p, c).
         case PopTxn (TxnBus c) of
           (Some nextTxn, rest) \<Rightarrow>
             Ok (TxnEventRun, None, upd_txn t (\<lambda>x. x\<lparr>NextTxn := Some nextTxn\<rparr>)
               (upd_ctx p (\<lambda>c. c\<lparr>ActiveTxn := None, TxnBus := rest\<rparr>) s))
         | (None, _) \<Rightarrow> Ok (TxnEventExit, None, upd_ctx p (\<lambda>c. c\<lparr>ActiveTxn := None\<rparr>) s))))"

definition TxnFsmHandler :: "producer_ops \<Rightarrow> TxnEvent \<Rightarrow> txn_handler" where
  "TxnFsmHandler ops ev = (case ev of
      TxnEventInit \<Rightarrow> TxnInit | TxnEventDecode \<Rightarrow> TxnDecode | TxnEventLoadCtxt \<Rightarrow> TxnLoadCtxt ops
    | TxnEventCtxtPost \<Rightarrow> TxnCtxtPost | TxnEventRun \<Rightarrow> TxnCtxtRun | TxnEventProcess \<Rightarrow> TxnProcess ops
    | TxnEventSuccess \<Rightarrow> TxnSuccess | TxnEventFailure \<Rightarrow> TxnFailure | TxnEventTimeout \<Rightarrow> TxnTimeout
    | TxnEventAbort \<Rightarrow> TxnAbort | TxnEventSave \<Rightarrow> TxnSave | TxnEventEnd \<Rightarrow> TxnEnd
    | _ \<Rightarrow> (\<lambda>t s. Panic ''nil function''))"

text \<open>
  One iteration of the loop: the handler of the current event, then the next transaction after the
  end of one, or the end of the loop (\<^verbatim>\<open>None\<close>).
\<close>

definition loop_step ::
    "producer_ops \<Rightarrow> TxnEvent \<times> nat \<Rightarrow> fsm_state \<Rightarrow> ((TxnEvent \<times> nat) option \<times> fsm_state) result" where
  "loop_step ops cur s = (case cur of (ev, t) \<Rightarrow>
     bind_res (TxnFsmHandler ops ev t s) (\<lambda>(next, err, s).
       if ev = TxnEventEnd \<and> next = TxnEventRun
       then bind_res (the_txn t s) (\<lambda>x. Ok (Some (next, case NextTxn x of None \<Rightarrow> t | Some t' \<Rightarrow> t'), s))
       else if next = TxnEventExit \<or> next = TxnEventQueue then Ok (None, s)
       else Ok (Some (next, t), s)))"

text \<open>The loop with a bound on the number of iterations; \<^verbatim>\<open>None\<close> means that the bound was reached.\<close>

fun life_cycle :: "producer_ops \<Rightarrow> nat \<Rightarrow> TxnEvent \<times> nat \<Rightarrow> fsm_state \<Rightarrow> fsm_state result option" where
  "life_cycle ops 0 cur s = None"
| "life_cycle ops (Suc n) cur s = (case loop_step ops cur s of
      Err e \<Rightarrow> Some (Err e)
    | Panic e \<Rightarrow> Some (Panic e)
    | Ok (None, s') \<Rightarrow> Some (Ok s')
    | Ok (Some cur', s') \<Rightarrow> life_cycle ops n cur' s')"

definition StartTxnLifeCycle :: "producer_ops \<Rightarrow> nat \<Rightarrow> nat \<Rightarrow> fsm_state \<Rightarrow> fsm_state result option" where
  "StartTxnLifeCycle ops fuel t s = life_cycle ops fuel (TxnEventInit, t) s"

section \<open>What the procedures keep\<close>

text \<open>
  The procedures of the producer package do not touch the bus of a context, the type and the context of a transaction, the transaction counter and the status
  channels: only this package does.
\<close>

definition frame :: "fsm_state \<Rightarrow> fsm_state \<Rightarrow> bool" where
  "frame s s' \<longleftrightarrow>
     (\<forall>p c. heap (pools s) p = Some c \<longrightarrow>
        (\<exists>c'. heap (pools s') p = Some c' \<and> TxnBus c' = TxnBus c)) \<and>
     (\<forall>t x. txns s t = Some x \<longrightarrow> (\<exists>x'. txns s' t = Some x' \<and> MsgType x' = MsgType x \<and> Ctxt x' = Ctxt x)) \<and>
     TxnId s' = TxnId s \<and> statuses s' = statuses s"

definition ops_frame :: "producer_ops \<Rightarrow> bool" where
  "ops_frame ops \<longleftrightarrow>
     (\<forall>t s r s'. HandlePDUSessionSMContextCreate ops t s = Ok (r, s') \<longrightarrow> frame s s') \<and>
     (\<forall>t s r s'. HandlePDUSessionSMContextUpdate ops t s = Ok (r, s') \<longrightarrow> frame s s') \<and>
     (\<forall>t s r s'. HandlePDUSessionSMContextRelease ops t s = Ok (r, s') \<longrightarrow> frame s s') \<and>
     (\<forall>t s r s'. HandlePduSessN1N2TransFailInd ops t s = Ok (r, s') \<longrightarrow> frame s s') \<and>
     (\<forall>t s r s'. HandleSMPolicyUpdateNotify ops t s = Ok (r, s') \<longrightarrow> frame s s') \<and>
     (\<forall>p s r s'. SendPFCPRules ops p s = Ok (r, s') \<longrightarrow> frame s s') \<and>
     (\<forall>p b s r s'. SendPduSessN1N2Transfer ops p b s = Ok (r, s') \<longrightarrow> frame s s')"

lemma frame_refl: "frame s s" by (simp add: frame_def)

lemma frame_trans:
  assumes "frame s s'" and "frame s' s''"
  shows "frame s s''"
  unfolding frame_def
proof (intro conjI allI impI)
  fix p c assume "heap (pools s) p = Some c"
  with assms(1) obtain c' where "heap (pools s') p = Some c'" "TxnBus c' = TxnBus c"
    unfolding frame_def by blast
  with assms(2) show "\<exists>c''. heap (pools s'') p = Some c'' \<and> TxnBus c'' = TxnBus c"
    unfolding frame_def by force
next
  fix t x assume "txns s t = Some x"
  with assms(1) obtain x' where "txns s' t = Some x'" "MsgType x' = MsgType x" "Ctxt x' = Ctxt x"
    unfolding frame_def by blast
  with assms(2) show "\<exists>x''. txns s'' t = Some x'' \<and> MsgType x'' = MsgType x \<and> Ctxt x'' = Ctxt x"
    unfolding frame_def by force
qed (use assms in \<open>simp_all add: frame_def\<close>)

lemma frame_upd_txn: "(\<And>x. MsgType (f x) = MsgType x \<and> Ctxt (f x) = Ctxt x) \<Longrightarrow> frame s (upd_txn t f s)"
  by (auto simp: frame_def upd_txn_def split: option.splits)

lemma frame_upd_ctx: "(\<And>c. TxnBus (f c) = TxnBus c) \<Longrightarrow> frame s (upd_ctx p f s)"
  by (auto simp: frame_def upd_ctx_def split: option.splits)

lemma frame_ChangeState: "frame s (upd_ctx p (ChangeState st) s)"
  by (rule frame_upd_ctx) (simp add: ChangeState_def)

lemma frame_ensure_pooled: "frame s (ensure_pooled p c s)"
  by (simp add: frame_def ensure_pooled_def)

lemmas handler_defs = HandleStateInitEventPduSessCreate_def HandleStatePfcpCreatePendingEventPfcpSessCreate_def
  HandleStateN1N2TransferPendingEventN1N2Transfer_def HandleStatePfcpCreatePendingEventPfcpSessCreateFailure_def
  HandleStateActiveEventPduSessModify_def HandleStateActiveEventPduSessRelease_def
  HandleStateActiveEventPduSessN1N2TransFailInd_def HandleStateActiveEventPolicyUpdateNotify_def
  EmptyEventHandler_def

lemma ops_frameD:
  assumes "ops_frame ops"
  shows "HandlePDUSessionSMContextCreate ops t s = Ok (r, s') \<Longrightarrow> frame s s'"
    and "HandlePDUSessionSMContextUpdate ops t s = Ok (r, s') \<Longrightarrow> frame s s'"
    and "HandlePDUSessionSMContextRelease ops t s = Ok (r, s') \<Longrightarrow> frame s s'"
    and "HandlePduSessN1N2TransFailInd ops t s = Ok (r, s') \<Longrightarrow> frame s s'"
    and "HandleSMPolicyUpdateNotify ops t s = Ok (r, s') \<Longrightarrow> frame s s'"
    and "SendPFCPRules ops p s = Ok (r', s') \<Longrightarrow> frame s s'"
    and "SendPduSessN1N2Transfer ops p b s = Ok (r, s') \<Longrightarrow> frame s s'"
  using assms unfolding ops_frame_def by auto

lemma frame_TxnErr: "frame s (upd_txn t (\<lambda>x. x\<lparr>TxnErr := e\<rparr>) s)"
  by (rule frame_upd_txn) simp

lemma handler_frame:
  assumes "ops_frame ops"
  shows "HandleStateInitEventPduSessCreate ops t s = Ok (nx, err, s') \<Longrightarrow> frame s s'"
    and "HandleStatePfcpCreatePendingEventPfcpSessCreate ops t s = Ok (nx, err, s') \<Longrightarrow> frame s s'"
    and "HandleStateN1N2TransferPendingEventN1N2Transfer ops t s = Ok (nx, err, s') \<Longrightarrow> frame s s'"
    and "HandleStatePfcpCreatePendingEventPfcpSessCreateFailure ops t s = Ok (nx, err, s') \<Longrightarrow> frame s s'"
    and "HandleStateActiveEventPduSessModify ops t s = Ok (nx, err, s') \<Longrightarrow> frame s s'"
    and "HandleStateActiveEventPduSessRelease ops t s = Ok (nx, err, s') \<Longrightarrow> frame s s'"
    and "HandleStateActiveEventPduSessN1N2TransFailInd ops t s = Ok (nx, err, s') \<Longrightarrow> frame s s'"
    and "HandleStateActiveEventPolicyUpdateNotify ops t s = Ok (nx, err, s') \<Longrightarrow> frame s s'"
    and "EmptyEventHandler t s = Ok (nx, err, s') \<Longrightarrow> frame s s'"
  by (auto simp: handler_defs Let_def frame_refl split: option.splits if_splits
      dest: ops_frameD[OF assms] intro: frame_trans[OF _ frame_TxnErr])

lemma SmfFsmHandler_frame:
  assumes "ops_frame ops" and "SmfFsmHandler ops st ev t s = Ok (nx, err, s')"
  shows "frame s s'"
proof -
  have "SmfFsmHandler ops st ev \<in> {HandleStateInitEventPduSessCreate ops,
      HandleStatePfcpCreatePendingEventPfcpSessCreate ops, HandleStateN1N2TransferPendingEventN1N2Transfer ops,
      HandleStatePfcpCreatePendingEventPfcpSessCreateFailure ops, HandleStateActiveEventPduSessModify ops,
      HandleStateActiveEventPduSessRelease ops, HandleStateActiveEventPduSessN1N2TransFailInd ops,
      HandleStateActiveEventPolicyUpdateNotify ops, EmptyEventHandler}"
    by (simp add: SmfFsmHandler_def split: SMContextState.split SmEvent.split)
  with assms(2) show ?thesis
    by (elim insertE emptyE) (simp_all add: handler_frame[OF assms(1)])
qed

lemma HandleEvent_frame:
  assumes "ops_frame ops" and "HandleEvent ops p ev t s = Ok (err, s')"
  shows "frame s s'"
proof -
  from assms(2) have "\<exists>(c :: sm_context) nx e s1. SmfFsmHandler ops (State c) ev t s = Ok (nx, e, s1) \<and>
      (s' = s1 \<or> s' = upd_ctx p (ChangeState nx) s1)"
    by (auto simp: HandleEvent_def split: option.splits) blast+
  then show ?thesis
    using SmfFsmHandler_frame[OF assms(1)] frame_trans[OF _ frame_ChangeState] by blast
qed

section \<open>One transaction after another\<close>

lemma life_cycle_mono: "life_cycle ops n cur s = Some r \<Longrightarrow> n \<le> m \<Longrightarrow> life_cycle ops m cur s = Some r"
proof (induction n arbitrary: m cur s)
  case (Suc n)
  then obtain k where "m = Suc k" "n \<le> k" by (cases m) auto
  with Suc show ?case by (auto split: result.splits option.splits)
qed simp

lemma life_cycle_step:
  "loop_step ops cur s = Ok (Some cur', s') \<Longrightarrow> life_cycle ops n cur' s' = Some r \<Longrightarrow> life_cycle ops (Suc n) cur s = Some r"
  by simp

lemma life_cycle_fails:
  assumes "\<not> is_Ok (loop_step ops cur s)"
  shows "\<exists>r. life_cycle ops (Suc n) cur s = Some r \<and> \<not> is_Ok r"
proof (cases "loop_step ops cur s")
  case (Ok a)
  then show ?thesis using assms by simp
qed simp_all

text \<open>The transaction \<^verbatim>\<open>t\<close> belongs to the context \<^verbatim>\<open>p\<close>.\<close>

definition belongs :: "fsm_state \<Rightarrow> ptr \<Rightarrow> nat \<Rightarrow> bool" where
  "belongs s p t \<longleftrightarrow> t \<le> TxnId s \<and> (\<exists>x. txns s t = Some x \<and> Ctxt x = CtxtIface (Some p))"

text \<open>How many transactions can come out of one: a successful or failed PFCP establishment posts a
  follow-up.\<close>

definition weight :: "fsm_state \<Rightarrow> nat \<Rightarrow> nat" where
  "weight s t = (if map_option MsgType (txns s t) = Some PfcpSessCreate then 2 else 1)"

text \<open>From \<^verbatim>\<open>s\<close> to \<^verbatim>\<open>s'\<close> the transaction \<^verbatim>\<open>t\<close> was answered and \<^verbatim>\<open>fu\<close> was put on the bus.\<close>

definition answered :: "ptr \<Rightarrow> nat \<Rightarrow> nat list \<Rightarrow> fsm_state \<Rightarrow> fsm_state \<Rightarrow> bool" where
  "answered p t fu s s' \<longleftrightarrow>
     (\<exists>ok. statuses s' = statuses s @ [(t, ok)]) \<and>
     (\<exists>c c'. heap (pools s) p = Some c \<and> heap (pools s') p = Some c' \<and> TxnBus c' = TxnBus c @ fu) \<and>
     (\<forall>u \<le> TxnId s. \<forall>x. txns s u = Some x \<longrightarrow> (\<exists>x'. txns s' u = Some x' \<and> MsgType x' = MsgType x \<and> Ctxt x' = Ctxt x)) \<and>
     TxnId s' = TxnId s + length fu \<and>
     (fu = [] \<or> weight s t = 2 \<and> fu = [TxnId s + 1] \<and> belongs s' p (TxnId s + 1) \<and> weight s' (TxnId s + 1) = 1)"

lemma frame_ctx: "frame s s' \<Longrightarrow> heap (pools s) p = Some c \<Longrightarrow> \<exists>c'. heap (pools s') p = Some c' \<and> TxnBus c' = TxnBus c"
  unfolding frame_def by blast

lemma frame_txn: "frame s s' \<Longrightarrow> txns s t = Some x \<Longrightarrow> \<exists>x'. txns s' t = Some x' \<and> MsgType x' = MsgType x \<and> Ctxt x' = Ctxt x"
  unfolding frame_def by blast

lemma frame_rest: "frame s s' \<Longrightarrow> TxnId s' = TxnId s \<and> statuses s' = statuses s"
  by (simp add: frame_def)

lemma answered_status:
  assumes "frame s s1" and "heap (pools s) p = Some c"
  shows "answered p t [] s (put_status t ok s1)"
  using frame_ctx[OF assms] frame_rest[OF assms(1)] assms(2) frame_txn[OF assms(1)]
  by (auto simp: answered_def put_status_def)

lemma answered_post:
  assumes fr: "frame s s1" and c: "heap (pools s) p = Some c" and "weight s t = 2" and "m \<noteq> PfcpSessCreate"
  shows "answered p t [TxnId s + 1] s (put_status t ok (post_next m (CtxtIface (Some p)) p s1))"
proof -
  obtain c1 where c1: "heap (pools s1) p = Some c1" "TxnBus c1 = TxnBus c" using frame_ctx[OF fr c] by blast
  note r = frame_rest[OF fr]
  have "belongs (put_status t ok (post_next m (CtxtIface (Some p)) p s1)) p (TxnId s + 1)"
    using r by (simp add: belongs_def put_status_def post_next_def upd_ctx_def)
  moreover have "weight (put_status t ok (post_next m (CtxtIface (Some p)) p s1)) (TxnId s + 1) = 1"
    using r assms(4) by (simp add: weight_def put_status_def post_next_def upd_ctx_def new_txn_def)
  moreover have "\<forall>u \<le> TxnId s. \<forall>x. txns s u = Some x \<longrightarrow>
      (\<exists>x'. txns (put_status t ok (post_next m (CtxtIface (Some p)) p s1)) u = Some x' \<and> MsgType x' = MsgType x \<and> Ctxt x' = Ctxt x)"
    using frame_txn[OF fr] r by (auto simp: put_status_def post_next_def upd_ctx_def)
  ultimately show ?thesis
    using assms(3) c c1 r by (auto simp: answered_def put_status_def post_next_def upd_ctx_def AddTxn_def)
qed

lemma answered_frame:
  assumes "answered p t fu s s1" and "frame s1 s2"
  shows "answered p t fu s s2"
proof -
  have "weight s2 u = weight s1 u" if "belongs s1 p u" for u
    using that frame_txn[OF assms(2), of u] by (auto simp: belongs_def weight_def)
  moreover have "belongs s2 p u" if "belongs s1 p u" for u
    using that frame_txn[OF assms(2), of u] frame_rest[OF assms(2)] by (auto simp: belongs_def)
  moreover obtain c c1 where "heap (pools s) p = Some c" "heap (pools s1) p = Some c1" "TxnBus c1 = TxnBus c @ fu"
    using assms(1) by (auto simp: answered_def)
  moreover from this frame_ctx[OF assms(2)] obtain c2 where "heap (pools s2) p = Some c2" "TxnBus c2 = TxnBus c @ fu" by metis
  moreover have "\<forall>u \<le> TxnId s. \<forall>x. txns s u = Some x \<longrightarrow> (\<exists>x'. txns s2 u = Some x' \<and> MsgType x' = MsgType x \<and> Ctxt x' = Ctxt x)"
    using assms(1) frame_txn[OF assms(2)] unfolding answered_def by metis
  ultimately show ?thesis
    using assms(1) frame_rest[OF assms(2)] unfolding answered_def by auto
qed

lemma belongs_ctx:
  assumes "belongs s p t" and "heap (pools s) p = Some c"
  obtains x where "txns s t = Some x" "Ctxt x = CtxtIface (Some p)" "the_txn t s = Ok x"
    "the_ctx t s = Ok (x, p, c)" "assert_ctx x = Ok (Some p)" "deref_ctx (Some p) s = Ok (p, c)"
  using assms by (auto simp: belongs_def the_txn_def the_ctx_def assert_ctx_def deref_ctx_def)

lemma belongs_frame: "belongs s p t \<Longrightarrow> frame s s' \<Longrightarrow> belongs s' p t"
  using frame_txn[of s s' t] frame_rest[of s s'] by (auto simp: belongs_def)

lemma belongs_answered: "belongs s p u \<Longrightarrow> answered p t fu s s' \<Longrightarrow> belongs s' p u"
  unfolding belongs_def answered_def by fastforce

lemma step_Run:
  assumes "belongs s p t" and "heap (pools s) p = Some c"
  obtains s' where "loop_step ops (TxnEventRun, t) s = Ok (Some (TxnEventProcess, t), s')" "frame s s'"
proof -
  obtain x where "the_ctx t s = Ok (x, p, c)" using belongs_ctx[OF assms] by blast
  then have "loop_step ops (TxnEventRun, t) s =
      Ok (Some (TxnEventProcess, t), upd_ctx p (\<lambda>c. c\<lparr>ActiveTxn := Some t\<rparr>) s)"
    by (simp add: loop_step_def TxnFsmHandler_def TxnCtxtRun_def)
  moreover have "frame s (upd_ctx p (\<lambda>c. c\<lparr>ActiveTxn := Some t\<rparr>) s)" by (rule frame_upd_ctx) simp
  ultimately show ?thesis by (rule that)
qed

lemma step_Process:
  assumes "ops_frame ops" and "belongs s p t" and "heap (pools s) p = Some c"
  shows "\<not> is_Ok (loop_step ops (TxnEventProcess, t) s) \<or>
    (\<exists>ev s'. (ev = TxnEventSuccess \<or> ev = TxnEventFailure) \<and> frame s s' \<and>
       loop_step ops (TxnEventProcess, t) s = Ok (Some (ev, t), s'))"
proof -
  obtain x where x: "the_txn t s = Ok x" "assert_ctx x = Ok (Some p)" "deref_ctx (Some p) s = Ok (p, c)"
    using belongs_ctx[OF assms(2,3)] by metis
  show ?thesis
  proof (cases "HandleEvent ops p (sm_event (MsgType x)) t (ensure_pooled p c s)")
    case (Ok r)
    then obtain err s' where h: "HandleEvent ops p (sm_event (MsgType x)) t (ensure_pooled p c s) = Ok (err, s')"
      by (cases r) auto
    have "frame s s'" by (rule frame_trans[OF frame_ensure_pooled HandleEvent_frame[OF assms(1) h]])
    then show ?thesis
      using x h by (cases err) (simp_all add: loop_step_def TxnFsmHandler_def TxnProcess_def)
  qed (use x in \<open>simp_all add: loop_step_def TxnFsmHandler_def TxnProcess_def\<close>)
qed

lemma weight_PfcpSessCreate: "frame s s' \<Longrightarrow> txns s t = Some x0 \<Longrightarrow> txns s' t = Some x \<Longrightarrow> MsgType x = PfcpSessCreate \<Longrightarrow> weight s t = 2"
  using frame_txn[of s s' t] by (auto simp: weight_def)

lemma step_Success:
  assumes fr: "frame s s1" and "belongs s p t" and c: "heap (pools s) p = Some c"
  obtains fu s2 where "loop_step ops (TxnEventSuccess, t) s1 = Ok (Some (TxnEventSave, t), s2)" "answered p t fu s s2"
proof -
  obtain c1 where c1: "heap (pools s1) p = Some c1" using frame_ctx[OF fr c] by blast
  obtain x0 where x0: "txns s t = Some x0" using assms(2) by (auto simp: belongs_def)
  obtain x where x: "the_txn t s1 = Ok x" "the_ctx t s1 = Ok (x, p, c1)" "Ctxt x = CtxtIface (Some p)" "txns s1 t = Some x"
    using belongs_ctx[OF belongs_frame[OF assms(2) fr] c1] by metis
  show ?thesis
  proof (cases "MsgType x = PfcpSessCreate")
    case True
    from answered_post[OF fr c weight_PfcpSessCreate[OF fr x0 x(4) True], of N1N2MessageTransfer True]
    show ?thesis using x True by (intro that) (simp_all add: loop_step_def TxnFsmHandler_def TxnSuccess_def)
  next
    case False
    from answered_status[OF fr c] show ?thesis
      using x False by (intro that) (simp_all add: loop_step_def TxnFsmHandler_def TxnSuccess_def)
  qed
qed

lemma step_Failure:
  assumes fr: "frame s s1" and "belongs s p t" and c: "heap (pools s) p = Some c"
  obtains fu s2 where "loop_step ops (TxnEventFailure, t) s1 = Ok (Some (TxnEventEnd, t), s2)" "answered p t fu s s2"
proof -
  obtain c1 where c1: "heap (pools s1) p = Some c1" using frame_ctx[OF fr c] by blast
  obtain x0 where x0: "txns s t = Some x0" using assms(2) by (auto simp: belongs_def)
  obtain x where x: "the_txn t s1 = Ok x" "deref_ctx (Some p) s1 = Ok (p, c1)" "Ctxt x = CtxtIface (Some p)" "txns s1 t = Some x"
    using belongs_ctx[OF belongs_frame[OF assms(2) fr] c1] by metis
  note lp = loop_step_def TxnFsmHandler_def TxnFailure_def
  show ?thesis
  proof (cases "MsgType x = PfcpSessCreate \<and> State c1 = SmStatePfcpCreatePending")
    case True
    then have m: "MsgType x = PfcpSessCreate" by simp
    from answered_post[OF fr c weight_PfcpSessCreate[OF fr x0 x(4) m], of PfcpSessCreateFailure False]
    show ?thesis using x True by (intro that) (simp_all add: lp)
  next
    case False
    have "loop_step ops (TxnEventFailure, t) s1 = Ok (Some (TxnEventEnd, t), put_status t False s1)"
      using x False by (auto simp: lp split: SmfMsgType.split)
    with answered_status[OF fr c] show ?thesis by (intro that)
  qed
qed

lemma step_Save:
  assumes "belongs s p t" and "heap (pools s) p = Some c"
  obtains s' where "loop_step ops (TxnEventSave, t) s = Ok (Some (TxnEventEnd, t), s')" "frame s s'"
proof -
  obtain x where x: "the_ctx t s = Ok (x, p, c)" using belongs_ctx[OF assms] by blast
  have "frame s (StoreSmContextInDB c s)" by (simp add: frame_def StoreSmContextInDB_def)
  then show ?thesis
    using x by (cases "EnableDbStore (pools s)")
      (auto simp: loop_step_def TxnFsmHandler_def TxnSave_def intro: that frame_refl)
qed

lemma run_to_end:
  assumes ops: "ops_frame ops" and b: "belongs s p t" and c: "heap (pools s) p = Some c"
  shows "(\<exists>r. life_cycle ops 4 (TxnEventRun, t) s = Some r \<and> \<not> is_Ok r) \<or>
    (\<exists>fu s1. answered p t fu s s1 \<and>
       (\<forall>n r. life_cycle ops n (TxnEventEnd, t) s1 = Some r \<longrightarrow> life_cycle ops (n + 4) (TxnEventRun, t) s = Some r))"
proof -
  obtain sa where a: "loop_step ops (TxnEventRun, t) s = Ok (Some (TxnEventProcess, t), sa)" "frame s sa"
    using step_Run[OF b c] by blast
  obtain ca where ca: "heap (pools sa) p = Some ca" using frame_ctx[OF a(2) c] by blast
  note ba = belongs_frame[OF b a(2)]
  from step_Process[OF ops ba ca] show ?thesis
  proof
    assume "\<not> is_Ok (loop_step ops (TxnEventProcess, t) sa)"
    from life_cycle_fails[OF this, of 2] obtain r where r: "life_cycle ops (Suc 2) (TxnEventProcess, t) sa = Some r" "\<not> is_Ok r"
      by blast
    have "life_cycle ops 4 (TxnEventRun, t) s = Some r"
      by (rule life_cycle_mono[OF life_cycle_step[OF a(1) r(1)]]) simp
    with r(2) show ?thesis by blast
  next
    assume "\<exists>ev s'. (ev = TxnEventSuccess \<or> ev = TxnEventFailure) \<and> frame sa s' \<and>
       loop_step ops (TxnEventProcess, t) sa = Ok (Some (ev, t), s')"
    then obtain ev sb where ev: "ev = TxnEventSuccess \<or> ev = TxnEventFailure" and fb: "frame sa sb"
      and pb: "loop_step ops (TxnEventProcess, t) sa = Ok (Some (ev, t), sb)" by blast
    note fr = frame_trans[OF a(2) fb]
    have "\<exists>fu s1. answered p t fu s s1 \<and>
       (\<forall>n r. life_cycle ops n (TxnEventEnd, t) s1 = Some r \<longrightarrow> life_cycle ops (n + 2) (ev, t) sb = Some r)"
    proof (cases "ev = TxnEventSuccess")
      case True
      obtain fu sc where sc: "loop_step ops (TxnEventSuccess, t) sb = Ok (Some (TxnEventSave, t), sc)" "answered p t fu s sc"
        using step_Success[OF fr b c] by blast
      obtain cc where cc: "heap (pools sc) p = Some cc" using sc(2) by (auto simp: answered_def)
      obtain sd where sd: "loop_step ops (TxnEventSave, t) sc = Ok (Some (TxnEventEnd, t), sd)" "frame sc sd"
        using step_Save[OF belongs_answered[OF b sc(2)] cc] by blast
      have "life_cycle ops (n + 2) (ev, t) sb = Some r" if "life_cycle ops n (TxnEventEnd, t) sd = Some r" for n r
        using life_cycle_mono[OF life_cycle_step[OF sc(1) life_cycle_step[OF sd(1) that]], of "n + 2"] True by simp
      then show ?thesis using answered_frame[OF sc(2) sd(2)] by blast
    next
      case False
      obtain fu sc where sc: "loop_step ops (TxnEventFailure, t) sb = Ok (Some (TxnEventEnd, t), sc)" "answered p t fu s sc"
        using step_Failure[OF fr b c] by blast
      have "life_cycle ops n (TxnEventEnd, t) sc = Some r \<Longrightarrow> life_cycle ops (n + 2) (ev, t) sb = Some r" for n r
        using life_cycle_mono[OF life_cycle_step[OF sc(1)], of n r "n + 2"] False ev by simp
      then show ?thesis using sc(2) by blast
    qed
    then obtain fu s1 where an: "answered p t fu s s1" and run: "\<And>n r. life_cycle ops n (TxnEventEnd, t) s1 = Some r \<Longrightarrow>
        life_cycle ops (n + 2) (ev, t) sb = Some r" by blast
    have "life_cycle ops (n + 4) (TxnEventRun, t) s = Some r" if "life_cycle ops n (TxnEventEnd, t) s1 = Some r" for n r
      by (rule life_cycle_mono[OF life_cycle_step[OF a(1) life_cycle_step[OF pb run[OF that]]]]) simp
    with an show ?thesis by blast
  qed
qed

lemma step_End:
  assumes b: "belongs s p t" and c: "heap (pools s) p = Some c"
  shows "TxnBus c = [] \<Longrightarrow> \<exists>s'. loop_step ops (TxnEventEnd, t) s = Ok (None, s') \<and> statuses s' = statuses s"
    and "TxnBus c = u # rest \<Longrightarrow> \<exists>s' c'. loop_step ops (TxnEventEnd, t) s = Ok (Some (TxnEventRun, u), s') \<and>
      heap (pools s') p = Some c' \<and> TxnBus c' = rest \<and> statuses s' = statuses s \<and> TxnId s' = TxnId s \<and>
      (\<forall>v. belongs s p v \<longrightarrow> belongs s' p v \<and> weight s' v = weight s v)"
proof -
  obtain x where x: "txns s t = Some x" "the_txn t s = Ok x" "assert_ctx x = Ok (Some p)" "deref_ctx (Some p) s = Ok (p, c)"
    using belongs_ctx[OF b c] by metis
  note lp = loop_step_def TxnFsmHandler_def TxnEnd_def PopTxn_def
  show "TxnBus c = [] \<Longrightarrow> \<exists>s'. loop_step ops (TxnEventEnd, t) s = Ok (None, s') \<and> statuses s' = statuses s"
    using x by (simp add: lp upd_ctx_def)
  assume u: "TxnBus c = u # rest"
  let ?s = "upd_txn t (\<lambda>x. x\<lparr>NextTxn := Some u\<rparr>) (upd_ctx p (\<lambda>c. c\<lparr>ActiveTxn := None, TxnBus := rest\<rparr>) s)"
  have "loop_step ops (TxnEventEnd, t) s = Ok (Some (TxnEventRun, u), ?s)"
    using x u by (simp add: lp upd_txn_def upd_ctx_def the_txn_def)
  moreover have "belongs s p v \<longrightarrow> belongs ?s p v \<and> weight ?s v = weight s v" for v
    using x(1) by (auto simp: belongs_def weight_def upd_txn_def upd_ctx_def)
  ultimately show "\<exists>s' c'. loop_step ops (TxnEventEnd, t) s = Ok (Some (TxnEventRun, u), s') \<and>
      heap (pools s') p = Some c' \<and> TxnBus c' = rest \<and> statuses s' = statuses s \<and> TxnId s' = TxnId s \<and>
      (\<forall>v. belongs s p v \<longrightarrow> belongs s' p v \<and> weight s' v = weight s v)"
    using c x(1) by (intro exI[of _ ?s]) (auto simp: upd_txn_def upd_ctx_def)
qed

lemma answered_weights:
  assumes "answered p t fu s s'" and "\<forall>u \<in> set us. belongs s p u"
  shows "sum_list (map (weight s') (us @ fu)) + 1 \<le> sum_list (map (weight s) (t # us))"
proof -
  have "weight s' u = weight s u" if "u \<in> set us" for u
    using assms that unfolding answered_def belongs_def weight_def by fastforce
  then have "sum_list (map (weight s') us) = sum_list (map (weight s) us)" by (metis map_cong)
  moreover have "1 \<le> weight s t" by (simp add: weight_def)
  ultimately show ?thesis using assms(1) by (auto simp: answered_def simp del: One_nat_def)
qed

text \<open>The goroutine that runs a transaction runs everything on the bus of its context after it.\<close>

lemma bus_in_order:
  assumes ops: "ops_frame ops"
  shows "belongs s p t \<Longrightarrow> heap (pools s) p = Some c \<Longrightarrow> \<forall>u \<in> set (TxnBus c). belongs s p u \<Longrightarrow>
    sum_list (map (weight s) (t # TxnBus c)) \<le> W \<Longrightarrow>
    \<exists>r. life_cycle ops (5 * W) (TxnEventRun, t) s = Some r \<and>
      (\<forall>s'. r = Ok s' \<longrightarrow> (\<exists>new bs. statuses s' = statuses s @ zip (t # TxnBus c @ new) bs \<and>
         length bs = length (t # TxnBus c @ new) \<and> (\<forall>u \<in> set new. TxnId s < u)))"
proof (induction W arbitrary: s t c)
  case 0
  then show ?case by (auto simp: weight_def split: if_splits)
next
  case (Suc W)
  from run_to_end[OF ops Suc.prems(1,2)] show ?case
  proof
    assume "\<exists>r. life_cycle ops 4 (TxnEventRun, t) s = Some r \<and> \<not> is_Ok r"
    then obtain r where "life_cycle ops 4 (TxnEventRun, t) s = Some r" "\<not> is_Ok r" by blast
    moreover from this(1) have "life_cycle ops (5 * Suc W) (TxnEventRun, t) s = Some r" by (rule life_cycle_mono) simp
    ultimately show ?thesis by auto
  next
    assume "\<exists>fu s1. answered p t fu s s1 \<and> (\<forall>n r. life_cycle ops n (TxnEventEnd, t) s1 = Some r \<longrightarrow>
      life_cycle ops (n + 4) (TxnEventRun, t) s = Some r)"
    then obtain fu s1 where an: "answered p t fu s s1"
      and run: "\<And>n r. life_cycle ops n (TxnEventEnd, t) s1 = Some r \<Longrightarrow> life_cycle ops (n + 4) (TxnEventRun, t) s = Some r"
      by blast
    from an Suc.prems(2) obtain c1 ok where c1: "heap (pools s1) p = Some c1" "TxnBus c1 = TxnBus c @ fu"
      "statuses s1 = statuses s @ [(t, ok)]" "TxnId s1 = TxnId s + length fu" by (auto simp: answered_def)
    note b1 = belongs_answered[OF Suc.prems(1) an]
    have fu: "\<forall>u \<in> set fu. TxnId s < u \<and> belongs s1 p u" using an by (auto simp: answered_def)
    show ?thesis
    proof (cases "TxnBus c1")
      case Nil
      from step_End(1)[OF b1 c1(1) this] obtain s2 where
        e: "loop_step ops (TxnEventEnd, t) s1 = Ok (None, s2)" "statuses s2 = statuses s1" by blast
      have "life_cycle ops (1 + 4) (TxnEventRun, t) s = Some (Ok s2)" using e(1) by (intro run) simp
      then have "life_cycle ops (5 * Suc W) (TxnEventRun, t) s = Some (Ok s2)" by (rule life_cycle_mono) simp
      moreover have "statuses s2 = statuses s @ zip (t # TxnBus c @ []) [ok]" using Nil c1(2,3) e(2) by simp
      ultimately show ?thesis using Nil c1(2) by (intro exI[of _ "Ok s2"]) (auto intro!: exI[of _ "[]"] exI[of _ "[ok]"])
    next
      case (Cons u rest)
      from step_End(2)[OF b1 c1(1) this] obtain s2 c2 where
        e: "loop_step ops (TxnEventEnd, t) s1 = Ok (Some (TxnEventRun, u), s2)" "heap (pools s2) p = Some c2"
          "TxnBus c2 = rest" "statuses s2 = statuses s1" "TxnId s2 = TxnId s1"
        and k: "\<And>v. belongs s1 p v \<Longrightarrow> belongs s2 p v \<and> weight s2 v = weight s1 v" by blast
      have all1: "\<forall>v \<in> set (u # rest). belongs s1 p v"
        using Cons c1(2) fu Suc.prems(3) belongs_answered[OF _ an] by (metis Un_iff set_append)
      have "map (weight s2) (u # rest) = map (weight s1) (TxnBus c @ fu)"
        using Cons c1(2) all1 k by (metis map_cong)
      then have w: "sum_list (map (weight s2) (u # TxnBus c2)) \<le> W"
        using answered_weights[OF an Suc.prems(3)] Suc.prems(4) e(3) by simp
      have bs2: "belongs s2 p u" "\<forall>v \<in> set (TxnBus c2). belongs s2 p v" using all1 k e(3) by auto
      from Suc.IH[OF bs2(1) e(2) bs2(2) w] obtain r where
        r: "life_cycle ops (5 * W) (TxnEventRun, u) s2 = Some r"
        "\<And>s'. r = Ok s' \<Longrightarrow> \<exists>new bs. statuses s' = statuses s2 @ zip (u # rest @ new) bs \<and>
           length bs = length (u # rest @ new) \<and> (\<forall>v \<in> set new. TxnId s2 < v)"
        unfolding e(3) by blast
      have "life_cycle ops (Suc (5 * W) + 4) (TxnEventRun, t) s = Some r"
        by (rule run[OF life_cycle_step[OF e(1) r(1)]])
      then have "life_cycle ops (5 * Suc W) (TxnEventRun, t) s = Some r" by (rule life_cycle_mono) simp
      moreover have "\<exists>new bs. statuses s' = statuses s @ zip (t # TxnBus c @ new) bs \<and>
         length bs = length (t # TxnBus c @ new) \<and> (\<forall>u \<in> set new. TxnId s < u)" if ok': "r = Ok s'" for s'
      proof -
        from r(2)[OF ok'] obtain new bs where nb: "statuses s' = statuses s2 @ zip (u # rest @ new) bs"
          "length bs = length (u # rest @ new)" "\<forall>v \<in> set new. TxnId s2 < v" by blast
        have eq: "u # rest @ new = TxnBus c @ fu @ new" using Cons c1(2) by (metis append_Cons append_assoc)
        show ?thesis
          using nb(1,2) eq e(4) c1(3) fu nb(3) e(5) c1(4)
          by (intro exI[of _ "fu @ new"] exI[of _ "ok # bs"]) auto
      qed
      ultimately show ?thesis by blast
    qed
  qed
qed

section \<open>Two goroutines\<close>

text \<open>Goroutines that each run a life cycle, one loop iteration at a time in the order of a schedule.\<close>

fun run_schedule :: "producer_ops \<Rightarrow> nat list \<Rightarrow> (nat \<Rightarrow> (TxnEvent \<times> nat) option) \<Rightarrow> fsm_state \<Rightarrow>
    ((nat \<Rightarrow> (TxnEvent \<times> nat) option) \<times> fsm_state) result" where
  "run_schedule ops [] thr s = Ok (thr, s)"
| "run_schedule ops (i # is) thr s = (case thr i of
      None \<Rightarrow> run_schedule ops is thr s
    | Some cur \<Rightarrow> bind_res (loop_step ops cur s) (\<lambda>(cur', s'). run_schedule ops is (thr(i := cur')) s'))"

text \<open>The reply to an update request, from the transaction after its status was received:
  \<^verbatim>\<open>src/pdusession/api_individual_sm_context.go\<close>.\<close>

definition HTTPUpdateSmContext_status :: "txn \<Rightarrow> nat" where
  "HTTPUpdateSmContext_status x =
     (if TxnErr x \<noteq> None then 404 else case Rsp x of None \<Rightarrow> 500 | Some status \<Rightarrow> status)"

section \<open>A concrete instance\<close>

definition sample_ops :: producer_ops where
  "sample_ops = \<lparr>
     HandlePDUSessionSMContextCreate = (\<lambda>t s. Ok (None, s)),
     HandlePDUSessionSMContextUpdate = (\<lambda>t s. Ok (None, upd_txn t (\<lambda>x. x\<lparr>Rsp := Some 200\<rparr>) s)),
     HandlePDUSessionSMContextRelease = (\<lambda>t s. Ok (Some ''PCF unreachable'', s)),
     HandlePduSessN1N2TransFailInd = (\<lambda>t s. Ok (None, s)),
     HandleSMPolicyUpdateNotify = (\<lambda>t s. Ok (None, s)),
     HandlePduSessionContextReplacement = (\<lambda>r s. Ok (None, s)),
     SendPFCPRules = (\<lambda>p s. Ok (SessionEstablishSuccess, s)),
     SendPduSessN1N2Transfer = (\<lambda>p b s. Ok (None, s)),
     PublishMsgEvent = (\<lambda>m. None),
     newURN = (\<lambda>s. ''urn'')\<rparr>"

lemma sample_ops_frame: "ops_frame sample_ops"
  by (simp add: ops_frame_def sample_ops_def frame_refl frame_upd_txn)

text \<open>An active session with an update running and a policy notification waiting.\<close>

definition sample_fsm :: fsm_state where
  "sample_fsm = \<lparr>
     pools = sample_pools\<lparr>heap := [0 \<mapsto> sample_context\<lparr>State := SmStateActive, TxnBus := [2]\<rparr>],
       smContextPool := [''ref-1'' \<mapsto> 0]\<rparr>,
     txns = [1 \<mapsto> (new_txn UpdateSmContext)\<lparr>Ctxt := CtxtIface (Some 0), CtxtKey := ''ref-1''\<rparr>,
             2 \<mapsto> (new_txn SmPolicyUpdateNotification)\<lparr>Ctxt := CtxtIface (Some 0), CtxtKey := ''ref-1''\<rparr>],
     TxnId = 2, statuses = []\<rparr>"

lemma sample_belongs: "belongs sample_fsm 0 1" "belongs sample_fsm 0 2"
  "heap (pools sample_fsm) 0 = Some (sample_context\<lparr>State := SmStateActive, TxnBus := [2]\<rparr>)"
  by (simp_all add: belongs_def sample_fsm_def)

section \<open>Properties\<close>



text \<open>Two transactions of one session can run at the same time.  The check for an active
  transaction and the registration of a new one are two handlers, and the lock is released between
  them: when two goroutines check one after the other on an idle session, both go on to process, and
  the session knows only the second.\<close>

lemma check_then_run_race:
  assumes "belongs s p t1" and "belongs s p t2" and "heap (pools s) p = Some c" and "ActiveTxn c = None"
  shows "\<exists>thr s' c'. run_schedule ops [1, 2, 1, 2]
      ((\<lambda>_. None)(1 := Some (TxnEventCtxtPost, t1), 2 := Some (TxnEventCtxtPost, t2))) s = Ok (thr, s') \<and>
    thr 1 = Some (TxnEventProcess, t1) \<and> thr 2 = Some (TxnEventProcess, t2) \<and>
    heap (pools s') p = Some c' \<and> ActiveTxn c' = Some t2"
proof -
  let ?s1 = "upd_ctx p (\<lambda>c. c\<lparr>ActiveTxn := Some t1\<rparr>) s"
  obtain x1 x2 where x: "the_ctx t1 s = Ok (x1, p, c)" "the_ctx t2 s = Ok (x2, p, c)"
    using belongs_ctx[OF assms(1,3)] belongs_ctx[OF assms(2,3)] by metis
  have c1: "heap (pools ?s1) p = Some (c\<lparr>ActiveTxn := Some t1\<rparr>)" using assms(3) by (simp add: upd_ctx_def)
  have "frame s ?s1" by (rule frame_upd_ctx) simp
  then obtain x3 where x3: "the_ctx t2 ?s1 = Ok (x3, p, c\<lparr>ActiveTxn := Some t1\<rparr>)"
    using belongs_ctx[OF belongs_frame[OF assms(2)] c1] by metis
  show ?thesis
    using x x3 c1 assms(4)
    by (simp add: loop_step_def TxnFsmHandler_def TxnCtxtPost_def TxnCtxtRun_def) (simp add: upd_ctx_def)
qed

theorem check_then_run_race_witness:
  "\<exists>thr s'. run_schedule sample_ops [1, 2, 1, 2]
      ((\<lambda>_. None)(1 := Some (TxnEventCtxtPost, 1), 2 := Some (TxnEventCtxtPost, 2))) sample_fsm = Ok (thr, s') \<and>
    thr 1 = Some (TxnEventProcess, 1) \<and> thr 2 = Some (TxnEventProcess, 2)"
  using check_then_run_race[OF sample_belongs, of sample_ops]
  by (auto simp: sample_context_def new_context_def)

text \<open>An update for an unknown session is answered with 500, not 404.  The look-up stores a nil
  pointer in the interface field, which is then not equal to nil, so the branch that prepares the
  answer 404 is not taken and the response stays empty.\<close>

lemma unknown_context_update:
  assumes "txns s t = Some x" and "MsgType x = UpdateSmContext" and "TxnErr x = None" and "Rsp x = None"
    and "smContextPool (pools s) (CtxtKey x) = None" and "\<not> EnableDbStore (pools s)"
  shows "\<exists>s' x'. StartTxnLifeCycle ops 5 t s = Some (Ok s') \<and> statuses s' = statuses s @ [(t, False)] \<and>
    txns s' t = Some x' \<and> HTTPUpdateSmContext_status x' = 500"
  using assms
  by (simp add: StartTxnLifeCycle_def numeral_eq_Suc loop_step_def TxnFsmHandler_def TxnInit_def TxnDecode_def
      TxnLoadCtxt_def load_ref_def GetSMContext_def check_ctxt_def TxnFailure_def TxnEnd_def put_status_def
      the_txn_def assert_ctx_def upd_txn_def HTTPUpdateSmContext_status_def)

theorem unknown_context_update_witness:
  "\<exists>s' x'. StartTxnLifeCycle sample_ops 5 1 (sample_fsm\<lparr>pools := sample_pools\<rparr>) = Some (Ok s') \<and>
     txns s' 1 = Some x' \<and> HTTPUpdateSmContext_status x' = 500"
  using unknown_context_update[of "sample_fsm\<lparr>pools := sample_pools\<rparr>" 1
      "(new_txn UpdateSmContext)\<lparr>Ctxt := CtxtIface (Some 0), CtxtKey := ''ref-1''\<rparr>" sample_ops]
  by (auto simp: sample_fsm_def sample_pools_def new_txn_def)

text \<open>A failed release or N1N2 transfer crashes the process.  The error of publishing the failure
  shadows the error of the procedure, and its text is taken even when publishing succeeded and the
  error is nil.\<close>

lemma failed_procedure_panics:
  assumes "heap (pools s) p = Some c" and "belongs s p t" and "\<forall>m. PublishMsgEvent ops m = None"
    and "State c = SmStateActive \<and> ev = SmEventPduSessRelease \<and> HandlePDUSessionSMContextRelease ops t s = Ok (Some e, s') \<or>
         State c = SmStateN1N2TransferPending \<and> ev = SmEventPduSessN1N2Transfer \<and> SendPduSessN1N2Transfer ops p True s = Ok (Some e, s')"
  shows "is_Panic (HandleEvent ops p ev t s)"
proof -
  obtain x where "the_ctx t s = Ok (x, p, c)" "deref_ctx (Some p) s = Ok (p, c)" using belongs_ctx[OF assms(2,1)] by metis
  then show ?thesis using assms(3,4) by (auto simp: HandleEvent_def SmfFsmHandler_def handler_defs)
qed

theorem failed_procedure_panics_witness:
  "is_Panic (HandleEvent sample_ops 0 SmEventPduSessRelease 1 sample_fsm)"
  by (rule failed_procedure_panics[OF sample_belongs(3,1)]) (simp_all add: sample_ops_def)

text \<open>The transitions of the session state machine.\<close>

definition transitions :: "(SMContextState \<times> SmEvent \<times> SMContextState) set" where
  "transitions = {
     (SmStateInit, SmEventPduSessCreate, SmStatePfcpCreatePending),
     (SmStatePfcpCreatePending, SmEventPfcpSessCreate, SmStateN1N2TransferPending),
     (SmStatePfcpCreatePending, SmEventPfcpSessCreateFailure, SmStateInit),
     (SmStateN1N2TransferPending, SmEventPduSessN1N2Transfer, SmStateActive),
     (SmStateActive, SmEventPduSessModify, SmStateActive),
     (SmStateActive, SmEventPduSessRelease, SmStateInit),
     (SmStateActive, SmEventPduSessN1N2TransferFailureIndication, SmStateInit),
     (SmStateActive, SmEventPolicyUpdateNotify, SmStateActive)}"

lemma SmfFsmHandler_transitions:
  assumes "SmfFsmHandler ops st ev t s = Ok (nx, None, s')"
  shows "(st, ev, nx) \<in> transitions"
  using assms
  by (cases st; cases ev; simp add: SmfFsmHandler_def transitions_def;
      auto simp: handler_defs Let_def split: option.splits if_splits)



text \<open>With the database enabled a released session comes back.  The life cycle saves the context of
  every successful transaction, also of a release that has just deleted it: after a release whose
  procedure removed the context from the database, the saved transaction has stored it again.\<close>

lemma released_context_saved_again:
  assumes "belongs s p t" and "heap (pools s) p = Some c" and "EnableDbStore (pools s)" and "dbRef (pools s) (Ref c) = None"
  shows "\<exists>s'. TxnSave t s = Ok (TxnEventEnd, None, s') \<and> dbRef (pools s') (Ref c) = Some c"
proof -
  obtain x where "the_ctx t s = Ok (x, p, c)" using belongs_ctx[OF assms(1,2)] by blast
  then show ?thesis using assms(3) by (simp add: TxnSave_def StoreSmContextInDB_def)
qed


theorem released_context_saved_again_witness:
  "\<exists>s'. TxnSave 1 (sample_fsm\<lparr>pools := (pools sample_fsm)\<lparr>EnableDbStore := True\<rparr>\<rparr>) = Ok (TxnEventEnd, None, s') \<and>
     dbRef (pools s') ''ref-1'' \<noteq> None"
proof -
  let ?s = "sample_fsm\<lparr>pools := (pools sample_fsm)\<lparr>EnableDbStore := True\<rparr>\<rparr>"
  have "belongs ?s 0 1" and "heap (pools ?s) 0 = Some (sample_context\<lparr>State := SmStateActive, TxnBus := [2]\<rparr>)"
    and "EnableDbStore (pools ?s)" and "dbRef (pools ?s) (Ref (sample_context\<lparr>State := SmStateActive, TxnBus := [2]\<rparr>)) = None"
    and "Ref sample_context = ''ref-1''"
    by (simp_all add: belongs_def sample_fsm_def sample_pools_def sample_context_def new_context_def)
  from released_context_saved_again[OF this(1-4)] this(5) show ?thesis by auto
qed

end
