(* ===== verification/Upf.thy ===== *)
theory Upf
  imports Sm_Context Bit_Rate
begin

text \<open>
  User plane functions, \<^verbatim>\<open>src/context/upf.go\<close>, with the node identifiers of
  \<^verbatim>\<open>src/context/nodeid.go\<close>, the slices of \<^verbatim>\<open>src/context/snssai.go\<close> and the rules of
  \<^verbatim>\<open>src/context/pfcp_rules.go\<close>.  A UPF keeps a pool and an identifier generator for each kind
  of rule.  The generators come from \<^verbatim>\<open>util-cdac/idgenerator\<close> and are a parameter: the record
  \<^verbatim>\<open>idgen\<close> holds their two operations and the locale \<^verbatim>\<open>id_generator\<close> states what they
  promise.  The identifier pool of the address allocator keeps the same promises.
  Rules are objects shared by pools, tunnels and sessions, so they live in a heap.
\<close>

section \<open>Generators of identifiers\<close>

locale id_generator =
  fixes inv :: "'g \<Rightarrow> bool"
    and used :: "'g \<Rightarrow> int set"
    and ids :: "'g \<Rightarrow> int set"
    and alloc :: "'g \<Rightarrow> (int \<times> 'g) result"
    and free :: "int \<Rightarrow> 'g \<Rightarrow> 'g"
  assumes alloc_spec: "inv p \<Longrightarrow> alloc p = Ok (i, q) \<Longrightarrow>
      i \<in> ids p \<and> i \<notin> used p \<and> used q = insert i (used p) \<and> ids q = ids p \<and> inv q"
    and alloc_total: "inv p \<Longrightarrow> \<not> ids p \<subseteq> used p \<Longrightarrow> is_Ok (alloc p)"
    and alloc_full: "inv p \<Longrightarrow> ids p \<subseteq> used p \<Longrightarrow> \<not> is_Ok (alloc p) \<and> \<not> is_Panic (alloc p)"
    and free_spec: "inv p \<Longrightarrow> used (free i p) = used p - {i} \<and> ids (free i p) = ids p \<and> inv (free i p)"
    and used_ids: "inv p \<Longrightarrow> used p \<subseteq> ids p"
begin

lemma alloc_Ok_iff: "inv p \<Longrightarrow> is_Ok (alloc p) \<longleftrightarrow> \<not> ids p \<subseteq> used p"
  using alloc_total alloc_full by blast

lemma alloc_no_panic: "inv p \<Longrightarrow> alloc p \<noteq> Panic e"
  using alloc_total[of p] alloc_full[of p] by (cases "ids p \<subseteq> used p") auto

lemma alloc_cases:
  assumes "inv p"
  obtains i q where "alloc p = Ok (i, q)" "i \<in> ids p" "i \<notin> used p" "used q = insert i (used p)"
      "ids q = ids p" "inv q"
    | e where "alloc p = Err e" "ids p \<subseteq> used p"
proof (cases "alloc p")
  case (Ok a)
  with alloc_spec[OF assms] that(1) show ?thesis by (cases a) blast
next
  case (Err e)
  with alloc_total[OF assms] that(2) show ?thesis by auto
next
  case (Panic e)
  with alloc_no_panic[OF assms, of e] show ?thesis by simp
qed

end

text \<open>The program's own pool of identifiers, with the identifiers in use inside its range.\<close>

interpretation pool_gen: id_generator "\<lambda>p. pool_inv env p \<and> isUsed p \<subseteq> pool_ids env p" isUsed "pool_ids env"
    "allocate env" release
  for env
proof (unfold_locales, goal_cases)
  case (1 p i q)
  then show ?case using ip_pool.alloc_spec[of env p i q] by auto
next
  case (2 p)
  then show ?case using ip_pool.alloc_total by blast
next
  case (3 p)
  then show ?case using ip_pool.alloc_full by blast
next
  case (4 p i)
  then show ?case using ip_pool.free_spec[of i p env] ip_pool.free_inv[of env p i] by auto
qed simp

section \<open>Node identifiers\<close>

datatype node_id_type = NodeIdTypeIpv4Address | NodeIdTypeIpv6Address | NodeIdTypeFqdn

record node_id =
  NodeIdValue :: "byte list"
  NodeIdType :: node_id_type

text \<open>The bytes of a string and back.\<close>

definition bytes_of :: "string \<Rightarrow> byte list" where
  "bytes_of s = map (\<lambda>c. of_nat (of_char c)) s"

definition string_of :: "byte list \<Rightarrow> string" where
  "string_of bs = map (\<lambda>b. char_of (unat b)) bs"

lemma string_of_bytes_of [simp]: "string_of (bytes_of s) = s"
  by (simp add: string_of_def bytes_of_def comp_def unat_of_nat)

text \<open>\<^verbatim>\<open>net.ParseIP\<close> answers nil, here the empty list, for a text that is no address.\<close>

definition NewNodeID :: "string \<Rightarrow> node_id" where
  "NewNodeID s = (let ip = ParseIP s in
     if ip = [] then \<lparr>NodeIdValue = bytes_of s, NodeIdType = NodeIdTypeFqdn\<rparr>
     else if To4 ip \<noteq> [] then \<lparr>NodeIdValue = To4 ip, NodeIdType = NodeIdTypeIpv4Address\<rparr>
     else \<lparr>NodeIdValue = To16 ip, NodeIdType = NodeIdTypeIpv6Address\<rparr>)"

definition IPv4zero :: ip where
  "IPv4zero = v4InV6Prefix @ [0, 0, 0, 0]"

type_synonym dns_cache = "string \<rightharpoonup> ip"

definition getDnsHostIp :: "string \<Rightarrow> dns_cache \<Rightarrow> ip result" where
  "getDnsHostIp host cache = (case cache host of None \<Rightarrow> Err ''host not found in smf dns cache'' | Some ip \<Rightarrow> Ok ip)"

definition InsertDnsHostIp :: "string \<Rightarrow> ip \<Rightarrow> dns_cache \<Rightarrow> dns_cache" where
  "InsertDnsHostIp host ip cache = cache(host \<mapsto> ip)"

definition deleteDnsHost :: "string \<Rightarrow> dns_cache \<Rightarrow> dns_cache" where
  "deleteDnsHost host cache = cache(host := None)"

text \<open>\<^verbatim>\<open>lookup\<close> is \<^verbatim>\<open>net.LookupHost\<close>: nothing on an error.\<close>

definition ResolveNodeIdToIp :: "(string \<Rightarrow> string list option) \<Rightarrow> node_id \<Rightarrow> dns_cache \<Rightarrow> (ip \<times> dns_cache) result" where
  "ResolveNodeIdToIp lookup n cache = (case NodeIdType n of
      NodeIdTypeFqdn \<Rightarrow>
        (let host = string_of (NodeIdValue n) in
         case getDnsHostIp host cache of
           Ok ip \<Rightarrow> Ok (ip, cache)
         | _ \<Rightarrow> (case lookup host of
               None \<Rightarrow> Ok (IPv4zero, cache)
             | Some ns \<Rightarrow> bind_res (nth_res ns 0) (\<lambda>a.
                 Ok (ParseIP a, InsertDnsHostIp host (ParseIP a) cache))))
    | _ \<Rightarrow> Ok (NodeIdValue n, cache))"

text \<open>\<^verbatim>\<open>IP.Equal\<close> takes an IPv4 address and its 16-byte form to be equal.\<close>

definition ip_equal :: "ip \<Rightarrow> ip \<Rightarrow> bool" where
  "ip_equal a b \<longleftrightarrow> a = b \<or> (To16 a \<noteq> [] \<and> To16 a = To16 b)"

fun refresh :: "(string \<Rightarrow> string list option) \<Rightarrow> string list \<Rightarrow> dns_cache \<Rightarrow> dns_cache result" where
  "refresh lookup [] cache = Ok cache"
| "refresh lookup (host # hosts) cache = (case lookup host of
      None \<Rightarrow> refresh lookup hosts (deleteDnsHost host cache)
    | Some ns \<Rightarrow> bind_res (nth_res ns 0) (\<lambda>a.
        refresh lookup hosts
          (if ip_equal (case cache host of None \<Rightarrow> [] | Some ip \<Rightarrow> ip) (ParseIP a) then cache
           else cache(host \<mapsto> ParseIP a))))"

text \<open>The hosts are visited in the order of the list.\<close>

definition RefreshDnsHostIpCache :: "(string \<Rightarrow> string list option) \<Rightarrow> string list \<Rightarrow> dns_cache \<Rightarrow> dns_cache result" where
  "RefreshDnsHostIpCache lookup hosts cache = refresh lookup hosts cache"

section \<open>The text of an address\<close>

text \<open>\<^verbatim>\<open>IP.String\<close>: dotted decimal when the address has an IPv4 form, otherwise the groups of
  the IPv6 form with the first longest run of zero groups left out.\<close>

fun intercalate :: "string \<Rightarrow> string list \<Rightarrow> string" where
  "intercalate sep [] = []"
| "intercalate sep [x] = x"
| "intercalate sep (x # xs) = x @ sep @ intercalate sep xs"

definition hex_digit :: "nat \<Rightarrow> char" where
  "hex_digit n = char_of (if n < 10 then 48 + n else 87 + n)"

fun hex_digits :: "nat \<Rightarrow> string" where
  "hex_digits n = (if n < 16 then [hex_digit n] else hex_digits (n div 16) @ [hex_digit (n mod 16)])"

fun v6_groups :: "ip \<Rightarrow> nat list" where
  "v6_groups (a # b # rest) = (256 * unat a + unat b) # v6_groups rest"
| "v6_groups _ = []"

fun zero_run :: "nat list \<Rightarrow> nat \<Rightarrow> nat \<times> nat \<Rightarrow> nat \<times> nat" where
  "zero_run [] i best = best"
| "zero_run (x # xs) i best =
     (let l = length (takeWhile (\<lambda>y. y = 0) (x # xs)) in
      zero_run xs (Suc i) (if 2 \<le> l \<and> snd best < l then (i, l) else best))"

definition v6_text :: "nat list \<Rightarrow> string" where
  "v6_text gs = (let (i, l) = zero_run gs 0 (0, 0) in
     if l = 0 then intercalate '':'' (map hex_digits gs)
     else intercalate '':'' (map hex_digits (take i gs)) @ ''::'' @
          intercalate '':'' (map hex_digits (drop (i + l) gs)))"

definition IPString :: "ip \<Rightarrow> string" where
  "IPString ip =
     (if ip = [] then ''<nil>''
      else if length ip \<noteq> 4 \<and> length ip \<noteq> 16
      then ''?'' @ concat (map (\<lambda>b. [hex_digit (unat b div 16), hex_digit (unat b mod 16)]) ip)
      else if To4 ip \<noteq> [] then intercalate ''.'' (map (\<lambda>b. nat_digits (unat b)) (To4 ip))
      else v6_text (v6_groups ip))"

section \<open>Slices and interfaces\<close>

record snssai =
  Sd :: string
  Sst :: int

definition Snssai_Equal :: "snssai \<Rightarrow> snssai \<Rightarrow> bool" where
  "Snssai_Equal s target \<longleftrightarrow> Sst s = Sst target \<and> Sd s = Sd target"

record dnn_upf_info_item =
  ItemDnn :: string
  DnaiList :: "string list"
  PduSessionTypes :: "pdu_session_type list"

record snssai_upf_info =
  SNssai :: snssai
  DnnList :: "dnn_upf_info_item list"

definition ContainsDNAI :: "string \<Rightarrow> dnn_upf_info_item \<Rightarrow> bool" where
  "ContainsDNAI targetDnai d =
     (if targetDnai = '''' then length (DnaiList d) = 0 else list_ex (\<lambda>dnai. dnai = targetDnai) (DnaiList d))"

record upf_interface_info =
  NetworkInstance :: string
  EndpointFQDN :: string
  IPv4EndPointAddresses :: "ip list"
  IPv6EndPointAddresses :: "ip list"

datatype up_interface_type = N3 | N6 | N9

record interface_upf_info_item =
  IfNetworkInstance :: string
  InterfaceType :: up_interface_type
  Endpoints :: "string list"

fun add_endpoints :: "string list \<Rightarrow> upf_interface_info \<Rightarrow> upf_interface_info" where
  "add_endpoints [] i = i"
| "add_endpoints (e # es) i = (let eIP = ParseIP e in add_endpoints es
     (if eIP = [] then i\<lparr>EndpointFQDN := e\<rparr>
      else if To4 eIP = [] then i\<lparr>IPv6EndPointAddresses := IPv6EndPointAddresses i @ [eIP]\<rparr>
      else i\<lparr>IPv4EndPointAddresses := IPv4EndPointAddresses i @ [To4 eIP]\<rparr>))"

definition NewUPFInterfaceInfo :: "interface_upf_info_item \<Rightarrow> upf_interface_info" where
  "NewUPFInterfaceInfo i =
     (add_endpoints (Endpoints i)
        \<lparr>NetworkInstance = '''', EndpointFQDN = '''', IPv4EndPointAddresses = [], IPv6EndPointAddresses = []\<rparr>)
     \<lparr>NetworkInstance := IfNetworkInstance i\<rparr>"

text \<open>\<^verbatim>\<open>resolve\<close> is \<^verbatim>\<open>net.ResolveIPAddr\<close>, nothing on an error.\<close>

definition Interface_IP :: "nas_lib \<Rightarrow> (string \<Rightarrow> ip option) \<Rightarrow> u8 \<Rightarrow> upf_interface_info \<Rightarrow> ip result" where
  "Interface_IP nas resolve t i =
     (let v4 = ModelsToPDUSessionType nas IPV4; v6 = ModelsToPDUSessionType nas IPV6;
          v46 = ModelsToPDUSessionType nas IPV4_V6 in
      if (t = v4 \<or> t = v46) \<and> length (IPv4EndPointAddresses i) \<noteq> 0
      then Ok (To4 (hd (IPv4EndPointAddresses i)))
      else if (t = v6 \<or> t = v46) \<and> length (IPv6EndPointAddresses i) \<noteq> 0
      then Ok (hd (IPv6EndPointAddresses i))
      else if EndpointFQDN i \<noteq> '''' \<and> resolve (EndpointFQDN i) \<noteq> None
      then (let ip = the (resolve (EndpointFQDN i)) in
            if t = v4 then Ok (To4 ip)
            else if t = v6 then Ok (To16 ip)
            else if To4 ip \<noteq> [] then Ok (To4 ip) else Ok (To16 ip))
      else Err ''not matched ip address'')"

record upf_selection_params =
  SelDnnList :: "string list"
  SelSNssai :: snssai
  SelDnai :: string

definition Selection_String :: "upf_selection_params \<Rightarrow> string" where
  "Selection_String p =
     (if 0 < length (SelDnnList p)
      then ''Dnn List: '' @ concat (map (\<lambda>d. d @ '' '') (SelDnnList p)) @ ''\<newline>''
      else ''Dnn List is empty\<newline>'') @
     ''Sst: '' @ fmt_d (Sst (SelSNssai p)) @ '', Sd: '' @ Sd (SelSNssai p) @ ''\<newline>'' @
     (if SelDnai p \<noteq> '''' then ''DNAI: '' @ SelDnai p @ ''\<newline>'' else '''')"

section \<open>Rules\<close>

text \<open>The packet detection, forwarding, buffering and QoS enforcement rules of
  \<^verbatim>\<open>src/context/pfcp_rules.go\<close>, with the fields that the data path sets.\<close>

datatype rule_state = RULE_INITIAL | RULE_CREATE | RULE_UPDATE | RULE_REMOVE

record sdf_filter =
  SdfFlowDescription :: "byte list"
  SdfTosTrafficClass :: "byte list"
  SecurityParameterIndex :: "byte list"
  SdfFlowLabel :: "byte list"
  SdfFilterId :: u32
  LengthOfFlowDescription :: u16
  Fl :: bool
  SpiFlag :: bool
  Ttc :: bool
  Fd :: bool

record ue_ip_address =
  Ipv4Address :: ip
  V4 :: bool
  CHV4 :: bool

record pdi =
  LocalFTeidCh :: "bool option"
  UEIPAddress :: "ue_ip_address option"
  SDFFilter :: "sdf_filter option"
  PdiNetworkInstance :: string
  SourceInterface :: u8

record pdr =
  OuterHeaderRemoval :: "u8 option"
  FAR :: "nat option"
  QER :: "nat list"
  PDI :: pdi
  PdrState :: rule_state
  PDRID :: u16
  PdrPrecedence :: u32

record apply_action =
  Dupl :: bool
  Nocp :: bool
  Buff :: bool
  Forw :: bool
  Drop :: bool

record outer_header_creation =
  OhcIpv4Address :: ip
  Teid :: u32
  OuterHeaderCreationDescription :: u16

text \<open>Of the flags only \<^verbatim>\<open>Sndem\<close> is ever set.\<close>

record forwarding_parameters =
  OuterHeaderCreation :: "outer_header_creation option"
  PFCPSMReqFlags :: "bool option"
  FwdNetworkInstance :: "byte list"
  DestinationInterface :: u8

record far =
  ForwardingParameters :: "forwarding_parameters option"
  BAR :: "nat option"
  FarState :: rule_state
  FARID :: u32
  ApplyAction :: apply_action

record bar =
  BARID :: u8
  BarState :: rule_state

record qer =
  GateStatus :: "(u8 \<times> u8) option"
  MBR :: "(u64 \<times> u64) option"
  GBR :: "(u64 \<times> u64) option"
  QerState :: rule_state
  QerQFI :: u8
  QERID :: u32

definition no_action :: apply_action where
  "no_action = \<lparr>Dupl = False, Nocp = False, Buff = False, Forw = False, Drop = False\<rparr>"

definition new_pdi :: pdi where
  "new_pdi = \<lparr>LocalFTeidCh = None, UEIPAddress = None, SDFFilter = None, PdiNetworkInstance = '''', SourceInterface = 0\<rparr>"

definition new_pdr :: pdr where
  "new_pdr = \<lparr>OuterHeaderRemoval = None, FAR = None, QER = [], PDI = new_pdi, PdrState = RULE_INITIAL,
     PDRID = 0, PdrPrecedence = 0\<rparr>"

definition new_far :: far where
  "new_far = \<lparr>ForwardingParameters = None, BAR = None, FarState = RULE_INITIAL, FARID = 0, ApplyAction = no_action\<rparr>"

definition new_bar :: bar where
  "new_bar = \<lparr>BARID = 0, BarState = RULE_INITIAL\<rparr>"

definition new_qer :: qer where
  "new_qer = \<lparr>GateStatus = None, MBR = None, GBR = None, QerState = RULE_INITIAL, QerQFI = 0, QERID = 0\<rparr>"

text \<open>The heap of rules; \<^verbatim>\<open>nextRule\<close> is a pointer that is not in use.\<close>

record rule_heap =
  pdrs :: "nat \<rightharpoonup> pdr"
  fars :: "nat \<rightharpoonup> far"
  bars :: "nat \<rightharpoonup> bar"
  qers :: "nat \<rightharpoonup> qer"
  nextRule :: nat

section \<open>User plane functions\<close>

datatype UPFStatus = NotAssociated | AssociatedSettingUp | AssociatedSetUpSuccess

text \<open>The operations of a generator: \<^verbatim>\<open>NewGenerator\<close>, \<^verbatim>\<open>Allocate\<close> and \<^verbatim>\<open>FreeID\<close>.\<close>

record 'g idgen =
  gen_new :: "int \<Rightarrow> int \<Rightarrow> 'g"
  gen_alloc :: "'g \<Rightarrow> (int \<times> 'g) result"
  gen_free :: "int \<Rightarrow> 'g \<Rightarrow> 'g"

record 'g upf =
  SNssaiInfos :: "snssai_upf_info list"
  N3Interfaces :: "upf_interface_info list"
  N9Interfaces :: "upf_interface_info list"
  SupportedFeatures1 :: "u16 option"
  pdrPool :: "u16 \<rightharpoonup> nat"
  farPool :: "u32 \<rightharpoonup> nat"
  barPool :: "u8 \<rightharpoonup> nat"
  qerPool :: "u32 \<rightharpoonup> nat"
  pdrIDGenerator :: 'g
  farIDGenerator :: 'g
  barIDGenerator :: 'g
  qerIDGenerator :: 'g
  NodeID :: node_id
  UpfStatus :: UPFStatus
  uuid :: string
  UpfPort :: u16

text \<open>\<^verbatim>\<open>uuid.New\<close> is the argument \<^verbatim>\<open>u\<close>; \<^verbatim>\<open>NewUPF\<close> also stores the UPF in the global
  pool, which the callers below do with \<^verbatim>\<open>upfPool_Store\<close>.\<close>

fun add_ifaces :: "interface_upf_info_item list \<Rightarrow> 'g upf \<Rightarrow> 'g upf" where
  "add_ifaces [] u = u"
| "add_ifaces (i # is) u = (let upIface = NewUPFInterfaceInfo i in add_ifaces is
     (case InterfaceType i of
        N3 \<Rightarrow> u\<lparr>N3Interfaces := N3Interfaces u @ [upIface]\<rparr>
      | N9 \<Rightarrow> u\<lparr>N9Interfaces := N9Interfaces u @ [upIface]\<rparr>
      | N6 \<Rightarrow> u))"

definition NewUPF :: "'g idgen \<Rightarrow> string \<Rightarrow> node_id \<Rightarrow> interface_upf_info_item list \<Rightarrow> 'g upf" where
  "NewUPF G u nodeID ifaces = add_ifaces ifaces
     \<lparr>SNssaiInfos = [], N3Interfaces = [], N9Interfaces = [], SupportedFeatures1 = None,
      pdrPool = Map.empty, farPool = Map.empty, barPool = Map.empty, qerPool = Map.empty,
      pdrIDGenerator = gen_new G 1 65535, farIDGenerator = gen_new G 1 4294967295,
      barIDGenerator = gen_new G 1 255, qerIDGenerator = gen_new G 1 4294967295,
      NodeID = nodeID, UpfStatus = NotAssociated, uuid = u, UpfPort = 0\<rparr>"

definition iface_matches :: "string \<Rightarrow> upf_interface_info \<Rightarrow> bool" where
  "iface_matches dnn i = list_ex (\<lambda>d. TrimSpace d = TrimSpace dnn) (Split (CHR '','') (NetworkInstance i))"

definition GetInterface :: "up_interface_type \<Rightarrow> string \<Rightarrow> 'g upf \<Rightarrow> upf_interface_info option" where
  "GetInterface t dnn u = (case t of
      N3 \<Rightarrow> List.find (iface_matches dnn) (N3Interfaces u)
    | N9 \<Rightarrow> List.find (iface_matches dnn) (N9Interfaces u)
    | N6 \<Rightarrow> None)"

definition isSupportSnssai :: "snssai \<Rightarrow> 'g upf \<Rightarrow> bool" where
  "isSupportSnssai s u = list_ex (\<lambda>i. Snssai_Equal (SNssai i) s) (SNssaiInfos u)"

definition IsDnnConfigured :: "string \<Rightarrow> 'g upf \<Rightarrow> bool" where
  "IsDnnConfigured sDnn u = list_ex (\<lambda>slice. list_ex (\<lambda>d. ItemDnn d = sDnn) (DnnList slice)) (SNssaiInfos u)"

definition IsUpfSupportUeIpAddrAlloc :: "'g upf \<Rightarrow> bool" where
  "IsUpfSupportUeIpAddrAlloc u = (case SupportedFeatures1 u of
      None \<Rightarrow> False
    | Some f \<Rightarrow> f AND push_bit 2 1 = push_bit 2 1)"

section \<open>The pool of user plane functions\<close>

text \<open>\<^verbatim>\<open>upfPool\<close> maps identifiers to UPFs; \<^verbatim>\<open>resolve\<close> gives the address that
  \<^verbatim>\<open>ResolveNodeIdToIp\<close> answers during the call.\<close>

definition same_node :: "(node_id \<Rightarrow> ip) \<Rightarrow> node_id \<Rightarrow> node_id \<Rightarrow> bool" where
  "same_node resolve cur n =
     (if NodeIdType cur \<noteq> NodeIdType n \<and> (NodeIdType cur = NodeIdTypeFqdn \<or> NodeIdType n = NodeIdTypeFqdn)
      then To4 (resolve cur) = To4 (resolve n)
      else cur = n)"

definition RetrieveUPFNodeByNodeID ::
    "(node_id \<Rightarrow> ip) \<Rightarrow> (nat \<rightharpoonup> 'g upf) \<Rightarrow> node_id \<Rightarrow> nat go_map \<Rightarrow> nat option" where
  "RetrieveUPFNodeByNodeID resolve upfs n pool =
     map_option snd (List.find (\<lambda>(_, p). case upfs p of None \<Rightarrow> False | Some u \<Rightarrow> same_node resolve (NodeID u) n) pool)"

definition RemoveUPFNodeByNodeID ::
    "(node_id \<Rightarrow> ip) \<Rightarrow> (nat \<rightharpoonup> 'g upf) \<Rightarrow> node_id \<Rightarrow> nat go_map \<Rightarrow> bool \<times> nat go_map" where
  "RemoveUPFNodeByNodeID resolve upfs n pool =
     (case List.find (\<lambda>(_, p). case upfs p of None \<Rightarrow> False | Some u \<Rightarrow> same_node resolve (NodeID u) n) pool of
        None \<Rightarrow> (False, pool)
      | Some (upfID, _) \<Rightarrow> (True, filter (\<lambda>(k, _). k \<noteq> upfID) pool))"

section \<open>Allocating rules\<close>

text \<open>A method of a UPF changes the UPF and the heap also when it fails, so both are part of every
  result.\<close>

abbreviation (input) associated :: "'g upf \<Rightarrow> bool" where
  "associated u \<equiv> UpfStatus u = AssociatedSetUpSuccess"

definition pdrID :: "'g idgen \<Rightarrow> 'g upf \<Rightarrow> u16 result \<times> 'g upf" where
  "pdrID G u = (if \<not> associated u then (Err ''this upf not associate with smf'', u)
     else case gen_alloc G (pdrIDGenerator u) of
       Ok (i, g') \<Rightarrow> (Ok (word_of_int i), u\<lparr>pdrIDGenerator := g'\<rparr>)
     | Err e \<Rightarrow> (Err e, u) | Panic e \<Rightarrow> (Panic e, u))"

definition farID :: "'g idgen \<Rightarrow> 'g upf \<Rightarrow> u32 result \<times> 'g upf" where
  "farID G u = (if \<not> associated u then (Err ''this upf not associate with smf'', u)
     else case gen_alloc G (farIDGenerator u) of
       Ok (i, g') \<Rightarrow> (Ok (word_of_int i), u\<lparr>farIDGenerator := g'\<rparr>)
     | Err e \<Rightarrow> (Err e, u) | Panic e \<Rightarrow> (Panic e, u))"

definition barID :: "'g idgen \<Rightarrow> 'g upf \<Rightarrow> u8 result \<times> 'g upf" where
  "barID G u = (if \<not> associated u then (Err ''this upf not associate with smf'', u)
     else case gen_alloc G (barIDGenerator u) of
       Ok (i, g') \<Rightarrow> (Ok (word_of_int i), u\<lparr>barIDGenerator := g'\<rparr>)
     | Err e \<Rightarrow> (Err e, u) | Panic e \<Rightarrow> (Panic e, u))"

definition qerID :: "'g idgen \<Rightarrow> 'g upf \<Rightarrow> u32 result \<times> 'g upf" where
  "qerID G u = (if \<not> associated u then (Err ''this upf not associate with smf'', u)
     else case gen_alloc G (qerIDGenerator u) of
       Ok (i, g') \<Rightarrow> (Ok (word_of_int i), u\<lparr>qerIDGenerator := g'\<rparr>)
     | Err e \<Rightarrow> (Err e, u) | Panic e \<Rightarrow> (Panic e, u))"

definition AddFAR :: "'g idgen \<Rightarrow> 'g upf \<Rightarrow> rule_heap \<Rightarrow> nat result \<times> 'g upf \<times> rule_heap" where
  "AddFAR G u r = (if \<not> associated u then (Err ''this upf do not associate with smf'', u, r)
     else let p = nextRule r; far = new_far\<lparr>ApplyAction := no_action\<lparr>Drop := True\<rparr>\<rparr> in
     case farID G u of
       (Ok i, u) \<Rightarrow> (Ok p, u\<lparr>farPool := (farPool u)(i \<mapsto> p)\<rparr>,
          r\<lparr>fars := (fars r)(p \<mapsto> far\<lparr>FARID := i\<rparr>), nextRule := Suc p\<rparr>)
     | (Err e, u) \<Rightarrow> (Err e, u, r) | (Panic e, u) \<Rightarrow> (Panic e, u, r))"

definition AddPDR :: "'g idgen \<Rightarrow> 'g upf \<Rightarrow> rule_heap \<Rightarrow> nat result \<times> 'g upf \<times> rule_heap" where
  "AddPDR G u r = (if \<not> associated u then (Err ''this upf do not associate with smf'', u, r)
     else let p = nextRule r in
     case pdrID G u of
       (Ok i, u) \<Rightarrow>
         (let u = u\<lparr>pdrPool := (pdrPool u)(i \<mapsto> p)\<rparr>;
              r = r\<lparr>pdrs := (pdrs r)(p \<mapsto> new_pdr\<lparr>PDRID := i\<rparr>), nextRule := Suc p\<rparr> in
          case AddFAR G u r of
            (Ok f, u, r) \<Rightarrow> (Ok p, u, r\<lparr>pdrs := (pdrs r)(p \<mapsto> new_pdr\<lparr>PDRID := i, FAR := Some f\<rparr>)\<rparr>)
          | (Err e, u, r) \<Rightarrow> (Err e, u, r) | (Panic e, u, r) \<Rightarrow> (Panic e, u, r))
     | (Err e, u) \<Rightarrow> (Err e, u, r) | (Panic e, u) \<Rightarrow> (Panic e, u, r))"

text \<open>\<^verbatim>\<open>AddBAR\<close> and \<^verbatim>\<open>AddQER\<close> answer the new rule also when no identifier was allocated; it
  then has identifier 0 and is in no pool.\<close>

definition AddBAR :: "'g idgen \<Rightarrow> 'g upf \<Rightarrow> rule_heap \<Rightarrow> nat result \<times> 'g upf \<times> rule_heap" where
  "AddBAR G u r = (if \<not> associated u then (Err ''this upf do not associate with smf'', u, r)
     else let p = nextRule r; r = r\<lparr>nextRule := Suc p\<rparr> in
     case barID G u of
       (Ok i, u) \<Rightarrow> (Ok p, u\<lparr>barPool := (barPool u)(i \<mapsto> p)\<rparr>, r\<lparr>bars := (bars r)(p \<mapsto> new_bar\<lparr>BARID := i\<rparr>)\<rparr>)
     | (Err e, u) \<Rightarrow> (Ok p, u, r\<lparr>bars := (bars r)(p \<mapsto> new_bar)\<rparr>)
     | (Panic e, u) \<Rightarrow> (Panic e, u, r))"

definition AddQER :: "'g idgen \<Rightarrow> 'g upf \<Rightarrow> rule_heap \<Rightarrow> nat result \<times> 'g upf \<times> rule_heap" where
  "AddQER G u r = (if \<not> associated u then (Err ''this upf do not associate with smf'', u, r)
     else let p = nextRule r; r = r\<lparr>nextRule := Suc p\<rparr> in
     case qerID G u of
       (Ok i, u) \<Rightarrow> (Ok p, u\<lparr>qerPool := (qerPool u)(i \<mapsto> p)\<rparr>, r\<lparr>qers := (qers r)(p \<mapsto> new_qer\<lparr>QERID := i\<rparr>)\<rparr>)
     | (Err e, u) \<Rightarrow> (Ok p, u, r\<lparr>qers := (qers r)(p \<mapsto> new_qer)\<rparr>)
     | (Panic e, u) \<Rightarrow> (Panic e, u, r))"

definition RemovePDR :: "'g idgen \<Rightarrow> pdr \<Rightarrow> 'g upf \<Rightarrow> unit result \<times> 'g upf" where
  "RemovePDR G pdr u = (if \<not> associated u then (Err ''this upf not associate with smf'', u)
     else (Ok (), u\<lparr>pdrIDGenerator := gen_free G (uint (PDRID pdr)) (pdrIDGenerator u), pdrPool := (pdrPool u)(PDRID pdr := None)\<rparr>))"

definition RemoveFAR :: "'g idgen \<Rightarrow> far \<Rightarrow> 'g upf \<Rightarrow> unit result \<times> 'g upf" where
  "RemoveFAR G far u = (if \<not> associated u then (Err ''this upf not associate with smf'', u)
     else (Ok (), u\<lparr>farIDGenerator := gen_free G (uint (FARID far)) (farIDGenerator u), farPool := (farPool u)(FARID far := None)\<rparr>))"

definition RemoveBAR :: "'g idgen \<Rightarrow> bar \<Rightarrow> 'g upf \<Rightarrow> unit result \<times> 'g upf" where
  "RemoveBAR G bar u = (if \<not> associated u then (Err ''this upf not associate with smf'', u)
     else (Ok (), u\<lparr>barIDGenerator := gen_free G (uint (BARID bar)) (barIDGenerator u), barPool := (barPool u)(BARID bar := None)\<rparr>))"

definition RemoveQER :: "'g idgen \<Rightarrow> qer \<Rightarrow> 'g upf \<Rightarrow> unit result \<times> 'g upf" where
  "RemoveQER G qer u = (if \<not> associated u then (Err ''this upf not associate with smf'', u)
     else (Ok (), u\<lparr>qerIDGenerator := gen_free G (uint (QERID qer)) (qerIDGenerator u), qerPool := (qerPool u)(QERID qer := None)\<rparr>))"

section \<open>A detection rule for a policy rule\<close>

definition ParseUint32 :: "string \<Rightarrow> u32 result" where
  "ParseUint32 s = (case parse_nat s of
      Some n \<Rightarrow> if n < 2 ^ 32 then Ok (of_nat n) else Err ''value out of range''
    | None \<Rightarrow> Err ''invalid syntax'')"

definition build_sdf :: "flow_information \<Rightarrow> sdf_filter result" where
  "build_sdf flow =
     (let f = \<lparr>SdfFlowDescription = [], SdfTosTrafficClass = [], SecurityParameterIndex = [], SdfFlowLabel = [],
               SdfFilterId = 0, LengthOfFlowDescription = 0, Fl = False, SpiFlag = False, Ttc = False, Fd = False\<rparr> in
      bind_res
        (if FlowDescription flow \<noteq> ''''
         then bind_res (ParseUint32 (PackFiltId flow)) (\<lambda>i.
           Ok (f\<lparr>Fd := True, SdfFlowDescription := bytes_of (FlowDescription flow),
                 LengthOfFlowDescription := of_nat (length (bytes_of (FlowDescription flow))), SdfFilterId := i\<rparr>))
         else Ok f)
        (\<lambda>f.
          let f = (if TosTrafficClass flow \<noteq> '''' then f\<lparr>Ttc := True, SdfTosTrafficClass := bytes_of (TosTrafficClass flow)\<rparr> else f);
              f = (if FlowLabel flow \<noteq> '''' then f\<lparr>Fl := True, SdfFlowLabel := bytes_of (FlowLabel flow)\<rparr> else f);
              f = (if Spi flow \<noteq> '''' then f\<lparr>SpiFlag := True, SecurityParameterIndex := bytes_of (Spi flow)\<rparr> else f)
          in Ok f))"

definition BuildCreatePdrFromPccRule ::
    "'g idgen \<Rightarrow> pcc_rule \<Rightarrow> 'g upf \<Rightarrow> rule_heap \<Rightarrow> nat result \<times> 'g upf \<times> rule_heap" where
  "BuildCreatePdrFromPccRule G rule u r = (case AddPDR G u r of
      (Ok p, u, r) \<Rightarrow>
        (case bind_res (nth_res (FlowInfos rule) 0) build_sdf of
           Ok f \<Rightarrow> (Ok p, u, r\<lparr>pdrs := (pdrs r)(p := map_option (\<lambda>pdr.
               pdr\<lparr>PDI := new_pdi\<lparr>SDFFilter := Some f\<rparr>, PdrPrecedence := word_of_int (Precedence rule)\<rparr>) (pdrs r p))\<rparr>)
         | Err e \<Rightarrow> (Err e, u, r) | Panic e \<Rightarrow> (Panic e, u, r))
    | (Err e, u, r) \<Rightarrow> (Err e, u, r) | (Panic e, u, r) \<Rightarrow> (Panic e, u, r))"

section \<open>Pools agree with generators\<close>

text \<open>
  The identifiers in use are exactly the keys of the pool, and the rule stored under an identifier
  carries it.  Identifiers are allocated from a range that the width of the field can hold, so
  converting them loses nothing.
\<close>

definition pool_ok :: "int set \<Rightarrow> ('w::len word \<rightharpoonup> nat) \<Rightarrow> (nat \<rightharpoonup> 'a) \<Rightarrow> ('a \<Rightarrow> 'w word) \<Rightarrow> bool" where
  "pool_ok U pool objs idof \<longleftrightarrow>
     dom pool = word_of_int ` U \<and> (\<forall>i p. pool i = Some p \<longrightarrow> (\<exists>x. objs p = Some x \<and> idof x = i))"

lemma pool_ok_new: "pool_ok {} Map.empty objs idof"
  by (simp add: pool_ok_def)

lemma pool_ok_heap:
  "pool_ok U pool objs idof \<Longrightarrow> (\<And>p x. objs p = Some x \<Longrightarrow> \<exists>y. objs' p = Some y \<and> idof y = idof x) \<Longrightarrow>
   pool_ok U pool objs' idof"
  unfolding pool_ok_def by metis

lemma word_of_int_eq_iff_range:
  "0 \<le> i \<Longrightarrow> i < 2 ^ LENGTH('w::len) \<Longrightarrow> 0 \<le> j \<Longrightarrow> j < 2 ^ LENGTH('w) \<Longrightarrow>
   (word_of_int i :: 'w word) = word_of_int j \<longleftrightarrow> i = j"
  by (simp add: word_of_int_eq_iff take_bit_int_eq_self)

definition range_ok :: "('g \<Rightarrow> bool) \<Rightarrow> ('g \<Rightarrow> int set) \<Rightarrow> nat \<Rightarrow> 'g \<Rightarrow> bool" where
  "range_ok valid ids w p \<longleftrightarrow> valid p \<and> ids p \<subseteq> {1..<2 ^ w}"

text \<open>A UPF and the heap of rules: the four pools agree with their generators, and nothing is
  stored beyond the next free pointer.\<close>

definition heap_ok :: "rule_heap \<Rightarrow> bool" where
  "heap_ok r \<longleftrightarrow> (\<forall>p \<ge> nextRule r. pdrs r p = None \<and> fars r p = None \<and> bars r p = None \<and> qers r p = None)"

definition upf_inv ::
    "('g \<Rightarrow> bool) \<Rightarrow> ('g \<Rightarrow> int set) \<Rightarrow> ('g \<Rightarrow> int set) \<Rightarrow> 'g upf \<Rightarrow> rule_heap \<Rightarrow> bool" where
  "upf_inv valid used ids u r \<longleftrightarrow> heap_ok r \<and>
     range_ok valid ids 16 (pdrIDGenerator u) \<and> pool_ok (used (pdrIDGenerator u)) (pdrPool u) (pdrs r) PDRID \<and>
     range_ok valid ids 32 (farIDGenerator u) \<and> pool_ok (used (farIDGenerator u)) (farPool u) (fars r) FARID \<and>
     range_ok valid ids 8 (barIDGenerator u) \<and> pool_ok (used (barIDGenerator u)) (barPool u) (bars r) BARID \<and>
     range_ok valid ids 32 (qerIDGenerator u) \<and> pool_ok (used (qerIDGenerator u)) (qerPool u) (qers r) QERID"

context id_generator
begin

lemma range_ok_alloc: "range_ok inv ids w p \<Longrightarrow> alloc p = Ok (i, q) \<Longrightarrow> range_ok inv ids w q"
  using alloc_spec unfolding range_ok_def by metis

lemma range_ok_free: "range_ok inv ids w p \<Longrightarrow> range_ok inv ids w (free i p)"
  using free_spec unfolding range_ok_def by metis

lemma pool_ok_alloc:
  fixes pool :: "'w::len word \<rightharpoonup> nat"
  assumes ok: "range_ok inv ids LENGTH('w) p" "pool_ok (used p) pool objs idof" and a: "alloc p = Ok (i, q)"
    and x: "objs n = None" "idof x = word_of_int i"
  shows "pool (word_of_int i) = None \<and> (word_of_int i :: 'w word) \<noteq> 0 \<and>
    pool_ok (used q) (pool(word_of_int i \<mapsto> n)) (objs(n \<mapsto> x)) idof"
proof -
  from ok have inv: "inv p" and r: "ids p \<subseteq> {1..<2 ^ LENGTH('w)}" by (auto simp: range_ok_def)
  note s = alloc_spec[OF inv a]
  from s r have i: "1 \<le> i" "i < 2 ^ LENGTH('w)" by auto
  have "word_of_int i \<notin> (word_of_int ` used p :: 'w word set)"
  proof
    assume "word_of_int i \<in> (word_of_int ` used p :: 'w word set)"
    then obtain j where j: "j \<in> used p" "(word_of_int i :: 'w word) = word_of_int j" by blast
    with used_ids[OF inv] r have "1 \<le> j" "j < 2 ^ LENGTH('w)" by auto
    with i j(2) have "i = j" by (simp add: word_of_int_eq_iff_range)
    with j(1) s show False by blast
  qed
  then have none: "pool (word_of_int i) = None" using ok(2) by (auto simp: pool_ok_def)
  have "(word_of_int i :: 'w word) \<noteq> word_of_int 0" using i by (subst word_of_int_eq_iff_range) auto
  moreover have "pool_ok (used q) (pool(word_of_int i \<mapsto> n)) (objs(n \<mapsto> x)) idof"
    unfolding pool_ok_def
  proof (intro conjI allI impI)
    show "dom (pool(word_of_int i \<mapsto> n)) = word_of_int ` used q" using s ok(2) by (auto simp: pool_ok_def)
  next
    fix k m
    assume k: "(pool(word_of_int i \<mapsto> n)) k = Some m"
    show "\<exists>x'. (objs(n \<mapsto> x)) m = Some x' \<and> idof x' = k"
    proof (cases "k = word_of_int i")
      case True
      with k x show ?thesis by auto
    next
      case False
      with k have "pool k = Some m" by simp
      with ok(2) obtain y where "objs m = Some y" "idof y = k" unfolding pool_ok_def by blast
      with x(1) show ?thesis by auto
    qed
  qed
  ultimately show ?thesis using none by simp
qed

lemma pool_ok_free:
  fixes pool :: "'w::len word \<rightharpoonup> nat"
  assumes ok: "range_ok inv ids LENGTH('w) p" "pool_ok (used p) pool objs idof"
  shows "pool_ok (used (free (uint k) p)) (pool(k := None)) objs idof"
proof -
  from ok have inv: "inv p" and r: "ids p \<subseteq> {1..<2 ^ LENGTH('w)}" by (auto simp: range_ok_def)
  have "(word_of_int ` (used p - {uint k}) :: 'w word set) = word_of_int ` used p - {k}"
  proof -
    have "j = uint k" if "j \<in> used p" "word_of_int j = k" for j
    proof -
      from that(1) used_ids[OF inv] r have "1 \<le> j" "j < 2 ^ LENGTH('w)" by auto
      with that(2) show ?thesis by (auto simp: uint_word_of_int take_bit_int_eq_self)
    qed
    moreover have "word_of_int (uint k) = k" by simp
    ultimately show ?thesis by blast
  qed
  moreover have "dom (pool(k := None)) = dom pool - {k}" by simp
  ultimately have "dom (pool(k := None)) = word_of_int ` used (free (uint k) p)"
    using ok(2) free_spec[OF inv] unfolding pool_ok_def by simp
  then show ?thesis using ok(2) unfolding pool_ok_def by (metis fun_upd_apply option.distinct(1))
qed

end

context id_generator
begin

text \<open>The outcomes of \<^verbatim>\<open>AddFAR\<close>, and what they keep.\<close>

lemma AddFAR_cases:
  assumes G: "gen_alloc G = alloc" and I: "upf_inv inv used ids u r"
  obtains e where "\<not> associated u" "AddFAR G u r = (Err e, u, r)"
    | e where "associated u" "ids (farIDGenerator u) \<subseteq> used (farIDGenerator u)" "AddFAR G u r = (Err e, u, r)"
    | k q u' r' where "associated u" "\<not> ids (farIDGenerator u) \<subseteq> used (farIDGenerator u)" "farPool u k = None" "k \<noteq> 0"
        "AddFAR G u r = (Ok (nextRule r), u', r')"
        "u' = u\<lparr>farIDGenerator := q, farPool := (farPool u)(k \<mapsto> nextRule r)\<rparr>"
        "r' = r\<lparr>fars := (fars r)(nextRule r \<mapsto> new_far\<lparr>ApplyAction := no_action\<lparr>Drop := True\<rparr>, FARID := k\<rparr>),
              nextRule := Suc (nextRule r)\<rparr>"
        "upf_inv inv used ids u' r'"
proof (cases "associated u")
  case False
  then have "\<exists>e. AddFAR G u r = (Err e, u, r)" by (simp add: AddFAR_def)
  with that(1)[OF False] show thesis by blast
next
  case True
  from I have R: "range_ok inv ids LENGTH(32) (farIDGenerator u)" and h: "fars r (nextRule r) = None"
    and inv: "inv (farIDGenerator u)"
    and P: "pool_ok (used (farIDGenerator u)) (farPool u) (fars r) FARID"
    by (simp_all add: upf_inv_def heap_ok_def range_ok_def)
  show thesis
  proof (cases rule: alloc_cases[OF inv])
    case (1 i q)
    let ?k = "word_of_int i :: u32"
    let ?f = "new_far\<lparr>ApplyAction := no_action\<lparr>Drop := True\<rparr>, FARID := ?k\<rparr>"
    let ?u = "u\<lparr>farIDGenerator := q, farPool := (farPool u)(?k \<mapsto> nextRule r)\<rparr>"
    let ?r = "r\<lparr>fars := (fars r)(nextRule r \<mapsto> ?f), nextRule := Suc (nextRule r)\<rparr>"
    have eq: "AddFAR G u r = (Ok (nextRule r), ?u, ?r)"
      using True 1(1) by (simp add: AddFAR_def farID_def G Let_def)
    have p: "farPool u ?k = None \<and> ?k \<noteq> 0 \<and>
        pool_ok (used q) ((farPool u)(?k \<mapsto> nextRule r)) ((fars r)(nextRule r \<mapsto> ?f)) FARID"
      using R P 1(1) h by (intro pool_ok_alloc) simp_all
    have "range_ok inv ids 32 q" using range_ok_alloc[OF R 1(1)] by simp
    then have "upf_inv inv used ids ?u ?r" using I p by (simp add: upf_inv_def heap_ok_def)
    moreover have "\<not> ids (farIDGenerator u) \<subseteq> used (farIDGenerator u)" using 1 by blast
    ultimately show thesis using p by (intro that(3)[OF True _ _ _ eq refl refl]) simp_all
  next
    case (2 e)
    then have "AddFAR G u r = (Err e, u, r)" using True by (simp add: AddFAR_def farID_def G Let_def)
    then show thesis using that(2) True 2 by blast
  qed
qed

end

text \<open>Writing a rule that keeps its identifier keeps the invariant.\<close>

lemma upf_inv_set_pdr:
  assumes I: "upf_inv valid used ids u r" and p: "pdrs r p = Some x" and x: "PDRID y = PDRID x"
  shows "upf_inv valid used ids u (r\<lparr>pdrs := (pdrs r)(p \<mapsto> y)\<rparr>)"
proof -
  have "p < nextRule r"
    using I p by (cases "p < nextRule r") (simp_all add: upf_inv_def heap_ok_def)
  then have "heap_ok (r\<lparr>pdrs := (pdrs r)(p \<mapsto> y)\<rparr>)" using I by (simp add: upf_inv_def heap_ok_def)
  moreover have "pool_ok (used (pdrIDGenerator u)) (pdrPool u) ((pdrs r)(p \<mapsto> y)) PDRID"
  proof (rule pool_ok_heap)
    show "pool_ok (used (pdrIDGenerator u)) (pdrPool u) (pdrs r) PDRID" using I by (simp add: upf_inv_def)
  qed (use p x in auto)
  ultimately show ?thesis using I by (simp add: upf_inv_def)
qed

context id_generator
begin

lemma pdrID_step:
  assumes G: "gen_alloc G = alloc" and I: "upf_inv inv used ids u r" and s: "associated u"
    and a: "alloc (pdrIDGenerator u) = Ok (i, q)"
  defines "k \<equiv> word_of_int i :: u16" and "n \<equiv> nextRule r"
  defines "u1 \<equiv> u\<lparr>pdrIDGenerator := q, pdrPool := (pdrPool u)(k \<mapsto> n)\<rparr>"
    and "r1 \<equiv> r\<lparr>pdrs := (pdrs r)(n \<mapsto> new_pdr\<lparr>PDRID := k\<rparr>), nextRule := Suc n\<rparr>"
  shows "pdrID G u = (Ok k, u\<lparr>pdrIDGenerator := q\<rparr>) \<and> pdrPool u k = None \<and> k \<noteq> 0 \<and> upf_inv inv used ids u1 r1"
proof -
  from I have R: "range_ok inv ids LENGTH(16) (pdrIDGenerator u)" and h: "pdrs r n = None"
    and P: "pool_ok (used (pdrIDGenerator u)) (pdrPool u) (pdrs r) PDRID"
    by (auto simp: upf_inv_def heap_ok_def n_def)
  have p: "pdrPool u k = None \<and> k \<noteq> 0 \<and>
      pool_ok (used q) ((pdrPool u)(k \<mapsto> n)) ((pdrs r)(n \<mapsto> new_pdr\<lparr>PDRID := k\<rparr>)) PDRID"
    unfolding k_def using R P a h by (intro pool_ok_alloc) auto
  have "range_ok inv ids 16 q" using R a by (auto intro: range_ok_alloc)
  then have "upf_inv inv used ids u1 r1"
    using I p by (simp add: upf_inv_def heap_ok_def u1_def r1_def n_def)
  moreover have "pdrID G u = (Ok k, u\<lparr>pdrIDGenerator := q\<rparr>)" using s a by (simp add: pdrID_def G k_def)
  ultimately show ?thesis using p by blast
qed

text \<open>The outcomes of \<^verbatim>\<open>AddPDR\<close>: a fresh rule with a fresh forwarding rule, or an error; when only the
  forwarding rules are exhausted, the detection rule stays allocated.\<close>

lemma AddPDR_cases:
  assumes G: "gen_alloc G = alloc" and I: "upf_inv inv used ids u r"
  obtains e where "\<not> (associated u \<and> \<not> ids (pdrIDGenerator u) \<subseteq> used (pdrIDGenerator u))" "AddPDR G u r = (Err e, u, r)"
    | e u' r' k where "associated u" "\<not> ids (pdrIDGenerator u) \<subseteq> used (pdrIDGenerator u)"
        "ids (farIDGenerator u) \<subseteq> used (farIDGenerator u)"
        "AddPDR G u r = (Err e, u', r')" "pdrPool u k = None" "pdrPool u' = (pdrPool u)(k \<mapsto> nextRule r)"
        "farPool u' = farPool u" "upf_inv inv used ids u' r'"
    | k j q1 q2 u' r' where "associated u" "\<not> ids (pdrIDGenerator u) \<subseteq> used (pdrIDGenerator u)"
        "\<not> ids (farIDGenerator u) \<subseteq> used (farIDGenerator u)"
        "AddPDR G u r = (Ok (nextRule r), u', r')" "pdrPool u k = None" "k \<noteq> 0" "farPool u j = None" "j \<noteq> 0"
        "u' = u\<lparr>pdrIDGenerator := q1, pdrPool := (pdrPool u)(k \<mapsto> nextRule r),
                      farIDGenerator := q2, farPool := (farPool u)(j \<mapsto> Suc (nextRule r))\<rparr>"
        "r' = r\<lparr>pdrs := (pdrs r)(nextRule r \<mapsto> new_pdr\<lparr>PDRID := k, FAR := Some (Suc (nextRule r))\<rparr>),
                  fars := (fars r)(Suc (nextRule r) \<mapsto> new_far\<lparr>ApplyAction := no_action\<lparr>Drop := True\<rparr>, FARID := j\<rparr>),
                  nextRule := Suc (Suc (nextRule r))\<rparr>"
        "upf_inv inv used ids u' r'"
proof (cases "associated u")
  case False
  then have "\<exists>e. AddPDR G u r = (Err e, u, r)" by (simp add: AddPDR_def)
  with that(1) False show thesis by blast
next
  case s: True
  from I have inv: "inv (pdrIDGenerator u)" by (simp add: upf_inv_def range_ok_def)
  show thesis
  proof (cases rule: alloc_cases[OF inv])
    case (2 e)
    then have "AddPDR G u r = (Err e, u, r)" using s by (simp add: AddPDR_def pdrID_def G Let_def)
    then show thesis using that(1) 2 by blast
  next
    case (1 i q)
    let ?n = "nextRule r" and ?k = "word_of_int i :: u16"
    let ?u = "u\<lparr>pdrIDGenerator := q, pdrPool := (pdrPool u)(?k \<mapsto> ?n)\<rparr>"
    let ?r = "r\<lparr>pdrs := (pdrs r)(?n \<mapsto> new_pdr\<lparr>PDRID := ?k\<rparr>), nextRule := Suc ?n\<rparr>"
    let ?y = "\<lambda>f. new_pdr\<lparr>PDRID := ?k, FAR := Some f\<rparr>"
    note P = pdrID_step[OF G I s 1(1)]
    then have I1: "upf_inv inv used ids ?u ?r" by blast
    have E: "AddPDR G u r = (case AddFAR G ?u ?r of
            (Ok f, u, r) \<Rightarrow> (Ok ?n, u, r\<lparr>pdrs := (pdrs r)(?n \<mapsto> ?y f)\<rparr>)
          | (Err e, u, r) \<Rightarrow> (Err e, u, r) | (Panic e, u, r) \<Rightarrow> (Panic e, u, r))"
      using s P unfolding AddPDR_def by (simp add: Let_def)
    have nf: "\<not> ids (pdrIDGenerator u) \<subseteq> used (pdrIDGenerator u)" using 1 by blast
    show thesis
    proof (cases rule: AddFAR_cases[OF G I1])
      case (1 e)
      then show thesis using s by simp
    next
      case (2 e)
      have "AddPDR G u r = (Err e, ?u, ?r)" unfolding E 2(3) by simp
      from that(2)[OF s nf _ this _ _ _ I1, of ?k] 2 P show thesis by simp
    next
      case (3 j q2 u2 r2)
      have x: "pdrs r2 ?n = Some (new_pdr\<lparr>PDRID := ?k\<rparr>)" by (simp add: 3(7))
      have I2: "upf_inv inv used ids u2 (r2\<lparr>pdrs := (pdrs r2)(?n \<mapsto> ?y (Suc ?n))\<rparr>)"
        by (rule upf_inv_set_pdr[OF 3(8) x]) simp
      have eq: "AddPDR G u r = (Ok ?n, u2, r2\<lparr>pdrs := (pdrs r2)(?n \<mapsto> ?y (Suc ?n))\<rparr>)"
        unfolding E 3(5) by simp
      show thesis
      proof (rule that(3)[OF s nf _ eq _ _ _ _ _ _ I2])
        show "pdrPool u ?k = None" "?k \<noteq> 0" using P by blast+
        show "\<not> ids (farIDGenerator u) \<subseteq> used (farIDGenerator u)" "farPool u j = None" using 3(2,3) by simp_all
        show "j \<noteq> 0" by (rule 3(4))
        show "u2 = u\<lparr>pdrIDGenerator := q, pdrPool := (pdrPool u)(?k \<mapsto> ?n), farIDGenerator := q2, farPool := (farPool u)(j \<mapsto> Suc ?n)\<rparr>"
          by (simp add: 3(6))
        show "r2\<lparr>pdrs := (pdrs r2)(?n \<mapsto> ?y (Suc ?n))\<rparr> =
            r\<lparr>pdrs := (pdrs r)(?n \<mapsto> ?y (Suc ?n)),
              fars := (fars r)(Suc ?n \<mapsto> new_far\<lparr>ApplyAction := no_action\<lparr>Drop := True\<rparr>, FARID := j\<rparr>), nextRule := Suc (Suc ?n)\<rparr>"
          by (simp add: 3(7))
      qed
    qed
  qed
qed

end

context id_generator
begin

lemma AddFAR_inv: "gen_alloc G = alloc \<Longrightarrow> upf_inv inv used ids u r \<Longrightarrow> AddFAR G u r = (x, u', r') \<Longrightarrow> upf_inv inv used ids u' r'"
  by (rule AddFAR_cases) auto

lemma AddPDR_inv: "gen_alloc G = alloc \<Longrightarrow> upf_inv inv used ids u r \<Longrightarrow> AddPDR G u r = (x, u', r') \<Longrightarrow> upf_inv inv used ids u' r'"
  by (rule AddPDR_cases) auto

lemma AddBAR_inv:
  assumes G: "gen_alloc G = alloc" and I: "upf_inv inv used ids u r" and A: "AddBAR G u r = (x, u', r')"
  shows "upf_inv inv used ids u' r'"
proof (cases "associated u")
  case False
  then show ?thesis using A I by (simp add: AddBAR_def)
next
  case True
  from I have R: "range_ok inv ids LENGTH(8) (barIDGenerator u)" and h: "bars r (nextRule r) = None"
    and inv: "inv (barIDGenerator u)" and P: "pool_ok (used (barIDGenerator u)) (barPool u) (bars r) BARID"
    by (simp_all add: upf_inv_def heap_ok_def range_ok_def)
  show ?thesis
  proof (cases rule: alloc_cases[OF inv])
    case (1 i q)
    let ?k = "word_of_int i :: u8"
    have "pool_ok (used q) ((barPool u)(?k \<mapsto> nextRule r)) ((bars r)(nextRule r \<mapsto> new_bar\<lparr>BARID := ?k\<rparr>)) BARID"
      by (rule pool_ok_alloc[THEN conjunct2, THEN conjunct2, OF R P 1(1) h]) simp
    moreover have "range_ok inv ids 8 q" using range_ok_alloc[OF R 1(1)] by simp
    moreover have "u' = u\<lparr>barIDGenerator := q, barPool := (barPool u)(?k \<mapsto> nextRule r)\<rparr>"
      "r' = r\<lparr>bars := (bars r)(nextRule r \<mapsto> new_bar\<lparr>BARID := ?k\<rparr>), nextRule := Suc (nextRule r)\<rparr>"
      using A True 1(1) by (auto simp: AddBAR_def barID_def G Let_def)
    ultimately show ?thesis using I by (simp add: upf_inv_def heap_ok_def)
  next
    case (2 e)
    have "pool_ok (used (barIDGenerator u)) (barPool u) ((bars r)(nextRule r \<mapsto> new_bar)) BARID"
      by (rule pool_ok_heap[OF P]) (use h in auto)
    moreover have "u' = u" "r' = r\<lparr>bars := (bars r)(nextRule r \<mapsto> new_bar), nextRule := Suc (nextRule r)\<rparr>"
      using A True 2(1) by (auto simp: AddBAR_def barID_def G Let_def)
    ultimately show ?thesis using I by (simp add: upf_inv_def heap_ok_def)
  qed
qed

lemma AddQER_inv:
  assumes G: "gen_alloc G = alloc" and I: "upf_inv inv used ids u r" and A: "AddQER G u r = (x, u', r')"
  shows "upf_inv inv used ids u' r'"
proof (cases "associated u")
  case False
  then show ?thesis using A I by (simp add: AddQER_def)
next
  case True
  from I have R: "range_ok inv ids LENGTH(32) (qerIDGenerator u)" and h: "qers r (nextRule r) = None"
    and inv: "inv (qerIDGenerator u)" and P: "pool_ok (used (qerIDGenerator u)) (qerPool u) (qers r) QERID"
    by (simp_all add: upf_inv_def heap_ok_def range_ok_def)
  show ?thesis
  proof (cases rule: alloc_cases[OF inv])
    case (1 i q)
    let ?k = "word_of_int i :: u32"
    have "pool_ok (used q) ((qerPool u)(?k \<mapsto> nextRule r)) ((qers r)(nextRule r \<mapsto> new_qer\<lparr>QERID := ?k\<rparr>)) QERID"
      by (rule pool_ok_alloc[THEN conjunct2, THEN conjunct2, OF R P 1(1) h]) simp
    moreover have "range_ok inv ids 32 q" using range_ok_alloc[OF R 1(1)] by simp
    moreover have "u' = u\<lparr>qerIDGenerator := q, qerPool := (qerPool u)(?k \<mapsto> nextRule r)\<rparr>"
      "r' = r\<lparr>qers := (qers r)(nextRule r \<mapsto> new_qer\<lparr>QERID := ?k\<rparr>), nextRule := Suc (nextRule r)\<rparr>"
      using A True 1(1) by (auto simp: AddQER_def qerID_def G Let_def)
    ultimately show ?thesis using I by (simp add: upf_inv_def heap_ok_def)
  next
    case (2 e)
    have "pool_ok (used (qerIDGenerator u)) (qerPool u) ((qers r)(nextRule r \<mapsto> new_qer)) QERID"
      by (rule pool_ok_heap[OF P]) (use h in auto)
    moreover have "u' = u" "r' = r\<lparr>qers := (qers r)(nextRule r \<mapsto> new_qer), nextRule := Suc (nextRule r)\<rparr>"
      using A True 2(1) by (auto simp: AddQER_def qerID_def G Let_def)
    ultimately show ?thesis using I by (simp add: upf_inv_def heap_ok_def)
  qed
qed

lemma Remove_inv:
  assumes "gen_free G = free" and "upf_inv inv used ids u r"
  shows "upf_inv inv used ids (snd (RemovePDR G pdr u)) r" and "upf_inv inv used ids (snd (RemoveFAR G far u)) r"
    and "upf_inv inv used ids (snd (RemoveBAR G bar u)) r" and "upf_inv inv used ids (snd (RemoveQER G qer u)) r"
  using assms(2)
  by (simp_all add: assms(1) RemovePDR_def RemoveFAR_def RemoveBAR_def RemoveQER_def upf_inv_def
      range_ok_free pool_ok_free)

lemma BuildCreatePdrFromPccRule_inv:
  assumes G: "gen_alloc G = alloc" and I: "upf_inv inv used ids u r"
    and A: "BuildCreatePdrFromPccRule G rule u r = (x, u', r')"
  shows "upf_inv inv used ids u' r'"
proof -
  obtain y u1 r1 where a: "AddPDR G u r = (y, u1, r1)" by (cases "AddPDR G u r") auto
  then have I1: "upf_inv inv used ids u1 r1" using AddPDR_inv[OF G I] by blast
  show ?thesis
  proof (cases "\<exists>p z f. y = Ok p \<and> pdrs r1 p = Some z \<and> bind_res (nth_res (FlowInfos rule) 0) build_sdf = Ok f")
    case True
    then obtain p z f where t: "y = Ok p" "pdrs r1 p = Some z" "bind_res (nth_res (FlowInfos rule) 0) build_sdf = Ok f"
      by blast
    then have "u' = u1" "r' = r1\<lparr>pdrs := (pdrs r1)(p \<mapsto> z\<lparr>PDI := new_pdi\<lparr>SDFFilter := Some f\<rparr>, PdrPrecedence := word_of_int (Precedence rule)\<rparr>)\<rparr>"
      using A a by (auto simp: BuildCreatePdrFromPccRule_def simp del: bind_res_Ok_iff)
    then show ?thesis using upf_inv_set_pdr[OF I1 t(2)] by simp
  next
    case False
    have "y = Ok p \<Longrightarrow> \<exists>z. pdrs r1 p = Some z" for p using a by (cases rule: AddPDR_cases[OF G I]) auto
    with False have "u' = u1 \<and> r' = r1"
      using A a by (cases y; cases "bind_res (nth_res (FlowInfos rule) 0) build_sdf") (auto simp: BuildCreatePdrFromPccRule_def)
    then show ?thesis using I1 by simp
  qed
qed

end

section \<open>The life of a user plane function\<close>

text \<open>The operations of a UPF in any order, changes of its association status, and writes to the
  rules by the data path, which leave the identifiers alone.\<close>

inductive upf_step :: "'g idgen \<Rightarrow> 'g upf \<times> rule_heap \<Rightarrow> 'g upf \<times> rule_heap \<Rightarrow> bool" for G where
  add_pdr: "AddPDR G u r = (x, u', r') \<Longrightarrow> upf_step G (u, r) (u', r')"
| add_far: "AddFAR G u r = (x, u', r') \<Longrightarrow> upf_step G (u, r) (u', r')"
| add_bar: "AddBAR G u r = (x, u', r') \<Longrightarrow> upf_step G (u, r) (u', r')"
| add_qer: "AddQER G u r = (x, u', r') \<Longrightarrow> upf_step G (u, r) (u', r')"
| build_pdr: "BuildCreatePdrFromPccRule G rule u r = (x, u', r') \<Longrightarrow> upf_step G (u, r) (u', r')"
| remove_pdr: "upf_step G (u, r) (snd (RemovePDR G pdr u), r)"
| remove_far: "upf_step G (u, r) (snd (RemoveFAR G far u), r)"
| remove_bar: "upf_step G (u, r) (snd (RemoveBAR G bar u), r)"
| remove_qer: "upf_step G (u, r) (snd (RemoveQER G qer u), r)"
| status: "upf_step G (u, r) (u\<lparr>UpfStatus := s\<rparr>, r)"
| write_pdr: "pdrs r p = Some x \<Longrightarrow> PDRID y = PDRID x \<Longrightarrow> upf_step G (u, r) (u, r\<lparr>pdrs := (pdrs r)(p \<mapsto> y)\<rparr>)"

inductive upf_reachable :: "'g idgen \<Rightarrow> 'g upf \<times> rule_heap \<Rightarrow> bool" for G where
  start: "heap_ok r \<Longrightarrow> upf_reachable G (NewUPF G u nodeID ifaces, r)"
| step: "upf_reachable G s \<Longrightarrow> upf_step G s s' \<Longrightarrow> upf_reachable G s'"

text \<open>A new generator for the identifiers from 1 has them all and none in use.\<close>

definition new_generators :: "('g \<Rightarrow> bool) \<Rightarrow> ('g \<Rightarrow> int set) \<Rightarrow> ('g \<Rightarrow> int set) \<Rightarrow> 'g idgen \<Rightarrow> bool" where
  "new_generators valid used ids G \<longleftrightarrow> (\<forall>hi \<ge> 1. let p = gen_new G 1 hi in valid p \<and> used p = {} \<and> ids p = {1..hi})"

lemma add_ifaces_pools:
  "pdrPool (add_ifaces is u) = pdrPool u \<and> farPool (add_ifaces is u) = farPool u \<and>
   barPool (add_ifaces is u) = barPool u \<and> qerPool (add_ifaces is u) = qerPool u \<and>
   pdrIDGenerator (add_ifaces is u) = pdrIDGenerator u \<and> farIDGenerator (add_ifaces is u) = farIDGenerator u \<and>
   barIDGenerator (add_ifaces is u) = barIDGenerator u \<and> qerIDGenerator (add_ifaces is u) = qerIDGenerator u"
  by (induction "is" arbitrary: u) (simp_all add: Let_def split: up_interface_type.split)

lemma NewUPF_inv:
  assumes N: "new_generators valid used ids G" and h: "heap_ok r"
  shows "upf_inv valid used ids (NewUPF G u n ifs) r"
proof -
  have g: "valid (gen_new G 1 hi)" "used (gen_new G 1 hi) = {}" "ids (gen_new G 1 hi) = {1..hi}" if "1 \<le> hi" for hi
    using N that by (simp_all add: new_generators_def Let_def)
  have i: "{1..hi} \<subseteq> {1..<hi'}" if "hi < hi'" for hi hi' :: int using that by auto
  show ?thesis using h by (simp add: upf_inv_def NewUPF_def add_ifaces_pools range_ok_def g pool_ok_new i)
qed

context id_generator
begin

lemma upf_step_inv:
  assumes "gen_alloc G = alloc" and "gen_free G = free"
  shows "upf_step G s s' \<Longrightarrow> upf_inv inv used ids (fst s) (snd s) \<Longrightarrow> upf_inv inv used ids (fst s') (snd s')"
proof (induction rule: upf_step.induct)
  case (add_pdr u r x u' r')
  then show ?case using AddPDR_inv[OF assms(1)] by simp
next
  case (add_far u r x u' r')
  then show ?case using AddFAR_inv[OF assms(1)] by simp
next
  case (add_bar u r x u' r')
  then show ?case using AddBAR_inv[OF assms(1)] by simp
next
  case (add_qer u r x u' r')
  then show ?case using AddQER_inv[OF assms(1)] by simp
next
  case (build_pdr rule u r x u' r')
  then show ?case using BuildCreatePdrFromPccRule_inv[OF assms(1)] by simp
next
  case (write_pdr r p x y u)
  then show ?case using upf_inv_set_pdr by simp
next
  case (status u r s)
  then show ?case by (simp add: upf_inv_def)
qed (simp_all add: Remove_inv[OF assms(2)])

lemma upf_reachable_inv:
  assumes "gen_alloc G = alloc" and "gen_free G = free" and N: "new_generators inv used ids G"
  shows "upf_reachable G s \<Longrightarrow> upf_inv inv used ids (fst s) (snd s)"
proof (induction rule: upf_reachable.induct)
  case (start r u nodeID ifaces)
  then show ?case using NewUPF_inv[OF N] by simp
next
  case (step s s')
  then show ?case using upf_step_inv[OF assms(1,2)] by blast
qed

end

lemma pool_ok_inj: "pool_ok U pool objs idof \<Longrightarrow> pool k = Some p \<Longrightarrow> pool k' = Some p \<Longrightarrow> k = k'"
  unfolding pool_ok_def by (metis option.inject)

context id_generator
begin

lemma pool_ok_entries:
  fixes pool :: "'w::len word \<rightharpoonup> nat"
  assumes R: "range_ok inv ids LENGTH('w) q" and P: "pool_ok (used q) pool objs idof"
  shows "(\<forall>k p. pool k = Some p \<longrightarrow> k \<noteq> 0 \<and> (\<exists>x. objs p = Some x \<and> idof x = k)) \<and> uint ` dom pool = used q"
proof -
  have r: "used q \<subseteq> {1..<2 ^ LENGTH('w)}" using R used_ids[of q] by (auto simp: range_ok_def)
  then have "\<forall>i \<in> used q. uint (word_of_int i :: 'w word) = i"
    by (auto simp: uint_word_of_int take_bit_int_eq_self)
  then have d: "uint ` dom pool = used q" using P by (auto simp: pool_ok_def image_image)
  have "k \<noteq> 0" if "pool k = Some p" for k p
  proof
    assume "k = 0"
    with that have "uint (0 :: 'w word) \<in> uint ` dom pool" by blast
    then show False using r d by auto
  qed
  then show ?thesis using P d unfolding pool_ok_def by blast
qed

end

text \<open>The generators of a new UPF, instantiated with the program's own pool of identifiers.\<close>

definition pool_G :: "id_pool idgen" where
  "pool_G = \<lparr>gen_new = newIDPool '''', gen_alloc = allocate '''', gen_free = release\<rparr>"

abbreviation (input) pool_valid :: "id_pool \<Rightarrow> bool" where
  "pool_valid p \<equiv> pool_inv '''' p \<and> isUsed p \<subseteq> pool_ids '''' p"

lemma firstId_default [simp]: "firstId '''' = 1"
  by (simp add: firstId_def smfCount_def Atoi_def atoi_signed_def parse_nat_def digit_val_def int64_defs)

lemma pool_G_generator: "id_generator pool_valid isUsed (pool_ids '''') (gen_alloc pool_G) (gen_free pool_G)"
  using pool_gen.id_generator_axioms[of "''''"] by (simp add: pool_G_def)

lemma pool_G_new: "new_generators pool_valid isUsed (pool_ids '''') pool_G"
  by (simp add: new_generators_def pool_G_def Let_def pool_inv_new pool_ids_def newIDPool_def pool_inv_def)

definition no_rules :: rule_heap where
  "no_rules = \<lparr>pdrs = Map.empty, fars = Map.empty, bars = Map.empty, qers = Map.empty, nextRule = 0\<rparr>"

definition sample_upf :: "id_pool upf" where
  "sample_upf = (NewUPF pool_G ''upf-1'' (NewNodeID ''10.0.0.1'') [])\<lparr>UpfStatus := AssociatedSetUpSuccess\<rparr>"

lemma sample_upf_reachable: "upf_reachable pool_G (sample_upf, no_rules)"
  unfolding sample_upf_def
  by (rule upf_reachable.step[OF upf_reachable.start upf_step.status]) (simp add: heap_ok_def no_rules_def)

lemma sample_scan: "1 \<le> hi \<Longrightarrow> scan {} 1 hi = Some 1"
  by (simp add: scan_Some_iff)

lemma sample_AddPDR:
  "\<exists>u r. AddPDR pool_G sample_upf no_rules = (Ok 0, u, r) \<and> pdrPool u 1 = Some 0"
  by (simp add: AddPDR_def pdrID_def AddFAR_def farID_def sample_upf_def NewUPF_def pool_G_def allocate_def
      newIDPool_def sample_scan smod_nonneg no_rules_def Let_def)

section \<open>Properties\<close>

text \<open>C16: identifiers of rules are unique and match the pools.  Whatever operations a UPF goes through
  and in whatever order, failing ones included, each identifier in use belongs to one rule of the
  pool, which carries it; it is never 0, and the generator considers exactly the identifiers of the
  pool in use.  Converting the generator's numbers to 16, 32 and 8 bits never merges two of them.\<close>

theorem rule_identifiers_unique:
  assumes G: "id_generator valid used ids (gen_alloc G) (gen_free G)" and N: "new_generators valid used ids G"
    and R: "upf_reachable G (u, r)"
  shows "(\<forall>k p. pdrPool u k = Some p \<longrightarrow> k \<noteq> 0 \<and> (\<exists>x. pdrs r p = Some x \<and> PDRID x = k)) \<and>
    (\<forall>k p. farPool u k = Some p \<longrightarrow> k \<noteq> 0 \<and> (\<exists>x. fars r p = Some x \<and> FARID x = k)) \<and>
    (\<forall>k p. barPool u k = Some p \<longrightarrow> k \<noteq> 0 \<and> (\<exists>x. bars r p = Some x \<and> BARID x = k)) \<and>
    (\<forall>k p. qerPool u k = Some p \<longrightarrow> k \<noteq> 0 \<and> (\<exists>x. qers r p = Some x \<and> QERID x = k)) \<and>
    uint ` dom (pdrPool u) = used (pdrIDGenerator u) \<and> uint ` dom (farPool u) = used (farIDGenerator u) \<and>
    uint ` dom (barPool u) = used (barIDGenerator u) \<and> uint ` dom (qerPool u) = used (qerIDGenerator u)"
proof -
  have I: "upf_inv valid used ids u r"
    using id_generator.upf_reachable_inv[OF G refl refl N R] by simp
  show ?thesis
    using id_generator.pool_ok_entries[OF G, where q = "pdrIDGenerator u" and pool = "pdrPool u" and objs = "pdrs r" and idof = PDRID]
      id_generator.pool_ok_entries[OF G, where q = "farIDGenerator u" and pool = "farPool u" and objs = "fars r" and idof = FARID]
      id_generator.pool_ok_entries[OF G, where q = "barIDGenerator u" and pool = "barPool u" and objs = "bars r" and idof = BARID]
      id_generator.pool_ok_entries[OF G, where q = "qerIDGenerator u" and pool = "qerPool u" and objs = "qers r" and idof = QERID] I
    unfolding upf_inv_def by simp
qed

theorem rule_identifiers_unique_witness:
  "\<exists>u r x. upf_reachable pool_G (u, r) \<and> pdrPool u 1 = Some 0 \<and> pdrs r 0 = Some x \<and> PDRID x = 1 \<and>
     uint ` dom (pdrPool u) = isUsed (pdrIDGenerator u)"
proof -
  obtain u r where a: "AddPDR pool_G sample_upf no_rules = (Ok 0, u, r)" "pdrPool u 1 = Some 0"
    using sample_AddPDR by blast
  from upf_reachable.step[OF sample_upf_reachable upf_step.add_pdr[OF a(1)]] have R: "upf_reachable pool_G (u, r)" .
  note T = rule_identifiers_unique[OF pool_G_generator pool_G_new R]
  from T[THEN conjunct1] a(2) obtain x where "pdrs r 0 = Some x" "PDRID x = 1" by blast
  moreover from T have "uint ` dom (pdrPool u) = isUsed (pdrIDGenerator u)" by (elim conjE)
  ultimately show ?thesis using R a(2) by blast
qed

text \<open>Allocating a detection rule.  It succeeds exactly on an associated UPF with a detection and a
  forwarding identifier left; the rule and its forwarding rule then are new, have fresh identifiers,
  and the forwarding rule drops.  When only the forwarding identifiers are exhausted the call fails
  but the new detection rule stays in its pool, with its identifier in use.\<close>

lemma AddPDR_outcome:
  assumes G: "id_generator valid used ids (gen_alloc G) (gen_free G)" and I: "upf_inv valid used ids u r"
  shows "(is_Ok (fst (AddPDR G u r)) \<longleftrightarrow> UpfStatus u = AssociatedSetUpSuccess \<and>
       \<not> ids (pdrIDGenerator u) \<subseteq> used (pdrIDGenerator u) \<and> \<not> ids (farIDGenerator u) \<subseteq> used (farIDGenerator u)) \<and>
    \<not> is_Panic (fst (AddPDR G u r)) \<and>
    (\<forall>p u' r'. AddPDR G u r = (Ok p, u', r') \<longrightarrow> pdrs r p = None \<and>
       (\<exists>k j f. pdrPool u k = None \<and> pdrPool u' = (pdrPool u)(k \<mapsto> p) \<and>
          pdrs r' p = Some (new_pdr\<lparr>PDRID := k, FAR := Some f\<rparr>) \<and> farPool u j = None \<and>
          farPool u' = (farPool u)(j \<mapsto> f) \<and> fars r f = None \<and>
          fars r' f = Some (new_far\<lparr>ApplyAction := no_action\<lparr>Drop := True\<rparr>, FARID := j\<rparr>))) \<and>
    (\<forall>e u' r'. AddPDR G u r = (Err e, u', r') \<longrightarrow> UpfStatus u = AssociatedSetUpSuccess \<longrightarrow>
       \<not> ids (pdrIDGenerator u) \<subseteq> used (pdrIDGenerator u) \<longrightarrow>
       (\<exists>k. pdrPool u k = None \<and> pdrPool u' k \<noteq> None))"
proof (cases rule: id_generator.AddPDR_cases[OF G refl I])
  case (1 e)
  then show ?thesis by auto
next
  case (2 e u' r' k)
  then show ?thesis by auto
next
  case (3 k j q1 q2 u' r')
  have h: "pdrs r (nextRule r) = None" "fars r (Suc (nextRule r)) = None"
    using I by (simp_all add: upf_inv_def heap_ok_def)
  show ?thesis unfolding 3(4) using 3(1-3,5,7) h by (auto simp: 3(9,10))
qed

theorem AddPDR_outcome_witness:
  "\<exists>u r k. AddPDR pool_G sample_upf no_rules = (Ok 0, u, r) \<and> pdrPool sample_upf k = None \<and> pdrPool u = (pdrPool sample_upf)(k \<mapsto> 0)"
proof -
  have "upf_inv pool_valid isUsed (pool_ids '''') sample_upf no_rules"
    using id_generator.upf_reachable_inv[OF pool_G_generator refl refl pool_G_new sample_upf_reachable] by simp
  from AddPDR_outcome[OF pool_G_generator this] sample_AddPDR show ?thesis by metis
qed

text \<open>\<^verbatim>\<open>RetrieveUPFNodeByNodeID\<close> compares IPv4 forms: a host name that resolves to an IPv6 address is
  taken for every IPv6 node, because both forms are nil.\<close>

lemma fqdn_matches_every_ipv6_node:
  assumes "NodeIdType a = NodeIdTypeFqdn" and "NodeIdType b = NodeIdTypeIpv6Address"
    and "To4 (resolve a) = []" and "To4 (resolve b) = []"
  shows "same_node resolve a b"
  using assms by (simp add: same_node_def)

end
