(* ===== verification/User_Plane.thy ===== *)
theory User_Plane
  imports Upf
begin

text \<open>
  The user plane topology, \<^verbatim>\<open>src/context/user_plane_information.go\<close>: nodes (access networks and
  UPFs) with their links, the tables that find a node by name or address, the configuration
  operations on them and their order in \<^verbatim>\<open>ProcessConfigUpdate\<close> of
  \<^verbatim>\<open>src/context/context.go\<close>, the choice of a UPF for a session and the depth-first search for
  the default path.  Nodes and UPFs are objects that tables and links point to; a pointer is an index
  into the list of nodes or of UPFs that were created.  The identifier of a new UPF
  (\<^verbatim>\<open>uuid.New\<close>) and the resolution of node identifiers to addresses are arguments.
\<close>

section \<open>Nodes and tables\<close>

definition UPNODE_UPF :: string where "UPNODE_UPF = ''UPF''"
definition UPNODE_AN :: string where "UPNODE_AN = ''AN''"

record up_node =
  NodeUPF :: "nat option"
  NodeTy :: string
  UpNodeID :: node_id
  ANIP :: ip
  NodeDnn :: string
  Links :: "nat list"
  NodePort :: u16

definition new_up_node :: up_node where
  "new_up_node = \<lparr>NodeUPF = None, NodeTy = '''', UpNodeID = \<lparr>NodeIdValue = [], NodeIdType = NodeIdTypeIpv4Address\<rparr>,
     ANIP = [], NodeDnn = '''', Links = [], NodePort = 0\<rparr>"

record 'g upi =
  nodes :: "up_node list"
  upfs :: "'g upf list"
  upfPool :: "nat go_map"
  UPNodes :: "nat go_map"
  UPFs :: "nat go_map"
  AccessNetwork :: "nat go_map"
  UPFIPToName :: "string go_map"
  UPFsID :: "string go_map"
  UPFsIPtoID :: "string go_map"
  DefaultUserPlanePath :: "nat list go_map"

text \<open>The configuration of a node and of a link, \<^verbatim>\<open>src/factory/config.go\<close>.\<close>

record cfg_node =
  CfgType :: string
  CfgNodeID :: string
  CfgANIP :: string
  CfgSNssaiInfos :: "snssai_upf_info list"
  CfgInterfaces :: "interface_upf_info_item list"
  CfgPort :: u16

record cfg_link =
  LinkA :: string
  LinkB :: string

definition upd_node :: "nat \<Rightarrow> (up_node \<Rightarrow> up_node) \<Rightarrow> 'g upi \<Rightarrow> 'g upi" where
  "upd_node n f t = t\<lparr>nodes := (nodes t)[n := f (nodes t ! n)]\<rparr>"

definition upf_of :: "'g upi \<Rightarrow> nat \<Rightarrow> 'g upf option" where
  "upf_of t n = (if n < length (nodes t) then
     (case NodeUPF (nodes t ! n) of Some p \<Rightarrow> if p < length (upfs t) then Some (upfs t ! p) else None | None \<Rightarrow> None) else None)"

definition links_of :: "'g upi \<Rightarrow> nat \<Rightarrow> nat list" where
  "links_of t n = (if n < length (nodes t) then Links (nodes t ! n) else [])"

definition upf_at :: "'g upi \<Rightarrow> nat \<rightharpoonup> 'g upf" where
  "upf_at t p = (if p < length (upfs t) then Some (upfs t ! p) else None)"

section \<open>Configuring nodes and links\<close>

definition name_table :: "(node_id \<Rightarrow> ip) \<Rightarrow> string \<Rightarrow> nat \<Rightarrow> 'g upi \<Rightarrow> 'g upi" where
  "name_table resolve name n t = t\<lparr>UPNodes := AList.update name n (UPNodes t),
     UPFIPToName := AList.update (IPString (resolve (UpNodeID (nodes t ! n)))) name (UPFIPToName t)\<rparr>"

definition InsertSmfUserPlaneNode ::
    "'g idgen \<Rightarrow> string \<Rightarrow> (node_id \<Rightarrow> ip) \<Rightarrow> string \<Rightarrow> cfg_node \<Rightarrow> 'g upi \<Rightarrow> 'g upi" where
  "InsertSmfUserPlaneNode G uid resolve name cfg t =
     (let n = length (nodes t); p = length (upfs t);
          upNode = new_up_node\<lparr>NodeTy := CfgType cfg, NodePort := CfgPort cfg\<rparr>;
          t = (if NodeTy upNode = UPNODE_AN
               then t\<lparr>nodes := nodes t @ [upNode\<lparr>ANIP := ParseIP (CfgANIP cfg)\<rparr>], AccessNetwork := AList.update name n (AccessNetwork t)\<rparr>
               else if NodeTy upNode = UPNODE_UPF
               then (let nid = NewNodeID (CfgNodeID cfg);
                         u = (NewUPF G uid nid (CfgInterfaces cfg))\<lparr>UpfPort := NodePort upNode, SNssaiInfos := CfgSNssaiInfos cfg\<rparr> in
                     t\<lparr>nodes := nodes t @ [upNode\<lparr>UpNodeID := nid, NodeUPF := Some p\<rparr>],
                       upfs := upfs t @ [u], upfPool := AList.update uid p (upfPool t), UPFs := AList.update name n (UPFs t)\<rparr>)
               else t\<lparr>nodes := nodes t @ [upNode]\<rparr>)
      in name_table resolve name n t)"

text \<open>A changed node identifier gives the node a new UPF, whose port keeps the value 0.\<close>

definition update_upf :: "'g idgen \<Rightarrow> string \<Rightarrow> cfg_node \<Rightarrow> nat \<Rightarrow> 'g upi \<Rightarrow> 'g upi result" where
  "update_upf G uid cfg n t =
     (let nid = NewNodeID (CfgNodeID cfg); p = length (upfs t);
          t = (if UpNodeID (nodes t ! n) \<noteq> nid
               then (upd_node n (\<lambda>x. x\<lparr>UpNodeID := nid, NodeUPF := Some p\<rparr>) t)
                      \<lparr>upfs := upfs t @ [NewUPF G uid nid (CfgInterfaces cfg)], upfPool := AList.update uid p (upfPool t)\<rparr>
               else t) in
      case NodeUPF (nodes t ! n) of
        None \<Rightarrow> Panic ''nil pointer dereference''
      | Some q \<Rightarrow> Ok (t\<lparr>upfs := (upfs t)[q := (upfs t ! q)\<lparr>SNssaiInfos := CfgSNssaiInfos cfg\<rparr>]\<rparr>))"

definition UpdateSmfUserPlaneNode ::
    "'g idgen \<Rightarrow> string \<Rightarrow> (node_id \<Rightarrow> ip) \<Rightarrow> string \<Rightarrow> cfg_node \<Rightarrow> 'g upi \<Rightarrow> 'g upi result" where
  "UpdateSmfUserPlaneNode G uid resolve name cfg t = (case map_of (UPNodes t) name of
      None \<Rightarrow> Err ''UPNode does not exist''
    | Some n \<Rightarrow>
        (let t = upd_node n (\<lambda>x. x\<lparr>NodePort := CfgPort cfg\<rparr>) t; ty = NodeTy (nodes t ! n) in
         bind_res
           (if ty = UPNODE_AN then Ok (upd_node n (\<lambda>x. x\<lparr>ANIP := ParseIP (CfgANIP cfg)\<rparr>) t)
            else if ty = UPNODE_UPF
            then bind_res (update_upf G uid cfg n t) (\<lambda>t. Ok (t\<lparr>UPFs := AList.update name n (UPFs t)\<rparr>))
            else Ok t)
           (\<lambda>t. Ok (name_table resolve name n t))))"

definition drop_upf :: "(node_id \<Rightarrow> ip) \<Rightarrow> string \<Rightarrow> nat \<Rightarrow> 'g upi \<Rightarrow> 'g upi result" where
  "drop_upf resolve name n t =
     (let t = t\<lparr>UPFs := AList.delete name (UPFs t), UPFsID := AList.delete name (UPFsID t)\<rparr> in
      bind_res
        (if UPFsIPtoID t = [] then Ok t
         else case upf_of t n of
           None \<Rightarrow> Panic ''nil pointer dereference''
         | Some u \<Rightarrow> Ok (t\<lparr>UPFsIPtoID := filter (\<lambda>(_, i). i \<noteq> uuid u) (UPFsIPtoID t)\<rparr>))
        (\<lambda>t. Ok (t\<lparr>upfPool := snd (RemoveUPFNodeByNodeID resolve (upf_at t) (UpNodeID (nodes t ! n)) (upfPool t))\<rparr>)))"

definition DeleteSmfUserPlaneNode :: "(node_id \<Rightarrow> ip) \<Rightarrow> string \<Rightarrow> cfg_node \<Rightarrow> 'g upi \<Rightarrow> 'g upi result" where
  "DeleteSmfUserPlaneNode resolve name cfg t =
     (let name' = (if map_of (UPNodes t) name = None then CfgNodeID cfg else name) in
      case map_of (UPNodes t) name' of
        None \<Rightarrow> Ok t
      | Some n \<Rightarrow>
          bind_res
            (if NodeTy (nodes t ! n) = UPNODE_AN then Ok (t\<lparr>AccessNetwork := AList.delete name' (AccessNetwork t)\<rparr>)
             else if NodeTy (nodes t ! n) = UPNODE_UPF then drop_upf resolve name' n t
             else Panic ''invalid UP Node type'')
            (\<lambda>t. Ok (t\<lparr>UPNodes := AList.delete name' (UPNodes t),
                       UPFIPToName := filter (\<lambda>(_, nodeName). nodeName \<noteq> name') (UPFIPToName t)\<rparr>)))"

definition InsertUPNodeLinks :: "cfg_link \<Rightarrow> 'g upi \<Rightarrow> 'g upi result" where
  "InsertUPNodeLinks link t = (case (map_of (UPNodes t) (LinkA link), map_of (UPNodes t) (LinkB link)) of
      (Some a, Some b) \<Rightarrow>
        Ok (upd_node b (\<lambda>x. x\<lparr>Links := Links x @ [a]\<rparr>) (upd_node a (\<lambda>x. x\<lparr>Links := Links x @ [b]\<rparr>) t))
    | _ \<Rightarrow> Panic ''Invalid UPF Links'')"

text \<open>A link is found by the value of the node identifier at its other end.\<close>

fun remove_link :: "up_node list \<Rightarrow> byte list \<Rightarrow> nat list \<Rightarrow> nat list" where
  "remove_link ns v [] = []"
| "remove_link ns v (l # ls) = (if NodeIdValue (UpNodeID (ns ! l)) = v then ls else l # remove_link ns v ls)"

definition drop_link :: "nat option \<Rightarrow> nat option \<Rightarrow> 'g upi \<Rightarrow> 'g upi result" where
  "drop_link a b t = (case a of
      None \<Rightarrow> Ok t
    | Some a \<Rightarrow> (if Links (nodes t ! a) = [] then Ok t
        else case b of
          None \<Rightarrow> Panic ''nil pointer dereference''
        | Some b \<Rightarrow> Ok (upd_node a (\<lambda>x. x\<lparr>Links := remove_link (nodes t) (NodeIdValue (UpNodeID (nodes t ! b))) (Links x)\<rparr>) t)))"

definition DeleteUPNodeLinks :: "cfg_link \<Rightarrow> 'g upi \<Rightarrow> 'g upi result" where
  "DeleteUPNodeLinks link t =
     (let a = map_of (UPNodes t) (LinkA link); b = map_of (UPNodes t) (LinkB link) in
      bind_res (drop_link a b t) (drop_link b a))"

fun insert_nodes :: "'g idgen \<Rightarrow> (node_id \<Rightarrow> ip) \<Rightarrow> (string \<times> string \<times> cfg_node) list \<Rightarrow> 'g upi \<Rightarrow> 'g upi" where
  "insert_nodes G resolve [] t = t"
| "insert_nodes G resolve ((uid, name, cfg) # ns) t = insert_nodes G resolve ns (InsertSmfUserPlaneNode G uid resolve name cfg t)"

fun insert_links :: "cfg_link list \<Rightarrow> 'g upi \<Rightarrow> 'g upi result" where
  "insert_links [] t = Ok t"
| "insert_links (l # ls) t = bind_res (InsertUPNodeLinks l t) (insert_links ls)"

definition empty_upi :: "'g upi" where
  "empty_upi = \<lparr>nodes = [], upfs = [], upfPool = [], UPNodes = [], UPFs = [], AccessNetwork = [], UPFIPToName = [],
        UPFsID = [], UPFsIPtoID = [], DefaultUserPlanePath = []\<rparr>"

text \<open>The nodes come with the identifiers that \<^verbatim>\<open>uuid.New\<close> gives their UPFs.\<close>

definition NewUserPlaneInformation ::
    "'g idgen \<Rightarrow> (node_id \<Rightarrow> ip) \<Rightarrow> (string \<times> string \<times> cfg_node) list \<Rightarrow> cfg_link list \<Rightarrow> 'g upi result" where
  "NewUserPlaneInformation G resolve ns ls =
     insert_links ls (insert_nodes G resolve ns empty_upi)"

section \<open>Looking up nodes\<close>

fun allocate_ids :: "(node_id \<Rightarrow> ip) \<Rightarrow> nat go_map \<Rightarrow> 'g upi \<Rightarrow> 'g upi result" where
  "allocate_ids resolve [] t = Ok t"
| "allocate_ids resolve ((name, n) # us) t = (case upf_of t n of
      None \<Rightarrow> Panic ''nil pointer dereference''
    | Some u \<Rightarrow> allocate_ids resolve us
        (t\<lparr>UPFsID := AList.update name (uuid u) (UPFsID t),
           UPFsIPtoID := AList.update (IPString (resolve (UpNodeID (nodes t ! n)))) (uuid u) (UPFsIPtoID t)\<rparr>))"

definition AllocateUPFID :: "(node_id \<Rightarrow> ip) \<Rightarrow> 'g upi \<Rightarrow> 'g upi result" where
  "AllocateUPFID resolve t = allocate_ids resolve (UPFs t) t"

definition GetUPFNameByIp :: "string \<Rightarrow> 'g upi \<Rightarrow> string" where
  "GetUPFNameByIp ip t = (case map_of (UPFIPToName t) ip of None \<Rightarrow> '''' | Some s \<Rightarrow> s)"

definition GetUPFNodeIDByName :: "string \<Rightarrow> 'g upi \<Rightarrow> node_id result" where
  "GetUPFNodeIDByName name t = (case map_of (UPFs t) name of
      None \<Rightarrow> Panic ''nil pointer dereference'' | Some n \<Rightarrow> Ok (UpNodeID (nodes t ! n)))"

definition GetUPFNodeByIP :: "string \<Rightarrow> 'g upi \<Rightarrow> nat option" where
  "GetUPFNodeByIP ip t = map_of (UPFs t) (GetUPFNameByIp ip t)"

definition GetUPFIDByIP :: "string \<Rightarrow> 'g upi \<Rightarrow> string" where
  "GetUPFIDByIP ip t = (case map_of (UPFsIPtoID t) ip of None \<Rightarrow> '''' | Some s \<Rightarrow> s)"

definition ResetDefaultUserPlanePath :: "'g upi \<Rightarrow> 'g upi" where
  "ResetDefaultUserPlanePath t = t\<lparr>DefaultUserPlanePath := []\<rparr>"

definition ExistDefaultPath :: "string \<Rightarrow> 'g upi \<Rightarrow> bool" where
  "ExistDefaultPath dnn t \<longleftrightarrow> map_of (DefaultUserPlanePath t) dnn \<noteq> None"

section \<open>Choosing a UPF\<close>

text \<open>The UPFs that serve the slice and one of the data networks, in the order of the table; a UPF is
  listed once for every item of its configuration that matches.\<close>

definition dnn_matches :: "upf_selection_params \<Rightarrow> dnn_upf_info_item \<Rightarrow> bool" where
  "dnn_matches sel d = list_ex (\<lambda>dnn. ItemDnn d = dnn \<and> ContainsDNAI (SelDnai sel) d) (SelDnnList sel)"

definition node_matches :: "upf_selection_params \<Rightarrow> nat \<Rightarrow> 'g upf \<Rightarrow> nat list" where
  "node_matches sel n u = concat (map (\<lambda>info.
     if Snssai_Equal (SNssai info) (SelSNssai sel)
     then map (\<lambda>_. n) (filter (dnn_matches sel) (DnnList info)) else []) (SNssaiInfos u))"

fun match_nodes :: "'g upi \<Rightarrow> upf_selection_params \<Rightarrow> nat go_map \<Rightarrow> nat list result" where
  "match_nodes t sel [] = Ok []"
| "match_nodes t sel ((_, n) # us) = (case upf_of t n of
      None \<Rightarrow> Panic ''nil pointer dereference''
    | Some u \<Rightarrow> bind_res (match_nodes t sel us) (\<lambda>ns. Ok (node_matches sel n u @ ns)))"

definition selectMatchUPF :: "upf_selection_params \<Rightarrow> 'g upi \<Rightarrow> nat list result" where
  "selectMatchUPF sel t = match_nodes t sel (UPFs t)"

section \<open>The default path\<close>

text \<open>
  \<^verbatim>\<open>reflect.DeepEqual\<close> on two nodes: equal fields, equal UPFs and pairwise equal linked nodes,
  followed through the links; pairs that were met before count as equal, which on a finite graph
  is equality to the depth of the number of pairs.
\<close>

definition upf_equal :: "'g upi \<Rightarrow> nat option \<Rightarrow> nat option \<Rightarrow> bool" where
  "upf_equal t p q = (case (p, q) of
      (None, None) \<Rightarrow> True
    | (Some a, Some b) \<Rightarrow> a = b \<or> upfs t ! a = upfs t ! b
    | _ \<Rightarrow> False)"

primrec deep_eq :: "nat \<Rightarrow> 'g upi \<Rightarrow> nat \<Rightarrow> nat \<Rightarrow> bool" where
  "deep_eq 0 t p q = True"
| "deep_eq (Suc k) t p q =
     (p = q \<or> (let a = nodes t ! p; b = nodes t ! q in
        NodeTy a = NodeTy b \<and> UpNodeID a = UpNodeID b \<and> ANIP a = ANIP b \<and> NodeDnn a = NodeDnn b \<and>
        NodePort a = NodePort b \<and> upf_equal t (NodeUPF a) (NodeUPF b) \<and>
        list_all2 (deep_eq k t) (Links a) (Links b)))"

definition DeepEqual :: "'g upi \<Rightarrow> nat \<Rightarrow> nat \<Rightarrow> bool" where
  "DeepEqual t p q = deep_eq (Suc (length (nodes t) * length (nodes t))) t p q"

text \<open>
  The loop over the links of \<^verbatim>\<open>cur\<close>, with the recursive call on a linked node written out: the set
  \<^verbatim>\<open>vis\<close> of visited nodes is shared by all calls, so it is threaded through them.  Asking a node
  without UPF whether it serves the slice dereferences a nil pointer.
\<close>

function link_loop :: "'g upi \<Rightarrow> upf_selection_params \<Rightarrow> nat \<Rightarrow> nat \<Rightarrow> nat list \<Rightarrow> nat set \<Rightarrow> (nat list option \<times> nat set) result" where
  "link_loop t sel dest cur [] vis = Ok (None, vis)"
| "link_loop t sel dest cur (n # ns) vis =
     (if n \<in> vis then link_loop t sel dest cur ns vis
      else case upf_of t n of
        None \<Rightarrow> Panic ''nil pointer dereference''
      | Some u \<Rightarrow>
          if \<not> isSupportSnssai (SelSNssai sel) u then link_loop t sel dest cur ns (insert n vis)
          else case (if DeepEqual t n dest then Ok (Some [n], insert n vis)
                     else link_loop t sel dest n (links_of t n) (insert n vis)) of
              Ok (Some path_tail, v) \<Rightarrow> Ok (Some (cur # path_tail), v)
            | Ok (None, v) \<Rightarrow> link_loop t sel dest cur ns v
            | Err e \<Rightarrow> Err e
            | Panic e \<Rightarrow> Panic e)"
  by pat_completeness auto

lemma upf_of_valid: "upf_of t n = Some u \<Longrightarrow> n < length (nodes t)"
  by (simp add: upf_of_def split: if_splits)

lemma link_loop_grows:
  "link_loop_dom (t, sel, dest, cur, ns, vis) \<Longrightarrow> link_loop t sel dest cur ns vis = Ok (x, v) \<Longrightarrow> vis \<subseteq> v"
proof (induction arbitrary: x v rule: link_loop.pinduct)
  case (1 t sel dest cur vis)
  then show ?case by (simp add: link_loop.psimps)
next
  case (2 t sel dest cur n ns vis)
  show ?case
  proof (cases "n \<in> vis")
    case True
    then show ?thesis using 2 by (simp add: link_loop.psimps)
  next
    case False
    from 2(6) False obtain u where u: "upf_of t n = Some u" using 2(1)
      by (auto simp: link_loop.psimps split: option.splits)
    show ?thesis
    proof (cases "isSupportSnssai (SelSNssai sel) u")
      case ns: False
      then show ?thesis using 2(1,3,6) False u by (simp add: link_loop.psimps)
    next
      case s: True
      let ?r = "if DeepEqual t n dest then Ok (Some [n], insert n vis) else link_loop t sel dest n (links_of t n) (insert n vis)"
      from 2(1,6) False u s obtain y w where r: "?r = Ok (y, w)"
        by (cases ?r) (auto simp: link_loop.psimps)
      have w: "insert n vis \<subseteq> w"
        using r 2(4)[OF False u] s by (auto split: if_splits)
      show ?thesis
      proof (cases y)
        case None
        then have "link_loop t sel dest cur ns w = Ok (x, v)" using 2(1,6) False u s r by (simp add: link_loop.psimps)
        then have "w \<subseteq> v" using 2(5)[OF False u _ r] s None by auto
        then show ?thesis using w by blast
      next
        case (Some tl)
        then show ?thesis using 2(1,6) False u s r w by (simp add: link_loop.psimps)
      qed
    qed
  qed
qed

lemma link_loop_total: "All link_loop_dom"
proof (relation "inv_image (finite_psubset <*lex*> less_than) (\<lambda>(t, sel, dest, cur, ns, vis). ({..<length (nodes t)} - vis, length ns))", goal_cases)
  case 1
  then show ?case by auto
next
  case (2 t sel dest cur n ns vis)
  then show ?case by simp
next
  case (3 t sel dest cur n ns vis u)
  then show ?case using upf_of_valid[of t n u] by (auto simp: finite_psubset_def)
next
  case (4 t sel dest cur n ns vis u)
  then show ?case using upf_of_valid[of t n u] by (auto simp: finite_psubset_def)
next
  case (5 t sel dest cur n ns vis u p q y)
  then show ?case using upf_of_valid[of t n u] link_loop_grows[of t sel dest n "links_of t n" "insert n vis"]
    by (auto simp: finite_psubset_def split: if_splits)
qed

termination link_loop
  by (rule link_loop_total)

lemmas link_loop_extends = link_loop_grows[OF link_loop_total[rule_format]]

definition getPathBetween :: "'g upi \<Rightarrow> upf_selection_params \<Rightarrow> nat \<Rightarrow> nat \<Rightarrow> nat set \<Rightarrow> (nat list option \<times> nat set) result" where
  "getPathBetween t sel dest cur vis =
     (let vis = insert cur vis in
      if DeepEqual t cur dest then Ok (Some [cur], vis) else link_loop t sel dest cur (links_of t cur) vis)"

text \<open>The loop makes the recursive call of the source.\<close>

lemma link_loop_calls:
  "link_loop t sel dest cur (n # ns) vis =
     (if n \<in> vis then link_loop t sel dest cur ns vis
      else case upf_of t n of
        None \<Rightarrow> Panic ''nil pointer dereference''
      | Some u \<Rightarrow>
          if \<not> isSupportSnssai (SelSNssai sel) u then link_loop t sel dest cur ns (insert n vis)
          else case getPathBetween t sel dest n vis of
              Ok (Some path_tail, v) \<Rightarrow> Ok (Some (cur # path_tail), v)
            | Ok (None, v) \<Rightarrow> link_loop t sel dest cur ns v
            | Err e \<Rightarrow> Err e
            | Panic e \<Rightarrow> Panic e)"
  unfolding getPathBetween_def Let_def by (rule link_loop.simps(2))

declare link_loop.simps(2) [simp del]

fun an_loop :: "'g upi \<Rightarrow> upf_selection_params \<Rightarrow> nat \<Rightarrow> nat go_map \<Rightarrow> nat set \<Rightarrow> nat list option result" where
  "an_loop t sel dest [] vis = Ok None"
| "an_loop t sel dest ((_, node) # ans) vis =
     (if NodeTy (nodes t ! node) = UPNODE_AN
      then bind_res (getPathBetween t sel dest node vis) (\<lambda>(r, v). case r of
          Some path \<Rightarrow> Ok (Some (if NodeTy (nodes t ! hd path) = UPNODE_AN then tl path else path))
        | None \<Rightarrow> an_loop t sel dest ans v)
      else an_loop t sel dest ans vis)"

definition GenerateDefaultPath :: "upf_selection_params \<Rightarrow> 'g upi \<Rightarrow> (bool \<times> 'g upi) result" where
  "GenerateDefaultPath sel t =
     (if length (AccessNetwork t) = 0 then Ok (False, t)
      else bind_res (selectMatchUPF sel t) (\<lambda>destinations.
        case destinations of
          [] \<Rightarrow> Ok (False, t)
        | dest # _ \<Rightarrow> bind_res (an_loop t sel dest (AccessNetwork t) {}) (\<lambda>p. case p of
              Some path \<Rightarrow> Ok (True, t\<lparr>DefaultUserPlanePath := AList.update (Selection_String sel) path (DefaultUserPlanePath t)\<rparr>)
            | None \<Rightarrow> Ok (False, t))))"

definition GetDefaultUserPlanePathByDNN :: "upf_selection_params \<Rightarrow> 'g upi \<Rightarrow> (nat list option \<times> 'g upi) result" where
  "GetDefaultUserPlanePathByDNN sel t = (case map_of (DefaultUserPlanePath t) (Selection_String sel) of
      Some path \<Rightarrow> Ok (Some path, t)
    | None \<Rightarrow> bind_res (GenerateDefaultPath sel t) (\<lambda>(exist, t).
        Ok (if exist then map_of (DefaultUserPlanePath t) (Selection_String sel) else None, t)))"

section \<open>What a path is\<close>

definition serves :: "'g upi \<Rightarrow> upf_selection_params \<Rightarrow> nat \<Rightarrow> bool" where
  "serves t sel n = (case upf_of t n of None \<Rightarrow> False | Some u \<Rightarrow> isSupportSnssai (SelSNssai sel) u)"

text \<open>A path follows links, and every node after the first serves the slice.\<close>

fun is_path :: "'g upi \<Rightarrow> upf_selection_params \<Rightarrow> nat list \<Rightarrow> bool" where
  "is_path t sel [] = False"
| "is_path t sel [a] = True"
| "is_path t sel (a # b # p) = (b \<in> set (links_of t a) \<and> serves t sel b \<and> is_path t sel (b # p))"

text \<open>A topology in which no access network is linked from a node that serves the slice, except the
  ones in \<^verbatim>\<open>S\<close>.\<close>

definition no_other_an :: "'g upi \<Rightarrow> upf_selection_params \<Rightarrow> nat set \<Rightarrow> bool" where
  "no_other_an t sel S \<longleftrightarrow> (\<forall>a b. (serves t sel a \<or> a \<in> S) \<and> b \<in> set (links_of t a) \<longrightarrow> upf_of t b \<noteq> None \<or> b \<in> S)"

lemma link_loop_sound:
  assumes "link_loop t sel dest cur ns vis = Ok (Some p, v)" and "set ns \<subseteq> set (links_of t cur)" and "cur \<in> vis"
  shows "is_path t sel p \<and> hd p = cur \<and> DeepEqual t (last p) dest \<and> distinct p \<and> set (tl p) \<inter> vis = {} \<and> 2 \<le> length p"
  using assms
proof (induction t sel dest cur ns vis arbitrary: p v rule: link_loop.induct)
  case (1 t sel dest cur vis)
  then show ?case by simp
next
  case (2 t sel dest cur n ns vis)
  show ?case
  proof (cases "n \<in> vis")
    case True
    then show ?thesis using 2(1)[OF True, of p v] 2(5-7) by (simp add: link_loop_calls)
  next
    case False
    from 2(5) False obtain u where u: "upf_of t n = Some u" by (auto simp: link_loop_calls split: option.splits)
    show ?thesis
    proof (cases "isSupportSnssai (SelSNssai sel) u")
      case ns: False
      then show ?thesis using 2(2)[OF False u, of p v] 2(5-7) False u by (simp add: link_loop_calls)
    next
      case s: True
      let ?r = "if DeepEqual t n dest then Ok (Some [n], insert n vis) else link_loop t sel dest n (links_of t n) (insert n vis)"
      have g: "getPathBetween t sel dest n vis = ?r" by (simp add: getPathBetween_def)
      from 2(5) False u s obtain y w where r: "?r = Ok (y, w)"
        unfolding link_loop_calls g by (cases ?r) auto
      have sv: "serves t sel n" using u s by (simp add: serves_def)
      show ?thesis
      proof (cases y)
        case None
        then have "link_loop t sel dest cur ns w = Ok (Some p, v)" using 2(5) False u s r by (simp add: link_loop_calls g)
        moreover have "vis \<subseteq> w" using r link_loop_extends[of t sel dest n "links_of t n" "insert n vis"] None
          by (auto split: if_splits)
        ultimately show ?thesis using 2(4)[OF False u _ r, of None w p v] 2(6,7) s None by auto
      next
        case (Some tl)
        then have p: "p = cur # tl" using 2(5) False u s r by (simp add: link_loop_calls g)
        have "is_path t sel tl \<and> hd tl = n \<and> DeepEqual t (last tl) dest \<and> distinct tl \<and> set tl \<inter> vis = {} \<and> tl \<noteq> []"
        proof (cases "DeepEqual t n dest")
          case True
          then show ?thesis using r Some False by auto
        next
          case nd: False
          then have "link_loop t sel dest n (links_of t n) (insert n vis) = Ok (Some tl, w)" using r Some by simp
          from 2(3)[OF False u _ nd this] s have q: "is_path t sel tl \<and> hd tl = n \<and> DeepEqual t (last tl) dest \<and>
              distinct tl \<and> set (List.tl tl) \<inter> insert n vis = {} \<and> 2 \<le> length tl" by simp
          then show ?thesis using False by (cases tl) auto
        qed
        then show ?thesis using 2(6,7) sv by (cases tl) (auto simp: p)
      qed
    qed
  qed
qed

lemma link_loop_None:
  "link_loop t sel dest cur ns vis = Ok (None, v) \<Longrightarrow>
     vis \<subseteq> v \<and> set ns \<subseteq> v \<and> (\<forall>x \<in> v - vis. serves t sel x \<longrightarrow> \<not> DeepEqual t x dest \<and> set (links_of t x) \<subseteq> v)"
proof (induction t sel dest cur ns vis arbitrary: v rule: link_loop.induct)
  case (1 t sel dest cur vis)
  then show ?case by simp
next
  case (2 t sel dest cur n ns vis)
  show ?case
  proof (cases "n \<in> vis")
    case True
    then show ?thesis using 2(1)[OF True, of v] 2(5) by (auto simp: link_loop_calls)
  next
    case False
    from 2(5) False obtain u where u: "upf_of t n = Some u" by (auto simp: link_loop_calls split: option.splits)
    show ?thesis
    proof (cases "isSupportSnssai (SelSNssai sel) u")
      case ns: False
      then have "\<not> serves t sel n" using u by (simp add: serves_def)
      then show ?thesis using 2(2)[OF False u, of v] 2(5) False u ns by (auto simp: link_loop_calls)
    next
      case s: True
      let ?r = "if DeepEqual t n dest then Ok (Some [n], insert n vis) else link_loop t sel dest n (links_of t n) (insert n vis)"
      have g: "getPathBetween t sel dest n vis = ?r" by (simp add: getPathBetween_def)
      from 2(5) False u s obtain w where r: "?r = Ok (None, w)" and l: "link_loop t sel dest cur ns w = Ok (None, v)"
        unfolding link_loop_calls g by (cases ?r) (auto split: option.splits)
      then have nd: "\<not> DeepEqual t n dest" and k: "link_loop t sel dest n (links_of t n) (insert n vis) = Ok (None, w)"
        by (auto split: if_splits)
      from s have sn: "\<not> \<not> isSupportSnssai (SelSNssai sel) u" by simp
      note A = 2(3)[OF False u sn nd k]
      note B = 2(4)[OF False u sn r refl refl l]
      have "\<not> DeepEqual t x dest \<and> set (links_of t x) \<subseteq> v" if x: "x \<in> v - vis" "serves t sel x" for x
      proof (cases "x \<in> w")
        case False
        then show ?thesis using B x by blast
      next
        case True
        then have "\<not> DeepEqual t x dest \<and> set (links_of t x) \<subseteq> w" using A nd x by (cases "x = n") blast+
        then show ?thesis using B by blast
      qed
      then show ?thesis using A B by auto
    qed
  qed
qed

lemma link_loop_returns:
  assumes "no_other_an t sel S" and "S \<subseteq> vis" and "\<forall>b \<in> set ns. upf_of t b \<noteq> None \<or> b \<in> S"
  shows "is_Ok (link_loop t sel dest cur ns vis)"
  using assms
proof (induction t sel dest cur ns vis rule: link_loop.induct)
  case (1 t sel dest cur vis)
  then show ?case by simp
next
  case (2 t sel dest cur n ns vis)
  show ?case
  proof (cases "n \<in> vis")
    case True
    then show ?thesis using 2(1)[OF True] 2(5-7) by (simp add: link_loop_calls)
  next
    case False
    with 2(6,7) obtain u where u: "upf_of t n = Some u" by auto
    show ?thesis
    proof (cases "isSupportSnssai (SelSNssai sel) u")
      case ns: False
      have "S \<subseteq> insert n vis" using 2(6) by blast
      then show ?thesis using 2(2)[OF False u] 2(5,7) False u ns by (simp add: link_loop_calls)
    next
      case s: True
      let ?r = "if DeepEqual t n dest then Ok (Some [n], insert n vis) else link_loop t sel dest n (links_of t n) (insert n vis)"
      have g: "getPathBetween t sel dest n vis = ?r" by (simp add: getPathBetween_def)
      from s have sn: "\<not> \<not> isSupportSnssai (SelSNssai sel) u" by simp
      have "serves t sel n" using u s by (simp add: serves_def)
      then have "\<forall>b \<in> set (links_of t n). upf_of t b \<noteq> None \<or> b \<in> S" using 2(5) unfolding no_other_an_def by blast
      moreover have "S \<subseteq> insert n vis" using 2(6) by blast
      ultimately have "is_Ok ?r" using 2(3)[OF False u sn _ 2(5)] by simp
      then obtain y w where r: "?r = Ok (y, w)" by (cases ?r) auto
      show ?thesis
      proof (cases y)
        case (Some tl)
        then show ?thesis using False u s r by (simp add: link_loop_calls g)
      next
        case None
        have "insert n vis \<subseteq> w"
          using r None link_loop_extends[of t sel dest n "links_of t n" "insert n vis" y w] by (auto split: if_splits)
        then have "S \<subseteq> w" using 2(6) by blast
        then have "is_Ok (link_loop t sel dest cur ns w)" using 2(4)[OF False u sn r _ None 2(5)] 2(7) by simp
        then show ?thesis using False u s r None by (simp add: link_loop_calls g)
      qed
    qed
  qed
qed

section \<open>Well-formed topologies\<close>

text \<open>
  Links and tables point to existing nodes; a UPF belongs to one node and has its own
  identifier; the entries of the table of UPFs are UPF nodes with a UPF, those of the table of
  access networks are access networks without one.
\<close>

definition node_ok :: "'g upi \<Rightarrow> up_node \<Rightarrow> bool" where
  "node_ok t x \<longleftrightarrow> (\<forall>m \<in> set (Links x). m < length (nodes t)) \<and>
     (\<forall>p. NodeUPF x = Some p \<longrightarrow> p < length (upfs t)) \<and> (NodeUPF x \<noteq> None \<longleftrightarrow> NodeTy x = UPNODE_UPF)"

definition upi_ok :: "'g upi \<Rightarrow> bool" where
  "upi_ok t \<longleftrightarrow>
     (\<forall>n < length (nodes t). node_ok t (nodes t ! n)) \<and>
     (\<forall>n < length (nodes t). \<forall>m < length (nodes t). NodeUPF (nodes t ! n) \<noteq> None \<longrightarrow>
        NodeUPF (nodes t ! n) = NodeUPF (nodes t ! m) \<longrightarrow> n = m) \<and>
     distinct (map uuid (upfs t)) \<and>
     (\<forall>n \<in> snd ` set (UPNodes t). n < length (nodes t)) \<and>
     (\<forall>n \<in> snd ` set (UPFs t). n < length (nodes t) \<and> NodeTy (nodes t ! n) = UPNODE_UPF) \<and>
     (\<forall>n \<in> snd ` set (AccessNetwork t). n < length (nodes t) \<and> NodeTy (nodes t ! n) = UPNODE_AN)"

lemma upi_okI:
  assumes "\<And>n. n < length (nodes t) \<Longrightarrow> node_ok t (nodes t ! n)"
    and "\<And>n m. n < length (nodes t) \<Longrightarrow> m < length (nodes t) \<Longrightarrow> NodeUPF (nodes t ! n) \<noteq> None \<Longrightarrow>
        NodeUPF (nodes t ! n) = NodeUPF (nodes t ! m) \<Longrightarrow> n = m"
    and "distinct (map uuid (upfs t))" and "\<And>n. n \<in> snd ` set (UPNodes t) \<Longrightarrow> n < length (nodes t)"
    and "\<And>n. n \<in> snd ` set (UPFs t) \<Longrightarrow> n < length (nodes t) \<and> NodeTy (nodes t ! n) = UPNODE_UPF"
    and "\<And>n. n \<in> snd ` set (AccessNetwork t) \<Longrightarrow> n < length (nodes t) \<and> NodeTy (nodes t ! n) = UPNODE_AN"
  shows "upi_ok t"
  unfolding upi_ok_def
proof (intro conjI)
  show "\<forall>n < length (nodes t). \<forall>m < length (nodes t). NodeUPF (nodes t ! n) \<noteq> None \<longrightarrow>
      NodeUPF (nodes t ! n) = NodeUPF (nodes t ! m) \<longrightarrow> n = m"
    by (intro allI impI) (rule assms(2))
qed (use assms(1,3-6) in \<open>blast+\<close>)

lemma upi_okD:
  assumes "upi_ok t"
  shows "n < length (nodes t) \<Longrightarrow> node_ok t (nodes t ! n)"
    and "n < length (nodes t) \<Longrightarrow> m < length (nodes t) \<Longrightarrow> NodeUPF (nodes t ! n) \<noteq> None \<Longrightarrow>
        NodeUPF (nodes t ! n) = NodeUPF (nodes t ! m) \<Longrightarrow> n = m"
    and "distinct (map uuid (upfs t))" and "n \<in> snd ` set (UPNodes t) \<Longrightarrow> n < length (nodes t)"
    and "n \<in> snd ` set (UPFs t) \<Longrightarrow> n < length (nodes t) \<and> NodeTy (nodes t ! n) = UPNODE_UPF"
    and "n \<in> snd ` set (AccessNetwork t) \<Longrightarrow> n < length (nodes t) \<and> NodeTy (nodes t ! n) = UPNODE_AN"
proof -
  note d = assms[unfolded upi_ok_def]
  show "n < length (nodes t) \<Longrightarrow> node_ok t (nodes t ! n)" by (rule d[THEN conjunct1, rule_format])
  show "n < length (nodes t) \<Longrightarrow> m < length (nodes t) \<Longrightarrow> NodeUPF (nodes t ! n) \<noteq> None \<Longrightarrow>
        NodeUPF (nodes t ! n) = NodeUPF (nodes t ! m) \<Longrightarrow> n = m"
    by (rule d[THEN conjunct2, THEN conjunct1, rule_format])
  from d have "distinct (map uuid (upfs t))" and "\<forall>n \<in> snd ` set (UPNodes t). n < length (nodes t)"
    and "\<forall>n \<in> snd ` set (UPFs t). n < length (nodes t) \<and> NodeTy (nodes t ! n) = UPNODE_UPF"
    and "\<forall>n \<in> snd ` set (AccessNetwork t). n < length (nodes t) \<and> NodeTy (nodes t ! n) = UPNODE_AN"
    by blast+
  then show "distinct (map uuid (upfs t))" and "n \<in> snd ` set (UPNodes t) \<Longrightarrow> n < length (nodes t)"
    and "n \<in> snd ` set (UPFs t) \<Longrightarrow> n < length (nodes t) \<and> NodeTy (nodes t ! n) = UPNODE_UPF"
    and "n \<in> snd ` set (AccessNetwork t) \<Longrightarrow> n < length (nodes t) \<and> NodeTy (nodes t ! n) = UPNODE_AN"
    by blast+
qed

lemma node_types [simp]: "UPNODE_UPF \<noteq> UPNODE_AN" "UPNODE_AN \<noteq> UPNODE_UPF"
  by (simp_all add: UPNODE_UPF_def UPNODE_AN_def)

lemmas node_okD = upi_okD(1)

lemma upf_equal_iff:
  assumes "upi_ok t" and "n < length (nodes t)" and "m < length (nodes t)" and "NodeUPF (nodes t ! m) \<noteq> None"
  shows "upf_equal t (NodeUPF (nodes t ! n)) (NodeUPF (nodes t ! m)) \<longleftrightarrow> n = m"
proof
  assume e: "upf_equal t (NodeUPF (nodes t ! n)) (NodeUPF (nodes t ! m))"
  from assms(4) obtain q where q: "NodeUPF (nodes t ! m) = Some q" by blast
  with e obtain p where p: "NodeUPF (nodes t ! n) = Some p" and pq: "p = q \<or> upfs t ! p = upfs t ! q"
    by (cases "NodeUPF (nodes t ! n)") (auto simp: upf_equal_def)
  have "p < length (upfs t)" "q < length (upfs t)"
    using node_okD[OF assms(1,2)] node_okD[OF assms(1,3)] p q by (auto simp: node_ok_def)
  moreover have "distinct (map uuid (upfs t))" using assms(1) by (simp add: upi_ok_def)
  ultimately have "p = q" using pq by (metis length_map nth_eq_iff_index_eq nth_map)
  then show "n = m" using assms(1-3) p q unfolding upi_ok_def by (metis option.distinct(1))
qed (auto simp: upf_equal_def split: option.splits)

lemma DeepEqual_iff:
  assumes "upi_ok t" and "n < length (nodes t)" and "m < length (nodes t)" and "NodeUPF (nodes t ! m) \<noteq> None"
  shows "DeepEqual t n m \<longleftrightarrow> n = m"
  using upf_equal_iff[OF assms] by (auto simp: DeepEqual_def Let_def)

lemma upf_of_iff: "upi_ok t \<Longrightarrow> n < length (nodes t) \<Longrightarrow> upf_of t n \<noteq> None \<longleftrightarrow> NodeUPF (nodes t ! n) \<noteq> None"
  using node_okD[of t n] by (auto simp: node_ok_def upf_of_def split: option.splits)

lemma an_has_no_upf:
  "upi_ok t \<Longrightarrow> a < length (nodes t) \<Longrightarrow> NodeTy (nodes t ! a) = UPNODE_AN \<Longrightarrow> NodeUPF (nodes t ! a) = None"
  using node_okD[of t a] unfolding node_ok_def by (metis node_types(2))

lemma links_of_valid: "upi_ok t \<Longrightarrow> m \<in> set (links_of t n) \<Longrightarrow> m < length (nodes t)"
  using node_okD[of t n] by (auto simp: node_ok_def links_of_def split: if_splits)

text \<open>A set that contains the links of its serving nodes and no destination cannot be left on a path.\<close>

lemma path_stays:
  assumes "is_path t sel p" and "hd p \<in> C" and "serves t sel (hd p)"
    and "\<forall>x \<in> C. serves t sel x \<longrightarrow> \<not> DeepEqual t x dest \<and> set (links_of t x) \<subseteq> C"
  shows "\<not> DeepEqual t (last p) dest"
  using assms(1-3)
proof (induction p rule: induct_list012)
  case (2 x)
  then show ?case using assms(4) by simp
next
  case (3 x y zs)
  then have "y \<in> C" using assms(4) by auto
  with 3 show ?case by simp
qed simp

definition closed_set :: "'g upi \<Rightarrow> upf_selection_params \<Rightarrow> nat \<Rightarrow> nat set \<Rightarrow> bool" where
  "closed_set t sel dest C \<longleftrightarrow> (\<forall>x \<in> C. serves t sel x \<longrightarrow> \<not> DeepEqual t x dest \<and> set (links_of t x) \<subseteq> C)"

definition path_to :: "'g upi \<Rightarrow> upf_selection_params \<Rightarrow> nat \<Rightarrow> nat \<Rightarrow> nat list \<Rightarrow> bool" where
  "path_to t sel a dest p \<longleftrightarrow> is_path t sel p \<and> hd p = a \<and> last p = dest"

lemma DeepEqual_refl [simp]: "DeepEqual t n n"
  by (simp add: DeepEqual_def)

lemma is_path_last_valid: "upi_ok t \<Longrightarrow> is_path t sel p \<Longrightarrow> hd p < length (nodes t) \<Longrightarrow> last p < length (nodes t)"
proof (induction p rule: induct_list012)
  case (3 x y zs)
  then show ?case using links_of_valid[of t y x] by simp
qed simp_all

lemma search_spec:
  assumes ok: "upi_ok t" and a: "a < length (nodes t)" "NodeUPF (nodes t ! a) = None"
    and d: "dest < length (nodes t)" "NodeUPF (nodes t ! dest) \<noteq> None"
    and na: "no_other_an t sel {a}" and c: "closed_set t sel dest vis"
  shows "\<exists>r v. getPathBetween t sel dest a vis = Ok (r, v) \<and> (case r of
      Some p \<Rightarrow> path_to t sel a dest p \<and> distinct p \<and> 2 \<le> length p
    | None \<Rightarrow> closed_set t sel dest v \<and> (\<nexists>p. path_to t sel a dest p))"
proof -
  from a d have nd: "\<not> DeepEqual t a dest" using DeepEqual_iff[OF ok a(1) d] by auto
  then have g: "getPathBetween t sel dest a vis = link_loop t sel dest a (links_of t a) (insert a vis)"
    by (simp add: getPathBetween_def Let_def)
  have ns: "\<not> serves t sel a" using upf_of_iff[OF ok a(1)] a(2) by (simp add: serves_def split: option.split)
  have "\<forall>b \<in> set (links_of t a). upf_of t b \<noteq> None \<or> b \<in> {a}" using na unfolding no_other_an_def by blast
  then have "is_Ok (link_loop t sel dest a (links_of t a) (insert a vis))"
    by (intro link_loop_returns[OF na]) auto
  then obtain r v where l: "link_loop t sel dest a (links_of t a) (insert a vis) = Ok (r, v)"
    by (cases "link_loop t sel dest a (links_of t a) (insert a vis)") auto
  show ?thesis
  proof (cases r)
    case (Some p)
    have "is_path t sel p \<and> hd p = a \<and> DeepEqual t (last p) dest \<and> distinct p \<and> set (tl p) \<inter> insert a vis = {} \<and> 2 \<le> length p"
      using link_loop_sound[of t sel dest a "links_of t a" "insert a vis" p v] l Some by simp
    moreover from this have "last p = dest"
      using DeepEqual_iff[OF ok _ d] is_path_last_valid[OF ok] a(1) by blast
    ultimately show ?thesis using g l Some by (auto simp: path_to_def)
  next
    case None
    note N = link_loop_None[of t sel dest a "links_of t a" "insert a vis" v]
    have cv: "closed_set t sel dest v" unfolding closed_set_def
    proof (intro ballI impI)
      fix x assume x: "x \<in> v" "serves t sel x"
      show "\<not> DeepEqual t x dest \<and> set (links_of t x) \<subseteq> v"
      proof (cases "x \<in> insert a vis")
        case True
        then show ?thesis using c ns x N l None unfolding closed_set_def by blast
      next
        case False
        then show ?thesis using x N l None by blast
      qed
    qed
    have "\<not> path_to t sel a dest p" for p
    proof
      assume "path_to t sel a dest p"
      then have p: "is_path t sel p" "hd p = a" "last p = dest" by (simp_all add: path_to_def)
      then obtain q where q: "p = a # q" by (cases p) auto
      then obtain b q' where b: "q = b # q'" using p(3) nd by (cases q) auto
      then have "b \<in> v" "serves t sel b" "is_path t sel q" using p q N l None by auto
      then have "\<not> DeepEqual t (last q) dest" using path_stays[of t sel q v dest] cv b by (simp add: closed_set_def)
      then show False using p(3) q b by simp
    qed
    then show ?thesis using g l None cv by simp
  qed
qed

lemma an_loop_spec:
  assumes ok: "upi_ok t" and d: "dest < length (nodes t)" "NodeUPF (nodes t ! dest) \<noteq> None"
    and an: "\<forall>(k, a) \<in> set ans. a < length (nodes t) \<and> NodeTy (nodes t ! a) = UPNODE_AN \<and> no_other_an t sel {a}"
    and c: "closed_set t sel dest vis"
  shows "\<exists>r. an_loop t sel dest ans vis = Ok r \<and> (case r of
      Some q \<Rightarrow> (\<exists>a \<in> snd ` set ans. path_to t sel a dest (a # q) \<and> distinct (a # q) \<and> q \<noteq> [])
    | None \<Rightarrow> (\<forall>a \<in> snd ` set ans. \<nexists>p. path_to t sel a dest p))"
  using an c
proof (induction ans arbitrary: vis)
  case Nil
  then show ?case by simp
next
  case (Cons x ans)
  obtain k a where x: "x = (k, a)" by (cases x)
  with Cons.prems have a: "a < length (nodes t)" "NodeTy (nodes t ! a) = UPNODE_AN" and na: "no_other_an t sel {a}" by auto
  then have u: "NodeUPF (nodes t ! a) = None" using an_has_no_upf[OF ok] by blast
  from search_spec[OF ok a(1) u d na Cons.prems(2)] obtain r v where
    g: "getPathBetween t sel dest a vis = Ok (r, v)" and r: "case r of
      Some p \<Rightarrow> path_to t sel a dest p \<and> distinct p \<and> 2 \<le> length p
    | None \<Rightarrow> closed_set t sel dest v \<and> (\<nexists>p. path_to t sel a dest p)" by blast
  show ?case
  proof (cases r)
    case (Some p)
    with r have p: "path_to t sel a dest p" "distinct p" "2 \<le> length p" by simp_all
    then obtain q where q: "p = a # q" by (cases p) (auto simp: path_to_def)
    with p(3) have "q \<noteq> []" by (cases q) simp_all
    then show ?thesis using g a Some x p q by auto
  next
    case None
    with r have "closed_set t sel dest v" by simp
    from Cons.IH[OF _ this] Cons.prems(1) obtain s where "an_loop t sel dest ans v = Ok s" and
      "case s of Some q \<Rightarrow> (\<exists>a \<in> snd ` set ans. path_to t sel a dest (a # q) \<and> distinct (a # q) \<and> q \<noteq> [])
       | None \<Rightarrow> (\<forall>a \<in> snd ` set ans. \<nexists>p. path_to t sel a dest p)" by auto
    then show ?thesis using g a None x r by (auto split: option.splits)
  qed
qed

text \<open>The candidates are the UPFs whose configuration matches.\<close>

lemma match_nodes_spec:
  assumes "upi_ok t" and "\<forall>(k, n) \<in> set us. n < length (nodes t) \<and> NodeUPF (nodes t ! n) \<noteq> None"
  shows "\<exists>ds. match_nodes t sel us = Ok ds \<and> (\<forall>n. n \<in> set ds \<longleftrightarrow> n \<in> snd ` set us \<and>
    (\<exists>u info d. upf_of t n = Some u \<and> info \<in> set (SNssaiInfos u) \<and> Snssai_Equal (SNssai info) (SelSNssai sel) \<and>
       d \<in> set (DnnList info) \<and> ItemDnn d \<in> set (SelDnnList sel) \<and> ContainsDNAI (SelDnai sel) d))"
  using assms(2)
proof (induction us)
  case Nil
  then show ?case by simp
next
  case (Cons x us)
  obtain k n where x: "x = (k, n)" by (cases x)
  with Cons.prems have "n < length (nodes t)" "NodeUPF (nodes t ! n) \<noteq> None" by auto
  then obtain u where u: "upf_of t n = Some u" using upf_of_iff[OF assms(1)] by blast
  from Cons obtain ds where ds: "match_nodes t sel us = Ok ds" and D: "\<forall>n. n \<in> set ds \<longleftrightarrow> n \<in> snd ` set us \<and>
    (\<exists>u info d. upf_of t n = Some u \<and> info \<in> set (SNssaiInfos u) \<and> Snssai_Equal (SNssai info) (SelSNssai sel) \<and>
       d \<in> set (DnnList info) \<and> ItemDnn d \<in> set (SelDnnList sel) \<and> ContainsDNAI (SelDnai sel) d)" by auto
  have "m \<in> set (node_matches sel n u) \<longleftrightarrow> m = n \<and>
    (\<exists>info d. info \<in> set (SNssaiInfos u) \<and> Snssai_Equal (SNssai info) (SelSNssai sel) \<and>
       d \<in> set (DnnList info) \<and> ItemDnn d \<in> set (SelDnnList sel) \<and> ContainsDNAI (SelDnai sel) d)" for m
    by (auto simp: node_matches_def dnn_matches_def list_ex_iff)
  then show ?case using ds D u x by auto
qed

section \<open>The operations keep topologies well-formed\<close>

lemma nodes_upd_node [simp]:
  "length (nodes (upd_node n f t)) = length (nodes t)" "upfs (upd_node n f t) = upfs t"
  "UPNodes (upd_node n f t) = UPNodes t" "UPFs (upd_node n f t) = UPFs t" "AccessNetwork (upd_node n f t) = AccessNetwork t"
  by (simp_all add: upd_node_def)

lemma nth_upd_node: "m < length (nodes t) \<Longrightarrow> nodes (upd_node n f t) ! m = (if m = n then f (nodes t ! n) else nodes t ! m)"
  by (simp add: upd_node_def nth_list_update)

lemma node_ok_cong: "length (nodes t) = length (nodes t') \<Longrightarrow> length (upfs t) = length (upfs t') \<Longrightarrow> node_ok t x = node_ok t' x"
  by (simp add: node_ok_def)

lemma upi_ok_upd_node:
  assumes ok: "upi_ok t" and n: "n < length (nodes t)" and x: "node_ok t (f (nodes t ! n))"
    and u: "NodeUPF (f (nodes t ! n)) = NodeUPF (nodes t ! n)" and ty: "NodeTy (f (nodes t ! n)) = NodeTy (nodes t ! n)"
  shows "upi_ok (upd_node n f t)"
proof -
  let ?t = "upd_node n f t"
  have N: "node_ok ?t y = node_ok t y" for y by (rule node_ok_cong) simp_all
  have U: "NodeUPF (nodes ?t ! m) = NodeUPF (nodes t ! m)" "NodeTy (nodes ?t ! m) = NodeTy (nodes t ! m)"
    if "m < length (nodes t)" for m using u ty that by (simp_all add: nth_upd_node)
  show ?thesis
  proof (rule upi_okI, goal_cases)
    case (1 m)
    then show ?case using x node_okD[OF ok, of m] by (simp add: N nth_upd_node)
  next
    case (2 a b)
    then show ?case using U upi_okD(2)[OF ok, of a b] by simp
  qed (use upi_okD(3-6)[OF ok] U in simp_all)
qed

lemma set_update_sub: "set (AList.update k v al) \<subseteq> insert (k, v) (set al)"
  by (induction al) auto

lemma set_delete_sub: "set (AList.delete k al) \<subseteq> set al"
  by (induction al) auto

lemma uuid_add_ifaces: "uuid (add_ifaces is u) = uuid u"
  by (induction "is" arbitrary: u) (simp_all add: Let_def split: up_interface_type.split)

lemma uuid_NewUPF [simp]: "uuid (NewUPF G u n ifs) = u"
  by (simp add: NewUPF_def uuid_add_ifaces)

lemma upi_ok_tables:
  assumes ok: "upi_ok t" and "nodes t' = nodes t" and "length (upfs t') = length (upfs t)" and "map uuid (upfs t') = map uuid (upfs t)"
    and "\<And>n. n \<in> snd ` set (UPNodes t') \<Longrightarrow> n \<in> snd ` set (UPNodes t) \<or> n < length (nodes t)"
    and "\<And>n. n \<in> snd ` set (UPFs t') \<Longrightarrow> n \<in> snd ` set (UPFs t) \<or> (n < length (nodes t) \<and> NodeTy (nodes t ! n) = UPNODE_UPF)"
    and "\<And>n. n \<in> snd ` set (AccessNetwork t') \<Longrightarrow> n \<in> snd ` set (AccessNetwork t) \<or> (n < length (nodes t) \<and> NodeTy (nodes t ! n) = UPNODE_AN)"
  shows "upi_ok t'"
proof (rule upi_okI, goal_cases)
  case (1 n)
  then show ?case using node_okD[OF ok, of n] node_ok_cong[of t t'] assms(2,3) by simp
next
  case (2 n m)
  then show ?case using upi_okD(2)[OF ok, of n m] assms(2) by simp
next
  case 3
  then show ?case using assms(4) upi_okD(3)[OF ok] by simp
next
  case (4 n)
  then show ?case using assms(2) assms(5)[OF 4] upi_okD(4)[OF ok, of n] by auto
next
  case (5 n)
  then show ?case using assms(2) assms(6)[OF 5] upi_okD(5)[OF ok, of n] by auto
next
  case (6 n)
  then show ?case using assms(2) assms(7)[OF 6] upi_okD(6)[OF ok, of n] by auto
qed

lemma snd_update: "x \<in> snd ` set (AList.update k v al) \<Longrightarrow> x = v \<or> x \<in> snd ` set al"
  using set_update_sub[of k v al] by auto

lemma snd_delete: "x \<in> snd ` set (AList.delete k al) \<Longrightarrow> x \<in> snd ` set al"
  using set_delete_sub[of k al] by auto

lemma upi_ok_name_table: "upi_ok t \<Longrightarrow> n < length (nodes t) \<Longrightarrow> upi_ok (name_table resolve name n t)"
proof (rule upi_ok_tables[of t], goal_cases)
  case (5 m)
  then show ?case using snd_update[of m name n "UPNodes t"] by (auto simp: name_table_def)
qed (simp_all add: name_table_def)

text \<open>Adding a node at the end, with its UPF.\<close>

lemma upi_ok_append:
  assumes ok: "upi_ok t" and x: "Links x = []" "NodeUPF x = (if us = [] then None else Some (length (upfs t)))"
    "(us \<noteq> []) \<longleftrightarrow> NodeTy x = UPNODE_UPF" "distinct (map uuid us)" "uuid ` set us \<inter> uuid ` set (upfs t) = {}"
  shows "upi_ok (t\<lparr>nodes := nodes t @ [x], upfs := upfs t @ us\<rparr>)"
proof -
  let ?t = "t\<lparr>nodes := nodes t @ [x], upfs := upfs t @ us\<rparr>" and ?l = "length (nodes t)"
  have nth: "nodes ?t ! n = (if n < ?l then nodes t ! n else x)" if "n < length (nodes ?t)" for n
    using that by (auto simp: nth_append less_Suc_eq)
  have lt: "NodeUPF (nodes t ! n) \<noteq> Some (length (upfs t))" if "n < ?l" for n
    using node_okD[OF ok that] by (auto simp: node_ok_def)
  show ?thesis
  proof (rule upi_okI, goal_cases)
    case (1 n)
    have "node_ok ?t x" using x by (auto simp: node_ok_def split: if_splits)
    moreover have "node_ok ?t y" if "node_ok t y" for y using that by (auto simp: node_ok_def)
    ultimately show ?case using nth[OF 1] node_okD[OF ok, of n] by auto
  next
    case (2 n m)
    show ?case
    proof (cases "n < ?l \<and> m < ?l")
      case True
      then show ?thesis using upi_okD(2)[OF ok, of n m] 2 nth by simp
    next
      case False
      then show ?thesis using 2 x(2) nth[OF 2(1)] nth[OF 2(2)] lt[of n] lt[of m] by (cases "n < ?l"; cases "m < ?l") (auto split: if_splits)
    qed
  next
    case 3
    then show ?case using upi_okD(3)[OF ok] x(4,5) by auto
  qed (use upi_okD(4-6)[OF ok] in \<open>auto simp: nth_append less_Suc_eq\<close>)
qed

lemma InsertSmfUserPlaneNode_ok:
  assumes ok: "upi_ok t" and uid: "uid \<notin> uuid ` set (upfs t)"
  shows "upi_ok (InsertSmfUserPlaneNode G uid resolve name cfg t)"
proof -
  let ?n = "length (nodes t)" and ?x = "new_up_node\<lparr>NodeTy := CfgType cfg, NodePort := CfgPort cfg\<rparr>"
  consider "CfgType cfg = UPNODE_AN" | "CfgType cfg = UPNODE_UPF" | "CfgType cfg \<noteq> UPNODE_AN" "CfgType cfg \<noteq> UPNODE_UPF" by blast
  then show ?thesis
  proof cases
    case 1
    let ?y = "?x\<lparr>ANIP := ParseIP (CfgANIP cfg)\<rparr>"
    have A: "upi_ok (t\<lparr>nodes := nodes t @ [?y], upfs := upfs t @ []\<rparr>)"
      by (rule upi_ok_append[OF ok]) (simp_all add: new_up_node_def 1)
    have "upi_ok (t\<lparr>nodes := nodes t @ [?y], AccessNetwork := AList.update name ?n (AccessNetwork t)\<rparr>)"
    proof (rule upi_ok_tables[OF A], goal_cases)
      case (6 m)
      then show ?case using snd_update[of m name ?n "AccessNetwork t"] 1 by (auto simp: nth_append)
    qed simp_all
    then show ?thesis using 1 by (simp add: InsertSmfUserPlaneNode_def upi_ok_name_table Let_def)
  next
    case 2
    let ?nid = "NewNodeID (CfgNodeID cfg)"
    let ?y = "?x\<lparr>UpNodeID := ?nid, NodeUPF := Some (length (upfs t))\<rparr>"
    let ?u = "(NewUPF G uid ?nid (CfgInterfaces cfg))\<lparr>UpfPort := CfgPort cfg, SNssaiInfos := CfgSNssaiInfos cfg\<rparr>"
    have A: "upi_ok (t\<lparr>nodes := nodes t @ [?y], upfs := upfs t @ [?u]\<rparr>)"
      by (rule upi_ok_append[OF ok]) (use uid in \<open>simp_all add: new_up_node_def 2\<close>)
    have "upi_ok (t\<lparr>nodes := nodes t @ [?y], upfs := upfs t @ [?u],
        upfPool := AList.update uid (length (upfs t)) (upfPool t), UPFs := AList.update name ?n (UPFs t)\<rparr>)"
    proof (rule upi_ok_tables[OF A], goal_cases)
      case (5 m)
      then show ?case using snd_update[of m name ?n "UPFs t"] 2 by (auto simp: nth_append)
    qed simp_all
    then show ?thesis using 2 by (simp add: InsertSmfUserPlaneNode_def upi_ok_name_table Let_def)
  next
    case 3
    have "upi_ok (t\<lparr>nodes := nodes t @ [?x], upfs := upfs t @ []\<rparr>)"
      by (rule upi_ok_append[OF ok]) (simp_all add: new_up_node_def 3)
    then show ?thesis using 3 by (simp add: InsertSmfUserPlaneNode_def upi_ok_name_table Let_def)
  qed
qed

text \<open>A changed identifier moves a node to the new UPF at the end of the list.\<close>

lemma new_upf_ok:
  assumes ok: "upi_ok t" and n: "n < length (nodes t)" and ty: "NodeTy (nodes t ! n) = UPNODE_UPF" and uid: "uuid u \<notin> uuid ` set (upfs t)"
  shows "upi_ok ((upd_node n (\<lambda>x. x\<lparr>UpNodeID := nid, NodeUPF := Some (length (upfs t))\<rparr>) t)\<lparr>upfs := upfs t @ [u], upfPool := q\<rparr>)"
    (is "upi_ok ?t")
proof -
  let ?x = "(nodes t ! n)\<lparr>UpNodeID := nid, NodeUPF := Some (length (upfs t))\<rparr>"
  have nth: "nodes ?t ! m = (if m = n then ?x else nodes t ! m)" if "m < length (nodes t)" for m
    using that nth_upd_node[of m t n] by simp
  have len: "length (nodes ?t) = length (nodes t)" by simp
  have lt: "NodeUPF (nodes t ! m) \<noteq> Some (length (upfs t))" if "m < length (nodes t)" for m
    using node_okD[OF ok that] by (auto simp: node_ok_def)
  show ?thesis
  proof (rule upi_okI, goal_cases)
    case (1 m)
    then have m: "m < length (nodes t)" by simp
    have "node_ok ?t y" if "node_ok t y" for y using that unfolding node_ok_def len by auto
    moreover have "node_ok ?t ?x" using node_okD[OF ok n] ty unfolding node_ok_def len by simp
    ultimately show ?case using node_okD[OF ok m] nth[OF m] by simp
  next
    case (2 a b)
    then have a: "a < length (nodes t)" and b: "b < length (nodes t)" by simp_all
    show ?case using 2(3,4) upi_okD(2)[OF ok a b] lt[OF a] lt[OF b]
      unfolding nth[OF a] nth[OF b] by (auto split: if_splits)
  next
    case 3
    then show ?case using upi_okD(3)[OF ok] uid by simp
  next
    case (4 m)
    then show ?case using upi_okD(4)[OF ok, of m] by simp
  next
    case (5 m)
    then show ?case using upi_okD(5)[OF ok, of m] nth[of m] by auto
  next
    case (6 m)
    then show ?case using upi_okD(6)[OF ok, of m] nth[of m] by auto
  qed
qed

lemma UpdateSmfUserPlaneNode_ok:
  assumes ok: "upi_ok t" and uid: "uid \<notin> uuid ` set (upfs t)" and n: "map_of (UPNodes t) name = Some n"
  shows "\<exists>t'. UpdateSmfUserPlaneNode G uid resolve name cfg t = Ok t' \<and> upi_ok t'"
proof -
  let ?t = "upd_node n (\<lambda>x. x\<lparr>NodePort := CfgPort cfg\<rparr>) t" and ?x = "(nodes t ! n)\<lparr>NodePort := CfgPort cfg\<rparr>"
  have l: "n < length (nodes t)" using map_of_SomeD[OF n] upi_okD(4)[OF ok, of n] by force
  have o1: "upi_ok ?t" by (rule upi_ok_upd_node[OF ok l]) (use node_okD[OF ok l] in \<open>auto simp: node_ok_def\<close>)
  have x: "nodes ?t ! n = ?x" using l by (simp add: nth_upd_node)
  consider "NodeTy ?x = UPNODE_AN" | "NodeTy ?x = UPNODE_UPF" | "NodeTy ?x \<noteq> UPNODE_AN" "NodeTy ?x \<noteq> UPNODE_UPF" by blast
  then show ?thesis
  proof cases
    case 1
    let ?t2 = "upd_node n (\<lambda>x. x\<lparr>ANIP := ParseIP (CfgANIP cfg)\<rparr>) ?t"
    have "upi_ok ?t2"
      by (rule upi_ok_upd_node[OF o1]) (use l node_okD[OF o1, of n] in \<open>auto simp: node_ok_def\<close>)
    then have "upi_ok (name_table resolve name n ?t2)" using l by (intro upi_ok_name_table) simp_all
    then show ?thesis using n x 1 by (simp add: UpdateSmfUserPlaneNode_def Let_def)
  next
    case 2
    obtain q where q: "NodeUPF (nodes t ! n) = Some q" using node_okD[OF ok l] 2 by (auto simp: node_ok_def)
    obtain t2 where u: "update_upf G uid cfg n ?t = Ok t2" and o2: "upi_ok t2" and l2: "length (nodes t2) = length (nodes t)"
        and ty: "NodeTy (nodes t2 ! n) = UPNODE_UPF"
    proof (cases "UpNodeID ?x = NewNodeID (CfgNodeID cfg)")
      case True
      let ?t2 = "?t\<lparr>upfs := (upfs t)[q := (upfs t ! q)\<lparr>SNssaiInfos := CfgSNssaiInfos cfg\<rparr>]\<rparr>"
      have "map uuid ((upfs t)[q := (upfs t ! q)\<lparr>SNssaiInfos := CfgSNssaiInfos cfg\<rparr>]) = map uuid (upfs t)"
        by (simp add: map_update list_update_same_conv[symmetric] del: list_update_same_conv) (metis list_update_id map_update)
      then have "upi_ok ?t2" by (intro upi_ok_tables[OF o1]) simp_all
      then show ?thesis using that[of ?t2] True q x 2 by (simp add: update_upf_def Let_def)
    next
      case False
      let ?u = "NewUPF G uid (NewNodeID (CfgNodeID cfg)) (CfgInterfaces cfg)" and ?p = "length (upfs t)"
      let ?t1 = "(upd_node n (\<lambda>x. x\<lparr>UpNodeID := NewNodeID (CfgNodeID cfg), NodeUPF := Some ?p\<rparr>) ?t)
                   \<lparr>upfs := upfs t @ [?u], upfPool := AList.update uid ?p (upfPool ?t)\<rparr>"
      have o: "upi_ok ?t1" using new_upf_ok[OF o1, of n ?u] l x 2 uid by simp
      let ?t2 = "?t1\<lparr>upfs := (upfs ?t1)[?p := (upfs ?t1 ! ?p)\<lparr>SNssaiInfos := CfgSNssaiInfos cfg\<rparr>]\<rparr>"
      have "upi_ok ?t2" by (rule upi_ok_tables[OF o]) (simp_all add: list_update_append)
      moreover have "nodes ?t1 ! n = ?x\<lparr>UpNodeID := NewNodeID (CfgNodeID cfg), NodeUPF := Some ?p\<rparr>"
        using l x by (simp add: nth_upd_node)
      ultimately show ?thesis using that[of ?t2] False x 2 by (simp add: update_upf_def Let_def)
    qed
    let ?t3 = "t2\<lparr>UPFs := AList.update name n (UPFs t2)\<rparr>"
    have "upi_ok ?t3"
    proof (rule upi_ok_tables[OF o2], goal_cases)
      case (5 m)
      then show ?case using snd_update[of m name n "UPFs t2"] l l2 ty by auto
    qed simp_all
    then have "upi_ok (name_table resolve name n ?t3)" using l l2 by (intro upi_ok_name_table) simp_all
    then show ?thesis using n x 2 u by (simp add: UpdateSmfUserPlaneNode_def Let_def)
  next
    case 3
    have "upi_ok (name_table resolve name n ?t)" using l o1 by (intro upi_ok_name_table) simp_all
    then show ?thesis using n x 3 by (simp add: UpdateSmfUserPlaneNode_def Let_def)
  qed
qed

lemma drop_upf_frame:
  "drop_upf resolve name n t = Ok t' \<Longrightarrow> nodes t' = nodes t \<and> upfs t' = upfs t \<and> UPNodes t' = UPNodes t \<and>
     AccessNetwork t' = AccessNetwork t \<and> UPFs t' = AList.delete name (UPFs t) \<and> DefaultUserPlanePath t' = DefaultUserPlanePath t"
  by (auto simp: drop_upf_def Let_def split: if_splits option.splits)

lemma drop_upf_ok:
  assumes ok: "upi_ok t" and d: "drop_upf resolve name n t = Ok t'"
  shows "upi_ok t'"
proof (rule upi_ok_tables[OF ok], goal_cases)
  case (5 x)
  then have "x \<in> snd ` set (AList.delete name (UPFs t))" using drop_upf_frame[OF d] by simp
  then show ?case using snd_delete[of x name "UPFs t"] by simp
qed (use drop_upf_frame[OF d] in simp_all)

lemma delete_an_ok:
  assumes "upi_ok t"
  shows "upi_ok (t\<lparr>AccessNetwork := AList.delete name (AccessNetwork t)\<rparr>)"
proof (rule upi_ok_tables[OF assms], goal_cases)
  case (6 x)
  then show ?case using snd_delete[of x name "AccessNetwork t"] by simp
qed simp_all

lemma delete_name_ok:
  assumes "upi_ok t"
  shows "upi_ok (t\<lparr>UPNodes := AList.delete name (UPNodes t), UPFIPToName := m\<rparr>)"
proof (rule upi_ok_tables[OF assms], goal_cases)
  case (4 x)
  then show ?case using snd_delete[of x name "UPNodes t"] by simp
qed simp_all

text \<open>The outcomes of a deletion.\<close>

lemma Delete_cases:
  assumes "DeleteSmfUserPlaneNode resolve name cfg t = Ok t'"
  obtains "t' = t"
  | k n t1 where "map_of (UPNodes t) k = Some n" "k = name \<or> k = CfgNodeID cfg"
      "t1 = t\<lparr>AccessNetwork := AList.delete k (AccessNetwork t)\<rparr> \<and> NodeTy (nodes t ! n) = UPNODE_AN
       \<or> drop_upf resolve k n t = Ok t1 \<and> NodeTy (nodes t ! n) = UPNODE_UPF"
      "t' = t1\<lparr>UPNodes := AList.delete k (UPNodes t1), UPFIPToName := filter (\<lambda>(_, nodeName). nodeName \<noteq> k) (UPFIPToName t1)\<rparr>"
proof -
  define k where "k = (if map_of (UPNodes t) name = None then CfgNodeID cfg else name)"
  have kn: "k = name \<or> k = CfgNodeID cfg" by (simp add: k_def)
  have D: "(case map_of (UPNodes t) k of
        None \<Rightarrow> Ok t
      | Some n \<Rightarrow>
          bind_res
            (if NodeTy (nodes t ! n) = UPNODE_AN then Ok (t\<lparr>AccessNetwork := AList.delete k (AccessNetwork t)\<rparr>)
             else if NodeTy (nodes t ! n) = UPNODE_UPF then drop_upf resolve k n t
             else Panic ''invalid UP Node type'')
            (\<lambda>t. Ok (t\<lparr>UPNodes := AList.delete k (UPNodes t),
                       UPFIPToName := filter (\<lambda>(_, nodeName). nodeName \<noteq> k) (UPFIPToName t)\<rparr>))) = Ok t'"
    using assms unfolding DeleteSmfUserPlaneNode_def Let_def k_def .
  show thesis
  proof (cases "map_of (UPNodes t) k")
    case None
    then show thesis using D that(1) by simp
  next
    case (Some n)
    then obtain t1 where "(if NodeTy (nodes t ! n) = UPNODE_AN then Ok (t\<lparr>AccessNetwork := AList.delete k (AccessNetwork t)\<rparr>)
             else if NodeTy (nodes t ! n) = UPNODE_UPF then drop_upf resolve k n t
             else Panic ''invalid UP Node type'') = Ok t1"
      and "t' = t1\<lparr>UPNodes := AList.delete k (UPNodes t1), UPFIPToName := filter (\<lambda>(_, nodeName). nodeName \<noteq> k) (UPFIPToName t1)\<rparr>"
      using D by auto
    then show thesis using that(2)[OF Some kn, of t1] by (simp split: if_split_asm)
  qed
qed

lemma DeleteSmfUserPlaneNode_ok:
  assumes ok: "upi_ok t" and D: "DeleteSmfUserPlaneNode resolve name cfg t = Ok t'"
  shows "upi_ok t'"
proof (cases rule: Delete_cases[OF D])
  case 1
  then show ?thesis using ok by simp
next
  case (2 k n t1)
  then have "upi_ok t1" using delete_an_ok[OF ok] drop_upf_ok[OF ok] by blast
  then show ?thesis unfolding 2(4) by (rule delete_name_ok)
qed

lemma InsertUPNodeLinks_ok: "upi_ok t \<Longrightarrow> InsertUPNodeLinks link t = Ok t' \<Longrightarrow> upi_ok t'"
proof -
  assume ok: "upi_ok t" and I: "InsertUPNodeLinks link t = Ok t'"
  then obtain a b where ab: "map_of (UPNodes t) (LinkA link) = Some a" "map_of (UPNodes t) (LinkB link) = Some b"
    and t': "t' = upd_node b (\<lambda>x. x\<lparr>Links := Links x @ [a]\<rparr>) (upd_node a (\<lambda>x. x\<lparr>Links := Links x @ [b]\<rparr>) t)"
    by (auto simp: InsertUPNodeLinks_def split: option.splits)
  have l: "a < length (nodes t)" "b < length (nodes t)"
    using map_of_SomeD[OF ab(1)] map_of_SomeD[OF ab(2)] upi_okD(4)[OF ok] by force+
  have o1: "upi_ok (upd_node a (\<lambda>x. x\<lparr>Links := Links x @ [b]\<rparr>) t)"
    by (rule upi_ok_upd_node[OF ok l(1)]) (use node_okD[OF ok l(1)] l in \<open>auto simp: node_ok_def\<close>)
  then show "upi_ok t'" unfolding t'
    by (rule upi_ok_upd_node) (use node_okD[OF o1, of b] l in \<open>auto simp: node_ok_def\<close>)
qed

lemma remove_link_sub: "set (remove_link ns v ls) \<subseteq> set ls"
  by (induction ls) auto

lemma drop_link_ok:
  assumes "upi_ok t" and "drop_link a b t = Ok t'" and "\<And>n. a = Some n \<Longrightarrow> n < length (nodes t)"
  shows "upi_ok t' \<and> length (nodes t') = length (nodes t)"
proof (cases "a = None \<or> (\<exists>n. a = Some n \<and> Links (nodes t ! n) = [])")
  case True
  then show ?thesis using assms by (auto simp: drop_link_def)
next
  case False
  then obtain n m where a: "a = Some n" and b: "b = Some m"
    and t': "t' = upd_node n (\<lambda>x. x\<lparr>Links := remove_link (nodes t) (NodeIdValue (UpNodeID (nodes t ! m))) (Links x)\<rparr>) t"
    using assms(2) by (cases a; cases b) (auto simp: drop_link_def)
  have l: "n < length (nodes t)" using assms(3) a by blast
  have "upi_ok t'" unfolding t'
    by (rule upi_ok_upd_node[OF assms(1) l])
      (use node_okD[OF assms(1) l] remove_link_sub[of "nodes t" _ "Links (nodes t ! n)"] in \<open>auto simp: node_ok_def\<close>)
  then show ?thesis by (simp add: t')
qed

lemma DeleteUPNodeLinks_ok:
  assumes ok: "upi_ok t" and D: "DeleteUPNodeLinks link t = Ok t'"
  shows "upi_ok t'"
proof -
  have l: "n < length (nodes t)" if "map_of (UPNodes t) k = Some n" for k n
    using map_of_SomeD[OF that] upi_okD(4)[OF ok] by force
  from D obtain t1 where t1: "drop_link (map_of (UPNodes t) (LinkA link)) (map_of (UPNodes t) (LinkB link)) t = Ok t1"
    and t2: "drop_link (map_of (UPNodes t) (LinkB link)) (map_of (UPNodes t) (LinkA link)) t1 = Ok t'"
    by (auto simp: DeleteUPNodeLinks_def Let_def)
  have "upi_ok t1 \<and> length (nodes t1) = length (nodes t)" by (rule drop_link_ok[OF ok t1]) (rule l)
  then show ?thesis using drop_link_ok[OF _ t2] l by simp
qed

lemma allocate_ids_ok:
  "upi_ok t \<Longrightarrow> \<forall>n \<in> snd ` set us. n < length (nodes t) \<and> NodeTy (nodes t ! n) = UPNODE_UPF \<Longrightarrow>
   \<exists>t'. allocate_ids resolve us t = Ok t' \<and> upi_ok t'"
proof (induction us arbitrary: t)
  case (Cons x us)
  obtain k n where x: "x = (k, n)" by (cases x)
  with Cons.prems have n: "n < length (nodes t)" "NodeTy (nodes t ! n) = UPNODE_UPF" by auto
  then obtain u where u: "upf_of t n = Some u"
    using upf_of_iff[OF Cons.prems(1) n(1)] node_okD[OF Cons.prems(1) n(1)] by (auto simp: node_ok_def)
  let ?t = "t\<lparr>UPFsID := AList.update k (uuid u) (UPFsID t),
           UPFsIPtoID := AList.update (IPString (resolve (UpNodeID (nodes t ! n)))) (uuid u) (UPFsIPtoID t)\<rparr>"
  have "upi_ok ?t" by (rule upi_ok_tables[OF Cons.prems(1)]) simp_all
  from Cons.IH[OF this] Cons.prems(2) show ?case by (simp add: x u)
qed simp

section \<open>Configuration updates\<close>

text \<open>The user plane part of \<^verbatim>\<open>ProcessConfigUpdate\<close>: links are deleted before nodes and added
  after them, errors are logged, and every default path is forgotten at the end.  New and modified
  nodes come with the identifiers that \<^verbatim>\<open>uuid.New\<close> would give their UPFs.\<close>

record up_update =
  DelLinks :: "cfg_link list"
  DelUPNodes :: "cfg_node go_map"
  AddUPNodes :: "(string \<times> string \<times> cfg_node) list"
  ModUPNodes :: "(string \<times> string \<times> cfg_node) list"
  AddLinks :: "cfg_link list"

fun log_errors :: "'g upi result \<Rightarrow> 'g upi \<Rightarrow> 'g upi result" where
  "log_errors (Ok t) _ = Ok t"
| "log_errors (Err e) t = Ok t"
| "log_errors (Panic e) _ = Panic e"

fun each :: "('a \<Rightarrow> 'g upi \<Rightarrow> 'g upi result) \<Rightarrow> 'a list \<Rightarrow> 'g upi \<Rightarrow> 'g upi result" where
  "each f [] t = Ok t"
| "each f (x # xs) t = bind_res (log_errors (f x t) t) (each f xs)"

definition ProcessUserPlaneUpdate :: "'g idgen \<Rightarrow> (node_id \<Rightarrow> ip) \<Rightarrow> up_update \<Rightarrow> 'g upi \<Rightarrow> 'g upi result" where
  "ProcessUserPlaneUpdate G resolve c t =
     bind_res (each DeleteUPNodeLinks (DelLinks c) t) (\<lambda>t.
     bind_res (each (\<lambda>(name, cfg). DeleteSmfUserPlaneNode resolve name cfg) (DelUPNodes c) t) (\<lambda>t.
     bind_res (each (\<lambda>(uid, name, cfg) t. Ok (InsertSmfUserPlaneNode G uid resolve name cfg t)) (AddUPNodes c) t) (\<lambda>t.
     bind_res (if AddUPNodes c = [] then Ok t else AllocateUPFID resolve t) (\<lambda>t.
     bind_res (each (\<lambda>(uid, name, cfg). UpdateSmfUserPlaneNode G uid resolve name cfg) (ModUPNodes c) t) (\<lambda>t.
     bind_res (each InsertUPNodeLinks (AddLinks c) t) (\<lambda>t.
     Ok (ResetDefaultUserPlanePath t)))))))"

text \<open>The operations in any order, each new UPF with an identifier of its own.\<close>

inductive upi_step :: "'g idgen \<Rightarrow> 'g upi \<Rightarrow> 'g upi \<Rightarrow> bool" for G where
  insert_node: "uid \<notin> uuid ` set (upfs t) \<Longrightarrow> upi_step G t (InsertSmfUserPlaneNode G uid resolve name cfg t)"
| update_node: "uid \<notin> uuid ` set (upfs t) \<Longrightarrow> UpdateSmfUserPlaneNode G uid resolve name cfg t = Ok t' \<Longrightarrow> upi_step G t t'"
| delete_node: "DeleteSmfUserPlaneNode resolve name cfg t = Ok t' \<Longrightarrow> upi_step G t t'"
| insert_link: "InsertUPNodeLinks link t = Ok t' \<Longrightarrow> upi_step G t t'"
| delete_link: "DeleteUPNodeLinks link t = Ok t' \<Longrightarrow> upi_step G t t'"
| allocate_id: "AllocateUPFID resolve t = Ok t' \<Longrightarrow> upi_step G t t'"
| generate: "GenerateDefaultPath sel t = Ok (b, t') \<Longrightarrow> upi_step G t t'"
| reset: "upi_step G t (ResetDefaultUserPlanePath t)"

inductive upi_reachable :: "'g idgen \<Rightarrow> 'g upi \<Rightarrow> bool" for G where
  start: "upi_reachable G empty_upi"
| step: "upi_reachable G t \<Longrightarrow> upi_step G t t' \<Longrightarrow> upi_reachable G t'"

lemma upi_ok_path: "upi_ok t \<Longrightarrow> upi_ok (t\<lparr>DefaultUserPlanePath := p\<rparr>)"
  by (rule upi_ok_tables[of t]) simp_all

lemma GenerateDefaultPath_frame:
  assumes g: "GenerateDefaultPath sel t = Ok (b, t')"
  shows "t' = t \<or> (\<exists>p. t' = t\<lparr>DefaultUserPlanePath := p\<rparr>)"
proof (cases "AccessNetwork t = []")
  case True
  then show ?thesis using g by (simp add: GenerateDefaultPath_def)
next
  case False
  then obtain ds where ds: "selectMatchUPF sel t = Ok ds" using g by (auto simp: GenerateDefaultPath_def)
  show ?thesis
  proof (cases ds)
    case Nil
    then show ?thesis using g False ds by (simp add: GenerateDefaultPath_def)
  next
    case (Cons d ds')
    then obtain r where "an_loop t sel d (AccessNetwork t) {} = Ok r" using g False ds by (auto simp: GenerateDefaultPath_def)
    then show ?thesis using g False ds Cons by (cases r) (auto simp: GenerateDefaultPath_def)
  qed
qed

lemma upi_step_ok: "upi_step G t t' \<Longrightarrow> upi_ok t \<Longrightarrow> upi_ok t'"
proof (induction rule: upi_step.induct)
  case (insert_node uid t resolve name cfg)
  then show ?case by (intro InsertSmfUserPlaneNode_ok)
next
  case (update_node uid t resolve name cfg t')
  then obtain n where "map_of (UPNodes t) name = Some n" by (cases "map_of (UPNodes t) name") (auto simp: UpdateSmfUserPlaneNode_def)
  from UpdateSmfUserPlaneNode_ok[OF update_node(3,1) this, of G resolve cfg] update_node(2) show ?case by auto
next
  case (delete_node resolve name cfg t t')
  then show ?case using DeleteSmfUserPlaneNode_ok by blast
next
  case (insert_link link t t')
  then show ?case using InsertUPNodeLinks_ok by blast
next
  case (delete_link link t t')
  then show ?case using DeleteUPNodeLinks_ok by blast
next
  case (allocate_id resolve t t')
  then show ?case using allocate_ids_ok[of t "UPFs t" resolve] upi_okD(5)[of t] by (auto simp: AllocateUPFID_def)
next
  case (generate sel t b t')
  then show ?case using GenerateDefaultPath_frame[of sel t b t'] upi_ok_path by blast
next
  case (reset t)
  then show ?case by (simp add: ResetDefaultUserPlanePath_def upi_ok_path)
qed

lemma upi_reachable_ok: "upi_reachable G t \<Longrightarrow> upi_ok t"
proof (induction rule: upi_reachable.induct)
  case start
  then show ?case by (rule upi_okI) (simp_all add: empty_upi_def)
next
  case (step t t')
  then show ?case using upi_step_ok by blast
qed

lemma uuids_Insert: "uuid ` set (upfs (InsertSmfUserPlaneNode G uid resolve name cfg t)) \<subseteq> insert uid (uuid ` set (upfs t))"
  by (auto simp: InsertSmfUserPlaneNode_def name_table_def Let_def)

lemma insert_nodes_reachable:
  "upi_reachable G t \<Longrightarrow> distinct (map fst ns) \<Longrightarrow> fst ` set ns \<inter> uuid ` set (upfs t) = {} \<Longrightarrow>
   upi_reachable G (insert_nodes G resolve ns t)"
proof (induction ns arbitrary: t)
  case (Cons x ns)
  obtain uid name cfg where x: "x = (uid, name, cfg)" by (cases x) auto
  let ?t = "InsertSmfUserPlaneNode G uid resolve name cfg t"
  have "upi_reachable G ?t"
    using Cons.prems by (intro upi_reachable.step[OF Cons.prems(1) upi_step.insert_node]) (simp add: x)
  moreover have "fst ` set ns \<inter> uuid ` set (upfs ?t) = {}"
  proof -
    have "uid \<notin> fst ` set ns" "fst ` set ns \<inter> uuid ` set (upfs t) = {}" using Cons.prems(2,3) by (simp_all add: x)
    then show ?thesis using uuids_Insert[of G uid resolve name cfg t] by blast
  qed
  ultimately show ?case using Cons.IH[of ?t] Cons.prems(2) by (simp add: x)
qed simp

lemma insert_links_reachable: "upi_reachable G t \<Longrightarrow> insert_links ls t = Ok t' \<Longrightarrow> upi_reachable G t'"
proof (induction ls arbitrary: t)
  case (Cons l ls)
  then obtain t1 where "InsertUPNodeLinks l t = Ok t1" "insert_links ls t1 = Ok t'" by auto
  with Cons show ?case using upi_reachable.step[OF Cons.prems(1) upi_step.insert_link] by blast
qed simp

lemma NewUserPlaneInformation_reachable:
  assumes "distinct (map fst ns)" and "NewUserPlaneInformation G resolve ns ls = Ok t"
  shows "upi_reachable G t"
proof -
  have "upi_reachable G (insert_nodes G resolve ns empty_upi)"
    by (rule insert_nodes_reachable[OF upi_reachable.start assms(1)]) (simp add: empty_upi_def)
  then show ?thesis using insert_links_reachable assms(2) by (auto simp: NewUserPlaneInformation_def)
qed

section \<open>A concrete topology\<close>

definition slice :: snssai where "slice = \<lparr>Sd = ''010203'', Sst = 1\<rparr>"

definition an_cfg :: cfg_node where
  "an_cfg = \<lparr>CfgType = UPNODE_AN, CfgNodeID = '''', CfgANIP = '''', CfgSNssaiInfos = [], CfgInterfaces = [], CfgPort = 0\<rparr>"

definition upf_cfg :: "string \<Rightarrow> string \<Rightarrow> cfg_node" where
  "upf_cfg host dnn = \<lparr>CfgType = UPNODE_UPF, CfgNodeID = host, CfgANIP = '''',
     CfgSNssaiInfos = [\<lparr>SNssai = slice, DnnList = [\<lparr>ItemDnn = dnn, DnaiList = [], PduSessionTypes = [IPV4]\<rparr>]\<rparr>],
     CfgInterfaces = [], CfgPort = 8805\<rparr>"

definition sel_dnn :: "string \<Rightarrow> upf_selection_params" where
  "sel_dnn dnn = \<lparr>SelDnnList = [dnn], SelSNssai = slice, SelDnai = ''''\<rparr>"

text \<open>An access network, a UPF behind it for \<^verbatim>\<open>ims\<close> and one behind that for \<^verbatim>\<open>internet\<close>, with or without
  a second access network at the first UPF.\<close>

definition chain_nodes :: "(string \<times> string \<times> cfg_node) list" where
  "chain_nodes = [(''u0'', ''gnb1'', an_cfg), (''u1'', ''upf1'', upf_cfg ''upf1'' ''ims''), (''u2'', ''upf2'', upf_cfg ''upf2'' ''internet'')]"

definition chain_links :: "cfg_link list" where
  "chain_links = [\<lparr>LinkA = ''gnb1'', LinkB = ''upf1''\<rparr>, \<lparr>LinkA = ''upf1'', LinkB = ''upf2''\<rparr>]"

definition second_an :: "(string \<times> string \<times> cfg_node) list" where
  "second_an = chain_nodes @ [(''u3'', ''gnb2'', an_cfg)]"

definition second_an_links :: "cfg_link list" where
  "second_an_links = [\<lparr>LinkA = ''gnb1'', LinkB = ''upf1''\<rparr>, \<lparr>LinkA = ''gnb2'', LinkB = ''upf1''\<rparr>, \<lparr>LinkA = ''upf1'', LinkB = ''upf2''\<rparr>]"

lemmas topology_simps = NewUserPlaneInformation_def InsertSmfUserPlaneNode_def name_table_def InsertUPNodeLinks_def
  upd_node_def empty_upi_def new_up_node_def an_cfg_def upf_cfg_def Let_def

lemma chain_topology:
  "\<exists>t. NewUserPlaneInformation pool_G resolve chain_nodes chain_links = Ok t \<and> upi_reachable pool_G t \<and>
     AccessNetwork t = [(''gnb1'', 0)] \<and> length (nodes t) = 3 \<and> links_of t 0 = [1] \<and> links_of t 1 = [0, 2] \<and> links_of t 2 = [1] \<and>
     upf_of t 0 = None \<and> serves t (sel_dnn ''internet'') 1 \<and> serves t (sel_dnn ''internet'') 2 \<and>
     selectMatchUPF (sel_dnn ''internet'') t = Ok [2]"
proof -
  obtain t where t: "NewUserPlaneInformation pool_G resolve chain_nodes chain_links = Ok t"
    and p: "AccessNetwork t = [(''gnb1'', 0)] \<and> length (nodes t) = 3 \<and> links_of t 0 = [1] \<and> links_of t 1 = [0, 2] \<and> links_of t 2 = [1] \<and>
     upf_of t 0 = None \<and> serves t (sel_dnn ''internet'') 1 \<and> serves t (sel_dnn ''internet'') 2 \<and>
     selectMatchUPF (sel_dnn ''internet'') t = Ok [2]"
    by (simp add: chain_nodes_def chain_links_def topology_simps links_of_def upf_of_def serves_def sel_dnn_def isSupportSnssai_def
        Snssai_Equal_def selectMatchUPF_def node_matches_def dnn_matches_def ContainsDNAI_def numeral_eq_Suc)
  have "upi_reachable pool_G t" by (rule NewUserPlaneInformation_reachable[OF _ t]) (simp add: chain_nodes_def)
  then show ?thesis using t p by blast
qed

lemma second_an_topology:
  "\<exists>t. NewUserPlaneInformation pool_G resolve second_an second_an_links = Ok t \<and> upi_reachable pool_G t \<and>
     AccessNetwork t = [(''gnb1'', 0), (''gnb2'', 3)] \<and> length (nodes t) = 4 \<and> links_of t 0 = [1] \<and> links_of t 1 = [0, 3, 2] \<and>
     NodeTy (nodes t ! 0) = UPNODE_AN \<and> upf_of t 3 = None \<and> serves t (sel_dnn ''internet'') 1 \<and> NodeUPF (nodes t ! 2) \<noteq> None \<and>
     selectMatchUPF (sel_dnn ''internet'') t = Ok [2]"
proof -
  obtain t where t: "NewUserPlaneInformation pool_G resolve second_an second_an_links = Ok t"
    and p: "AccessNetwork t = [(''gnb1'', 0), (''gnb2'', 3)] \<and> length (nodes t) = 4 \<and> links_of t 0 = [1] \<and> links_of t 1 = [0, 3, 2] \<and>
     NodeTy (nodes t ! 0) = UPNODE_AN \<and> upf_of t 3 = None \<and> serves t (sel_dnn ''internet'') 1 \<and> NodeUPF (nodes t ! 2) \<noteq> None \<and>
     selectMatchUPF (sel_dnn ''internet'') t = Ok [2]"
    by (simp add: second_an_def chain_nodes_def second_an_links_def topology_simps links_of_def upf_of_def serves_def sel_dnn_def isSupportSnssai_def
        Snssai_Equal_def selectMatchUPF_def node_matches_def dnn_matches_def ContainsDNAI_def numeral_eq_Suc)
  have "upi_reachable pool_G t" by (rule NewUserPlaneInformation_reachable[OF _ t]) (simp add: second_an_def chain_nodes_def)
  then show ?thesis using t p by blast
qed

section \<open>Properties\<close>



text \<open>Two access networks at one UPF crash the search.  When the search from an access network
  reaches a UPF that is not the destination and whose next link leads to a second access network, it
  asks the missing UPF of that access network for its slices: generating the default path panics.\<close>

lemma second_access_network_panics:
  assumes ok: "upi_ok t" and an: "AccessNetwork t = (k, a) # ans"
    and d: "selectMatchUPF sel t = Ok (dest # ds)" "dest < length (nodes t)" "NodeUPF (nodes t ! dest) \<noteq> None"
    and l: "links_of t a = [u]" "links_of t u = a # b # rest" and u: "serves t sel u" "u \<noteq> dest"
    and b: "upf_of t b = None" "b \<noteq> a"
  shows "GenerateDefaultPath sel t = Panic ''nil pointer dereference''"
proof -
  have a: "a < length (nodes t)" "NodeTy (nodes t ! a) = UPNODE_AN" using upi_okD(6)[OF ok, of a] an by auto
  then have "NodeUPF (nodes t ! a) = None" using an_has_no_upf[OF ok] by blast
  then have na: "\<not> DeepEqual t a dest" using DeepEqual_iff[OF ok a(1) d(2,3)] d(3) by metis
  from u(1) obtain U where U: "upf_of t u = Some U" "isSupportSnssai (SelSNssai sel) U"
    by (auto simp: serves_def split: option.splits)
  have "\<not> DeepEqual t u dest" using DeepEqual_iff[OF ok upf_of_valid[OF U(1)] d(2,3)] u(2) by simp
  moreover have "u \<noteq> a" "b \<noteq> u" using U(1) b upf_of_iff[OF ok a(1)] \<open>NodeUPF (nodes t ! a) = None\<close> by auto
  ultimately have "getPathBetween t sel dest a {} = Panic ''nil pointer dereference''"
    using na U b l by (simp add: getPathBetween_def[of t sel dest a] getPathBetween_def[of t sel dest u] link_loop_calls Let_def)
  then show ?thesis using an d(1) a(2) by (simp add: GenerateDefaultPath_def)
qed

theorem second_access_network_panics_witness:
  "\<exists>t. NewUserPlaneInformation pool_G NodeIdValue second_an second_an_links = Ok t \<and>
     GenerateDefaultPath (sel_dnn ''internet'') t = Panic ''nil pointer dereference''"
proof -
  obtain t where t: "NewUserPlaneInformation pool_G NodeIdValue second_an second_an_links = Ok t" "upi_reachable pool_G t"
    and p: "AccessNetwork t = [(''gnb1'', 0), (''gnb2'', 3)]" "length (nodes t) = 4" "links_of t 0 = [1]" "links_of t 1 = [0, 3, 2]"
      "upf_of t 3 = None" "serves t (sel_dnn ''internet'') 1" "NodeUPF (nodes t ! 2) \<noteq> None" "selectMatchUPF (sel_dnn ''internet'') t = Ok [2]"
    using second_an_topology[of NodeIdValue] by blast
  from second_access_network_panics[OF upi_reachable_ok[OF t(2)] p(1,8) _ p(7,3,4,6) _ p(5)] p(2) t(1)
  show ?thesis by simp
qed

text \<open>C18: configuration keeps the topology consistent.  Starting from nothing and applying node and link
  operations in any order, links and tables only point to existing nodes, no two nodes share a UPF,
  UPFs have distinct identifiers, the nodes of type UPF are exactly those with a UPF, and the tables
  of UPFs and access networks hold nodes of their type; updating a node and allocating the
  identifiers of the UPFs then never dereference a nil pointer.\<close>

theorem topology_consistent:
  assumes "upi_reachable G t" and "uid \<notin> uuid ` set (upfs t)"
  shows "upi_ok t \<and> \<not> is_Panic (UpdateSmfUserPlaneNode G uid resolve name cfg t) \<and> is_Ok (AllocateUPFID resolve t)"
proof -
  have ok: "upi_ok t" by (rule upi_reachable_ok[OF assms(1)])
  have "\<not> is_Panic (UpdateSmfUserPlaneNode G uid resolve name cfg t)"
  proof (cases "map_of (UPNodes t) name")
    case None
    then show ?thesis by (simp add: UpdateSmfUserPlaneNode_def)
  next
    case (Some n)
    then show ?thesis using UpdateSmfUserPlaneNode_ok[OF ok assms(2) Some, of G resolve cfg] by auto
  qed
  moreover have "is_Ok (AllocateUPFID resolve t)"
    using allocate_ids_ok[OF ok, of "UPFs t" resolve] upi_okD(5)[OF ok] by (auto simp: AllocateUPFID_def)
  ultimately show ?thesis using ok by blast
qed

theorem topology_consistent_witness:
  "\<exists>t. NewUserPlaneInformation pool_G NodeIdValue chain_nodes chain_links = Ok t \<and> upi_ok t \<and> is_Ok (AllocateUPFID NodeIdValue t)"
proof -
  obtain t where t: "NewUserPlaneInformation pool_G NodeIdValue chain_nodes chain_links = Ok t" "upi_reachable pool_G t"
    using chain_topology[of NodeIdValue] by blast
  obtain uid where "uid \<notin> uuid ` set (upfs t)"
    using ex_new_if_finite[OF infinite_UNIV_listI, of "uuid ` set (upfs t)"] by blast
  from topology_consistent[OF t(2) this] t(1) show ?thesis by blast
qed

text \<open>Deleting a node takes its name out of every table: no lookup by name or by address finds it
  any more, and the other names keep their entries.  Cached default paths are left alone by the
  deletion itself; the configuration update that contains it forgets them all at its end.\<close>

lemma deleted_node_not_found:
  assumes "DeleteSmfUserPlaneNode resolve name cfg t = Ok t'" and "map_of (UPNodes t) name = Some n"
  shows "map_of (UPNodes t') name = None \<and> (\<forall>k. k \<noteq> name \<longrightarrow> map_of (UPNodes t') k = map_of (UPNodes t) k) \<and>
    name \<notin> snd ` set (UPFIPToName t') \<and>
    (NodeTy (nodes t ! n) = UPNODE_UPF \<longrightarrow> map_of (UPFs t') name = None) \<and>
    (NodeTy (nodes t ! n) = UPNODE_AN \<longrightarrow> map_of (AccessNetwork t') name = None) \<and>
    DefaultUserPlanePath t' = DefaultUserPlanePath t \<and>
    (\<forall>G c t''. ProcessUserPlaneUpdate G resolve c t = Ok t'' \<longrightarrow> DefaultUserPlanePath t'' = [])"
proof -
  let ?done = "\<lambda>t1. t1\<lparr>UPNodes := AList.delete name (UPNodes t1),
      UPFIPToName := filter (\<lambda>(_, nodeName). nodeName \<noteq> name) (UPFIPToName t1)\<rparr>"
  obtain t1 where t1: "t1 = t\<lparr>AccessNetwork := AList.delete name (AccessNetwork t)\<rparr> \<and> NodeTy (nodes t ! n) = UPNODE_AN
       \<or> drop_upf resolve name n t = Ok t1 \<and> NodeTy (nodes t ! n) = UPNODE_UPF" and t': "t' = ?done t1"
    using assms by (auto simp: DeleteSmfUserPlaneNode_def Let_def split: if_split_asm)
  have "UPNodes t1 = UPNodes t \<and> DefaultUserPlanePath t1 = DefaultUserPlanePath t" using t1 drop_upf_frame[of resolve name n t t1] by auto
  moreover have "\<forall>G c t''. ProcessUserPlaneUpdate G resolve c t = Ok t'' \<longrightarrow> DefaultUserPlanePath t'' = []"
    by (auto simp: ProcessUserPlaneUpdate_def ResetDefaultUserPlanePath_def)
  ultimately show ?thesis using t1 drop_upf_frame[of resolve name n t t1] unfolding t'
    by (auto simp: delete_conv)
qed

theorem deleted_node_not_found_witness:
  "\<exists>t t'. NewUserPlaneInformation pool_G NodeIdValue chain_nodes chain_links = Ok t \<and>
     DeleteSmfUserPlaneNode NodeIdValue ''gnb1'' an_cfg t = Ok t' \<and> map_of (UPNodes t') ''gnb1'' = None"
proof -
  obtain t where t: "NewUserPlaneInformation pool_G NodeIdValue chain_nodes chain_links = Ok t"
    and n: "map_of (UPNodes t) ''gnb1'' = Some 0" and a: "NodeTy (nodes t ! 0) = UPNODE_AN"
    by (simp add: chain_nodes_def chain_links_def topology_simps numeral_eq_Suc)
  then obtain t' where "DeleteSmfUserPlaneNode NodeIdValue ''gnb1'' an_cfg t = Ok t'"
    by (simp add: DeleteSmfUserPlaneNode_def Let_def)
  with deleted_node_not_found[OF this n] t show ?thesis by blast
qed

text \<open>Access networks have no node identifier, so the link between a UPF and the second of its access
  networks is deleted at the first one.\<close>

lemma link_deletion_finds_first_access_network:
  assumes "Links (nodes t ! u) = [a, b]" and "UpNodeID (nodes t ! a) = UpNodeID (nodes t ! b)"
    and "u < length (nodes t)"
  shows "\<exists>t'. drop_link (Some u) (Some b) t = Ok t' \<and> Links (nodes t' ! u) = [b]"
  using assms by (auto simp: drop_link_def nth_upd_node)

text \<open>A node that gets a new identifier gets a UPF with port 0, whatever port is configured.\<close>

lemma update_loses_port:
  assumes "UpNodeID (nodes t ! n) \<noteq> NewNodeID (CfgNodeID cfg)" and "n < length (nodes t)" and "update_upf G uid cfg n t = Ok t'"
  shows "\<exists>u. upf_of t' n = Some u \<and> UpfPort u = 0"
proof -
  have "UpfPort (add_ifaces is x) = UpfPort x" for "is" and x :: "'a upf"
    by (induction "is" arbitrary: x) (simp_all add: Let_def split: up_interface_type.split)
  then show ?thesis using assms by (auto simp: update_upf_def Let_def nth_upd_node upf_of_def NewUPF_def)
qed

end
