(* ===== verification/Data_Path.thy ===== *)
theory Data_Path
  imports User_Plane "HOL-Library.Sublist"
begin

text \<open>
  Data paths of a session, \<^verbatim>\<open>src/context/datapath.go\<close>: the doubly linked list of UPFs that
  \<^verbatim>\<open>GenerateDataPath\<close> builds, the allocation of detection and QoS rules for the two tunnels of each
  node, the rules' contents, and the release.  With them come the PFCP sessions of
  \<^verbatim>\<open>src/context/sm_context.go\<close>, the pre-configured paths of \<^verbatim>\<open>src/context/ue_datapath.go\<close> and the
  first phase of \<^verbatim>\<open>releaseTunnel\<close> of \<^verbatim>\<open>src/producer/pdu_session.go\<close>.  Nodes, UPFs and rules are
  objects with pointers to each other.  A call that fails keeps what it has already changed, so every
  operation answers a result and a state.  Loops over the nodes of a path have a bound on their
  iterations; \<^verbatim>\<open>None\<close> means that it was reached.
\<close>

section \<open>Paths and tunnels\<close>

text \<open>A nil map of rules is \<^verbatim>\<open>None\<close>; it can be read, not written.\<close>

record gtp_tunnel =
  SrcEndPoint :: "nat option"
  DestEndPoint :: "nat option"
  TunPDR :: "nat go_map option"
  TEID :: u32

record dp_node =
  DpUPF :: "nat option"
  UpLinkTunnel :: gtp_tunnel
  DownLinkTunnel :: gtp_tunnel
  IsBranchingPoint :: bool

record destination =
  DestinationIP :: string
  DestinationPort :: string
  Url :: string

record data_path =
  FirstDPNode :: "nat option"
  Destination :: destination
  Activated :: bool
  IsDefaultPath :: bool
  HasBranchingPoint :: bool

record pfcp_session =
  SessPDRs :: "u16 \<rightharpoonup> nat"
  SessNodeID :: node_id
  LocalSEID :: u64
  RemoteSEID :: u64

text \<open>The objects of a session's data paths: nodes, UPFs, rules, PFCP sessions by the address of the
  UPF, the session identifiers under which the context is registered in \<^verbatim>\<open>seidSMContextMap\<close>, and the
  tunnel end point of the access network (no address: not known yet).\<close>

record 'g dp_state =
  dpnodes :: "dp_node list"
  dupfs :: "'g upf list"
  rules :: rule_heap
  sessions :: "pfcp_session go_map"
  seidCount :: u64
  seidContexts :: "u64 set"
  anIP :: ip
  anTEID :: u32

definition empty_tunnel :: gtp_tunnel where
  "empty_tunnel = \<lparr>SrcEndPoint = None, DestEndPoint = None, TunPDR = None, TEID = 0\<rparr>"

definition NewDataPathNode :: dp_node where
  "NewDataPathNode = \<lparr>DpUPF = None, UpLinkTunnel = empty_tunnel\<lparr>TunPDR := Some []\<rparr>,
     DownLinkTunnel = empty_tunnel\<lparr>TunPDR := Some []\<rparr>, IsBranchingPoint = False\<rparr>"

definition NewDataPath :: data_path where
  "NewDataPath = \<lparr>FirstDPNode = None, Destination = \<lparr>DestinationIP = '''', DestinationPort = '''', Url = ''''\<rparr>,
     Activated = False, IsDefaultPath = False, HasBranchingPoint = False\<rparr>"

definition upd_dpn :: "nat \<Rightarrow> (dp_node \<Rightarrow> dp_node) \<Rightarrow> 'g dp_state \<Rightarrow> 'g dp_state" where
  "upd_dpn n f s = s\<lparr>dpnodes := (dpnodes s)[n := f (dpnodes s ! n)]\<rparr>"

definition AddNext :: "nat \<Rightarrow> nat option \<Rightarrow> 'g dp_state \<Rightarrow> 'g dp_state" where
  "AddNext n next s = upd_dpn n (\<lambda>x. x\<lparr>DownLinkTunnel := (DownLinkTunnel x)\<lparr>SrcEndPoint := next\<rparr>\<rparr>) s"

definition AddPrev :: "nat \<Rightarrow> nat option \<Rightarrow> 'g dp_state \<Rightarrow> 'g dp_state" where
  "AddPrev n prev s = upd_dpn n (\<lambda>x. x\<lparr>UpLinkTunnel := (UpLinkTunnel x)\<lparr>SrcEndPoint := prev\<rparr>\<rparr>) s"

definition Next :: "'g dp_state \<Rightarrow> nat \<Rightarrow> nat option" where
  "Next s n = SrcEndPoint (DownLinkTunnel (dpnodes s ! n))"

definition Prev :: "'g dp_state \<Rightarrow> nat \<Rightarrow> nat option" where
  "Prev s n = SrcEndPoint (UpLinkTunnel (dpnodes s ! n))"

definition IsANUPF :: "'g dp_state \<Rightarrow> nat \<Rightarrow> bool" where
  "IsANUPF s n \<longleftrightarrow> Prev s n = None"

definition IsAnchorUPF :: "'g dp_state \<Rightarrow> nat \<Rightarrow> bool" where
  "IsAnchorUPF s n \<longleftrightarrow> Next s n = None"

text \<open>The nodes for the UPFs of a path, each linked to the one before.\<close>

fun gen_nodes :: "nat option list \<Rightarrow> nat option \<Rightarrow> 'g dp_state \<Rightarrow> 'g dp_state" where
  "gen_nodes [] prev s = s"
| "gen_nodes (u # us) prev s =
     (let cur = length (dpnodes s);
          s = s\<lparr>dpnodes := dpnodes s @ [NewDataPathNode\<lparr>DpUPF := u\<rparr>]\<rparr>;
          s = (if prev = None then AddPrev cur None s else s);
          s = (if us = [] then AddNext cur None s else s);
          s = (case prev of None \<Rightarrow> s | Some p \<Rightarrow> AddPrev cur (Some p) (AddNext p (Some cur) s))
      in gen_nodes us (Some cur) s)"

text \<open>\<^verbatim>\<open>upPath\<close> gives for each node of the user plane path its UPF.\<close>

definition GenerateDataPath :: "nat option list \<Rightarrow> 'g dp_state \<Rightarrow> data_path option \<times> 'g dp_state" where
  "GenerateDataPath upPath s =
     (if length upPath < 1 then (None, s)
      else (Some (NewDataPath\<lparr>FirstDPNode := Some (length (dpnodes s))\<rparr>), gen_nodes upPath None s))"

text \<open>The loop \<^verbatim>\<open>for cur := first; cur != nil; cur = cur.Next()\<close>, which stops when the body fails.\<close>

fun dp_loop :: "nat \<Rightarrow> (nat \<Rightarrow> 'g dp_state \<Rightarrow> unit result \<times> 'g dp_state) \<Rightarrow> nat option \<Rightarrow> 'g dp_state \<Rightarrow>
    (unit result \<times> 'g dp_state) option" where
  "dp_loop k f None s = Some (Ok (), s)"
| "dp_loop 0 f (Some n) s = None"
| "dp_loop (Suc k) f (Some n) s = (case f n s of
      (Ok _, s) \<Rightarrow> dp_loop k f (Next s n) s
    | (Err e, s) \<Rightarrow> Some (Err e, s)
    | (Panic e, s) \<Rightarrow> Some (Panic e, s))"

text \<open>Sequencing of operations that answer a result and a state.\<close>

definition seq :: "'a result \<times> 's \<Rightarrow> ('a \<Rightarrow> 's \<Rightarrow> 'b result \<times> 's) \<Rightarrow> 'b result \<times> 's" where
  "seq m f = (case m of (Ok x, s) \<Rightarrow> f x s | (Err e, s) \<Rightarrow> (Err e, s) | (Panic e, s) \<Rightarrow> (Panic e, s))"

lemma seq_simps [simp]:
  "seq (Ok x, s) f = f x s" "seq (Err e, s) f = (Err e, s)" "seq (Panic e, s) f = (Panic e, s)"
  by (simp_all add: seq_def)

definition lift_res :: "'a result \<Rightarrow> 's \<Rightarrow> 'a result \<times> 's" where
  "lift_res r s = (r, s)"

text \<open>The UPF of a node; a method call on a nil pointer panics.\<close>

definition the_upf :: "nat \<Rightarrow> 'g dp_state \<Rightarrow> (nat \<times> 'g upf) result" where
  "the_upf n s = (case DpUPF (dpnodes s ! n) of
      Some p \<Rightarrow> if p < length (dupfs s) then Ok (p, dupfs s ! p) else Panic ''nil pointer dereference''
    | None \<Rightarrow> Panic ''nil pointer dereference'')"

text \<open>An operation of a UPF on the UPFs and rules of the state.\<close>

definition on_upf :: "nat \<Rightarrow> ('g upf \<Rightarrow> rule_heap \<Rightarrow> 'a result \<times> 'g upf \<times> rule_heap) \<Rightarrow> 'g dp_state \<Rightarrow> 'a result \<times> 'g dp_state" where
  "on_upf n f s = seq (the_upf n s, s) (\<lambda>(p, u) s.
     case f u (rules s) of (x, u', r') \<Rightarrow> (x, s\<lparr>dupfs := (dupfs s)[p := u'], rules := r'\<rparr>))"

section \<open>PFCP sessions\<close>

definition node_key :: "(node_id \<Rightarrow> ip) \<Rightarrow> 'g upf \<Rightarrow> string" where
  "node_key resolve u = IPString (resolve (NodeID u))"

text \<open>Session identifiers are counted when the database is not used.  The code logs a failed allocation
  and goes on with identifier 0; the counter cannot fail.\<close>

definition AllocateLocalSEID :: "'g dp_state \<Rightarrow> u64 \<times> 'g dp_state" where
  "AllocateLocalSEID s = (seidCount s + 1, s\<lparr>seidCount := seidCount s + 1\<rparr>)"

definition allocate_seid :: "(node_id \<Rightarrow> ip) \<Rightarrow> nat \<Rightarrow> 'g dp_state \<Rightarrow> unit result \<times> 'g dp_state" where
  "allocate_seid resolve n s = seq (the_upf n s, s) (\<lambda>(p, u) s.
     let key = node_key resolve u in
     if map_of (sessions s) key = None
     then (let (seid, s) = AllocateLocalSEID s in
           (Ok (), s\<lparr>sessions := AList.update key
              \<lparr>SessPDRs = Map.empty, SessNodeID = NodeID u, LocalSEID = seid, RemoteSEID = 0\<rparr> (sessions s),
              seidContexts := insert seid (seidContexts s)\<rparr>))
     else (Ok (), s))"

definition AllocateLocalSEIDForDataPath ::
    "(node_id \<Rightarrow> ip) \<Rightarrow> nat \<Rightarrow> data_path \<Rightarrow> 'g dp_state \<Rightarrow> (unit result \<times> 'g dp_state) option" where
  "AllocateLocalSEIDForDataPath resolve k d s = dp_loop k (allocate_seid resolve) (FirstDPNode d) s"

definition PutPDRtoPFCPSession :: "string \<Rightarrow> nat go_map \<Rightarrow> 'g dp_state \<Rightarrow> unit result \<times> 'g dp_state" where
  "PutPDRtoPFCPSession key pdrList s = (case map_of (sessions s) key of
      None \<Rightarrow> (Err ''can't find PFCPContext to put PDR'', s)
    | Some c \<Rightarrow> (Ok (), s\<lparr>sessions := AList.update key
        (c\<lparr>SessPDRs := fold (\<lambda>(name, p) m. case pdrs (rules s) p of None \<Rightarrow> m | Some x \<Rightarrow> m(PDRID x \<mapsto> p)) pdrList (SessPDRs c)\<rparr>)
        (sessions s)\<rparr>))"

definition RemovePDRfromPFCPSession :: "string \<Rightarrow> pdr \<Rightarrow> 'g dp_state \<Rightarrow> unit result \<times> 'g dp_state" where
  "RemovePDRfromPFCPSession key pdr s = (case map_of (sessions s) key of
      None \<Rightarrow> (Panic ''nil pointer dereference'', s)
    | Some c \<Rightarrow> (Ok (), s\<lparr>sessions := AList.update key (c\<lparr>SessPDRs := (SessPDRs c)(PDRID pdr := None)\<rparr>) (sessions s)\<rparr>))"

definition GetNodeIDByLocalSEID :: "u64 \<Rightarrow> 'g dp_state \<Rightarrow> node_id option" where
  "GetNodeIDByLocalSEID seid s = fold (\<lambda>(_, c) r. if LocalSEID c = seid then Some (SessNodeID c) else r) (sessions s) None"

section \<open>QoS enforcement rules\<close>

definition set_pdr :: "nat \<Rightarrow> (pdr \<Rightarrow> pdr) \<Rightarrow> 'g dp_state \<Rightarrow> 'g dp_state" where
  "set_pdr p f s = s\<lparr>rules := (rules s)\<lparr>pdrs := (pdrs (rules s))(p := map_option f (pdrs (rules s) p))\<rparr>\<rparr>"

definition set_far :: "nat \<Rightarrow> (far \<Rightarrow> far) \<Rightarrow> 'g dp_state \<Rightarrow> 'g dp_state" where
  "set_far p f s = s\<lparr>rules := (rules s)\<lparr>fars := (fars (rules s))(p := map_option f (fars (rules s) p))\<rparr>\<rparr>"

definition set_qer :: "nat \<Rightarrow> (qer \<Rightarrow> qer) \<Rightarrow> 'g dp_state \<Rightarrow> 'g dp_state" where
  "set_qer p f s = s\<lparr>rules := (rules s)\<lparr>qers := (qers (rules s))(p := map_option f (qers (rules s) p))\<rparr>\<rparr>"

definition GateOpen :: u8 where "GateOpen = 0"
definition GateClose :: u8 where "GateClose = 1"

text \<open>\<^verbatim>\<open>GetTcDataFromPolicyDecision\<close> indexes the map of the decision; a nil decision panics.\<close>

definition GetTcDataFromPolicyDecision :: "sm_policy_decision option \<Rightarrow> string \<Rightarrow> tc_data option result" where
  "GetTcDataFromPolicyDecision dec ref = (case dec of
      None \<Rightarrow> Panic ''nil pointer dereference''
    | Some d \<Rightarrow> Ok (case map_of (TraffContDecs d) ref of None \<Rightarrow> None | Some t \<Rightarrow> t))"

definition CreatePccRuleQer :: "'g idgen \<Rightarrow> sm_context \<Rightarrow> nat \<Rightarrow> string \<Rightarrow> string \<Rightarrow> 'g dp_state \<Rightarrow> nat result \<times> 'g dp_state" where
  "CreatePccRuleQer G c n qosData tcData s =
     seq (nth_res (SmPolicyUpdates c) 0, s) (\<lambda>upd s.
     let refQos = GetQoSDataFromPolicyDecision (SmPolicyDecision upd) qosData in
     seq (GetTcDataFromPolicyDecision (SmPolicyDecision upd) tcData, s) (\<lambda>tc s.
     let gate = (case tc of Some t \<Rightarrow> if FlowStatus t = ''DISABLED'' then GateClose else GateOpen | None \<Rightarrow> GateOpen) in
     seq (on_upf n (AddQER G) s) (\<lambda>q s.
     case refQos of
       None \<Rightarrow> (Panic ''nil pointer dereference'', s)
     | Some qd \<Rightarrow>
         (let s = set_qer q (\<lambda>x. x\<lparr>QerQFI := GetQosFlowIdFromQosId (QosId qd), GateStatus := Some (gate, gate)\<rparr>) s in
          seq (BitRateTokbps (MaxbrUl qd), s) (\<lambda>ul s.
          seq (BitRateTokbps (MaxbrDl qd), s) (\<lambda>dl s.
          (Ok q, set_qer q (\<lambda>x. x\<lparr>MBR := Some (ul, dl)\<rparr>) s)))))))"

definition CreateSessRuleQer :: "'g idgen \<Rightarrow> sm_context \<Rightarrow> nat \<Rightarrow> 'g dp_state \<Rightarrow> nat result \<times> 'g dp_state" where
  "CreateSessRuleQer G c n s =
     seq (nth_res (SmPolicyUpdates c) 0, s) (\<lambda>upd s.
     seq (case SmPolicyDecision upd of None \<Rightarrow> Panic ''nil pointer dereference'' | Some d \<Rightarrow> GetDefaultQoSDataFromPolicyDecision d, s)
      (\<lambda>def s.
     seq (on_upf n (AddQER G) s) (\<lambda>q s.
     let s = set_qer q (\<lambda>x. x\<lparr>QerQFI := GetQosFlowIdFromQosId (QosId def), GateStatus := Some (GateOpen, GateOpen)\<rparr>) s in
     case SelectedSessionRule c of
       None \<Rightarrow> (Panic ''nil pointer dereference'', s)
     | Some rule \<Rightarrow>
         (case AuthSessAmbr rule of
            None \<Rightarrow> (Panic ''nil pointer dereference'', s)
          | Some a \<Rightarrow>
              seq (BitRateTokbps (Uplink a), s) (\<lambda>ul s.
              seq (BitRateTokbps (Downlink a), s) (\<lambda>dl s.
              (Ok q, set_qer q (\<lambda>x. x\<lparr>MBR := Some (ul, dl)\<rparr>) s)))))))"

definition rate_pair :: "string \<Rightarrow> string \<Rightarrow> (u64 \<times> u64) option result" where
  "rate_pair ul dl = (if ul \<noteq> '''' \<and> dl \<noteq> ''''
     then bind_res (BitRateTokbps (NormalizeBitRate ul)) (\<lambda>u. bind_res (BitRateTokbps (NormalizeBitRate dl)) (\<lambda>d. Ok (Some (u, d))))
     else Ok None)"

text \<open>One rule for each dedicated flow of the decision; the last one is answered.\<close>

fun dedicated_qers :: "'g idgen \<Rightarrow> nat \<Rightarrow> qos_data option go_map \<Rightarrow> nat option \<Rightarrow> 'g dp_state \<Rightarrow> nat option result \<times> 'g dp_state" where
  "dedicated_qers G n [] created s = (Ok created, s)"
| "dedicated_qers G n ((_, None) # qs) created s = (Panic ''nil pointer dereference'', s)"
| "dedicated_qers G n ((_, Some qd) # qs) created s =
     (if DefQosFlowIndication qd then dedicated_qers G n qs created s
      else seq (on_upf n (AddQER G) s) (\<lambda>q s.
        let s = set_qer q (\<lambda>x. x\<lparr>QerQFI := GetQosFlowIdFromQosId (QosId qd), GateStatus := Some (GateOpen, GateOpen)\<rparr>) s in
        seq (rate_pair (GbrUl qd) (GbrDl qd), s) (\<lambda>g s.
        let s = set_qer q (\<lambda>x. x\<lparr>GBR := g\<rparr>) s in
        seq (rate_pair (MaxbrUl qd) (MaxbrDl qd), s) (\<lambda>m s.
        dedicated_qers G n qs (Some q) (set_qer q (\<lambda>x. x\<lparr>MBR := m\<rparr>) s)))))"

definition CreateDedicatedQosQer :: "'g idgen \<Rightarrow> sm_context \<Rightarrow> nat \<Rightarrow> 'g dp_state \<Rightarrow> nat option result \<times> 'g dp_state" where
  "CreateDedicatedQosQer G c n s =
     seq (nth_res (SmPolicyUpdates c) 0, s) (\<lambda>upd s.
     case SmPolicyDecision upd of
       None \<Rightarrow> (Panic ''nil pointer dereference'', s)
     | Some d \<Rightarrow> dedicated_qers G n (QosDecs d) None s)"

section \<open>Allocating the rules of a tunnel\<close>

text \<open>A tunnel is the uplink or the downlink one of its node.\<close>

datatype direction = UL | DL

definition tunnel :: "direction \<Rightarrow> dp_node \<Rightarrow> gtp_tunnel" where
  "tunnel d x = (case d of UL \<Rightarrow> UpLinkTunnel x | DL \<Rightarrow> DownLinkTunnel x)"

definition set_tunnel :: "direction \<Rightarrow> (gtp_tunnel \<Rightarrow> gtp_tunnel) \<Rightarrow> dp_node \<Rightarrow> dp_node" where
  "set_tunnel d f x = (case d of UL \<Rightarrow> x\<lparr>UpLinkTunnel := f (UpLinkTunnel x)\<rparr> | DL \<Rightarrow> x\<lparr>DownLinkTunnel := f (DownLinkTunnel x)\<rparr>)"

definition put_tunnel_pdr :: "direction \<Rightarrow> nat \<Rightarrow> string \<Rightarrow> nat \<Rightarrow> 'g dp_state \<Rightarrow> unit result \<times> 'g dp_state" where
  "put_tunnel_pdr d n name p s = (case TunPDR (tunnel d (dpnodes s ! n)) of
      None \<Rightarrow> (Panic ''assignment to entry in nil map'', s)
    | Some m \<Rightarrow> (Ok (), upd_dpn n (set_tunnel d (\<lambda>t. t\<lparr>TunPDR := Some (AList.update name p m)\<rparr>)) s))"

text \<open>The rules of the policy update: a rule that cannot be built is skipped; a rule whose QoS rule
  cannot be created is kept without it.\<close>

fun pcc_pdrs :: "'g idgen \<Rightarrow> sm_context \<Rightarrow> direction \<Rightarrow> nat \<Rightarrow> pcc_rule go_map \<Rightarrow> 'g dp_state \<Rightarrow> unit result \<times> 'g dp_state" where
  "pcc_pdrs G c d n [] s = (Ok (), s)"
| "pcc_pdrs G c d n ((name, rule) # rs) s = (case on_upf n (BuildCreatePdrFromPccRule G rule) s of
      (Ok p, s) \<Rightarrow>
        seq (nth_res (RefQosData rule) 0, s) (\<lambda>qr s.
        seq (nth_res (RefTcData rule) 0, s) (\<lambda>tr s.
        case CreatePccRuleQer G c n qr tr s of
          (Ok q, s) \<Rightarrow> seq (put_tunnel_pdr d n name p (set_pdr p (\<lambda>x. x\<lparr>QER := QER x @ [q]\<rparr>) s)) (\<lambda>_. pcc_pdrs G c d n rs)
        | (Err e, s) \<Rightarrow> seq (put_tunnel_pdr d n name p s) (\<lambda>_. pcc_pdrs G c d n rs)
        | (Panic e, s) \<Rightarrow> (Panic e, s)))
    | (Err e, s) \<Rightarrow> pcc_pdrs G c d n rs s
    | (Panic e, s) \<Rightarrow> (Panic e, s))"

definition activate_tunnel :: "'g idgen \<Rightarrow> (node_id \<Rightarrow> ip) \<Rightarrow> sm_context \<Rightarrow> direction \<Rightarrow> nat \<Rightarrow> 'g dp_state \<Rightarrow> unit result \<times> 'g dp_state" where
  "activate_tunnel G resolve c d n s =
     (let s = upd_dpn n (set_tunnel d (\<lambda>t. t\<lparr>DestEndPoint := Some n\<rparr>)) s in
      seq (nth_res (SmPolicyUpdates c) 0, s) (\<lambda>upd s.
      seq (case PccRuleUpdate upd of
             Some u \<Rightarrow> pcc_pdrs G c d n (add u) s
           | None \<Rightarrow> (case on_upf n (AddPDR G) s of
                 (Ok p, s) \<Rightarrow> put_tunnel_pdr d n ''default'' p s
               | (Err e, s) \<Rightarrow> (Err (''add PDR failed: '' @ e), s)
               | (Panic e, s) \<Rightarrow> (Panic e, s)))
        (\<lambda>_ s. seq (the_upf n s, s) (\<lambda>(p, u) s.
           PutPDRtoPFCPSession (node_key resolve u)
             (case TunPDR (tunnel d (dpnodes s ! n)) of None \<Rightarrow> [] | Some m \<Rightarrow> m) s))))"

text \<open>\<^verbatim>\<open>SrcEndPoint\<close> is assigned its own value.\<close>

definition ActivateUpLinkTunnel where "ActivateUpLinkTunnel G resolve c n s = activate_tunnel G resolve c UL n s"
definition ActivateDownLinkTunnel where "ActivateDownLinkTunnel G resolve c n s = activate_tunnel G resolve c DL n s"

definition ActivateUlDlTunnel :: "'g idgen \<Rightarrow> (node_id \<Rightarrow> ip) \<Rightarrow> nat \<Rightarrow> sm_context \<Rightarrow> data_path \<Rightarrow> 'g dp_state \<Rightarrow> (unit result \<times> 'g dp_state) option" where
  "ActivateUlDlTunnel G resolve k c d s =
     dp_loop k (\<lambda>n s. seq (ActivateUpLinkTunnel G resolve c n s) (\<lambda>_. ActivateDownLinkTunnel G resolve c n)) (FirstDPNode d) s"

section \<open>Contents of the rules\<close>

definition SourceInterfaceAccess :: u8 where "SourceInterfaceAccess = 0"
definition SourceInterfaceCore :: u8 where "SourceInterfaceCore = 1"
definition DestinationInterfaceAccess :: u8 where "DestinationInterfaceAccess = 0"
definition DestinationInterfaceCore :: u8 where "DestinationInterfaceCore = 1"
definition DestinationInterfaceSgiLanN6Lan :: u8 where "DestinationInterfaceSgiLanN6Lan = 2"
definition OuterHeaderCreationGtpUUdpIpv4 :: u16 where "OuterHeaderCreationGtpUUdpIpv4 = 256"
definition OuterHeaderRemovalGtpUUdpIpv4 :: u8 where "OuterHeaderRemovalGtpUUdpIpv4 = 0"

definition validateDataPathUpfStatus :: "nat \<Rightarrow> data_path \<Rightarrow> 'g dp_state \<Rightarrow> (unit result \<times> 'g dp_state) option" where
  "validateDataPathUpfStatus k d s = dp_loop k (\<lambda>n s. seq (the_upf n s, s) (\<lambda>(p, u) s.
     if UpfStatus u \<noteq> AssociatedSetUpSuccess then (Err ''UPF not associated in DataPath'', s) else (Ok (), s)))
     (FirstDPNode d) s"

text \<open>The address of the UE in a detection rule, chosen by the UPF or given by the context.\<close>

definition ue_ip_of :: "sm_context \<Rightarrow> 'g upf \<Rightarrow> ue_ip_address result" where
  "ue_ip_of c u = (if IsUpfSupportUeIpAddrAlloc u then Ok \<lparr>Ipv4Address = [], V4 = False, CHV4 = True\<rparr>
     else case PDUAddress c of
       None \<Rightarrow> Panic ''nil pointer dereference''
     | Some a \<Rightarrow> Ok \<lparr>Ipv4Address = To4 (UeIp a), V4 = True, CHV4 = False\<rparr>)"

text \<open>The N9 address of the UPF of node \<^verbatim>\<open>n\<close> for the session.\<close>

definition n9_address :: "nas_lib \<Rightarrow> (string \<Rightarrow> ip option) \<Rightarrow> sm_context \<Rightarrow> nat \<Rightarrow> 'g dp_state \<Rightarrow> ip result" where
  "n9_address nas net c n s = bind_res (the_upf n s) (\<lambda>(_, u). case GetInterface N9 (Dnn c) u of
      None \<Rightarrow> Err ''UPF Interface is nil for DNN''
    | Some i \<Rightarrow> Interface_IP nas net (SelectedPDUSessionType c) i)"

definition outer_header :: "ip \<Rightarrow> u32 \<Rightarrow> outer_header_creation" where
  "outer_header a t = \<lparr>OhcIpv4Address = a, Teid = t, OuterHeaderCreationDescription = OuterHeaderCreationGtpUUdpIpv4\<rparr>"

definition add_def_qer :: "nat \<Rightarrow> u32 \<Rightarrow> pdr \<Rightarrow> pdr" where
  "add_def_qer q prec x = x\<lparr>QER := QER x @ [q], PdrPrecedence := (if PdrPrecedence x = 0 then prec else PdrPrecedence x)\<rparr>"

definition uplink_fields :: "sm_context \<Rightarrow> ue_ip_address \<Rightarrow> pdr \<Rightarrow> pdr" where
  "uplink_fields c a x = x\<lparr>PDI := (PDI x)\<lparr>SourceInterface := SourceInterfaceAccess, LocalFTeidCh := Some True,
     UEIPAddress := Some a, PdiNetworkInstance := Dnn c\<rparr>, OuterHeaderRemoval := Some OuterHeaderRemovalGtpUUdpIpv4\<rparr>"

definition uplink_pdr :: "nas_lib \<Rightarrow> (string \<Rightarrow> ip option) \<Rightarrow> sm_context \<Rightarrow> nat \<Rightarrow> nat \<Rightarrow> u32 \<Rightarrow> ue_ip_address \<Rightarrow> nat \<Rightarrow>
    'g dp_state \<Rightarrow> unit result \<times> 'g dp_state" where
  "uplink_pdr nas net c n q prec a p s = (case pdrs (rules s) p of
      None \<Rightarrow> (Panic ''nil pointer dereference'', s)
    | Some pdr \<Rightarrow>
        (let s = set_pdr p (\<lambda>x. uplink_fields c a (add_def_qer q prec x)) s in
         case FAR pdr of
           None \<Rightarrow> (Panic ''nil pointer dereference'', s)
         | Some f \<Rightarrow>
             (let fwd = \<lparr>OuterHeaderCreation = None, PFCPSMReqFlags = None, FwdNetworkInstance = bytes_of (Dnn c),
                    DestinationInterface = (if IsAnchorUPF s n then DestinationInterfaceSgiLanN6Lan else DestinationInterfaceCore)\<rparr>;
                  s = set_far f (\<lambda>x. x\<lparr>ApplyAction := no_action\<lparr>Forw := True\<rparr>, ForwardingParameters := Some fwd\<rparr>) s in
              case Next s n of
                None \<Rightarrow> (Ok (), s)
              | Some m \<Rightarrow>
                  (case DestEndPoint (UpLinkTunnel (dpnodes s ! m)) of
                     None \<Rightarrow> (Panic ''nil pointer dereference'', s)
                   | Some e \<Rightarrow> seq (n9_address nas net c e s, s) (\<lambda>upIP s.
                       (Ok (), set_far f (\<lambda>x. x\<lparr>ForwardingParameters := Some (fwd\<lparr>OuterHeaderCreation :=
                          Some (outer_header upIP (TEID (UpLinkTunnel (dpnodes s ! m))))\<rparr>)\<rparr>) s))))))"

fun each_pdr :: "(nat \<Rightarrow> 's \<Rightarrow> unit result \<times> 's) \<Rightarrow> nat go_map \<Rightarrow> 's \<Rightarrow> unit result \<times> 's" where
  "each_pdr f [] s = (Ok (), s)"
| "each_pdr f ((_, p) # ps) s = seq (f p s) (\<lambda>_. each_pdr f ps)"

definition tunnel_pdrs :: "direction \<Rightarrow> nat \<Rightarrow> 'g dp_state \<Rightarrow> nat go_map" where
  "tunnel_pdrs d n s = (case TunPDR (tunnel d (dpnodes s ! n)) of None \<Rightarrow> [] | Some m \<Rightarrow> m)"

definition ActivateUpLinkPdr :: "nas_lib \<Rightarrow> (string \<Rightarrow> ip option) \<Rightarrow> sm_context \<Rightarrow> nat \<Rightarrow> nat \<Rightarrow> u32 \<Rightarrow>
    'g dp_state \<Rightarrow> unit result \<times> 'g dp_state" where
  "ActivateUpLinkPdr nas net c n q prec s =
     seq (bind_res (the_upf n s) (\<lambda>(_, u). ue_ip_of c u), s) (\<lambda>a s.
       each_pdr (uplink_pdr nas net c n q prec a) (tunnel_pdrs UL n s) s)"

text \<open>On the first node the known address of the access network goes to the rule \<^verbatim>\<open>default\<close>, whichever
  rule the loop is at.\<close>

definition access_header :: "sm_context \<Rightarrow> 'g dp_state \<Rightarrow> forwarding_parameters" where
  "access_header c s = \<lparr>OuterHeaderCreation = Some (outer_header (To4 (anIP s)) (anTEID s)),
     PFCPSMReqFlags = None, FwdNetworkInstance = bytes_of (Dnn c), DestinationInterface = DestinationInterfaceAccess\<rparr>"

definition downlink_to_an :: "sm_context \<Rightarrow> data_path \<Rightarrow> 'g dp_state \<Rightarrow> unit result \<times> 'g dp_state" where
  "downlink_to_an c d s = (if anIP s = [] then (Ok (), s)
     else case Option.bind (FirstDPNode d) (\<lambda>an. Option.bind (map_of (tunnel_pdrs DL an s) ''default'')
            (\<lambda>p. Option.bind (pdrs (rules s) p) FAR)) of
       None \<Rightarrow> (Panic ''nil pointer dereference'', s)
     | Some f \<Rightarrow> (Ok (), set_far f (\<lambda>x. x\<lparr>ForwardingParameters := Some (access_header c s)\<rparr>) s))"

definition downlink_fields :: "bool \<Rightarrow> ue_ip_address \<Rightarrow> pdr \<Rightarrow> pdr" where
  "downlink_fields anchor a x = x\<lparr>PDI := (PDI x)\<lparr>SourceInterface := SourceInterfaceCore, UEIPAddress := Some a\<rparr>,
     OuterHeaderRemoval := (if anchor then OuterHeaderRemoval x else Some OuterHeaderRemovalGtpUUdpIpv4)\<rparr>"

definition downlink_pdr :: "nas_lib \<Rightarrow> (string \<Rightarrow> ip option) \<Rightarrow> sm_context \<Rightarrow> nat \<Rightarrow> nat \<Rightarrow> u32 \<Rightarrow> data_path \<Rightarrow> ue_ip_address \<Rightarrow> nat \<Rightarrow>
    'g dp_state \<Rightarrow> unit result \<times> 'g dp_state" where
  "downlink_pdr nas net c n q prec d a p s = (case pdrs (rules s) p of
      None \<Rightarrow> (Panic ''nil pointer dereference'', s)
    | Some pdr \<Rightarrow>
        (let s = set_pdr p (\<lambda>x. downlink_fields (IsAnchorUPF s n) a (add_def_qer q prec x)) s in
         case Prev s n of
           None \<Rightarrow> downlink_to_an c d s
         | Some m \<Rightarrow>
             (case FAR pdr of
                None \<Rightarrow> (Panic ''nil pointer dereference'', s)
              | Some f \<Rightarrow>
                  (let s = set_far f (\<lambda>x. x\<lparr>ApplyAction := no_action\<lparr>Buff := True, Nocp := True\<rparr>\<rparr>) s in
                   seq (n9_address nas net c m s, s) (\<lambda>upIP s.
                     (Ok (), set_far f (\<lambda>x. x\<lparr>ForwardingParameters := Some
                        \<lparr>OuterHeaderCreation = Some (outer_header upIP (TEID (DownLinkTunnel (dpnodes s ! m)))),
                         PFCPSMReqFlags = None, FwdNetworkInstance = [], DestinationInterface = DestinationInterfaceAccess\<rparr>\<rparr>) s))))))"

definition ActivateDlLinkPdr :: "nas_lib \<Rightarrow> (string \<Rightarrow> ip option) \<Rightarrow> sm_context \<Rightarrow> nat \<Rightarrow> nat \<Rightarrow> u32 \<Rightarrow> data_path \<Rightarrow>
    'g dp_state \<Rightarrow> unit result \<times> 'g dp_state" where
  "ActivateDlLinkPdr nas net c n q prec d s =
     seq (bind_res (the_upf n s) (\<lambda>(_, u). ue_ip_of c u), s) (\<lambda>a s.
       each_pdr (downlink_pdr nas net c n q prec d a) (tunnel_pdrs DL n s) s)"

text \<open>An error of the two calls above is logged; a panic is not caught.\<close>

definition logged :: "unit result \<times> 's \<Rightarrow> unit result \<times> 's" where
  "logged m = (case m of (Err _, s) \<Rightarrow> (Ok (), s) | _ \<Rightarrow> m)"

definition anchor_pdr :: "sm_context \<Rightarrow> ue_ip_address \<Rightarrow> nat \<Rightarrow> 'g dp_state \<Rightarrow> unit result \<times> 'g dp_state" where
  "anchor_pdr c a p s = (case pdrs (rules s) p of
      None \<Rightarrow> (Panic ''nil pointer dereference'', s)
    | Some _ \<Rightarrow> (Ok (), set_pdr p (\<lambda>x. x\<lparr>PDI := (PDI x)\<lparr>SourceInterface := SourceInterfaceCore,
         PdiNetworkInstance := Dnn c, UEIPAddress := Some a\<rparr>\<rparr>) s))"

definition activate_node :: "'g idgen \<Rightarrow> nas_lib \<Rightarrow> (string \<Rightarrow> ip option) \<Rightarrow> sm_context \<Rightarrow> u32 \<Rightarrow> data_path \<Rightarrow> nat \<Rightarrow>
    'g dp_state \<Rightarrow> unit result \<times> 'g dp_state" where
  "activate_node G nas net c prec d n s =
     seq (CreateSessRuleQer G c n s) (\<lambda>q s.
     seq (logged (ActivateUpLinkPdr nas net c n q prec s)) (\<lambda>_ s.
     seq (logged (ActivateDlLinkPdr nas net c n q prec d s)) (\<lambda>_ s.
     seq (bind_res (the_upf n s) (\<lambda>(_, u). ue_ip_of c u), s) (\<lambda>a s.
     if SrcEndPoint (DownLinkTunnel (dpnodes s ! n)) = None
     then each_pdr (anchor_pdr c a) (tunnel_pdrs DL n s) s else (Ok (), s)))))"

text \<open>The sequence of the loops; \<^verbatim>\<open>None\<close> is a loop that did not end within the bound.\<close>

definition then_loop :: "(unit result \<times> 's) option \<Rightarrow> ('s \<Rightarrow> (unit result \<times> 's) option) \<Rightarrow> (unit result \<times> 's) option" where
  "then_loop m f = (case m of None \<Rightarrow> None | Some (Ok _, s) \<Rightarrow> f s | Some (r, s) \<Rightarrow> Some (r, s))"

definition ActivateTunnelAndPDR :: "'g idgen \<Rightarrow> (node_id \<Rightarrow> ip) \<Rightarrow> nas_lib \<Rightarrow> (string \<Rightarrow> ip option) \<Rightarrow> nat \<Rightarrow> sm_context \<Rightarrow> u32 \<Rightarrow>
    data_path \<Rightarrow> 'g dp_state \<Rightarrow> (unit result \<times> data_path \<times> 'g dp_state) option" where
  "ActivateTunnelAndPDR G resolve nas net k c precedence d s =
     (case then_loop (validateDataPathUpfStatus k d s) (\<lambda>s.
           then_loop (AllocateLocalSEIDForDataPath resolve k d s) (\<lambda>s.
           then_loop (ActivateUlDlTunnel G resolve k c d s) (\<lambda>s.
           dp_loop k (activate_node G nas net c precedence d) (FirstDPNode d) s))) of
        None \<Rightarrow> None
      | Some (r, s) \<Rightarrow> Some (r, (if is_Ok r then d\<lparr>Activated := True\<rparr> else d), s))"

section \<open>Release\<close>

text \<open>An error of the UPF's removal operations is logged, so only the UPF they leave matters.\<close>

definition upd_upf :: "nat \<Rightarrow> ('g upf \<Rightarrow> unit result \<times> 'g upf) \<Rightarrow> 'g dp_state \<Rightarrow> 'g dp_state" where
  "upd_upf p f s = s\<lparr>dupfs := (dupfs s)[p := snd (f (dupfs s ! p))]\<rparr>"

definition remove_bar :: "'g idgen \<Rightarrow> nat \<Rightarrow> nat option \<Rightarrow> 'g dp_state \<Rightarrow> 'g dp_state" where
  "remove_bar G u b s = (case Option.bind b (bars (rules s)) of None \<Rightarrow> s | Some bar \<Rightarrow> upd_upf u (RemoveBAR G bar) s)"

definition remove_far :: "'g idgen \<Rightarrow> nat \<Rightarrow> nat option \<Rightarrow> 'g dp_state \<Rightarrow> 'g dp_state" where
  "remove_far G u f s = (case Option.bind f (fars (rules s)) of None \<Rightarrow> s
     | Some far \<Rightarrow> remove_bar G u (BAR far) (upd_upf u (RemoveFAR G far) s))"

definition remove_qer :: "'g idgen \<Rightarrow> nat \<Rightarrow> nat \<Rightarrow> 'g dp_state \<Rightarrow> 'g dp_state" where
  "remove_qer G u q s = (case qers (rules s) q of None \<Rightarrow> s | Some qer \<Rightarrow> upd_upf u (RemoveQER G qer) s)"

definition deactivate_pdr :: "'g idgen \<Rightarrow> (node_id \<Rightarrow> ip) \<Rightarrow> nat \<Rightarrow> nat \<Rightarrow> 'g dp_state \<Rightarrow> unit result \<times> 'g dp_state" where
  "deactivate_pdr G resolve n p s = (case pdrs (rules s) p of
      None \<Rightarrow> (Ok (), s)
    | Some pdr \<Rightarrow>
        seq (the_upf n s, s) (\<lambda>(u, x) s.
        seq (RemovePDRfromPFCPSession (node_key resolve x) pdr s) (\<lambda>_ s.
        (Ok (), fold (remove_qer G u) (QER pdr) (remove_far G u (FAR pdr) (upd_upf u (RemovePDR G pdr) s))))))"

definition clear_downlink :: "nat \<Rightarrow> 'g dp_state \<Rightarrow> 'g dp_state" where
  "clear_downlink n s = upd_dpn n (\<lambda>x. x\<lparr>DownLinkTunnel := empty_tunnel\<rparr>) s"

text \<open>Both functions reset the downlink tunnel of the node.\<close>

definition DeactivateUpLinkTunnel :: "'g idgen \<Rightarrow> (node_id \<Rightarrow> ip) \<Rightarrow> nat \<Rightarrow> 'g dp_state \<Rightarrow> unit result \<times> 'g dp_state" where
  "DeactivateUpLinkTunnel G resolve n s =
     seq (each_pdr (deactivate_pdr G resolve n) (tunnel_pdrs UL n s) s) (\<lambda>_ s. (Ok (), clear_downlink n s))"

definition DeactivateDownLinkTunnel :: "'g idgen \<Rightarrow> (node_id \<Rightarrow> ip) \<Rightarrow> nat \<Rightarrow> 'g dp_state \<Rightarrow> unit result \<times> 'g dp_state" where
  "DeactivateDownLinkTunnel G resolve n s =
     seq (each_pdr (deactivate_pdr G resolve n) (tunnel_pdrs DL n s) s) (\<lambda>_ s. (Ok (), clear_downlink n s))"

definition DeactivateTunnelAndPDR :: "'g idgen \<Rightarrow> (node_id \<Rightarrow> ip) \<Rightarrow> nat \<Rightarrow> data_path \<Rightarrow> 'g dp_state \<Rightarrow>
    (unit result \<times> data_path \<times> 'g dp_state) option" where
  "DeactivateTunnelAndPDR G resolve k d s =
     (case dp_loop k (\<lambda>n s. seq (DeactivateUpLinkTunnel G resolve n s) (\<lambda>_. DeactivateDownLinkTunnel G resolve n)) (FirstDPNode d) s of
        None \<Rightarrow> None
      | Some (r, s) \<Rightarrow> Some (r, (if is_Ok r then d\<lparr>Activated := False\<rparr> else d), s))"

text \<open>\<^verbatim>\<open>releaseTunnel\<close> deactivates every path of the tunnel and notes the UPFs of the nodes it then
  visits; in a second pass it sends each of those UPFs one deletion request.  Its bodies do not change
  the links, so the nodes are listed first.\<close>

fun walk :: "nat \<Rightarrow> nat option \<Rightarrow> 'g dp_state \<Rightarrow> nat list option" where
  "walk k None s = Some []"
| "walk 0 (Some n) s = None"
| "walk (Suc k) (Some n) s = map_option ((#) n) (walk k (Next s n) s)"

definition GetUPFID :: "(node_id \<Rightarrow> ip) \<Rightarrow> 'g upf \<Rightarrow> 'g upi \<Rightarrow> (string option \<times> 'g upi) result" where
  "GetUPFID resolve u t = (case map_of (UPFsIPtoID t) (node_key resolve u) of
      Some i \<Rightarrow> Ok (Some i, t)
    | None \<Rightarrow> bind_res (AllocateUPFID resolve t) (\<lambda>t. Ok (map_of (UPFsIPtoID t) (node_key resolve u), t)))"

fun release_targets :: "(node_id \<Rightarrow> ip) \<Rightarrow> nat list \<Rightarrow> string list \<Rightarrow> 'g upi \<Rightarrow> 'g dp_state \<Rightarrow> (node_id list \<times> string list \<times> 'g upi) result" where
  "release_targets resolve [] deleted t s = Ok ([], deleted, t)"
| "release_targets resolve (n # ns) deleted t s =
     bind_res (the_upf n s) (\<lambda>(_, u). bind_res (GetUPFID resolve u t) (\<lambda>(i, t). case i of
        None \<Rightarrow> release_targets resolve ns deleted t s
      | Some i \<Rightarrow>
          if i \<in> set deleted then release_targets resolve ns deleted t s
          else bind_res (release_targets resolve ns (i # deleted) t s) (\<lambda>(xs, r). Ok (NodeID u # xs, r))))"


fun release_phase1 :: "'g idgen \<Rightarrow> (node_id \<Rightarrow> ip) \<Rightarrow> nat \<Rightarrow> data_path list \<Rightarrow> string list \<Rightarrow> 'g upi \<Rightarrow> 'g dp_state \<Rightarrow>
    ((node_id list \<times> 'g upi) result \<times> 'g dp_state) option" where
  "release_phase1 G resolve k [] deleted t s = Some (Ok ([], t), s)"
| "release_phase1 G resolve k (d # ds) deleted t s =
     (case DeactivateTunnelAndPDR G resolve k d s of
        None \<Rightarrow> None
      | Some (Ok _, _, s) \<Rightarrow>
          (case walk k (FirstDPNode d) s of
             None \<Rightarrow> None
           | Some ns \<Rightarrow>
               (case release_targets resolve ns deleted t s of
                  Ok (xs, deleted, t) \<Rightarrow>
                    map_option (\<lambda>(r, s). (bind_res r (\<lambda>(ys, t). Ok (xs @ ys, t)), s)) (release_phase1 G resolve k ds deleted t s)
                | Err e \<Rightarrow> Some (Err e, s) | Panic e \<Rightarrow> Some (Panic e, s)))
      | Some (Err e, _, s) \<Rightarrow> Some (Err e, s)
      | Some (Panic e, _, s) \<Rightarrow> Some (Panic e, s))"

fun walks :: "nat \<Rightarrow> data_path list \<Rightarrow> 'g dp_state \<Rightarrow> nat list option" where
  "walks k [] s = Some []"
| "walks k (d # ds) s = (case (walk k (FirstDPNode d) s, walks k ds s) of
      (Some ns, Some ms) \<Rightarrow> Some (ns @ ms) | _ \<Rightarrow> None)"

record release =
  PendingUPF :: "string list"
  DeletionRequests :: "node_id list"

text \<open>No tunnel: it was released before.\<close>

definition releaseTunnel :: "'g idgen \<Rightarrow> (node_id \<Rightarrow> ip) \<Rightarrow> nat \<Rightarrow> data_path list option \<Rightarrow> 'g upi \<Rightarrow> 'g dp_state \<Rightarrow>
    (release option result \<times> 'g dp_state) option" where
  "releaseTunnel G resolve k tun t s = (case tun of
      None \<Rightarrow> Some (Ok None, s)
    | Some ds \<Rightarrow>
        (case release_phase1 G resolve k ds [] t s of
           None \<Rightarrow> None
         | Some (Ok (xs, t), s) \<Rightarrow>
             (case walks k ds s of
                None \<Rightarrow> None
              | Some ns \<Rightarrow> Some (bind_res (release_targets resolve ns [] t s) (\<lambda>(ys, _).
                  Ok (Some \<lparr>PendingUPF = remdups (map (\<lambda>i. IPString (resolve i)) xs), DeletionRequests = ys\<rparr>)), s))
         | Some (Err e, s) \<Rightarrow> Some (Err e, s)
         | Some (Panic e, s) \<Rightarrow> Some (Panic e, s)))"

section \<open>Tunnels and pre-configured paths\<close>

text \<open>A pool of paths maps identifiers to paths.\<close>

type_synonym data_path_pool = "(int \<times> data_path) list"

record 'g up_tunnel =
  PathIDGenerator :: 'g
  DataPathPool :: data_path_pool

definition NewUPTunnel :: "'g idgen \<Rightarrow> 'g up_tunnel" where
  "NewUPTunnel G = \<lparr>PathIDGenerator = gen_new G 1 2147483647, DataPathPool = []\<rparr>"

definition AddDataPath :: "'g idgen \<Rightarrow> data_path \<Rightarrow> 'g up_tunnel \<Rightarrow> 'g up_tunnel" where
  "AddDataPath G d t = (case gen_alloc G (PathIDGenerator t) of
      Ok (i, g') \<Rightarrow> t\<lparr>PathIDGenerator := g', DataPathPool := AList.update i d (DataPathPool t)\<rparr>
    | _ \<Rightarrow> t)"

definition GetDefaultPath :: "data_path_pool \<Rightarrow> data_path option" where
  "GetDefaultPath pool = map_option snd (List.find (\<lambda>(_, d). IsDefaultPath d) pool)"

text \<open>The configured path of a UE: destination and names of UPFs.  \<^verbatim>\<open>upNodes\<close> gives the UPF of each
  name of the topology, nothing inside for a node without UPF.\<close>

record cfg_path =
  CfgDestinationIP :: string
  CfgDestinationPort :: string
  CfgUPF :: "string list"

definition NewUEDataPathNode :: "nat option go_map \<Rightarrow> string \<Rightarrow> dp_node result" where
  "NewUEDataPathNode upNodes name = (case map_of upNodes name of
      None \<Rightarrow> Err (''upNode '' @ name @ '' isn't exist in smfcfg.yaml, but in UERouting.yaml'')
    | Some u \<Rightarrow> Ok \<lparr>DpUPF = u, UpLinkTunnel = empty_tunnel, DownLinkTunnel = empty_tunnel, IsBranchingPoint = False\<rparr>)"

fun ue_nodes :: "nat option go_map \<Rightarrow> string list \<Rightarrow> nat option \<Rightarrow> data_path \<Rightarrow> 'g dp_state \<Rightarrow> data_path result \<times> 'g dp_state" where
  "ue_nodes upNodes [] parent d s = (Ok d, s)"
| "ue_nodes upNodes (name # names) parent d s = seq (NewUEDataPathNode upNodes name, s) (\<lambda>x s.
     let cur = length (dpnodes s);
         s = s\<lparr>dpnodes := dpnodes s @ [x]\<rparr>;
         d = (if parent = None then d\<lparr>FirstDPNode := Some cur\<rparr> else d);
         s = (case parent of None \<Rightarrow> s | Some p \<Rightarrow> AddNext p (Some cur) (AddPrev cur (Some p) s))
     in ue_nodes upNodes names (Some cur) d s)"

text \<open>\<^verbatim>\<open>dataPath.String()\<close>, called for the log, asks every node for the address of its UPF.\<close>

fun string_panics :: "nat list \<Rightarrow> 'g dp_state \<Rightarrow> bool" where
  "string_panics [] s = False"
| "string_panics (n # ns) s = (is_Panic (the_upf n s) \<or> string_panics ns s)"

fun ue_paths :: "'g idgen \<Rightarrow> nat option go_map \<Rightarrow> cfg_path list \<Rightarrow> bool \<Rightarrow> 'g up_tunnel \<Rightarrow> 'g dp_state \<Rightarrow> 'g up_tunnel result \<times> 'g dp_state" where
  "ue_paths G upNodes [] first t s = (Ok t, s)"
| "ue_paths G upNodes (c # cs) first t s =
     (case gen_alloc G (PathIDGenerator t) of
        Ok (i, g') \<Rightarrow>
          (let d = NewDataPath\<lparr>IsDefaultPath := first,
                 Destination := \<lparr>DestinationIP = CfgDestinationIP c, DestinationPort = CfgDestinationPort c, Url = ''''\<rparr>\<rparr>;
               a = length (dpnodes s) in
           seq (ue_nodes upNodes (CfgUPF c) None d s) (\<lambda>d s.
           if string_panics [a ..< length (dpnodes s)] s then (Panic ''nil pointer dereference'', s)
           else ue_paths G upNodes cs False
             (t\<lparr>PathIDGenerator := g', DataPathPool := AList.update i d (DataPathPool t)\<rparr>) s))
      | Err e \<Rightarrow> (Err e, s) | Panic e \<Rightarrow> (Panic e, s))"

definition NewUEPreConfigPaths :: "'g idgen \<Rightarrow> nat option go_map option \<Rightarrow> cfg_path list \<Rightarrow> 'g dp_state \<Rightarrow> 'g up_tunnel result \<times> 'g dp_state" where
  "NewUEPreConfigPaths G upNodes paths s = (case upNodes of
      Some ns \<Rightarrow> ue_paths G ns paths True (NewUPTunnel G) s
    | None \<Rightarrow>
        if list_all (\<lambda>c. CfgUPF c = []) paths then ue_paths G [] paths True (NewUPTunnel G) s
        else (Err ''smfContext.UserPlaneInformation is nil'', s))"

section \<open>Branching points\<close>

datatype BPStatus = UnInitialized | AddingPSA | AddPSASuccess | InitializedSuccess | InitializedFail

datatype AddingPSAState = ActivatingDataPath | EstablishingNewPSA | EstablishingULCL | UpdatingPSA2DownLink
  | UpdatingRANAndIUPFUpLink | Finished

record bp_manager =
  ULCL :: "nat option"
  ActivatingPath :: "data_path option"
  UpdatedBranchingPoint :: "(nat \<times> int) list"
  ActivatedPaths :: "data_path list"
  BpStatus :: BPStatus
  BpAddingPSAState :: AddingPSAState

definition NewBPManager :: bp_manager where
  "NewBPManager = \<lparr>ULCL = None, ActivatingPath = None, UpdatedBranchingPoint = [], ActivatedPaths = [],
     BpStatus = UnInitialized, BpAddingPSAState = ActivatingDataPath\<rparr>"

text \<open>The first path of the pool that is not activated becomes the activating one; without one the last
  choice stays.\<close>

definition SelectPSA2 :: "data_path_pool \<Rightarrow> bp_manager \<Rightarrow> bp_manager" where
  "SelectPSA2 pool m = m\<lparr>ActivatedPaths := filter Activated (map snd pool),
     ActivatingPath := (case List.find (\<lambda>d. \<not> Activated d) (map snd pool) of None \<Rightarrow> ActivatingPath m | Some d \<Rightarrow> Some d)\<rparr>"

fun common_prefix :: "nat \<Rightarrow> nat option \<Rightarrow> nat option \<Rightarrow> int \<Rightarrow> (nat \<times> int) list \<Rightarrow> 'g dp_state \<Rightarrow> (nat \<times> int) list result option" where
  "common_prefix k None psa1 depth bps s = Some (Ok bps)"
| "common_prefix 0 (Some n) psa1 depth bps s = None"
| "common_prefix (Suc k) (Some n) psa1 depth bps s =
     (case bind_res (the_upf n s) (\<lambda>(p, u). case psa1 of
         None \<Rightarrow> Panic ''nil pointer dereference''
       | Some m \<Rightarrow> bind_res (the_upf m s) (\<lambda>(_, v). Ok (p, m, NodeID u = NodeID v))) of
        Ok (p, m, same) \<Rightarrow>
          if same then common_prefix k (Next s n) (Next s m) (depth + 1)
             (if map_of bps p = None then bps @ [(p, depth + 1)] else bps) s
          else Some (Ok bps)
      | Err e \<Rightarrow> Some (Err e) | Panic e \<Rightarrow> Some (Panic e))"

fun common_prefixes :: "nat \<Rightarrow> nat option \<Rightarrow> data_path list \<Rightarrow> (nat \<times> int) list \<Rightarrow> 'g dp_state \<Rightarrow> (nat \<times> int) list result option" where
  "common_prefixes k psa2 [] bps s = Some (Ok bps)"
| "common_prefixes k psa2 (d # ds) bps s = (case common_prefix k psa2 (FirstDPNode d) 0 bps s of
      Some (Ok bps) \<Rightarrow> common_prefixes k psa2 ds bps s
    | r \<Rightarrow> r)"

definition deepest :: "(nat \<times> int) list \<Rightarrow> nat option \<Rightarrow> nat option" where
  "deepest bps ulcl = fst (fold (\<lambda>(p, depth) (r, m). if depth > m then (Some p, depth) else (r, m)) bps (ulcl, 0))"

definition FindULCL :: "nat \<Rightarrow> bp_manager \<Rightarrow> 'g dp_state \<Rightarrow> bp_manager result option" where
  "FindULCL k m s = (case (if ActivatedPaths m = [] then Some (Ok [])
       else case ActivatingPath m of None \<Rightarrow> Some (Panic ''nil pointer dereference'')
         | Some a \<Rightarrow> common_prefixes k (FirstDPNode a) (ActivatedPaths m) [] s) of
      None \<Rightarrow> None
    | Some r \<Rightarrow> Some (bind_res r (\<lambda>bps. Ok (m\<lparr>UpdatedBranchingPoint := bps, ULCL := deepest bps (ULCL m)\<rparr>))))"

section \<open>Generated paths\<close>

text \<open>The nodes of a path written out: each knows its predecessor and its successor.\<close>

fun chain :: "nat option list \<Rightarrow> nat option \<Rightarrow> nat \<Rightarrow> dp_node list" where
  "chain [] prev a = []"
| "chain (u # us) prev a =
     NewDataPathNode\<lparr>DpUPF := u, UpLinkTunnel := empty_tunnel\<lparr>TunPDR := Some [], SrcEndPoint := prev\<rparr>,
       DownLinkTunnel := empty_tunnel\<lparr>TunPDR := Some [], SrcEndPoint := (if us = [] then None else Some (Suc a))\<rparr>\<rparr>
     # chain us (Some a) (Suc a)"

lemma length_chain [simp]: "length (chain us prev a) = length us"
  by (induction us prev a rule: chain.induct) auto

lemma nth_chain:
  "i < length us \<Longrightarrow> DpUPF (chain us prev a ! i) = us ! i
     \<and> SrcEndPoint (UpLinkTunnel (chain us prev a ! i)) = (if i = 0 then prev else Some (a + i - 1))
     \<and> SrcEndPoint (DownLinkTunnel (chain us prev a ! i)) = (if Suc i = length us then None else Some (Suc (a + i)))
     \<and> TunPDR (UpLinkTunnel (chain us prev a ! i)) = Some [] \<and> TunPDR (DownLinkTunnel (chain us prev a ! i)) = Some []"
  by (induction us prev a arbitrary: i rule: chain.induct) (auto simp: nth_Cons split: nat.splits)

lemma gen_nodes_chain:
  assumes "case prev of None \<Rightarrow> True | Some p \<Rightarrow> p < length (dpnodes s)"
  shows "gen_nodes us prev s = s\<lparr>dpnodes := (case prev of None \<Rightarrow> dpnodes s
     | Some p \<Rightarrow> if us = [] then dpnodes s else (dpnodes s)[p := (dpnodes s ! p)\<lparr>DownLinkTunnel :=
         (DownLinkTunnel (dpnodes s ! p))\<lparr>SrcEndPoint := Some (length (dpnodes s))\<rparr>\<rparr>])
     @ chain us prev (length (dpnodes s))\<rparr>"
  using assms
proof (induction us prev s rule: gen_nodes.induct)
  case (1 prev s)
  then show ?case by (cases prev) auto
next
  case (2 u us prev s)
  show ?case using 2(2)
    by (simp add: 2(1) AddPrev_def AddNext_def upd_dpn_def Let_def empty_tunnel_def NewDataPathNode_def
      nth_append list_update_append split: option.splits)
qed

lemma walk_chain:
  assumes "\<And>i. i < m \<Longrightarrow> Next s (a + i) = (if Suc i = m then None else Some (Suc (a + i)))" and "0 < m" and "m \<le> k"
  shows "walk k (Some a) s = Some [a ..< a + m]"
  using assms
proof (induction m arbitrary: a k)
  case (Suc m)
  obtain k' where k: "k = Suc k'" using Suc.prems by (cases k) auto
  have next_a: "Next s a = (if m = 0 then None else Some (Suc a))" using Suc.prems(1)[of 0] by auto
  show ?case
  proof (cases "m = 0")
    case False
    have "walk k' (Some (Suc a)) s = Some [Suc a ..< Suc a + m]"
      using Suc.IH[of "Suc a" k'] Suc.prems(1)[of "Suc _"] Suc.prems(3) False k by simp
    then show ?thesis using next_a False k by (simp add: upt_conv_Cons)
  qed (use next_a k in \<open>simp add: upt_rec\<close>)
qed simp

text \<open>C19: A generated data path is a doubly linked list over the given UPFs: following \<^verbatim>\<open>Next\<close> from the
  first node visits one fresh node per UPF, in order, and ends; \<^verbatim>\<open>Prev\<close> leads back along the same nodes;
  only the first node serves the access network and only the last is the anchor.  Existing nodes are not
  touched.\<close>

theorem GenerateDataPath_linked:
  assumes "GenerateDataPath us s = (Some d, s')"
  defines "a \<equiv> length (dpnodes s)"
  shows "walk (length us) (FirstDPNode d) s' = Some [a ..< a + length us]
    \<and> map (\<lambda>n. DpUPF (dpnodes s' ! n)) [a ..< a + length us] = us
    \<and> (\<forall>i < length us. Prev s' (a + i) = (if i = 0 then None else Some (a + i - 1)))
    \<and> (\<forall>i < length us. (IsANUPF s' (a + i) \<longleftrightarrow> i = 0) \<and> (IsAnchorUPF s' (a + i) \<longleftrightarrow> Suc i = length us))
    \<and> take a (dpnodes s') = dpnodes s"
proof -
  have us: "us \<noteq> []" and d: "FirstDPNode d = Some a" and s': "dpnodes s' = dpnodes s @ chain us None a"
    using assms(1) by (auto simp: GenerateDataPath_def a_def gen_nodes_chain split: if_splits)
  have node: "dpnodes s' ! (a + i) = chain us None a ! i" for i by (simp add: s' a_def)
  have next_i: "Next s' (a + i) = (if Suc i = length us then None else Some (Suc (a + i)))" if "i < length us" for i
    using nth_chain[OF that, of None a] by (simp add: Next_def node)
  have prev_i: "Prev s' (a + i) = (if i = 0 then None else Some (a + i - 1))" if "i < length us" for i
    using nth_chain[OF that, of None a] by (simp add: Prev_def node)
  have "walk (length us) (Some a) s' = Some [a ..< a + length us]"
    using us by (intro walk_chain) (auto simp: next_i)
  moreover have "map (\<lambda>n. DpUPF (dpnodes s' ! n)) [a ..< a + length us] = us"
    by (rule nth_equalityI) (use nth_chain[of _ us None a] node in auto)
  moreover have "take a (dpnodes s') = dpnodes s" by (simp add: s' a_def)
  ultimately show ?thesis using d next_i prev_i by (simp add: IsANUPF_def IsAnchorUPF_def)
qed

definition empty_dps :: "id_pool dp_state" where
  "empty_dps = \<lparr>dpnodes = [], dupfs = [sample_upf, sample_upf\<lparr>NodeID := NewNodeID ''10.0.0.2''\<rparr>], rules = no_rules,
     sessions = [], seidCount = 0, seidContexts = {}, anIP = [], anTEID = 0\<rparr>"

definition two_node_path :: "data_path \<times> id_pool dp_state" where
  "two_node_path = (NewDataPath\<lparr>FirstDPNode := Some 0\<rparr>, empty_dps\<lparr>dpnodes := chain [Some 0, Some 1] None 0\<rparr>)"

lemma two_node_path_generated: "GenerateDataPath [Some 0, Some 1] empty_dps = (Some (fst two_node_path), snd two_node_path)"
  using gen_nodes_chain[of empty_dps None "[Some 0, Some 1]"]
  by (simp add: GenerateDataPath_def two_node_path_def empty_dps_def del: gen_nodes.simps chain.simps)

theorem GenerateDataPath_linked_witness:
  "walk 2 (FirstDPNode (fst two_node_path)) (snd two_node_path) = Some [0, 1]
     \<and> IsAnchorUPF (snd two_node_path) 1 \<and> \<not> IsAnchorUPF (snd two_node_path) 0"
  using GenerateDataPath_linked[OF two_node_path_generated]
  by (auto simp: empty_dps_def less_Suc_eq numeral_2_eq_2)

section \<open>What a release releases\<close>

text \<open>Releasing rules changes no node and no rule, and of the detection rule identifiers of any UPF only
  those in \<^verbatim>\<open>I\<close>.\<close>

definition released :: "u16 set \<Rightarrow> 'g dp_state \<Rightarrow> 'g dp_state \<Rightarrow> bool" where
  "released I s s' \<longleftrightarrow> dpnodes s' = dpnodes s \<and> rules s' = rules s \<and> length (dupfs s') = length (dupfs s)
     \<and> (\<forall>u < length (dupfs s). \<forall>i. i \<notin> I \<longrightarrow> pdrPool (dupfs s' ! u) i = pdrPool (dupfs s ! u) i)"

lemma released_refl [simp]: "released I s s"
  by (simp add: released_def)

lemma released_trans: "released I s s' \<Longrightarrow> released I s' s'' \<Longrightarrow> released I s s''"
  by (simp add: released_def)

lemma released_mono: "released I s s' \<Longrightarrow> I \<subseteq> J \<Longrightarrow> released J s s'"
  by (auto simp: released_def)

lemma released_upd_upf:
  assumes "\<And>u i. i \<notin> I \<Longrightarrow> pdrPool (snd (f u)) i = pdrPool u i"
  shows "released I s (upd_upf p f s)"
  using assms by (auto simp: released_def upd_upf_def) (metis nth_list_update_eq nth_list_update_neq)

lemma released_remove_bar: "released I s (remove_bar G u b s)"
  by (auto simp: remove_bar_def RemoveBAR_def split: option.splits intro!: released_upd_upf)

lemma released_remove_far: "released I s (remove_far G u f s)"
  by (auto simp: remove_far_def RemoveFAR_def split: option.splits intro!: released_trans[OF released_upd_upf released_remove_bar])

lemma released_remove_qers: "released I s (fold (remove_qer G u) qs s)"
proof (induction qs arbitrary: s)
  case (Cons q qs)
  have "released I s (remove_qer G u q s)"
    by (auto simp: remove_qer_def RemoveQER_def split: option.splits intro!: released_upd_upf)
  then show ?case using released_trans[OF _ Cons.IH] by simp
qed simp

lemma released_session: "RemovePDRfromPFCPSession key pdr s = (r, s') \<Longrightarrow> released I s s'"
  by (auto simp: RemovePDRfromPFCPSession_def released_def split: option.splits)

lemma released_deactivate_pdr:
  assumes "deactivate_pdr G resolve n p s = (r, s')"
  shows "released {PDRID x |x. pdrs (rules s) p = Some x} s s'"
proof (cases "pdrs (rules s) p")
  case None
  then show ?thesis using assms by (simp add: deactivate_pdr_def)
next
  case (Some x)
  let ?I = "{PDRID x}"
  have pdr: "released ?I t (fold (remove_qer G u) (QER x) (remove_far G u (FAR x) (upd_upf u (RemovePDR G x) t)))" for u t
    by (intro released_trans[OF _ released_remove_qers] released_trans[OF _ released_remove_far] released_upd_upf)
      (auto simp: RemovePDR_def)
  have "released ?I s s'"
  proof (cases "the_upf n s")
    case (Ok up)
    obtain u y where up: "up = (u, y)" by (cases up)
    obtain r1 s1 where 1: "RemovePDRfromPFCPSession (node_key resolve y) x s = (r1, s1)" by (cases "RemovePDRfromPFCPSession (node_key resolve y) x s")
    have "released ?I s s1" by (rule released_session[OF 1])
    then show ?thesis using assms Some Ok up 1 pdr[of s1 u]
      by (cases r1) (auto simp: deactivate_pdr_def intro: released_trans)
  qed (use assms Some in \<open>auto simp: deactivate_pdr_def\<close>)
  then show ?thesis using Some by simp
qed

definition pdr_ids :: "nat go_map \<Rightarrow> 'g dp_state \<Rightarrow> u16 set" where
  "pdr_ids ps s = {PDRID x |x name p. (name, p) \<in> set ps \<and> pdrs (rules s) p = Some x}"

lemma released_each_pdr:
  "each_pdr (deactivate_pdr G resolve n) ps s = (r, s') \<Longrightarrow> released (pdr_ids ps s) s s'"
proof (induction ps arbitrary: s)
  case Nil
  then show ?case by simp
next
  case (Cons a ps)
  obtain name p where a: "a = (name, p)" by (cases a)
  obtain r1 s1 where 1: "deactivate_pdr G resolve n p s = (r1, s1)" by (cases "deactivate_pdr G resolve n p s")
  have first: "released (pdr_ids (a # ps) s) s s1"
    using released_deactivate_pdr[OF 1] by (rule released_mono) (auto simp: pdr_ids_def a)
  then have ids: "pdr_ids ps s1 \<subseteq> pdr_ids (a # ps) s" by (auto simp: pdr_ids_def released_def)
  show ?case
  proof (cases r1)
    case (Ok v)
    then have "each_pdr (deactivate_pdr G resolve n) ps s1 = (r, s')" using Cons.prems a 1 by simp
    from released_mono[OF Cons.IH[OF this] ids] show ?thesis by (rule released_trans[OF first])
  qed (use Cons.prems a 1 first in auto)
qed

lemma DeactivateUpLinkTunnel_frame:
  assumes "DeactivateUpLinkTunnel G resolve n s = (Ok v, s')"
  shows "\<exists>s1. released (pdr_ids (tunnel_pdrs UL n s) s) s s1 \<and> s' = clear_downlink n s1"
proof -
  obtain r s1 where 1: "each_pdr (deactivate_pdr G resolve n) (tunnel_pdrs UL n s) s = (r, s1)" by fastforce
  show ?thesis using assms 1 released_each_pdr[OF 1] by (cases r) (auto simp: DeactivateUpLinkTunnel_def)
qed

lemma clear_downlink_idem: "n < length (dpnodes s) \<Longrightarrow> clear_downlink n (clear_downlink n s) = clear_downlink n s"
  by (simp add: clear_downlink_def upd_dpn_def)

lemma DeactivateDownLinkTunnel_cleared:
  "n < length (dpnodes s) \<Longrightarrow> DeactivateDownLinkTunnel G resolve n (clear_downlink n s) = (Ok (), clear_downlink n s)"
  by (simp add: DeactivateDownLinkTunnel_def tunnel_pdrs_def tunnel_def clear_downlink_idem)
     (simp add: clear_downlink_def upd_dpn_def empty_tunnel_def)

text \<open>The state after the loop body on node \<^verbatim>\<open>n\<close>.\<close>

lemma deactivate_node_frame:
  assumes "seq (DeactivateUpLinkTunnel G resolve n s) (\<lambda>_. DeactivateDownLinkTunnel G resolve n) = (Ok v, s')"
    and "n < length (dpnodes s)"
  shows "Next s' n = None \<and> (\<forall>m. m \<noteq> n \<longrightarrow> dpnodes s' ! m = dpnodes s ! m) \<and> length (dpnodes s') = length (dpnodes s)
     \<and> (\<exists>s1. released (pdr_ids (tunnel_pdrs UL n s) s) s s1 \<and> s' = clear_downlink n s1)"
proof -
  obtain r s2 where 1: "DeactivateUpLinkTunnel G resolve n s = (r, s2)" by fastforce
  then obtain w where r: "r = Ok w" using assms(1) by (cases r) auto
  obtain s1 where s1: "released (pdr_ids (tunnel_pdrs UL n s) s) s s1" and s2: "s2 = clear_downlink n s1"
    using DeactivateUpLinkTunnel_frame[OF 1[unfolded r]] by auto
  have len: "n < length (dpnodes s1)" "dpnodes s1 = dpnodes s" using s1 assms(2) by (auto simp: released_def)
  have "s' = clear_downlink n s1"
    using assms(1) DeactivateDownLinkTunnel_cleared[OF len(1), of G resolve] by (simp add: 1 r s2)
  then show ?thesis using s1 len by (auto simp: clear_downlink_def upd_dpn_def Next_def empty_tunnel_def)
qed

text \<open>Releasing a data path returns after one node, however long the path is.  Deactivating the
  uplink tunnel of the first node resets its downlink tunnel, which holds both the downlink rules and the
  link to the next node: nothing of the other nodes is released, the path has become its first node, and
  the only detection rule identifiers taken from a UPF are those of the uplink rules of that node.\<close>

lemma DeactivateTunnelAndPDR_first_node_only:
  assumes "FirstDPNode d = Some n" and "n < length (dpnodes s)"
  shows "\<exists>r d' s'. DeactivateTunnelAndPDR G resolve (Suc k) d s = Some (r, d', s') \<and> (r = Ok () \<longrightarrow>
     \<not> Activated d' \<and> walk (Suc k) (FirstDPNode d') s' = Some [n] \<and>
     (\<forall>m. m \<noteq> n \<longrightarrow> dpnodes s' ! m = dpnodes s ! m) \<and>
     (\<forall>u < length (dupfs s). \<forall>i. i \<notin> pdr_ids (tunnel_pdrs UL n s) s \<longrightarrow> pdrPool (dupfs s' ! u) i = pdrPool (dupfs s ! u) i))"
proof -
  obtain r s' where body: "seq (DeactivateUpLinkTunnel G resolve n s) (\<lambda>_. DeactivateDownLinkTunnel G resolve n) = (r, s')"
    by fastforce
  show ?thesis
  proof (cases r)
    case (Ok v)
    note frame = deactivate_node_frame[OF body[unfolded Ok] assms(2)]
    then obtain s1 where s1: "released (pdr_ids (tunnel_pdrs UL n s) s) s s1" "s' = clear_downlink n s1" by auto
    have "DeactivateTunnelAndPDR G resolve (Suc k) d s = Some (Ok (), d\<lparr>Activated := False\<rparr>, s')"
      using assms body Ok frame by (simp add: DeactivateTunnelAndPDR_def)
    moreover have "walk (Suc k) (Some n) s' = Some [n]" using frame by simp
    moreover have "dupfs s' = dupfs s1" using s1(2) by (simp add: clear_downlink_def upd_dpn_def)
    ultimately show ?thesis using assms frame s1(1) by (auto simp: released_def)
  qed (use assms body in \<open>auto simp: DeactivateTunnelAndPDR_def\<close>)
qed

lemma DeactivateUlDl_no_pdrs:
  "tunnel_pdrs UL n s = [] \<Longrightarrow> n < length (dpnodes s) \<Longrightarrow>
   DeactivateTunnelAndPDR G resolve (Suc k) (d\<lparr>FirstDPNode := Some n\<rparr>) s =
     Some (Ok (), d\<lparr>FirstDPNode := Some n, Activated := False\<rparr>, clear_downlink n s)"
  using DeactivateDownLinkTunnel_cleared[of n s G resolve] deactivate_node_frame[of G resolve n s "()" "clear_downlink n s"]
  by (simp add: DeactivateTunnelAndPDR_def DeactivateUpLinkTunnel_def)

theorem DeactivateTunnelAndPDR_first_node_only_witness:
  "walk 2 (Some 0) (snd two_node_path) = Some [0, 1] \<and>
   (\<exists>d' s'. DeactivateTunnelAndPDR pool_G NodeIdValue 2 (fst two_node_path) (snd two_node_path) = Some (Ok (), d', s')
      \<and> walk 2 (Some 0) s' = Some [0] \<and> dpnodes s' ! 1 = dpnodes (snd two_node_path) ! 1)"
proof -
  have path: "FirstDPNode (fst two_node_path) = Some 0" "0 < length (dpnodes (snd two_node_path))" "tunnel_pdrs UL 0 (snd two_node_path) = []"
    by (simp_all add: two_node_path_def tunnel_pdrs_def tunnel_def)
  have "walk 2 (Some 0) (snd two_node_path) = Some [0, 1]"
    by (simp add: two_node_path_def numeral_2_eq_2 Next_def)
  moreover have "DeactivateTunnelAndPDR pool_G NodeIdValue (Suc 1) (fst two_node_path) (snd two_node_path) =
      Some (Ok (), fst two_node_path\<lparr>Activated := False\<rparr>, clear_downlink 0 (snd two_node_path))"
    using DeactivateUlDl_no_pdrs[OF path(3) path(2), of pool_G NodeIdValue 1 NewDataPath] by (simp add: two_node_path_def)
  ultimately show ?thesis
    using DeactivateTunnelAndPDR_first_node_only[OF path(1) path(2), of pool_G NodeIdValue 1]
    by (auto simp: numeral_2_eq_2 two_node_path_def simp del: walk.simps)
qed

lemma release_targets_one: "release_targets resolve [n] deleted t s = Ok (xs, deleted', t') \<Longrightarrow>
    xs = [] \<or> (\<exists>p u. the_upf n s = Ok (p, u) \<and> xs = [NodeID u])"
  by (auto split: result.splits option.splits if_splits)

text \<open>Releasing the tunnel of a session with one data path sends a deletion request to the UPF of the
  first node at most, whatever the length of the path; the other UPFs keep the session.\<close>

lemma releaseTunnel_reaches_first_upf_only:
  assumes "FirstDPNode d = Some n" and "n < length (dpnodes s)"
    and "releaseTunnel G resolve (Suc k) (Some [d]) t s = Some (Ok (Some rel), s')"
  shows "\<exists>p u. the_upf n s' = Ok (p, u) \<and> set (DeletionRequests rel) \<subseteq> {NodeID u}
     \<and> length (DeletionRequests rel) \<le> 1 \<and> set (PendingUPF rel) \<subseteq> {node_key resolve u}"
proof -
  obtain r d1 s1 where 1: "DeactivateTunnelAndPDR G resolve (Suc k) d s = Some (r, d1, s1)"
    and rel: "r = Ok () \<longrightarrow> walk (Suc k) (FirstDPNode d1) s1 = Some [n]"
    using DeactivateTunnelAndPDR_first_node_only[OF assms(1,2)] by metis
  have r: "r = Ok ()" using assms(3) 1 by (cases r) (auto simp: releaseTunnel_def)
  then have "FirstDPNode d1 = Some n" using 1 assms(1) by (auto simp: DeactivateTunnelAndPDR_def split: option.splits if_splits)
  then have w: "walk (Suc k) (Some n) s1 = Some [n]" using rel r by simp
  obtain xs del t1 where 2: "release_targets resolve [n] [] t s1 = Ok (xs, del, t1)"
    using assms(3) 1 r w assms(1)
    by (cases "release_targets resolve [n] [] t s1") (auto simp: releaseTunnel_def simp del: walk.simps release_targets.simps)
  have s': "s' = s1" and 3: "\<exists>ys z. release_targets resolve [n] [] t1 s1 = Ok (ys, z) \<and>
      rel = \<lparr>PendingUPF = remdups (map (\<lambda>i. IPString (resolve i)) xs), DeletionRequests = ys\<rparr>"
    using assms(3) 1 r w assms(1) 2
    by (auto simp: releaseTunnel_def simp del: walk.simps release_targets.simps split: result.splits)
  then obtain ys z where ys: "release_targets resolve [n] [] t1 s1 = Ok (ys, z)"
    and relv: "rel = \<lparr>PendingUPF = remdups (map (\<lambda>i. IPString (resolve i)) xs), DeletionRequests = ys\<rparr>" by blast
  obtain p u where u: "the_upf n s1 = Ok (p, u)" using 2 by (cases "the_upf n s1") auto
  obtain del' t' where z: "z = (del', t')" by (cases z)
  show ?thesis using release_targets_one[OF 2] release_targets_one[OF ys[unfolded z]] u s' relv
    by (auto simp: node_key_def simp del: release_targets.simps)
qed

definition two_upf_ids :: "id_pool upi" where
  "two_upf_ids = empty_upi\<lparr>UPFsIPtoID := [(node_key NodeIdValue sample_upf, ''upf-1''), (''10.0.0.2'', ''upf-2'')]\<rparr>"

lemma two_node_release:
  "\<exists>s'. releaseTunnel pool_G NodeIdValue (Suc 1) (Some [fst two_node_path]) two_upf_ids (snd two_node_path) =
     Some (Ok (Some \<lparr>PendingUPF = [node_key NodeIdValue sample_upf], DeletionRequests = [NodeID sample_upf]\<rparr>), s')
     \<and> the_upf 0 s' = Ok (0, sample_upf)"
proof -
  let ?s = "clear_downlink 0 (snd two_node_path)"
  have deact: "DeactivateTunnelAndPDR pool_G NodeIdValue (Suc 1) (fst two_node_path) (snd two_node_path) =
      Some (Ok (), fst two_node_path\<lparr>Activated := False\<rparr>, ?s)"
    using DeactivateUlDl_no_pdrs[of 0 "snd two_node_path" pool_G NodeIdValue 1 NewDataPath]
    by (simp add: two_node_path_def tunnel_pdrs_def tunnel_def)
  have walk: "walk (Suc 1) (FirstDPNode (fst two_node_path)) ?s = Some [0]"
    by (simp add: two_node_path_def clear_downlink_def upd_dpn_def Next_def empty_tunnel_def)
  have upf: "the_upf 0 ?s = Ok (0, sample_upf)"
    by (simp add: the_upf_def two_node_path_def clear_downlink_def upd_dpn_def empty_dps_def)
  have "release_targets NodeIdValue [0] [] two_upf_ids ?s = Ok ([NodeID sample_upf], [''upf-1''], two_upf_ids)"
    by (simp add: upf GetUPFID_def two_upf_ids_def)
  then show ?thesis using deact walk upf
    by (simp add: releaseTunnel_def node_key_def del: walk.simps release_targets.simps)
qed

theorem releaseTunnel_reaches_first_upf_only_witness:
  "walk 2 (FirstDPNode (fst two_node_path)) (snd two_node_path) = Some [0, 1] \<and>
   (\<exists>rel s'. releaseTunnel pool_G NodeIdValue 2 (Some [fst two_node_path]) two_upf_ids (snd two_node_path) = Some (Ok (Some rel), s')
      \<and> length (DeletionRequests rel) \<le> 1 \<and> set (DeletionRequests rel) \<subseteq> {NodeID sample_upf})"
proof -
  have path: "FirstDPNode (fst two_node_path) = Some 0" "0 < length (dpnodes (snd two_node_path))"
    by (simp_all add: two_node_path_def)
  obtain rel s' where rel: "releaseTunnel pool_G NodeIdValue (Suc 1) (Some [fst two_node_path]) two_upf_ids (snd two_node_path) = Some (Ok (Some rel), s')"
    and upf: "the_upf 0 s' = Ok (0, sample_upf)" using two_node_release by metis
  have "walk 2 (FirstDPNode (fst two_node_path)) (snd two_node_path) = Some [0, 1]"
    by (simp add: two_node_path_def numeral_2_eq_2 Next_def)
  then show ?thesis using releaseTunnel_reaches_first_upf_only[OF path rel] rel upf by (simp add: numeral_2_eq_2)
qed

section \<open>Pre-configured paths\<close>

text \<open>The nodes of a pre-configured path have no map of rules in their tunnels.  Activating a tunnel of
  such a node for a session without policy rules therefore panics as soon as the UPF has given the
  default rule, after the identifier was taken; it never succeeds.\<close>

lemma preconfigured_path_panics:
  assumes "NewUEDataPathNode upNodes name = Ok x" and "n < length (dpnodes s)" and "dpnodes s ! n = x"
    and "SmPolicyUpdates c = upd # us" and "PccRuleUpdate upd = None"
    and "DpUPF x = Some p" and "p < length (dupfs s)"
    and "AddPDR G (dupfs s ! p) (rules s) = (Ok q, u', r')"
  shows "fst (ActivateUpLinkTunnel G resolve c n s) = Panic ''assignment to entry in nil map''
     \<and> fst (ActivateDownLinkTunnel G resolve c n s) = Panic ''assignment to entry in nil map''
     \<and> dupfs (snd (ActivateUpLinkTunnel G resolve c n s)) = (dupfs s)[p := u']"
proof -
  have x: "TunPDR (UpLinkTunnel x) = None" "TunPDR (DownLinkTunnel x) = None"
    using assms(1) by (auto simp: NewUEDataPathNode_def empty_tunnel_def split: option.splits)
  show ?thesis
    using assms(2-) x by (simp add: ActivateUpLinkTunnel_def ActivateDownLinkTunnel_def activate_tunnel_def
      nth_res_def Let_def on_upf_def the_upf_def upd_dpn_def set_tunnel_def put_tunnel_pdr_def tunnel_def)
qed

definition ue_path_node :: dp_node where
  "ue_path_node = \<lparr>DpUPF = Some 0, UpLinkTunnel = empty_tunnel, DownLinkTunnel = empty_tunnel, IsBranchingPoint = False\<rparr>"

definition default_rule_context :: sm_context where
  "default_rule_context = sample_context\<lparr>SmPolicyUpdates := [\<lparr>SessRuleUpdate = None, PccRuleUpdate = None,
     QosFlowUpdate = None, TCUpdate = None, SmPolicyDecision = None\<rparr>]\<rparr>"

lemma preconfigured_path_panics_sample:
  "NewUEDataPathNode [(''UPF1'', Some 0)] ''UPF1'' = Ok ue_path_node \<and>
   fst (ActivateUpLinkTunnel pool_G NodeIdValue default_rule_context 0 (empty_dps\<lparr>dpnodes := [ue_path_node]\<rparr>)) =
     Panic ''assignment to entry in nil map''"
proof -
  obtain u r where add: "AddPDR pool_G sample_upf no_rules = (Ok 0, u, r)" using sample_AddPDR by blast
  have node: "NewUEDataPathNode [(''UPF1'', Some 0)] ''UPF1'' = Ok ue_path_node"
    by (simp add: NewUEDataPathNode_def ue_path_node_def)
  show ?thesis
    using node preconfigured_path_panics[OF node, of 0 "empty_dps\<lparr>dpnodes := [ue_path_node]\<rparr>" default_rule_context _ "[]" 0 pool_G 0 u r NodeIdValue] add
    by (simp add: empty_dps_def default_rule_context_def ue_path_node_def)
qed

section \<open>Uplink forwarding\<close>

text \<open>Where the uplink rules of node \<^verbatim>\<open>n\<close> send packets: to the data network at the anchor, otherwise in a
  tunnel to the N9 address of the next node.\<close>

definition uplink_target :: "nas_lib \<Rightarrow> (string \<Rightarrow> ip option) \<Rightarrow> sm_context \<Rightarrow> nat \<Rightarrow> 'g dp_state \<Rightarrow> forwarding_parameters result" where
  "uplink_target nas net c n s = (case Next s n of
      None \<Rightarrow> Ok \<lparr>OuterHeaderCreation = None, PFCPSMReqFlags = None, FwdNetworkInstance = bytes_of (Dnn c),
                  DestinationInterface = DestinationInterfaceSgiLanN6Lan\<rparr>
    | Some m \<Rightarrow>
        (case DestEndPoint (UpLinkTunnel (dpnodes s ! m)) of
           None \<Rightarrow> Panic ''nil pointer dereference''
         | Some e \<Rightarrow> bind_res (n9_address nas net c e s) (\<lambda>a.
             Ok \<lparr>OuterHeaderCreation = Some (outer_header a (TEID (UpLinkTunnel (dpnodes s ! m)))),
                  PFCPSMReqFlags = None, FwdNetworkInstance = bytes_of (Dnn c), DestinationInterface = DestinationInterfaceCore\<rparr>)))"

lemma rules_only [simp]:
  "dpnodes (set_pdr p f s) = dpnodes s" "dpnodes (set_far p h s) = dpnodes s"
  "Next (set_pdr p f s) = Next s" "Next (set_far p h s) = Next s"
  "IsAnchorUPF (set_pdr p f s) = IsAnchorUPF s" "IsAnchorUPF (set_far p h s) = IsAnchorUPF s"
  "dupfs (set_pdr p f s) = dupfs s" "dupfs (set_far p h s) = dupfs s"
  by (simp_all add: set_pdr_def set_far_def Next_def fun_eq_iff IsAnchorUPF_def)

lemma the_upf_rules_only [simp]: "the_upf n (set_pdr p f s) = the_upf n s" "the_upf n (set_far p h s) = the_upf n s"
  by (simp_all add: the_upf_def split: option.splits)

lemma n9_address_rules_only [simp]:
  "n9_address nas net c n (set_pdr p f s) = n9_address nas net c n s"
  "n9_address nas net c n (set_far p h s) = n9_address nas net c n s"
  by (simp_all add: n9_address_def)

lemma uplink_target_rules_only [simp]:
  "uplink_target nas net c n (set_pdr p f s) = uplink_target nas net c n s"
  "uplink_target nas net c n (set_far p h s) = uplink_target nas net c n s"
  by (simp_all add: uplink_target_def split: option.splits)

lemma set_far_twice: "set_far f h (set_far f h' s) = set_far f (\<lambda>x. h (h' x)) s"
  by (cases "fars (rules s) f") (simp_all add: set_far_def)

lemma uplink_pdr_Ok:
  assumes "uplink_pdr nas net c n q prec a p s = (Ok (), s')"
  obtains x f fwd where "pdrs (rules s) p = Some x" "FAR x = Some f" "uplink_target nas net c n s = Ok fwd"
    "s' = set_far f (\<lambda>y. y\<lparr>ApplyAction := no_action\<lparr>Forw := True\<rparr>, ForwardingParameters := Some fwd\<rparr>)
            (set_pdr p (\<lambda>x. uplink_fields c a (add_def_qer q prec x)) s)"
proof -
  obtain x where x: "pdrs (rules s) p = Some x" using assms by (auto simp: uplink_pdr_def split: option.splits)
  obtain f where f: "FAR x = Some f" using assms x by (auto simp: uplink_pdr_def Let_def split: option.splits)
  show thesis
  proof (cases "Next s n")
    case None
    then show thesis using assms x f that by (simp add: uplink_pdr_def uplink_target_def IsAnchorUPF_def Let_def)
  next
    case (Some m)
    obtain e where e: "DestEndPoint (UpLinkTunnel (dpnodes s ! m)) = Some e"
      using assms x f Some by (auto simp: uplink_pdr_def Let_def split: option.splits)
    obtain ip where ip: "n9_address nas net c e s = Ok ip"
      using assms x f Some e by (cases "n9_address nas net c e s") (simp_all add: uplink_pdr_def Let_def)
    have "s' = set_far f (\<lambda>y. y\<lparr>ApplyAction := no_action\<lparr>Forw := True\<rparr>, ForwardingParameters :=
         Some \<lparr>OuterHeaderCreation = Some (outer_header ip (TEID (UpLinkTunnel (dpnodes s ! m)))),
                  PFCPSMReqFlags = None, FwdNetworkInstance = bytes_of (Dnn c), DestinationInterface = DestinationInterfaceCore\<rparr>\<rparr>)
            (set_pdr p (\<lambda>x. uplink_fields c a (add_def_qer q prec x)) s)"
      using assms x f Some e ip by (simp add: uplink_pdr_def Let_def IsAnchorUPF_def set_far_twice)
    then show thesis using x f Some e ip that by (simp add: uplink_target_def)
  qed
qed

lemma pdrs_set [simp]:
  "pdrs (rules (set_pdr p h s)) p' = (if p' = p then map_option h (pdrs (rules s) p) else pdrs (rules s) p')"
  "pdrs (rules (set_far p k s)) = pdrs (rules s)" "fars (rules (set_pdr p h s)) = fars (rules s)"
  "fars (rules (set_far p k s)) p' = (if p' = p then map_option k (fars (rules s) p) else fars (rules s) p')"
  by (simp_all add: set_pdr_def set_far_def)

text \<open>Rules that the loop does not visit are not changed.\<close>

lemma each_uplink_frame:
  assumes "each_pdr (uplink_pdr nas net c n q prec a) ps s = (Ok (), s')"
  shows "(p \<notin> snd ` set ps \<longrightarrow> pdrs (rules s') p = pdrs (rules s) p)
    \<and> ((\<forall>p' \<in> snd ` set ps. Option.bind (pdrs (rules s) p') FAR \<noteq> Some f) \<longrightarrow> fars (rules s') f = fars (rules s) f)
    \<and> uplink_target nas net c n s' = uplink_target nas net c n s"
  using assms
proof (induction ps arbitrary: s)
  case (Cons x ps)
  obtain name p0 where x: "x = (name, p0)" by (cases x)
  obtain r s1 where 1: "uplink_pdr nas net c n q prec a p0 s = (r, s1)" by fastforce
  have r: "r = Ok ()" using Cons.prems x 1 by (cases r) auto
  obtain y f0 fwd where y: "pdrs (rules s) p0 = Some y" "FAR y = Some f0"
    and s1: "s1 = set_far f0 (\<lambda>y. y\<lparr>ApplyAction := no_action\<lparr>Forw := True\<rparr>, ForwardingParameters := Some fwd\<rparr>)
            (set_pdr p0 (\<lambda>x. uplink_fields c a (add_def_qer q prec x)) s)"
    by (rule uplink_pdr_Ok[OF 1[unfolded r]]) blast
  have far: "FAR (uplink_fields c a (add_def_qer q prec z)) = FAR z" for z by (simp add: uplink_fields_def add_def_qer_def)
  have same: "Option.bind (pdrs (rules s1) p') FAR = Option.bind (pdrs (rules s) p') FAR" for p'
    by (cases "pdrs (rules s) p'") (auto simp: s1 far y)
  have rest: "each_pdr (uplink_pdr nas net c n q prec a) ps s1 = (Ok (), s')" using Cons.prems x 1 r by simp
  note IH = Cons.IH[OF rest]
  have "p \<notin> snd ` set (x # ps) \<longrightarrow> pdrs (rules s') p = pdrs (rules s) p" using IH by (simp add: x s1)
  moreover have "(\<forall>p' \<in> snd ` set (x # ps). Option.bind (pdrs (rules s) p') FAR \<noteq> Some f) \<longrightarrow> fars (rules s') f = fars (rules s) f"
    using IH y by (auto simp: x same) (simp_all add: s1)
  ultimately show ?case using IH by (simp add: s1)
qed simp

lemma each_uplink_effect:
  assumes "each_pdr (uplink_pdr nas net c n q prec a) ps s = (Ok (), s')"
    and "distinct (map snd ps)" and "inj_on (\<lambda>p. Option.bind (pdrs (rules s) p) FAR) (snd ` set ps)"
    and "(name, p) \<in> set ps" and "pdrs (rules s) p = Some x" and "FAR x = Some f" and "fars (rules s) f = Some y"
  shows "pdrs (rules s') p = Some (uplink_fields c a (add_def_qer q prec x)) \<and>
     (\<exists>fwd. uplink_target nas net c n s = Ok fwd \<and>
        fars (rules s') f = Some (y\<lparr>ApplyAction := no_action\<lparr>Forw := True\<rparr>, ForwardingParameters := Some fwd\<rparr>))"
  using assms
proof (induction ps arbitrary: s)
  case (Cons z ps)
  obtain name0 p0 where z: "z = (name0, p0)" by (cases z)
  obtain r s1 where 1: "uplink_pdr nas net c n q prec a p0 s = (r, s1)" by fastforce
  have r: "r = Ok ()" using Cons.prems z 1 by (cases r) auto
  obtain y0 f0 fwd where y0: "pdrs (rules s) p0 = Some y0" "FAR y0 = Some f0" and fwd: "uplink_target nas net c n s = Ok fwd"
    and s1: "s1 = set_far f0 (\<lambda>y. y\<lparr>ApplyAction := no_action\<lparr>Forw := True\<rparr>, ForwardingParameters := Some fwd\<rparr>)
            (set_pdr p0 (\<lambda>x. uplink_fields c a (add_def_qer q prec x)) s)"
    by (rule uplink_pdr_Ok[OF 1[unfolded r]]) blast
  have far: "FAR (uplink_fields c a (add_def_qer q prec z)) = FAR z" for z by (simp add: uplink_fields_def add_def_qer_def)
  have same: "Option.bind (pdrs (rules s1) p') FAR = Option.bind (pdrs (rules s) p') FAR" for p'
    by (cases "pdrs (rules s) p'") (auto simp: s1 far y0)
  have rest: "each_pdr (uplink_pdr nas net c n q prec a) ps s1 = (Ok (), s')" using Cons.prems z 1 r by simp
  note frame = each_uplink_frame[OF rest, of p f]
  show ?case
  proof (cases "p = p0")
    case True
    have "p0 \<notin> snd ` set ps" using Cons.prems(2) by (auto simp: z)
    moreover have "Option.bind (pdrs (rules s1) p') FAR \<noteq> Some f" if "p' \<in> snd ` set ps" for p'
    proof
      assume "Option.bind (pdrs (rules s1) p') FAR = Some f"
      then have "p' = p0" using inj_onD[OF Cons.prems(3), of p' p0] that Cons.prems(5,6) True by (auto simp: same z)
      then show False using that \<open>p0 \<notin> snd ` set ps\<close> by blast
    qed
    ultimately show ?thesis using frame True Cons.prems(5-7) y0 fwd by (auto simp: s1)
  next
    case False
    then have "(name, p) \<in> set ps" using Cons.prems(4) by (auto simp: z)
    moreover have "f0 \<noteq> f"
      using inj_onD[OF Cons.prems(3), of p p0] False Cons.prems(4-6) y0 by (force simp: z)
    moreover have "inj_on (\<lambda>p. Option.bind (pdrs (rules s1) p) FAR) (snd ` set ps)"
      using Cons.prems(3) by (auto simp: same inj_on_def)
    ultimately show ?thesis
      using Cons.IH[OF rest] Cons.prems(2,5-7) False by (simp add: s1)
  qed
qed simp


definition anchor_state :: "id_pool dp_state" where
  "anchor_state = empty_dps\<lparr>
     dpnodes := [NewDataPathNode\<lparr>DpUPF := Some 0, UpLinkTunnel := empty_tunnel\<lparr>TunPDR := Some [(''default'', 0)]\<rparr>\<rparr>],
     rules := no_rules\<lparr>pdrs := [0 \<mapsto> new_pdr\<lparr>PDRID := 1, FAR := Some 1\<rparr>],
       fars := [1 \<mapsto> new_far\<lparr>FARID := 1, ApplyAction := no_action\<lparr>Drop := True\<rparr>\<rparr>], nextRule := 2\<rparr>\<rparr>"


section \<open>The branching point of two paths\<close>

definition up_ptr :: "'g dp_state \<Rightarrow> nat \<Rightarrow> nat" where
  "up_ptr s n = the (DpUPF (dpnodes s ! n))"

definition up_id :: "'g dp_state \<Rightarrow> nat \<Rightarrow> node_id" where
  "up_id s n = NodeID (dupfs s ! up_ptr s n)"

lemma the_upf_Ok: "is_Ok (the_upf n s) \<Longrightarrow> the_upf n s = Ok (up_ptr s n, dupfs s ! up_ptr s n)"
  by (auto simp: the_upf_def up_ptr_def split: option.splits if_splits)

definition common_length :: "'g dp_state \<Rightarrow> nat list \<Rightarrow> nat list \<Rightarrow> nat" where
  "common_length s ns ms = length (longest_common_prefix (map (up_id s) ns) (map (up_id s) ms))"

lemma common_length_simps [simp]:
  "common_length s [] ms = 0" "common_length s ns [] = 0"
  "common_length s (n # ns) (m # ms) = (if up_id s n = up_id s m then Suc (common_length s ns ms) else 0)"
  by (simp_all add: common_length_def)

lemma common_prefix_spec:
  assumes "walk k a s = Some ns" and "walk k' b s = Some ms" and "\<forall>n \<in> set ns \<union> set ms. is_Ok (the_upf n s)"
    and "distinct (map (up_ptr s) ns)" and "fst ` set bps \<inter> up_ptr s ` set ns = {}"
  shows "common_prefix k a b depth bps s = Some
    (if common_length s ns ms = length ms \<and> length ms < length ns then Panic ''nil pointer dereference''
     else Ok (bps @ map (\<lambda>i. (up_ptr s (ns ! i), depth + 1 + int i)) [0 ..< common_length s ns ms]))"
  using assms
proof (induction k a s arbitrary: ns k' b ms depth bps rule: walk.induct)
  case (3 k n s)
  obtain ns' where ns: "ns = n # ns'" and w: "walk k (Next s n) s = Some ns'" using 3(2) by auto
  have n: "the_upf n s = Ok (up_ptr s n, dupfs s ! up_ptr s n)" using 3(4) ns by (simp add: the_upf_Ok)
  show ?case
  proof (cases ms)
    case Nil
    then have "b = None" using 3(3) by (cases k'; cases b) auto
    then show ?thesis using n ns Nil by simp
  next
    case (Cons m ms')
    then obtain j where b: "b = Some m" and w': "walk j (Next s m) s = Some ms'" using 3(3) by (cases k'; cases b) auto
    have m: "the_upf m s = Ok (up_ptr s m, dupfs s ! up_ptr s m)" using 3(4) Cons by (simp add: the_upf_Ok)
    have new: "map_of bps (up_ptr s n) = None" using 3(6) ns by (auto simp: map_of_eq_None_iff)
    have IH: "common_prefix k (Next s n) (Next s m) (depth + 1) (bps @ [(up_ptr s n, depth + 1)]) s = Some
       (if common_length s ns' ms' = length ms' \<and> length ms' < length ns' then Panic ''nil pointer dereference''
        else Ok ((bps @ [(up_ptr s n, depth + 1)]) @ map (\<lambda>i. (up_ptr s (ns' ! i), depth + 1 + 1 + int i)) [0 ..< common_length s ns' ms']))"
      using 3(1)[OF w w', of "bps @ [(up_ptr s n, depth + 1)]" "depth + 1"] 3(4-6) ns Cons by auto
    have shift: "map h [0 ..< Suc l] = h 0 # map (\<lambda>i. h (Suc i)) [0 ..< l]" for h :: "nat \<Rightarrow> nat \<times> int" and l
      by (simp add: upt_conv_Cons map_Suc_upt[symmetric] o_def del: upt_Suc)
    show ?thesis using n m new IH unfolding up_id_def[symmetric]
      by (simp add: b ns Cons up_id_def shift add_ac del: upt_Suc)
  qed
qed auto

lemma deepest_increasing: "deepest (map (\<lambda>i. (f i, 1 + int i)) [0 ..< l]) u = (if l = 0 then u else Some (f (l - 1)))"
proof -
  have "fold (\<lambda>(p, depth) (r, m). if depth > m then (Some p, depth) else (r, m)) (map (\<lambda>i. (f i, 1 + int i)) [0 ..< l]) (u, 0) =
      (if l = 0 then u else Some (f (l - 1)), int l)"
    by (induction l) auto
  then show ?thesis by (simp add: deepest_def)
qed

text \<open>The uplink classifier for a second anchor is the UPF of the last node that the activated and the
  new path have in common, counted from the access network; its depth and those of the nodes before it are
  recorded as branching points.  If all nodes of the activated path are common and the new path goes on,
  the search dereferences the end of the activated path and panics.\<close>

lemma FindULCL_last_common:
  assumes "ActivatedPaths m = [d1]" and "ActivatingPath m = Some d2"
    and "walk k (FirstDPNode d2) s = Some ns" and "walk k (FirstDPNode d1) s = Some ms"
    and "\<forall>n \<in> set ns \<union> set ms. is_Ok (the_upf n s)" and "distinct (map (up_ptr s) ns)"
  defines "l \<equiv> common_length s ns ms"
  shows "FindULCL k m s = Some (if l = length ms \<and> length ms < length ns then Panic ''nil pointer dereference''
    else Ok (m\<lparr>UpdatedBranchingPoint := map (\<lambda>i. (up_ptr s (ns ! i), 1 + int i)) [0 ..< l],
               ULCL := (if l = 0 then ULCL m else Some (up_ptr s (ns ! (l - 1))))\<rparr>))"
  using common_prefix_spec[OF assms(3-6), of "[]" 0]
  by (simp add: FindULCL_def assms(1,2) l_def deepest_increasing)

definition two_paths :: "id_pool dp_state" where
  "two_paths = empty_dps\<lparr>dpnodes := chain [Some 0] None 0 @ chain [Some 0, Some 1] None 1\<rparr>"

definition psa_manager :: "nat \<Rightarrow> nat \<Rightarrow> bp_manager" where
  "psa_manager a b = NewBPManager\<lparr>ActivatedPaths := [NewDataPath\<lparr>FirstDPNode := Some a\<rparr>],
     ActivatingPath := Some (NewDataPath\<lparr>FirstDPNode := Some b\<rparr>)\<rparr>"

lemma two_paths_walks: "walk 2 (Some 0) two_paths = Some [0]" "walk 2 (Some 1) two_paths = Some [1, 2]"
  by (simp_all add: two_paths_def Next_def numeral_2_eq_2)

lemma two_paths_upfs:
  "up_ptr two_paths 0 = 0" "up_ptr two_paths 1 = 0" "up_ptr two_paths 2 = 1"
  "is_Ok (the_upf 0 two_paths)" "is_Ok (the_upf 1 two_paths)" "is_Ok (the_upf 2 two_paths)"
  by (simp_all add: two_paths_def up_ptr_def the_upf_def numeral_2_eq_2 empty_dps_def)

theorem FindULCL_last_common_witness:
  "(\<exists>m. FindULCL 2 (psa_manager 1 0) two_paths = Some (Ok m) \<and> ULCL m = Some 0) \<and>
   FindULCL 2 (psa_manager 0 1) two_paths = Some (Panic ''nil pointer dereference'')"
proof -
  have m: "ActivatedPaths (psa_manager a b) = [NewDataPath\<lparr>FirstDPNode := Some a\<rparr>]"
    "ActivatingPath (psa_manager a b) = Some (NewDataPath\<lparr>FirstDPNode := Some b\<rparr>)" for a b
    by (simp_all add: psa_manager_def)
  have same: "up_id two_paths 0 = up_id two_paths 1" by (simp only: up_id_def two_paths_upfs)
  show ?thesis
    using FindULCL_last_common[OF m(1) m(2), of 2 0 two_paths "[0]" 1 "[1, 2]"]
      FindULCL_last_common[OF m(1) m(2), of 2 1 two_paths "[1, 2]" 0 "[0]"]
    by (simp add: two_paths_walks two_paths_upfs two_paths_upfs[unfolded One_nat_def] two_paths_walks[unfolded One_nat_def] same[symmetric] same[symmetric, unfolded One_nat_def])
qed

end
