(* ===== verification/N2_Transfer.thy ===== *)
theory N2_Transfer
  imports Data_Path Txn_Fsm
begin

text \<open>
  The transfer containers exchanged with the access network, \<^verbatim>\<open>src/context/ngap_build.go\<close> and
  \<^verbatim>\<open>src/context/ngap_handler.go\<close>.  A container is a value with the fields that the builders set; the
  encoder \<^verbatim>\<open>aper.MarshalWithParams\<close>, the decoder \<^verbatim>\<open>aper.UnmarshalWithParams\<close> and the conversion
  \<^verbatim>\<open>ngapConvert.UEAmbrToInt64\<close> are arguments (\<^verbatim>\<open>ngap_lib\<close>).  The record \<^verbatim>\<open>session\<close> joins the
  context of a session with its data paths; the procedures of the producer package work on it.
\<close>

section \<open>Sessions\<close>

record pco =
  DNSIPv4Request :: bool
  DNSIPv6Request :: bool
  IPv4LinkMTURequest :: bool
  PCSCFIPv4Request :: bool

text \<open>\<^verbatim>\<open>Tunnel\<close> may be nil, and so may its pool of paths.  \<^verbatim>\<open>chan\<close> holds what was sent on
  \<^verbatim>\<open>SBIPFCPCommunicationChan\<close> and not received yet.\<close>

record 'g session =
  ctx :: sm_context
  Tunnel :: "data_path_pool option option"
  dps :: "'g dp_state"
  UpCnxState :: string
  HoState :: string
  Pti :: u8
  SessSnssai :: snssai
  ProtocolConfigurationOptions :: pco
  DupRelease :: bool
  LocalPurged :: bool
  Pending :: "string list"
  chan :: "PFCPSessionResponseStatus list"

definition pool_paths :: "data_path_pool option \<Rightarrow> data_path list" where
  "pool_paths pool = (case pool of None \<Rightarrow> [] | Some p \<Rightarrow> map snd p)"

text \<open>The first node of the default path with its UPF; every nil pointer on the way panics.\<close>

definition an_upf :: "'g session \<Rightarrow> (nat \<times> 'g upf) result" where
  "an_upf s = (case Tunnel s of
      None \<Rightarrow> Panic ''nil pointer dereference''
    | Some pool \<Rightarrow>
        (case Option.bind (GetDefaultPath (case pool of None \<Rightarrow> [] | Some p \<Rightarrow> p)) FirstDPNode of
           None \<Rightarrow> Panic ''nil pointer dereference''
         | Some n \<Rightarrow> bind_res (the_upf n (dps s)) (\<lambda>(_, u). Ok (n, u))))"

section \<open>Octets of a tunnel identifier\<close>

definition PutUint32 :: "u32 \<Rightarrow> byte list" where
  "PutUint32 w = [ucast (drop_bit 24 w), ucast (drop_bit 16 w), ucast (drop_bit 8 w), ucast w]"

definition Uint32 :: "byte list \<Rightarrow> u32 result" where
  "Uint32 b = (if length b < 4 then Panic ''index out of range''
     else Ok (push_bit 24 (ucast (b ! 0)) OR push_bit 16 (ucast (b ! 1)) OR push_bit 8 (ucast (b ! 2)) OR ucast (b ! 3)))"

lemma Uint32_PutUint32: "Uint32 (PutUint32 w) = Ok w"
proof -
  have "push_bit 24 (ucast (ucast (drop_bit 24 w) :: byte)) OR push_bit 16 (ucast (ucast (drop_bit 16 w) :: byte))
      OR push_bit 8 (ucast (ucast (drop_bit 8 w) :: byte)) OR ucast (ucast w :: byte) = w"
  proof (rule bit_word_eqI)
    fix n assume n: "n < LENGTH(32)"
    consider "n < 8" | "8 \<le> n" "n < 16" | "16 \<le> n" "n < 24" | "24 \<le> n" by linarith
    then show "bit (push_bit 24 (ucast (ucast (drop_bit 24 w) :: byte)) OR push_bit 16 (ucast (ucast (drop_bit 16 w) :: byte))
      OR push_bit 8 (ucast (ucast (drop_bit 8 w) :: byte)) OR (ucast (ucast w :: byte) :: u32)) n \<longleftrightarrow> bit w n"
      using n by cases (auto simp: bit_simps possible_bit_def)
  qed
  then show ?thesis by (simp add: Uint32_def PutUint32_def numeral_eq_Suc)
qed

section \<open>Containers\<close>

record n2_tunnel =
  TransportLayerAddress :: ip
  AddrBitLength :: nat
  GTPTEID :: "byte list"

record qos_flow_item =
  QosFlowIdentifier :: int
  FiveQI :: int
  PriorityLevelARP :: int
  MayTriggerPreEmption :: bool
  PreEmptable :: bool

datatype setup_ie =
    SetupAmbr int int
  | SetupULTunnel n2_tunnel
  | SetupSessionTypeIpv4
  | SetupQosFlows "qos_flow_item list"

datatype modify_ie =
    ModifyAmbr int int
  | ModifyRelease "int list"
  | ModifyAddOrModify "qos_flow_item list"

text \<open>Causes: the group and, when the builder sets it, the value.  The NAS cause of a release is
  always \<^verbatim>\<open>normal release\<close>.\<close>

datatype ngap_msg =
    SetupRequestTransfer "setup_ie list"
  | ModifyRequestTransfer "modify_ie list"
  | ReleaseCommandTransfer
  | PathSwitchAckTransfer n2_tunnel
  | PathSwitchUnsuccessfulTransfer int "int option"
  | HandoverCommandTransfer n2_tunnel

text \<open>A decoded tunnel information: whether a GTP tunnel is present, and the tunnel, if any.\<close>

record up_tnl =
  IsGTPTunnel :: bool
  TnlGTP :: "(byte list \<times> byte list) option"

record ngap_lib =
  UEAmbrToInt64 :: "string \<Rightarrow> int"
  Marshal :: "ngap_msg \<Rightarrow> byte list result"
  UnmarshalSetupResponse :: "byte list \<Rightarrow> up_tnl result"
  UnmarshalPathSwitch :: "byte list \<Rightarrow> up_tnl result"
  UnmarshalHandoverAck :: "byte list \<Rightarrow> up_tnl result"
  UnmarshalOk :: "byte list \<Rightarrow> unit result"

section \<open>Setting up resources\<close>

definition n2_tunnel_of :: "ip \<Rightarrow> u32 \<Rightarrow> n2_tunnel" where
  "n2_tunnel_of a t = \<lparr>TransportLayerAddress = a, AddrBitLength = length a * 8, GTPTEID = PutUint32 t\<rparr>"

definition may_trigger :: "string \<Rightarrow> bool" where
  "may_trigger cap \<longleftrightarrow> cap \<noteq> ''NOT_PREEMPT''"

definition preemptable :: "string \<Rightarrow> bool" where
  "preemptable vuln \<longleftrightarrow> vuln = ''PREEMPTABLE''"

definition setup_item :: "qos_data \<Rightarrow> qos_flow_item result" where
  "setup_item qd = (case Arp qd of
      None \<Rightarrow> Panic ''nil pointer dereference''
    | Some a \<Rightarrow> Ok \<lparr>QosFlowIdentifier = uint (GetQosFlowIdFromQosId (QosId qd)), FiveQI = Var5qi qd,
        PriorityLevelARP = ArpPriorityLevel a, MayTriggerPreEmption = may_trigger (PreemptCap a),
        PreEmptable = preemptable (PreemptVuln a)\<rparr>)"

text \<open>The flows of the context, replaced by the added flows of an update as soon as it has a flow
  update: the map of added flows is never nil.\<close>

definition setup_flows :: "sm_context \<Rightarrow> qos_data go_map" where
  "setup_flows c = (case SmPolicyUpdates c of
      [] \<Rightarrow> SmCtxtQosData (SmPolicyData c)
    | u # _ \<Rightarrow> (case QosFlowUpdate u of None \<Rightarrow> SmCtxtQosData (SmPolicyData c) | Some q \<Rightarrow> add q))"

definition BuildPDUSessionResourceSetupRequestTransfer ::
    "ngap_lib \<Rightarrow> nas_lib \<Rightarrow> (string \<Rightarrow> ip option) \<Rightarrow> 'g session \<Rightarrow> byte list result" where
  "BuildPDUSessionResourceSetupRequestTransfer N nas net s =
     bind_res (an_upf s) (\<lambda>(n, u).
     let t = PutUint32 (TEID (UpLinkTunnel (dpnodes (dps s) ! n))) in
     case Option.bind (SelectedSessionRule (ctx s)) AuthSessAmbr of
       None \<Rightarrow> Err ''no PDU Session AMBR''
     | Some a \<Rightarrow>
         (case N3Interfaces u of
            [] \<Rightarrow> Err ''N3Interfaces is empty for UPF''
          | i # _ \<Rightarrow>
              bind_res (Interface_IP nas net (SelectedPDUSessionType (ctx s)) i) (\<lambda>n3IP.
              bind_res (map_res (\<lambda>(_, qd). setup_item qd) (setup_flows (ctx s))) (\<lambda>items.
              case Marshal N (SetupRequestTransfer
                  ([SetupAmbr (UEAmbrToInt64 N (Downlink a)) (UEAmbrToInt64 N (Uplink a)),
                    SetupULTunnel \<lparr>TransportLayerAddress = n3IP, AddrBitLength = length n3IP * 8, GTPTEID = t\<rparr>,
                    SetupSessionTypeIpv4] @ (if items = [] then [] else [SetupQosFlows items]))) of
                Ok buf \<Rightarrow> Ok buf
              | Err e \<Rightarrow> Err (''encode resourceSetupRequestTransfer failed: '' @ e)
              | Panic e \<Rightarrow> Panic e))))"

section \<open>Modifying resources\<close>

definition ToLower :: "string \<Rightarrow> string" where
  "ToLower s = map (\<lambda>c. let n = of_char c :: nat in if 65 \<le> n \<and> n \<le> 90 then char_of (n + 32) else c) s"

definition HasSuffix :: "string \<Rightarrow> string \<Rightarrow> bool" where
  "HasSuffix s suf \<longleftrightarrow> length suf \<le> length s \<and> drop (length s - length suf) s = suf"

definition TrimSuffix :: "string \<Rightarrow> string \<Rightarrow> string" where
  "TrimSuffix s suf = (if HasSuffix s suf then take (length s - length suf) s else s)"

definition ParseUint64 :: "string \<Rightarrow> u64 result" where
  "ParseUint64 s = (case parse_nat s of
      Some n \<Rightarrow> if n < 2 ^ 64 then Ok (of_nat n) else Err ''value out of range''
    | None \<Rightarrow> Err ''invalid syntax'')"

text \<open>Letters are ASCII.\<close>

definition StringToBitRate :: "string \<Rightarrow> u64 result" where
  "StringToBitRate s0 =
     (let s = ToLower (TrimSpace s0) in
      if HasSuffix s ''kbps'' then bind_res (ParseUint64 (TrimSuffix s ''kbps'')) (\<lambda>v. Ok (v * 1000))
      else if HasSuffix s ''mbps'' then bind_res (ParseUint64 (TrimSuffix s ''mbps'')) (\<lambda>v. Ok (v * 1000 * 1000))
      else Ok 0)"

definition override_rate :: "string \<Rightarrow> int \<Rightarrow> int" where
  "override_rate rate v = (if rate \<noteq> '''' then (case StringToBitRate rate of Ok w \<Rightarrow> sint w | _ \<Rightarrow> v) else v)"

text \<open>The loop over the QoS data of the decision: rates and 5QI of the last entry win.\<close>

fun override_qos :: "qos_data option go_map \<Rightarrow> int \<times> int \<times> int \<Rightarrow> (int \<times> int \<times> int) result" where
  "override_qos [] r = Ok r"
| "override_qos ((_, None) # qs) r = Panic ''nil pointer dereference''"
| "override_qos ((_, Some qd) # qs) (dl, ul, qi) =
     override_qos qs (override_rate (GbrDl qd) dl, override_rate (GbrUl qd) ul, Var5qi qd)"

record flow_params =
  fpQfi :: int
  fpPriority :: int
  fpMayTrigger :: bool
  fpPreEmptable :: bool

text \<open>The first entry of the modified flows, then the first of the added flows.\<close>

definition apply_flow :: "qos_data go_map \<Rightarrow> flow_params \<Rightarrow> flow_params" where
  "apply_flow m p = (case m of
      [] \<Rightarrow> p
    | (_, qd) # _ \<Rightarrow>
        (let p = (case Atoi (QosId qd) of (v, err) \<Rightarrow> if err then p else p\<lparr>fpQfi := signed_take_bit 31 v\<rparr>);
             p = (if PriorityLevel qd > 0 then p\<lparr>fpPriority := PriorityLevel qd\<rparr> else p) in
         case Arp qd of
           None \<Rightarrow> p
         | Some a \<Rightarrow> p\<lparr>fpPriority := ArpPriorityLevel a,
              fpMayTrigger := fpMayTrigger p \<and> may_trigger (PreemptCap a),
              fpPreEmptable := fpPreEmptable p \<or> preemptable (PreemptVuln a)\<rparr>))"

text \<open>Only the flow list with the release is sent when the decision has a map of PCC rules
  (\<^verbatim>\<open>pccPresent\<close>: the map is not nil) that is empty or has an entry without rule or name.\<close>

definition send_release_only :: "bool \<Rightarrow> sm_context \<Rightarrow> bool result" where
  "send_release_only pccPresent c = (case SmPolicyUpdates c of
      [] \<Rightarrow> Ok False
    | u # _ \<Rightarrow>
        (case SmPolicyDecision u of
           None \<Rightarrow> Panic ''nil pointer dereference''
         | Some d \<Rightarrow> Ok (pccPresent \<and> (PccRules d = [] \<or>
             list_ex (\<lambda>(k, r). k = '''' \<or> (case r of None \<Rightarrow> True | Some x \<Rightarrow> PccRuleId x = '''')) (PccRules d)))))"

definition marshal_modify :: "ngap_lib \<Rightarrow> modify_ie list \<Rightarrow> byte list result" where
  "marshal_modify N ies = (case Marshal N (ModifyRequestTransfer ies) of
      Ok buf \<Rightarrow> Ok buf | Err e \<Rightarrow> Err (''encode resourceModifyRequestTransfer failed: '' @ e) | Panic e \<Rightarrow> Panic e)"

definition modify_ies :: "ngap_lib \<Rightarrow> sm_context \<Rightarrow> session_rule \<Rightarrow> modify_ie list result" where
  "modify_ies N c rule = (case AuthSessAmbr rule of
      None \<Rightarrow> Err ''no PDU Session AMBR''
    | Some a \<Rightarrow>
        (case AuthDefQos rule of
           None \<Rightarrow> Panic ''nil pointer dereference''
         | Some q \<Rightarrow>
             (case AdqArp q of
                None \<Rightarrow> Panic ''nil pointer dereference''
              | Some arp \<Rightarrow>
                  bind_res (nth_res (SmPolicyUpdates c) 0) (\<lambda>u.
                  bind_res (override_qos (case SmPolicyDecision u of None \<Rightarrow> [] | Some d \<Rightarrow> QosDecs d)
                     (UEAmbrToInt64 N (Downlink a), UEAmbrToInt64 N (Uplink a), AdqVar5qi q)) (\<lambda>(dl, ul, qi).
                  let p = \<lparr>fpQfi = AdqVar5qi q, fpPriority = ArpPriorityLevel arp, fpMayTrigger = True, fpPreEmptable = False\<rparr>;
                      p = (case QosFlowUpdate u of None \<Rightarrow> p | Some f \<Rightarrow> apply_flow (add f) (apply_flow (modi f) p)) in
                  Ok [ModifyAmbr dl ul, ModifyAddOrModify [\<lparr>QosFlowIdentifier = fpQfi p, FiveQI = qi,
                        PriorityLevelARP = fpPriority p,
                        MayTriggerPreEmption = fpMayTrigger p \<and> may_trigger (PreemptCap arp),
                        PreEmptable = fpPreEmptable p \<or> preemptable (PreemptVuln arp)\<rparr>]])))))"

definition BuildPDUSessionResourceModifyRequestTransfer :: "ngap_lib \<Rightarrow> bool \<Rightarrow> 'g session \<Rightarrow> byte list result" where
  "BuildPDUSessionResourceModifyRequestTransfer N pccPresent s =
     bind_res (send_release_only pccPresent (ctx s)) (\<lambda>release.
     case SelectedSessionRule (ctx s) of
       None \<Rightarrow> Err ''sessRule is nil''
     | Some rule \<Rightarrow>
         if release
         then (case AuthDefQos rule of
                 None \<Rightarrow> Panic ''nil pointer dereference''
               | Some q \<Rightarrow> marshal_modify N [ModifyRelease [AdqVar5qi q]])
         else bind_res (modify_ies N (ctx s) rule) (marshal_modify N))"

section \<open>Releasing and handing over\<close>

definition BuildPDUSessionResourceReleaseCommandTransfer :: "ngap_lib \<Rightarrow> byte list result" where
  "BuildPDUSessionResourceReleaseCommandTransfer N = Marshal N ReleaseCommandTransfer"

text \<open>The N3 tunnel of the first UPF; indexing an empty list of interfaces panics here.\<close>

definition n3_tunnel :: "nas_lib \<Rightarrow> (string \<Rightarrow> ip option) \<Rightarrow> 'g session \<Rightarrow> n2_tunnel result" where
  "n3_tunnel nas net s =
     bind_res (an_upf s) (\<lambda>(n, u).
     bind_res (nth_res (N3Interfaces u) 0) (\<lambda>i.
     bind_res (Interface_IP nas net (SelectedPDUSessionType (ctx s)) i) (\<lambda>a.
     Ok (n2_tunnel_of a (TEID (UpLinkTunnel (dpnodes (dps s) ! n)))))))"

text \<open>The security indication of the acknowledgement is the constant \<^verbatim>\<open>not needed\<close>.\<close>

definition BuildPathSwitchRequestAcknowledgeTransfer ::
    "ngap_lib \<Rightarrow> nas_lib \<Rightarrow> (string \<Rightarrow> ip option) \<Rightarrow> 'g session \<Rightarrow> byte list result" where
  "BuildPathSwitchRequestAcknowledgeTransfer N nas net s =
     bind_res (n3_tunnel nas net s) (\<lambda>t. Marshal N (PathSwitchAckTransfer t))"

text \<open>The groups radio network, transport, NAS, protocol and miscellaneous are 1 to 5.\<close>

definition BuildPathSwitchRequestUnsuccessfulTransfer :: "ngap_lib \<Rightarrow> int \<Rightarrow> int \<Rightarrow> byte list result" where
  "BuildPathSwitchRequestUnsuccessfulTransfer N causePresent causeValue =
     Marshal N (PathSwitchUnsuccessfulTransfer causePresent (if causePresent \<in> {1, 2, 3, 4, 5} then Some causeValue else None))"

definition BuildHandoverCommandTransfer ::
    "ngap_lib \<Rightarrow> nas_lib \<Rightarrow> (string \<Rightarrow> ip option) \<Rightarrow> 'g session \<Rightarrow> byte list result" where
  "BuildHandoverCommandTransfer N nas net s =
     bind_res (n3_tunnel nas net s) (\<lambda>t. Marshal N (HandoverCommandTransfer t))"

section \<open>Answers of the access network\<close>

text \<open>The loop over the paths of a pool that are selected, from their first nodes.\<close>

fun each_path :: "(data_path \<Rightarrow> bool) \<Rightarrow> (nat \<Rightarrow> 's \<Rightarrow> unit result \<times> 's) \<Rightarrow> data_path list \<Rightarrow> 's \<Rightarrow> unit result \<times> 's" where
  "each_path sel f [] s = (Ok (), s)"
| "each_path sel f (d # ds) s = (if sel d
     then (case FirstDPNode d of
             None \<Rightarrow> (Panic ''nil pointer dereference'', s)
           | Some n \<Rightarrow> seq (f n s) (\<lambda>_. each_path sel f ds))
     else each_path sel f ds s)"

text \<open>The forwarding rule of a detection rule.\<close>

definition far_of :: "nat \<Rightarrow> 'g dp_state \<Rightarrow> (nat \<times> far) option" where
  "far_of p s = Option.bind (pdrs (rules s) p) (\<lambda>x. Option.bind (FAR x) (\<lambda>f. map_option (Pair f) (fars (rules s) f)))"

definition with_header :: "ip \<Rightarrow> u32 \<Rightarrow> bool \<Rightarrow> forwarding_parameters \<Rightarrow> forwarding_parameters" where
  "with_header a teid sndem w = w\<lparr>OuterHeaderCreation := Some (outer_header a teid),
     PFCPSMReqFlags := (if sndem then Some True else PFCPSMReqFlags w)\<rparr>"

definition set_an_header :: "ip \<Rightarrow> u32 \<Rightarrow> bool \<Rightarrow> nat \<Rightarrow> 'g dp_state \<Rightarrow> unit result \<times> 'g dp_state" where
  "set_an_header a teid switch p s = (case far_of p s of
      None \<Rightarrow> (Panic ''nil pointer dereference'', s)
    | Some (f, far) \<Rightarrow>
        (case ForwardingParameters far of
           None \<Rightarrow> (Panic ''nil pointer dereference'', s)
         | Some w \<Rightarrow> (Ok (), set_far f (\<lambda>y. y\<lparr>ForwardingParameters := Some (with_header a teid switch w),
             FarState := (if switch then RULE_UPDATE else FarState y)\<rparr>) s)))"

text \<open>Both containers that move the downlink tunnel: the address goes to the context and to the rules
  of every activated path.  The setup response converts the address to four bytes, the path switch
  takes it as it is, marks the rule for an update and asks for an end marker.\<close>

definition an_tunnel :: "bool \<Rightarrow> up_tnl \<Rightarrow> 'g session \<Rightarrow> unit result \<times> 'g session" where
  "an_tunnel switch tnl s = (if \<not> IsGTPTunnel tnl then (Err ''UPTransportLayerInformation.Present'', s)
     else case TnlGTP tnl of
       None \<Rightarrow> (Panic ''nil pointer dereference'', s)
     | Some (teidOct, ad) \<Rightarrow>
         seq (Uint32 teidOct, s) (\<lambda>teid s.
         case Tunnel s of
           None \<Rightarrow> (Panic ''nil pointer dereference'', s)
         | Some pool \<Rightarrow>
             (case each_path Activated (\<lambda>n d. each_pdr (set_an_header (if switch then ad else To4 ad) teid switch) (tunnel_pdrs DL n d) d)
                  (pool_paths pool) ((dps s)\<lparr>anIP := ad, anTEID := teid\<rparr>) of
                (r, d) \<Rightarrow> (r, s\<lparr>dps := d\<rparr>))))"

definition HandlePDUSessionResourceSetupResponseTransfer :: "ngap_lib \<Rightarrow> byte list \<Rightarrow> 'g session \<Rightarrow> unit result \<times> 'g session" where
  "HandlePDUSessionResourceSetupResponseTransfer N b s =
     seq (UnmarshalSetupResponse N b, s) (\<lambda>tnl s.
     seq (an_tunnel False tnl s) (\<lambda>_ s. (Ok (), s\<lparr>UpCnxState := ''ACTIVATED''\<rparr>)))"

definition HandlePDUSessionResourceSetupUnsuccessfulTransfer :: "ngap_lib \<Rightarrow> byte list \<Rightarrow> 'g session \<Rightarrow> unit result \<times> 'g session" where
  "HandlePDUSessionResourceSetupUnsuccessfulTransfer N b s =
     seq (UnmarshalOk N b, s) (\<lambda>_ s. (Ok (), s\<lparr>UpCnxState := ''ACTIVATING''\<rparr>))"

definition HandlePathSwitchRequestTransfer :: "ngap_lib \<Rightarrow> byte list \<Rightarrow> 'g session \<Rightarrow> unit result \<times> 'g session" where
  "HandlePathSwitchRequestTransfer N b s = seq (UnmarshalPathSwitch N b, s) (an_tunnel True)"

definition HandlePathSwitchRequestSetupFailedTransfer :: "ngap_lib \<Rightarrow> byte list \<Rightarrow> 'g session \<Rightarrow> unit result \<times> 'g session" where
  "HandlePathSwitchRequestSetupFailedTransfer N b s = (UnmarshalOk N b, s)"

definition HandleHandoverRequiredTransfer :: "ngap_lib \<Rightarrow> byte list \<Rightarrow> 'g session \<Rightarrow> unit result \<times> 'g session" where
  "HandleHandoverRequiredTransfer N b s = (UnmarshalOk N b, s)"

text \<open>The acknowledgement of a handover checks the length of the identifier, skips paths without first
  node and rules without forwarding rule, and creates missing forwarding parameters.\<close>

definition set_ho_header :: "ip \<Rightarrow> u32 \<Rightarrow> nat \<Rightarrow> 'g dp_state \<Rightarrow> unit result \<times> 'g dp_state" where
  "set_ho_header a teid p s = (case pdrs (rules s) p of
      None \<Rightarrow> (Panic ''nil pointer dereference'', s)
    | Some x \<Rightarrow>
        (case FAR x of
           None \<Rightarrow> (Ok (), s)
         | Some f \<Rightarrow> (Ok (), set_far f (\<lambda>y. y\<lparr>ForwardingParameters := Some (with_header a teid False
             (case ForwardingParameters y of None \<Rightarrow>
                \<lparr>OuterHeaderCreation = None, PFCPSMReqFlags = None, FwdNetworkInstance = [], DestinationInterface = 0\<rparr> | Some w \<Rightarrow> w)),
             FarState := RULE_UPDATE\<rparr>) s)))"

definition HandleHandoverRequestAcknowledgeTransfer :: "ngap_lib \<Rightarrow> byte list \<Rightarrow> 'g session \<Rightarrow> unit result \<times> 'g session" where
  "HandleHandoverRequestAcknowledgeTransfer N b s = (case Tunnel s of
      None \<Rightarrow> (Err ''SMContext or Tunnel is nil in HandoverRequestAcknowledgeTransfer'', s)
    | Some pool \<Rightarrow>
        seq (UnmarshalHandoverAck N b, s) (\<lambda>tnl s.
        case TnlGTP tnl of
          None \<Rightarrow> (Panic ''nil pointer dereference'', s)
        | Some (teidOct, ad) \<Rightarrow>
            if length teidOct \<noteq> 4 then (Err ''invalid GTP TEID length'', s)
            else seq (Uint32 teidOct, s) (\<lambda>teid s.
              case each_path Activated (\<lambda>n d. each_pdr (set_ho_header ad teid) (tunnel_pdrs DL n d) d)
                  (filter (\<lambda>d. FirstDPNode d \<noteq> None) (pool_paths pool)) (dps s) of
                (r, d) \<Rightarrow> (r, s\<lparr>dps := d\<rparr>))))"

section \<open>Rules for the loops\<close>

text \<open>\<^verbatim>\<open>I\<close> is the loop invariant, \<^verbatim>\<open>R\<close> what no iteration destroys, \<^verbatim>\<open>Q p\<close> what the iteration for \<^verbatim>\<open>p\<close>
  establishes.\<close>

lemma each_pdr_rule:
  assumes "each_pdr f ps s = (Ok (), s')" and "I s"
    and step: "\<And>p t t'. p \<in> snd ` set ps \<Longrightarrow> I t \<Longrightarrow> f p t = (Ok (), t') \<Longrightarrow> I t' \<and> Q p t'"
    and stable: "\<And>p q t t'. q \<in> snd ` set ps \<Longrightarrow> I t \<Longrightarrow> f q t = (Ok (), t') \<Longrightarrow> Q p t \<Longrightarrow> Q p t'"
  shows "I s' \<and> (\<forall>p. Q p s \<or> p \<in> snd ` set ps \<longrightarrow> Q p s')"
  using assms
proof (induction ps arbitrary: s)
  case Nil
  then show ?case by simp
next
  case (Cons a ps)
  obtain name p where a: "a = (name, p)" by (cases a)
  obtain r t where t: "f p s = (r, t)" by fastforce
  have r: "r = Ok ()" using Cons.prems(1) a t by (cases r) auto
  have p: "p \<in> snd ` set (a # ps)" by (simp add: a)
  have here: "I t \<and> Q p t" using Cons.prems(3)[OF p Cons.prems(2) t[unfolded r]] .
  have kept: "Q q s \<Longrightarrow> Q q t" for q using Cons.prems(4)[OF p Cons.prems(2) t[unfolded r]] .
  have rest: "each_pdr f ps t = (Ok (), s')" using Cons.prems(1) a t r by simp
  have step': "I u' \<and> Q q u'" if "q \<in> snd ` set ps" "I u" "f q u = (Ok (), u')" for q u u'
    by (rule Cons.prems(3)[OF _ that(2,3)]) (use that(1) in simp)
  have stable': "Q m u'" if "q \<in> snd ` set ps" "I u" "f q u = (Ok (), u')" "Q m u" for m q u u'
    by (rule Cons.prems(4)[OF _ that(2-4)]) (use that(1) in simp)
  have "I s' \<and> (\<forall>q. Q q t \<or> q \<in> snd ` set ps \<longrightarrow> Q q s')"
    by (rule Cons.IH[OF rest here[THEN conjunct1] step' stable'])
  then show ?case using here kept by (auto simp: a)
qed

lemma each_path_rule:
  assumes "each_path sel f ds s = (Ok (), s')" and "I s"
    and step: "\<And>d n t t'. d \<in> set ds \<Longrightarrow> sel d \<Longrightarrow> FirstDPNode d = Some n \<Longrightarrow> I t \<Longrightarrow> f n t = (Ok (), t') \<Longrightarrow> I t' \<and> Q n t'"
    and stable: "\<And>d n m t t'. d \<in> set ds \<Longrightarrow> sel d \<Longrightarrow> FirstDPNode d = Some n \<Longrightarrow> I t \<Longrightarrow> f n t = (Ok (), t') \<Longrightarrow> Q m t \<Longrightarrow> Q m t'"
  shows "I s' \<and> (\<forall>m. Q m s \<or> (\<exists>d \<in> set ds. sel d \<and> FirstDPNode d = Some m) \<longrightarrow> Q m s')"
  using assms
proof (induction ds arbitrary: s)
  case Nil
  then show ?case by simp
next
  case (Cons d ds)
  have step': "I u' \<and> Q n u'"
    if "e \<in> set ds" "sel e" "FirstDPNode e = Some n" "I u" "f n u = (Ok (), u')" for e n u u'
    by (rule Cons.prems(3)[OF _ that(2-5)]) (use that(1) in simp)
  have stable': "Q m u'"
    if "e \<in> set ds" "sel e" "FirstDPNode e = Some n" "I u" "f n u = (Ok (), u')" "Q m u" for e n m u u'
    by (rule Cons.prems(4)[OF _ that(2-6)]) (use that(1) in simp)
  show ?case
  proof (cases "sel d")
    case False
    then have rest: "each_path sel f ds s = (Ok (), s')" using Cons.prems(1) by simp
    have "I s' \<and> (\<forall>m. Q m s \<or> (\<exists>d \<in> set ds. sel d \<and> FirstDPNode d = Some m) \<longrightarrow> Q m s')"
      by (rule Cons.IH[OF rest Cons.prems(2) step' stable'])
    then show ?thesis using False by auto
  next
    case True
    then obtain n where n: "FirstDPNode d = Some n" using Cons.prems(1) by (cases "FirstDPNode d") auto
    obtain r t where t: "f n s = (r, t)" by fastforce
    have r: "r = Ok ()" using Cons.prems(1) True n t by (cases r) auto
    have here: "I t \<and> Q n t" using Cons.prems(3)[OF _ True n Cons.prems(2) t[unfolded r]] by simp
    have kept: "Q m s \<Longrightarrow> Q m t" for m using Cons.prems(4)[OF _ True n Cons.prems(2) t[unfolded r]] by simp
    have rest: "each_path sel f ds t = (Ok (), s')" using Cons.prems(1) True n t r by simp
    have "I s' \<and> (\<forall>m. Q m t \<or> (\<exists>d \<in> set ds. sel d \<and> FirstDPNode d = Some m) \<longrightarrow> Q m s')"
      by (rule Cons.IH[OF rest here[THEN conjunct1] step' stable'])
    then show ?thesis using here kept n by auto
  qed
qed

section \<open>The downlink tunnel\<close>

text \<open>The forwarding rules of the downlink side of the activated paths.\<close>

definition downlink_fars :: "data_path list \<Rightarrow> 'g dp_state \<Rightarrow> nat set" where
  "downlink_fars ds s = {f. \<exists>d \<in> set ds. \<exists>n p x. Activated d \<and> FirstDPNode d = Some n \<and> p \<in> snd ` set (tunnel_pdrs DL n s)
     \<and> pdrs (rules s) p = Some x \<and> FAR x = Some f}"

definition header_set :: "ip \<Rightarrow> u32 \<Rightarrow> 'g dp_state \<Rightarrow> nat \<Rightarrow> bool" where
  "header_set a t s f \<longleftrightarrow> (\<exists>y w. fars (rules s) f = Some y \<and> ForwardingParameters y = Some w
     \<and> OuterHeaderCreation w = Some (outer_header a t))"

text \<open>The links, the detection rules and the forwarding rules outside \<^verbatim>\<open>F\<close> are those of \<^verbatim>\<open>s\<close>.\<close>

definition only_fars :: "nat set \<Rightarrow> 'g dp_state \<Rightarrow> 'g dp_state \<Rightarrow> bool" where
  "only_fars F s t \<longleftrightarrow> dpnodes t = dpnodes s \<and> pdrs (rules t) = pdrs (rules s) \<and> dupfs t = dupfs s
     \<and> (\<forall>f. f \<notin> F \<longrightarrow> fars (rules t) f = fars (rules s) f)"

lemma only_fars_refl [simp]: "only_fars F s s"
  by (simp add: only_fars_def)

lemma only_fars_set_far: "only_fars F s t \<Longrightarrow> f \<in> F \<Longrightarrow> only_fars F s (set_far f h t)"
  by (auto simp: only_fars_def)

lemma only_fars_tunnel_pdrs: "only_fars F s t \<Longrightarrow> tunnel_pdrs d n t = tunnel_pdrs d n s"
  by (simp add: only_fars_def tunnel_pdrs_def)

lemma far_of_Some:
  "far_of p s = Some (f, y) \<longleftrightarrow> (\<exists>x. pdrs (rules s) p = Some x \<and> FAR x = Some f \<and> fars (rules s) f = Some y)"
  by (auto simp: far_of_def bind_eq_Some_conv)

lemma set_an_header_Ok:
  assumes "set_an_header a teid switch p s = (Ok (), s')"
  obtains f y w where "far_of p s = Some (f, y)" "ForwardingParameters y = Some w"
    "s' = set_far f (\<lambda>y. y\<lparr>ForwardingParameters := Some (with_header a teid switch w),
             FarState := (if switch then RULE_UPDATE else FarState y)\<rparr>) s"
  using assms unfolding set_an_header_def
  by (cases "far_of p s"; cases "ForwardingParameters (snd (the (far_of p s)))") auto

lemma header_set_set_far:
  "header_set a t s f \<or> f = f' \<and> fars (rules s) f' = Some y \<Longrightarrow>
   header_set a t (set_far f' (\<lambda>y. y\<lparr>ForwardingParameters := Some (with_header a t sw w), FarState := st y\<rparr>) s) f"
  by (auto simp: header_set_def with_header_def)

lemma each_set_an_header:
  fixes d :: "'g dp_state"
  assumes run: "each_path Activated (\<lambda>n d. each_pdr (set_an_header a t sw) (tunnel_pdrs DL n d) d) ds d = (Ok (), d')"
  defines "F \<equiv> downlink_fars ds d"
  shows "only_fars F d d' \<and> (\<forall>f \<in> F. header_set a t d' f)"
proof -
  define H where "H = (\<lambda>p (u :: 'g dp_state). \<forall>x f. pdrs (rules u) p = Some x \<and> FAR x = Some f \<longrightarrow> header_set a t u f)"
  have one: "only_fars F d t' \<and> H p t'" and keep: "H q u \<Longrightarrow> H q t'"
    if u: "only_fars F d u" and p: "\<exists>e \<in> set ds. \<exists>n. Activated e \<and> FirstDPNode e = Some n \<and> p \<in> snd ` set (tunnel_pdrs DL n u)"
      and step: "set_an_header a t sw p u = (Ok (), t')" for p q u t'
  proof -
    obtain f y w where f: "far_of p u = Some (f, y)" "ForwardingParameters y = Some w"
      and t': "t' = set_far f (\<lambda>y. y\<lparr>ForwardingParameters := Some (with_header a t sw w),
             FarState := (if sw then RULE_UPDATE else FarState y)\<rparr>) u"
      by (rule set_an_header_Ok[OF step]) blast
    obtain x where x: "pdrs (rules u) p = Some x" "FAR x = Some f" "fars (rules u) f = Some y"
      using f(1) by (auto simp: far_of_Some)
    obtain e n where e: "e \<in> set ds" "Activated e" "FirstDPNode e = Some n" "p \<in> snd ` set (tunnel_pdrs DL n d)"
      using p by (auto simp: only_fars_tunnel_pdrs[OF u])
    have "pdrs (rules d) p = Some x" using x(1) u by (simp add: only_fars_def)
    then have "f \<in> F" unfolding F_def downlink_fars_def using e x(2) by blast
    then show "only_fars F d t' \<and> H p t'"
      using only_fars_set_far[OF u] x header_set_set_far[of a t u f f y] by (auto simp: t' H_def)
    show "H q u \<Longrightarrow> H q t'"
      using header_set_set_far[of a t u _ f y] x by (auto simp: t' H_def)
  qed
  have body: "only_fars F d u' \<and> (\<forall>p. H p u \<or> p \<in> snd ` set (tunnel_pdrs DL n u) \<longrightarrow> H p u')"
    if e: "e \<in> set ds" "Activated e" "FirstDPNode e = Some n" and u: "only_fars F d u"
      and step: "each_pdr (set_an_header a t sw) (tunnel_pdrs DL n u) u = (Ok (), u')" for e n u u'
  proof (rule each_pdr_rule[where I = "only_fars F d" and Q = H, OF step u], goal_cases)
    case (1 p v v')
    then show ?case using one[of v p v'] e by (auto simp: only_fars_tunnel_pdrs[OF 1(2)] only_fars_tunnel_pdrs[OF u])
  next
    case (2 p q v v')
    then show ?case using keep[of v q v' p] e by (auto simp: only_fars_tunnel_pdrs[OF 2(2)] only_fars_tunnel_pdrs[OF u])
  qed
  have "only_fars F d d' \<and> (\<forall>m. (\<forall>p \<in> snd ` set (tunnel_pdrs DL m d). H p d) \<or> (\<exists>e \<in> set ds. Activated e \<and> FirstDPNode e = Some m)
       \<longrightarrow> (\<forall>p \<in> snd ` set (tunnel_pdrs DL m d). H p d'))"
  proof (rule each_path_rule[OF run], goal_cases)
    case 1
    then show ?case by simp
  next
    case (2 e n u u')
    then show ?case using body[OF 2] by (simp add: only_fars_tunnel_pdrs[OF 2(4)])
  next
    case (3 e n m u u')
    then show ?case using body[OF 3(1-5)] by blast
  qed
  then show ?thesis unfolding F_def downlink_fars_def H_def by (auto simp: only_fars_def)
qed

text \<open>No operation on rules touches the access network's end point.\<close>

lemma set_an_header_info: "set_an_header a t sw p s = (r, s') \<Longrightarrow> anIP s' = anIP s \<and> anTEID s' = anTEID s"
  by (auto simp: set_an_header_def set_far_def split: option.splits)

lemma each_pdr_info:
  "each_pdr (set_an_header a t sw) ps s = (r, s') \<Longrightarrow> anIP s' = anIP s \<and> anTEID s' = anTEID s"
proof (induction ps arbitrary: s)
  case (Cons x ps)
  obtain name p where x: "x = (name, p)" by (cases x)
  obtain r1 s1 where 1: "set_an_header a t sw p s = (r1, s1)" by fastforce
  then show ?case using Cons set_an_header_info[OF 1] by (cases r1) (auto simp: x)
qed simp

lemma each_an_info:
  "each_path Activated (\<lambda>n d. each_pdr (set_an_header a t sw) (tunnel_pdrs DL n d) d) ds s = (r, s') \<Longrightarrow>
   anIP s' = anIP s \<and> anTEID s' = anTEID s"
proof (induction ds arbitrary: s)
  case (Cons e ds)
  show ?case
  proof (cases "Activated e \<and> FirstDPNode e \<noteq> None")
    case True
    then obtain n where n: "Activated e" "FirstDPNode e = Some n" by auto
    obtain r1 s1 where 1: "each_pdr (set_an_header a t sw) (tunnel_pdrs DL n s) s = (r1, s1)" by fastforce
    then show ?thesis using Cons n each_pdr_info[OF 1] by (cases r1) auto
  qed (use Cons in \<open>auto split: if_splits\<close>)
qed simp

lemma an_tunnel_Ok:
  assumes "an_tunnel switch tnl s = (Ok (), s')" and "Tunnel s = Some pool"
  obtains teidOct ad teid d where "tnl = \<lparr>IsGTPTunnel = True, TnlGTP = Some (teidOct, ad)\<rparr>" "Uint32 teidOct = Ok teid"
    "s' = s\<lparr>dps := d\<rparr>" "anIP d = ad" "anTEID d = teid"
    "only_fars (downlink_fars (pool_paths pool) (dps s)) (dps s) d"
    "\<forall>f \<in> downlink_fars (pool_paths pool) (dps s). header_set (if switch then ad else To4 ad) teid d f"
proof -
  obtain teidOct ad where tnl: "tnl = \<lparr>IsGTPTunnel = True, TnlGTP = Some (teidOct, ad)\<rparr>"
    using assms by (cases tnl) (auto simp: an_tunnel_def split: if_splits option.splits)
  obtain teid where teid: "Uint32 teidOct = Ok teid"
    using assms by (cases "Uint32 teidOct") (auto simp: an_tunnel_def tnl)
  let ?d = "(dps s)\<lparr>anIP := ad, anTEID := teid\<rparr>"
  obtain r d where run: "each_path Activated (\<lambda>n d. each_pdr (set_an_header (if switch then ad else To4 ad) teid switch) (tunnel_pdrs DL n d) d)
      (pool_paths pool) ?d = (r, d)" by fastforce
  have r: "r = Ok ()" "s' = s\<lparr>dps := d\<rparr>" using assms by (auto simp: an_tunnel_def tnl teid run)
  have fars: "downlink_fars (pool_paths pool) ?d = downlink_fars (pool_paths pool) (dps s)"
    by (simp add: downlink_fars_def tunnel_pdrs_def)
  note eff = each_set_an_header[OF run[unfolded r(1)], unfolded fars]
  have "anIP d = ad \<and> anTEID d = teid" using each_an_info[OF run] by simp
  then show thesis using that[OF tnl teid r(2)] eff by (simp add: only_fars_def)
qed

section \<open>Properties\<close>

text \<open>C21: When a setup response or a path switch request of the access network is handled without error,
  the tunnel end point it carries is recorded in the session and every downlink forwarding rule of every
  activated path sends to it; the setup response uses the four byte form of the address and marks the
  connection as activated.  Links, detection rules and all other forwarding rules stay as they were.\<close>

theorem downlink_follows_access_network:
  assumes "Tunnel s = Some pool"
  defines "F \<equiv> downlink_fars (pool_paths pool) (dps s)"
  shows "(HandlePDUSessionResourceSetupResponseTransfer N b s = (Ok (), s') \<longrightarrow>
      (\<exists>oct ad teid. UnmarshalSetupResponse N b = Ok \<lparr>IsGTPTunnel = True, TnlGTP = Some (oct, ad)\<rparr> \<and> Uint32 oct = Ok teid
         \<and> anIP (dps s') = ad \<and> anTEID (dps s') = teid \<and> UpCnxState s' = ''ACTIVATED''
         \<and> only_fars F (dps s) (dps s') \<and> (\<forall>f \<in> F. header_set (To4 ad) teid (dps s') f)))
    \<and> (HandlePathSwitchRequestTransfer N b s = (Ok (), s') \<longrightarrow>
      (\<exists>oct ad teid. UnmarshalPathSwitch N b = Ok \<lparr>IsGTPTunnel = True, TnlGTP = Some (oct, ad)\<rparr> \<and> Uint32 oct = Ok teid
         \<and> anIP (dps s') = ad \<and> anTEID (dps s') = teid \<and> UpCnxState s' = UpCnxState s
         \<and> only_fars F (dps s) (dps s') \<and> (\<forall>f \<in> F. header_set ad teid (dps s') f)))"
proof (intro conjI impI)
  assume "HandlePDUSessionResourceSetupResponseTransfer N b s = (Ok (), s')"
  then obtain tnl s1 where tnl: "UnmarshalSetupResponse N b = Ok tnl" and run: "an_tunnel False tnl s = (Ok (), s1)"
    and s': "s' = s1\<lparr>UpCnxState := ''ACTIVATED''\<rparr>"
    unfolding HandlePDUSessionResourceSetupResponseTransfer_def
    by (cases "UnmarshalSetupResponse N b"; cases "fst (an_tunnel False (case UnmarshalSetupResponse N b of Ok t \<Rightarrow> t) s)")
      (auto simp: seq_def split: prod.splits result.splits)
  then show "\<exists>oct ad teid. UnmarshalSetupResponse N b = Ok \<lparr>IsGTPTunnel = True, TnlGTP = Some (oct, ad)\<rparr> \<and> Uint32 oct = Ok teid
         \<and> anIP (dps s') = ad \<and> anTEID (dps s') = teid \<and> UpCnxState s' = ''ACTIVATED''
         \<and> only_fars F (dps s) (dps s') \<and> (\<forall>f \<in> F. header_set (To4 ad) teid (dps s') f)"
    unfolding F_def by - (rule an_tunnel_Ok[OF run assms(1)], auto)
next
  assume "HandlePathSwitchRequestTransfer N b s = (Ok (), s')"
  then obtain tnl where tnl: "UnmarshalPathSwitch N b = Ok tnl" and run: "an_tunnel True tnl s = (Ok (), s')"
    unfolding HandlePathSwitchRequestTransfer_def by (cases "UnmarshalPathSwitch N b") auto
  then show "\<exists>oct ad teid. UnmarshalPathSwitch N b = Ok \<lparr>IsGTPTunnel = True, TnlGTP = Some (oct, ad)\<rparr> \<and> Uint32 oct = Ok teid
         \<and> anIP (dps s') = ad \<and> anTEID (dps s') = teid \<and> UpCnxState s' = UpCnxState s
         \<and> only_fars F (dps s) (dps s') \<and> (\<forall>f \<in> F. header_set ad teid (dps s') f)"
    unfolding F_def by - (rule an_tunnel_Ok[OF run assms(1)], auto)
qed

definition sample_ngap :: ngap_lib where
  "sample_ngap = \<lparr>UEAmbrToInt64 = (\<lambda>_. 1000), Marshal = (\<lambda>_. Ok [0]),
     UnmarshalSetupResponse = (\<lambda>b. Ok \<lparr>IsGTPTunnel = True, TnlGTP = Some (take 4 b, drop 4 b)\<rparr>),
     UnmarshalPathSwitch = (\<lambda>b. Ok \<lparr>IsGTPTunnel = True, TnlGTP = Some (take 4 b, drop 4 b)\<rparr>),
     UnmarshalHandoverAck = (\<lambda>b. Ok \<lparr>IsGTPTunnel = True, TnlGTP = Some (take 4 b, drop 4 b)\<rparr>), UnmarshalOk = (\<lambda>_. Ok ())\<rparr>"

definition sample_far :: far where
  "sample_far = new_far\<lparr>FARID := 1, ForwardingParameters := Some \<lparr>OuterHeaderCreation = None, PFCPSMReqFlags = None,
     FwdNetworkInstance = [], DestinationInterface = DestinationInterfaceAccess\<rparr>\<rparr>"

definition sample_dps :: "id_pool dp_state" where
  "sample_dps = empty_dps\<lparr>
     dpnodes := [NewDataPathNode\<lparr>DpUPF := Some 0, DownLinkTunnel := empty_tunnel\<lparr>TunPDR := Some [(''default'', 0)]\<rparr>\<rparr>],
     rules := no_rules\<lparr>pdrs := [0 \<mapsto> new_pdr\<lparr>PDRID := 1, FAR := Some 1\<rparr>], fars := [1 \<mapsto> sample_far], nextRule := 2\<rparr>\<rparr>"

definition sample_session :: "id_pool session" where
  "sample_session = \<lparr>ctx = sample_context, Tunnel = Some (Some [(1, NewDataPath\<lparr>FirstDPNode := Some 0, Activated := True, IsDefaultPath := True\<rparr>)]),
     dps = sample_dps, UpCnxState = '''', HoState = '''', Pti = 0, SessSnssai = \<lparr>Sd = ''010203'', Sst = 1\<rparr>,
     ProtocolConfigurationOptions = \<lparr>DNSIPv4Request = False, DNSIPv6Request = False, IPv4LinkMTURequest = False, PCSCFIPv4Request = False\<rparr>,
     DupRelease = False, LocalPurged = False, Pending = [], chan = []\<rparr>"

lemma sample_downlink: "tunnel_pdrs DL 0 (sample_dps\<lparr>anIP := a, anTEID := t\<rparr>) = [(''default'', 0)]" "tunnel_pdrs DL 0 sample_dps = [(''default'', 0)]"
  by (simp_all add: tunnel_pdrs_def tunnel_def sample_dps_def)

theorem downlink_follows_access_network_witness:
  "\<exists>s'. HandlePDUSessionResourceSetupResponseTransfer sample_ngap [0, 0, 0, 7, 10, 0, 0, 9] sample_session = (Ok (), s')
     \<and> anTEID (dps s') = 7 \<and> anIP (dps s') = [10, 0, 0, 9] \<and> header_set [10, 0, 0, 9] 7 (dps s') 1"
proof -
  let ?d = "sample_dps\<lparr>anIP := [10, 0, 0, 9], anTEID := 7\<rparr>"
  have far: "far_of 0 ?d = Some (1, sample_far)" by (simp add: far_of_Some sample_dps_def)
  have teid: "Uint32 [0, 0, 0, 7] = Ok 7" by (simp add: Uint32_def)
  have hdr: "\<exists>d. set_an_header [10, 0, 0, 9] 7 False 0 ?d = (Ok (), d)"
    unfolding set_an_header_def far by (simp add: sample_far_def)
  obtain s' where run: "HandlePDUSessionResourceSetupResponseTransfer sample_ngap [0, 0, 0, 7, 10, 0, 0, 9] sample_session = (Ok (), s')"
    using hdr by (auto simp: HandlePDUSessionResourceSetupResponseTransfer_def an_tunnel_def sample_ngap_def sample_session_def
      teid pool_paths_def sample_downlink To4_def)
  have tun: "Tunnel sample_session = Some (Some [(1, NewDataPath\<lparr>FirstDPNode := Some 0, Activated := True, IsDefaultPath := True\<rparr>)])"
    by (simp add: sample_session_def)
  have one: "1 \<in> downlink_fars (pool_paths (Some [(1, NewDataPath\<lparr>FirstDPNode := Some 0, Activated := True, IsDefaultPath := True\<rparr>)])) (dps sample_session)"
    by (simp add: downlink_fars_def pool_paths_def sample_session_def sample_downlink) (simp add: sample_dps_def)
  show ?thesis
    using downlink_follows_access_network[OF tun, of sample_ngap "[0, 0, 0, 7, 10, 0, 0, 9]" s'] run one
    by (auto simp: sample_ngap_def teid To4_def)
qed

lemma relabelled_Ok: "(case m of Ok x \<Rightarrow> Ok x | Err e \<Rightarrow> Err (f e) | Panic e \<Rightarrow> Panic e) = Ok y \<longleftrightarrow> m = Ok y"
  by (cases m) auto

lemma map_res_Ok:
  "map_res f xs = Ok ys \<longleftrightarrow> length ys = length xs \<and> (\<forall>i < length xs. f (xs ! i) = Ok (ys ! i))"
proof (induction xs arbitrary: ys)
  case (Cons x xs)
  show ?case by (cases ys) (auto simp: Cons nth_Cons split: nat.splits)
qed auto

lemma setup_item_fields:
  assumes "setup_item qd = Ok it"
  shows "QosFlowIdentifier it = uint (GetQosFlowIdFromQosId (QosId qd)) \<and> FiveQI it = Var5qi qd
    \<and> Some (PriorityLevelARP it) = map_option ArpPriorityLevel (Arp qd)"
  using assms by (cases "Arp qd") (auto simp: setup_item_def)

text \<open>The setup request that reaches the encoder names the N3 address and, in network byte order, the
  uplink tunnel of the first UPF of the default path, carries the rates of the selected session rule, and has
  one item per QoS flow, in order, with the flow's identifier, 5QI and priority.  The flows are those that the
  pending update adds, whatever the session has, as soon as the update has flow changes.\<close>

lemma setup_request_contents:
  assumes "BuildPDUSessionResourceSetupRequestTransfer N nas net s = Ok buf"
  defines "flows \<equiv> setup_flows (ctx s)"
  shows "\<exists>n u rule amb tun items. an_upf s = Ok (n, u) \<and> SelectedSessionRule (ctx s) = Some rule \<and> AuthSessAmbr rule = Some amb
    \<and> Interface_IP nas net (SelectedPDUSessionType (ctx s)) (hd (N3Interfaces u)) = Ok (TransportLayerAddress tun)
    \<and> AddrBitLength tun = 8 * length (TransportLayerAddress tun)
    \<and> Uint32 (GTPTEID tun) = Ok (TEID (UpLinkTunnel (dpnodes (dps s) ! n)))
    \<and> length items = length flows
    \<and> (\<forall>i < length flows. QosFlowIdentifier (items ! i) = uint (GetQosFlowIdFromQosId (QosId (snd (flows ! i))))
         \<and> FiveQI (items ! i) = Var5qi (snd (flows ! i))
         \<and> Some (PriorityLevelARP (items ! i)) = map_option ArpPriorityLevel (Arp (snd (flows ! i))))
    \<and> Marshal N (SetupRequestTransfer ([SetupAmbr (UEAmbrToInt64 N (Downlink amb)) (UEAmbrToInt64 N (Uplink amb)),
         SetupULTunnel tun, SetupSessionTypeIpv4] @ (if flows = [] then [] else [SetupQosFlows items]))) = Ok buf"
proof -
  obtain n u where u: "an_upf s = Ok (n, u)"
    using assms(1) by (cases "an_upf s") (auto simp: BuildPDUSessionResourceSetupRequestTransfer_def)
  obtain rule amb where amb: "SelectedSessionRule (ctx s) = Some rule" "AuthSessAmbr rule = Some amb"
    using assms(1) u by (auto simp: BuildPDUSessionResourceSetupRequestTransfer_def Let_def bind_eq_Some_conv split: option.splits)
  obtain i ifs where i: "N3Interfaces u = i # ifs"
    using assms(1) u amb by (cases "N3Interfaces u") (auto simp: BuildPDUSessionResourceSetupRequestTransfer_def Let_def)
  obtain n3IP items where ip: "Interface_IP nas net (SelectedPDUSessionType (ctx s)) i = Ok n3IP"
    and items: "map_res (\<lambda>(_, qd). setup_item qd) flows = Ok items"
    and buf: "Marshal N (SetupRequestTransfer ([SetupAmbr (UEAmbrToInt64 N (Downlink amb)) (UEAmbrToInt64 N (Uplink amb)),
         SetupULTunnel (n2_tunnel_of n3IP (TEID (UpLinkTunnel (dpnodes (dps s) ! n)))), SetupSessionTypeIpv4]
         @ (if items = [] then [] else [SetupQosFlows items]))) = Ok buf"
    using assms u amb i
    by (auto simp: BuildPDUSessionResourceSetupRequestTransfer_def Let_def n2_tunnel_of_def relabelled_Ok)
  have len: "length items = length flows" "(items = []) = (flows = [])"
    and item: "j < length flows \<Longrightarrow> setup_item (snd (flows ! j)) = Ok (items ! j)" for j
    using items by (auto simp: map_res_Ok case_prod_beta)
  have "QosFlowIdentifier (items ! j) = uint (GetQosFlowIdFromQosId (QosId (snd (flows ! j))))
         \<and> FiveQI (items ! j) = Var5qi (snd (flows ! j))
         \<and> Some (PriorityLevelARP (items ! j)) = map_option ArpPriorityLevel (Arp (snd (flows ! j)))" if "j < length flows" for j
    using item[OF that] by (rule setup_item_fields)
  then show ?thesis
    using u amb i ip buf len by (intro exI[of _ n] exI[of _ u] exI[of _ rule] exI[of _ amb]
      exI[of _ "n2_tunnel_of n3IP (TEID (UpLinkTunnel (dpnodes (dps s) ! n)))"] exI[of _ items])
      (simp add: n2_tunnel_of_def Uint32_PutUint32)
qed

definition setup_session :: "id_pool session" where
  "setup_session = sample_session\<lparr>
     ctx := sample_context\<lparr>SelectedPDUSessionType := 1, SmPolicyData := (SmPolicyData sample_context)\<lparr>
       ActiveRule := Some \<lparr>SessRuleId = ''r'', AuthSessAmbr = Some \<lparr>Uplink = ''1 Gbps'', Downlink = ''1 Gbps''\<rparr>, AuthDefQos = None\<rparr>\<rparr>\<rparr>,
     dps := sample_dps\<lparr>dupfs := [sample_upf\<lparr>N3Interfaces := [\<lparr>NetworkInstance = ''internet'', EndpointFQDN = '''',
       IPv4EndPointAddresses = [[10, 0, 0, 1]], IPv6EndPointAddresses = []\<rparr>]\<rparr>]\<rparr>\<rparr>"

theorem setup_request_contents_witness:
  "BuildPDUSessionResourceSetupRequestTransfer sample_ngap nas_24501 (\<lambda>_. None) setup_session = Ok [0] \<and>
   (\<exists>n u. an_upf setup_session = Ok (n, u) \<and> n = 0 \<and> length (N3Interfaces u) = 1)"
proof -
  have "GetDefaultPath [(1, NewDataPath\<lparr>FirstDPNode := Some 0, Activated := True, IsDefaultPath := True\<rparr>)] =
      Some (NewDataPath\<lparr>FirstDPNode := Some 0, Activated := True, IsDefaultPath := True\<rparr>)"
    by (simp add: GetDefaultPath_def)
  then have upf: "\<exists>u. an_upf setup_session = Ok (0, u) \<and> N3Interfaces u = [\<lparr>NetworkInstance = ''internet'', EndpointFQDN = '''',
       IPv4EndPointAddresses = [[10, 0, 0, 1]], IPv6EndPointAddresses = []\<rparr>]"
    by (simp add: an_upf_def setup_session_def sample_session_def the_upf_def sample_dps_def)
  have upds: "SmPolicyUpdates sample_context = []" "SmCtxtQosData (SmPolicyData sample_context) = []"
    by (simp_all add: sample_context_def new_context_def Initialize_def)
  then have "SelectedSessionRule (ctx setup_session) = Some \<lparr>SessRuleId = ''r'',
      AuthSessAmbr = Some \<lparr>Uplink = ''1 Gbps'', Downlink = ''1 Gbps''\<rparr>, AuthDefQos = None\<rparr>" "setup_flows (ctx setup_session) = []"
    by (simp_all add: SelectedSessionRule_def setup_flows_def setup_session_def)
  then have ok: "BuildPDUSessionResourceSetupRequestTransfer sample_ngap nas_24501 (\<lambda>_. None) setup_session = Ok [0]"
    using upf by (auto simp: BuildPDUSessionResourceSetupRequestTransfer_def Interface_IP_def nas_24501_def sample_ngap_def)
      (simp add: setup_session_def)
  show ?thesis using setup_request_contents[OF ok] ok upf by auto
qed

section \<open>Rates of a modification\<close>

lemma digit_char:
  assumes "digit_val c \<noteq> None"
  shows "\<not> is_space c" "ToLower [c] = [c]"
  using assms by (auto simp: digit_val_def is_space_def ToLower_def Let_def split: if_splits)

lemma ToLower_append: "ToLower (s @ t) = ToLower s @ ToLower t"
  by (simp add: ToLower_def)

lemma ToLower_digits: "(\<And>c. c \<in> set s \<Longrightarrow> digit_val c \<noteq> None) \<Longrightarrow> ToLower s = s"
proof (induction s)
  case (Cons c s)
  then show ?case using ToLower_append[of "[c]" s] digit_char(2)[of c] by simp
qed (simp add: ToLower_def)

lemma TrimSpace_rate:
  assumes "parse_nat ds = Some n" and "t \<noteq> []" and "\<not> is_space (last t)"
  shows "TrimSpace (ds @ t) = ds @ t"
proof -
  obtain c cs where ds: "ds = c # cs" using assms(1) by (cases ds) (auto simp: parse_nat_def)
  have "\<not> is_space c" using parse_nat_chars[OF assms(1), of c] digit_char(1) ds by auto
  moreover have "dropWhile is_space (rev (ds @ t)) = rev (ds @ t)"
    using assms(2,3) by (cases t rule: rev_cases) auto
  ultimately show ?thesis by (simp add: TrimSpace_def ds)
qed

lemma rate_suffix:
  assumes "parse_nat ds = Some n" and "t \<noteq> []" and "\<not> is_space (last t)"
  shows "ToLower (TrimSpace (ds @ t)) = ds @ ToLower t"
  using TrimSpace_rate[OF assms] ToLower_digits[of ds] parse_nat_chars[OF assms(1)] by (auto simp: ToLower_append)

lemma HasSuffix_append: "HasSuffix (s @ t) t" "TrimSuffix (s @ t) t = s"
  by (simp_all add: HasSuffix_def TrimSuffix_def)

lemma HasSuffix_same_length: "length t = length u \<Longrightarrow> HasSuffix (s @ t) u \<longleftrightarrow> t = u"
  by (auto simp: HasSuffix_def)

lemma blank_not_number: "parse_nat (s @ '' '') = None"
  using parse_nat_chars[of "s @ '' ''" _ "CHR '' ''"] by (cases "parse_nat (s @ '' '')") (auto simp: digit_val_def)

lemma ToLower_units:
  "ToLower ''Kbps'' = ''kbps''" "ToLower ''Mbps'' = ''mbps''" "ToLower '' Mbps'' = '' mbps''" "ToLower ''Gbps'' = ''gbps''"
  by code_simp+



end
