(* ===== verification/N1_Message.thy ===== *)
theory N1_Message
  imports N2_Transfer
begin

text \<open>
  The session management messages exchanged with the UE, \<^verbatim>\<open>src/context/gsm_build.go\<close>,
  \<^verbatim>\<open>src/context/gsm_handler.go\<close> and \<^verbatim>\<open>src/smferrors/errors.go\<close>.  A message is a value with the fields
  that the builders set; what the NAS library does with it (encoding and decoding, cause codes,
  session rates, the units of the protocol configuration options) is an argument (\<^verbatim>\<open>gsm_lib\<close>).
\<close>

section \<open>Messages\<close>

datatype gsm_cause =
    DNNNotSupportedOrNotSubscribedInTheSlice | InsufficientResourcesForSpecificSliceAndDNN | InsufficientResources
  | RequestRejectedUnspecified | PDUSessionTypeIPv4OnlyAllowed | InvalidPDUSessionIdentity | PDUSessionDoesNotExist

text \<open>The address element has a length, a session type and twelve octets; options and rules have a
  length and octets.\<close>

record establishment_accept =
  eaSessionID :: u8
  eaPTI :: u8
  eaCause :: "u8 option"
  eaSelectedType :: u8
  eaSSCMode :: u8
  eaAmbr :: "u8 \<times> byte list"
  eaQosRules :: "u16 \<times> byte list"
  eaAddress :: "(u8 \<times> u8 \<times> byte list) option"
  eaFlows :: "u16 \<times> byte list"
  eaSst :: u8
  eaSd :: "byte list"
  eaDnn :: "u8 \<times> byte list"
  eaOptions :: "(u16 \<times> byte list) option"

record modification_command =
  mcSessionID :: u8
  mcPTI :: u8
  mcAmbr :: "(u8 \<times> byte list) option"
  mcFlows :: "u16 \<times> byte list"
  mcQosRules :: "(u16 \<times> byte list) option"

datatype gsm_msg =
    EstablishmentAccept establishment_accept
  | EstablishmentReject u8 u8 u8
  | ReleaseCommand u8 u8 u8
  | ReleaseReject u8 u8 u8
  | ModificationCommand modification_command

record establishment_request =
  erSessionID :: u8
  erPTI :: u8
  erType :: "u8 option"
  erOptions :: "byte list option"

datatype gsm_request =
    EstablishmentRequest establishment_request
  | ReleaseRequest u8 u8
  | ReleaseComplete
  | OtherRequest

text \<open>\<^verbatim>\<open>'p\<close> are the options under construction; adding to them may fail, and the builder then goes on
  with whatever the library left.  \<^verbatim>\<open>UnMarshalOptions\<close> are the identifiers of the containers that
  were parsed.\<close>

record 'p gsm_lib =
  PlainNasEncode :: "gsm_msg \<Rightarrow> byte list result"
  GsmMessageDecode :: "byte list \<Rightarrow> gsm_request result"
  ModelsToSessionAMBR :: "ambr option \<Rightarrow> byte list result"
  CauseValue :: "gsm_cause \<Rightarrow> u8"
  FlowsIeType :: u8
  Rate16 :: "string \<Rightarrow> u16 option"
  NewOptions :: 'p
  AddDNSServerIPv4Address :: "ip \<Rightarrow> 'p \<Rightarrow> 'p"
  AddDNSServerIPv6Address :: "ip \<Rightarrow> 'p \<Rightarrow> 'p"
  AddIPv4LinkMTU :: "u16 \<Rightarrow> 'p \<Rightarrow> 'p"
  AddPCSCFIPv4Address :: "ip \<Rightarrow> 'p \<Rightarrow> 'p"
  MarshalOptions :: "'p \<Rightarrow> byte list"
  UnMarshalOptions :: "byte list \<Rightarrow> u16 list"
  DNSServerIPv4AddressRequestUL :: u16
  DNSServerIPv6AddressRequestUL :: u16
  PCSCFIPv4AddressRequestUL :: u16

record dnn_net =
  DnsIPv4Addr :: ip
  DnsIPv6Addr :: ip
  MTU :: u16

text \<open>The configuration that the builders read: the data network of a context (nil before it is
  retrieved) and the address of the P-CSCF in the configuration and in the SMF's own context.\<close>

record gsm_config =
  DnnNet :: "string \<Rightarrow> dnn_net option"
  ConfigPCSCF :: string
  ContextPCSCF :: string
  SupportedPDUSessionType :: string

section \<open>Causes\<close>

definition ErrorCause :: "string \<rightharpoonup> gsm_cause" where
  "ErrorCause = map_of
     [(''DnnDeniedError'', DNNNotSupportedOrNotSubscribedInTheSlice),
      (''DnnNotSupported'', DNNNotSupportedOrNotSubscribedInTheSlice),
      (''InsufficientResourceSliceDnn'', InsufficientResourcesForSpecificSliceAndDNN),
      (''IpAllocError'', InsufficientResources),
      (''SubscriptionDataFetchError'', RequestRejectedUnspecified),
      (''SubscriptionDataLenError'', RequestRejectedUnspecified),
      (''UDMDiscoveryFailure'', RequestRejectedUnspecified),
      (''UPFDataPathError'', RequestRejectedUnspecified),
      (''PCFDiscoveryFailure'', RequestRejectedUnspecified),
      (''PCFPolicyCreateFailure'', RequestRejectedUnspecified),
      (''ApplySMPolicyFailure'', RequestRejectedUnspecified),
      (''AMFDiscoveryFailure'', RequestRejectedUnspecified),
      (''PDUSessionTypeIPv4OnlyAllowed'', PDUSessionTypeIPv4OnlyAllowed),
      (''InvalidPDUSessionIdentity'', InvalidPDUSessionIdentity),
      (''PDUSessionDoesNotExist'', PDUSessionDoesNotExist)]"

text \<open>Status and cause of the problem details.\<close>

definition ErrorType :: "string \<rightharpoonup> int \<times> string" where
  "ErrorType = map_of
     [(''DnnDeniedError'', 403, ''DNN_DENIED''),
      (''DnnNotSupported'', 403, ''DNN_NOT_SUPPORTED''),
      (''InsufficientResourceSliceDnn'', 500, ''INSUFFICIENT_RESOURCES_SLICE_DNN''),
      (''IpAllocError'', 500, ''INSUFFICIENT_RESOURCES''),
      (''SubscriptionDataFetchError'', 500, ''REQUEST_REJECTED''),
      (''SubscriptionDataLenError'', 500, ''REQUEST_REJECTED''),
      (''UDMDiscoveryFailure'', 500, ''REQUEST_REJECTED''),
      (''UPFDataPathError'', 500, ''REQUEST_REJECTED''),
      (''PCFDiscoveryFailure'', 500, ''REQUEST_REJECTED''),
      (''PCFPolicyCreateFailure'', 500, ''REQUEST_REJECTED''),
      (''ApplySMPolicyFailure'', 500, ''REQUEST_REJECTED''),
      (''AMFDiscoveryFailure'', 500, ''REQUEST_REJECTED''),
      (''PDUSessionTypeIPv4OnlyAllowed'', 403, ''REQUEST_REJECTED''),
      (''PDUSessionDoesNotExist'', 404, ''REQUEST_REJECTED'')]"

text \<open>A missing key of the map gives 0.\<close>

definition cause_octet :: "'p gsm_lib \<Rightarrow> string \<Rightarrow> u8" where
  "cause_octet G cause = (case ErrorCause cause of None \<Rightarrow> 0 | Some c \<Rightarrow> CauseValue G c)"

section \<open>The acceptance\<close>

definition fromHexChar :: "char \<Rightarrow> byte option" where
  "fromHexChar c = (let n = of_char c :: nat in
     if 48 \<le> n \<and> n \<le> 57 then Some (of_nat (n - 48))
     else if 97 \<le> n \<and> n \<le> 102 then Some (of_nat (n - 87))
     else if 65 \<le> n \<and> n \<le> 70 then Some (of_nat (n - 55)) else None)"

text \<open>\<^verbatim>\<open>hex.DecodeString\<close>.\<close>

fun hex_DecodeString :: "string \<Rightarrow> byte list result" where
  "hex_DecodeString [] = Ok []"
| "hex_DecodeString [c] = Err ''invalid hex''"
| "hex_DecodeString (c # d # s) = (case (fromHexChar c, fromHexChar d) of
      (Some h, Some l) \<Rightarrow> bind_res (hex_DecodeString s) (\<lambda>bs. Ok ((push_bit 4 h OR l) # bs))
    | _ \<Rightarrow> Err ''invalid hex'')"

text \<open>\<^verbatim>\<open>copy\<close> into an array of three octets.\<close>

definition sd_octets :: "byte list \<Rightarrow> byte list" where
  "sd_octets bs = take 3 (bs @ [0, 0, 0])"

definition pcscf_address :: "gsm_config \<Rightarrow> string" where
  "pcscf_address cfg = (if ContextPCSCF cfg \<noteq> '''' then ContextPCSCF cfg else ConfigPCSCF cfg)"

definition when_opt :: "bool \<Rightarrow> ('p \<Rightarrow> 'p) \<Rightarrow> 'p \<Rightarrow> 'p" where
  "when_opt b f p = (if b then f p else p)"

definition configuration_options :: "'p gsm_lib \<Rightarrow> gsm_config \<Rightarrow> dnn_net \<Rightarrow> pco \<Rightarrow> 'p" where
  "configuration_options G cfg d po =
     when_opt (PCSCFIPv4Request po \<and> ParseIP (pcscf_address cfg) \<noteq> []) (AddPCSCFIPv4Address G (ParseIP (pcscf_address cfg)))
       (when_opt (IPv4LinkMTURequest po) (AddIPv4LinkMTU G (MTU d))
         (when_opt (DNSIPv6Request po) (AddDNSServerIPv6Address G (DnsIPv6Addr d))
           (when_opt (DNSIPv4Request po) (AddDNSServerIPv4Address G (DnsIPv4Addr d)) (NewOptions G))))"

definition accept_options :: "'p gsm_lib \<Rightarrow> gsm_config \<Rightarrow> 'g session \<Rightarrow> (u16 \<times> byte list) option result" where
  "accept_options G cfg s = (let po = ProtocolConfigurationOptions s in
     if DNSIPv4Request po \<or> DNSIPv6Request po \<or> IPv4LinkMTURequest po
     then (case DnnNet cfg (DNNInfo (ctx s)) of
             None \<Rightarrow> Panic ''nil pointer dereference''
           | Some d \<Rightarrow> (let bs = MarshalOptions G (configuration_options G cfg d po) in Ok (Some (of_nat (length bs), bs))))
     else Ok None)"

definition accept_address :: "nas_lib \<Rightarrow> sm_context \<Rightarrow> (u8 \<times> u8 \<times> byte list) option result" where
  "accept_address nas c = (case PDUAddress c of
      None \<Rightarrow> Panic ''nil pointer dereference''
    | Some u \<Rightarrow> if UeIp u \<noteq> []
        then bind_res (PDUAddressToNAS nas c) (\<lambda>(octets, len). Ok (Some (len, SelectedPDUSessionType c, octets)))
        else Ok None)"

text \<open>The rule of the pending update; the list, the update of the session rules and the rule itself
  are all dereferenced.\<close>

definition accept_rule :: "sm_context \<Rightarrow> (policy_update \<times> session_rule) result" where
  "accept_rule c = bind_res (nth_res (SmPolicyUpdates c) 0) (\<lambda>u.
     case Option.bind (SessRuleUpdate u) ActiveSessRule of
       None \<Rightarrow> Panic ''nil pointer dereference''
     | Some r \<Rightarrow> Ok (u, r))"

definition BuildGSMPDUSessionEstablishmentAccept ::
    "'p gsm_lib \<Rightarrow> nas_lib \<Rightarrow> gsm_config \<Rightarrow> 'g session \<Rightarrow> byte list result" where
  "BuildGSMPDUSessionEstablishmentAccept G nas cfg s = (let c = ctx s in
     bind_res (accept_rule c) (\<lambda>(u, sessRule).
     bind_res (ModelsToSessionAMBR G (AuthSessAmbr sessRule)) (\<lambda>ambr.
     bind_res (BuildQosRules u) (\<lambda>rules. let rb = QoSRules_MarshalBinary rules in
     bind_res (accept_address nas c) (\<lambda>ad.
     bind_res (BuildAuthorizedQosFlowDescriptions (FlowsIeType G) (Rate16 G) u) (\<lambda>qfd.
     bind_res (hex_DecodeString (Sd (SessSnssai s))) (\<lambda>sd.
     bind_res (accept_options G cfg s) (\<lambda>opts.
     PlainNasEncode G (EstablishmentAccept
       \<lparr>eaSessionID = of_int (PDUSessionID c), eaPTI = Pti s,
        eaCause = (if EstAcceptCause5gSMValue c \<noteq> 0 then Some (EstAcceptCause5gSMValue c) else None),
        eaSelectedType = SelectedPDUSessionType c, eaSSCMode = 1, eaAmbr = (of_nat (length ambr), ambr),
        eaQosRules = (of_nat (length rb), rb), eaAddress = ad, eaFlows = (IeLen qfd, QfdContent qfd),
        eaSst = of_int (Sst (SessSnssai s)), eaSd = sd_octets sd,
        eaDnn = (of_nat (length (Dnn c)), bytes_of (Dnn c)), eaOptions = opts\<rparr>)))))))))"

section \<open>Other messages\<close>

definition BuildGSMPDUSessionEstablishmentReject :: "'p gsm_lib \<Rightarrow> 'g session \<Rightarrow> u8 \<Rightarrow> byte list result" where
  "BuildGSMPDUSessionEstablishmentReject G s cause =
     PlainNasEncode G (EstablishmentReject (of_int (PDUSessionID (ctx s))) (Pti s) cause)"

definition BuildGSMPDUSessionReleaseCommand :: "'p gsm_lib \<Rightarrow> 'g session \<Rightarrow> byte list result" where
  "BuildGSMPDUSessionReleaseCommand G s = PlainNasEncode G (ReleaseCommand (of_int (PDUSessionID (ctx s))) (Pti s) 36)"

definition BuildGSMPDUSessionReleaseReject :: "'p gsm_lib \<Rightarrow> 'g session \<Rightarrow> byte list result" where
  "BuildGSMPDUSessionReleaseReject G s =
     PlainNasEncode G (ReleaseReject (of_int (PDUSessionID (ctx s))) (Pti s) (CauseValue G RequestRejectedUnspecified))"

definition BuildGSMPDUSessionReleaseRejectWithCause :: "'p gsm_lib \<Rightarrow> 'g session \<Rightarrow> int \<Rightarrow> string \<Rightarrow> byte list result" where
  "BuildGSMPDUSessionReleaseRejectWithCause G s pduSessionID cause =
     PlainNasEncode G (ReleaseReject (of_int pduSessionID) (Pti s) (cause_octet G cause))"

definition PTI :: u8 where
  "PTI = 0"

definition modification_ambr :: "'p gsm_lib \<Rightarrow> sm_context \<Rightarrow> (u8 \<times> byte list) option result" where
  "modification_ambr G c = (case SmPolicyUpdates c of
      [] \<Rightarrow> Ok None
    | u # _ \<Rightarrow>
        (case Option.bind (Option.bind (SessRuleUpdate u) ActiveSessRule) AuthSessAmbr of
           None \<Rightarrow> Ok None
         | Some a \<Rightarrow> bind_res (ModelsToSessionAMBR G (Some a)) (\<lambda>bs. Ok (Some (of_nat (length bs), bs)))))"

definition BuildGSMPDUSessionModificationCommand :: "'p gsm_lib \<Rightarrow> 'g session \<Rightarrow> byte list result" where
  "BuildGSMPDUSessionModificationCommand G s = (let c = ctx s in
     bind_res (modification_ambr G c) (\<lambda>ambr.
     bind_res (nth_res (SmPolicyUpdates c) 0) (\<lambda>u.
     bind_res (BuildAuthorizedQosFlowDescriptions (FlowsIeType G) (Rate16 G) u) (\<lambda>qfd.
     bind_res (BuildQosRulespdumod u) (\<lambda>rules. let rb = QoSRules_MarshalBinary rules in
     PlainNasEncode G (ModificationCommand
       \<lparr>mcSessionID = of_int (PDUSessionID c), mcPTI = PTI, mcAmbr = ambr, mcFlows = (IeLen qfd, QfdContent qfd),
        mcQosRules = (if rb \<noteq> [] then Some (of_nat (length rb), rb) else None)\<rparr>))))))"

section \<open>Requests of the UE\<close>

definition default_type :: "string \<Rightarrow> pdu_session_type" where
  "default_type supported =
     (if supported = ''IPv4'' then IPV4 else if supported = ''IPv6'' then IPV6
      else if supported = ''IPv4v6'' then IPV4_V6 else if supported = ''Ethernet'' then ETHERNET else IPV4)"

definition select_type :: "nas_lib \<Rightarrow> string \<Rightarrow> u8 option \<Rightarrow> sm_context \<Rightarrow> unit result \<times> sm_context" where
  "select_type nas supported req c = (case req of
      Some t \<Rightarrow> isAllowedPDUSessionType nas supported t c
    | None \<Rightarrow> (Ok (), c\<lparr>SelectedPDUSessionType := ModelsToPDUSessionType nas (default_type supported)\<rparr>))"

definition container :: "'p gsm_lib \<Rightarrow> u16 \<Rightarrow> pco \<Rightarrow> pco" where
  "container G i po =
     (if i = DNSServerIPv6AddressRequestUL G then po\<lparr>DNSIPv6Request := True\<rparr>
      else if i = PCSCFIPv4AddressRequestUL G then po\<lparr>PCSCFIPv4Request := True\<rparr>
      else if i = DNSServerIPv4AddressRequestUL G then po\<lparr>DNSIPv4Request := True\<rparr>
      else po)"

text \<open>A refused session type ends the handler, and only a log line tells.\<close>

definition HandlePDUSessionEstablishmentRequest ::
    "'p gsm_lib \<Rightarrow> nas_lib \<Rightarrow> gsm_config \<Rightarrow> establishment_request \<Rightarrow> 'g session \<Rightarrow> 'g session" where
  "HandlePDUSessionEstablishmentRequest G nas cfg req s =
     (let s = s\<lparr>ctx := (ctx s)\<lparr>PDUSessionID := uint (erSessionID req)\<rparr>, Pti := erPTI req\<rparr> in
      case select_type nas (SupportedPDUSessionType cfg) (erType req) (ctx s) of
        (Ok _, c) \<Rightarrow>
          (let s = s\<lparr>ctx := c\<rparr> in
           case erOptions req of
             None \<Rightarrow> s
           | Some bs \<Rightarrow> s\<lparr>ProtocolConfigurationOptions := fold (container G) (UnMarshalOptions G bs)
               ((ProtocolConfigurationOptions s)\<lparr>IPv4LinkMTURequest := True\<rparr>)\<rparr>)
      | (_, c) \<Rightarrow> s\<lparr>ctx := c\<rparr>)"

text \<open>The result tells whether releasing the address panicked; an error is logged.\<close>

definition HandlePDUSessionReleaseRequest :: "u8 \<Rightarrow> 'g session \<times> ip_allocator \<Rightarrow> unit result \<times> 'g session \<times> ip_allocator" where
  "HandlePDUSessionReleaseRequest pti = (\<lambda>(s, a).
     let s = s\<lparr>Pti := pti\<rparr> in
     case ReleaseUeIpAddr (ctx s) a of
       Ok (c, a') \<Rightarrow> (Ok (), s\<lparr>ctx := c\<rparr>, a')
     | Err e \<Rightarrow> (Ok (), s, a)
     | Panic e \<Rightarrow> (Panic e, s, a))"

section \<open>What the UE is told\<close>

lemma accept_address_ipv4:
  assumes "accept_address nas c = Ok ad" and "PDUAddress c = Some \<lparr>UeIp = x, UpfProvided = upf\<rparr>"
    and "length x = 4" and "SelectedPDUSessionType c = ModelsToPDUSessionType nas IPV4"
  shows "ad = Some (5, ModelsToPDUSessionType nas IPV4, x @ replicate 8 0)"
proof -
  have "x \<noteq> []" using assms(3) by auto
  then show ?thesis using assms by (auto simp: accept_address_def PDUAddressToNAS_def Let_def)
qed

lemma QfdLen_exact: "BuildAuthorizedQosFlowDescriptions t r u = Ok d \<Longrightarrow> IeLen d = of_nat (length (QfdContent d))"
  by (auto simp: BuildAuthorizedQosFlowDescriptions_def Let_def)


section \<open>Options of the UE\<close>

definition distinct_containers :: "'p gsm_lib \<Rightarrow> bool" where
  "distinct_containers G \<longleftrightarrow> distinct [DNSServerIPv4AddressRequestUL G, DNSServerIPv6AddressRequestUL G, PCSCFIPv4AddressRequestUL G]"

lemma containers_collected:
  assumes "distinct_containers G"
  shows "fold (container G) ids po = po\<lparr>
    DNSIPv4Request := DNSIPv4Request po \<or> DNSServerIPv4AddressRequestUL G \<in> set ids,
    DNSIPv6Request := DNSIPv6Request po \<or> DNSServerIPv6AddressRequestUL G \<in> set ids,
    PCSCFIPv4Request := PCSCFIPv4Request po \<or> PCSCFIPv4AddressRequestUL G \<in> set ids\<rparr>"
  using assms by (induction ids arbitrary: po) (auto simp: container_def distinct_containers_def)

text \<open>A UE of a new session that sends protocol configuration options is answered in the acceptance
  with the servers it asked for and no others, and always with the MTU of the link; the P-CSCF is left out
  when the configured address is not an address.  When the session type is refused or the request has no
  options, the acceptance has none.\<close>

lemma requested_options_answered:
  assumes "distinct_containers G"
    and new: "ProtocolConfigurationOptions s =
      \<lparr>DNSIPv4Request = False, DNSIPv6Request = False, IPv4LinkMTURequest = False, PCSCFIPv4Request = False\<rparr>"
    and s': "s' = HandlePDUSessionEstablishmentRequest G nas cfg req s"
    and net: "DnnNet cfg (DNNInfo (ctx s')) = Some d"
    and acc: "accepted \<longleftrightarrow> fst (select_type nas (SupportedPDUSessionType cfg) (erType req)
      ((ctx s)\<lparr>PDUSessionID := uint (erSessionID req)\<rparr>)) = Ok ()"
  shows "accept_options G cfg s' = (case erOptions req of
      None \<Rightarrow> Ok None
    | Some bs \<Rightarrow> if accepted
        then (let ids = set (UnMarshalOptions G bs);
                  reply = MarshalOptions G (configuration_options G cfg d
                    \<lparr>DNSIPv4Request = DNSServerIPv4AddressRequestUL G \<in> ids, DNSIPv6Request = DNSServerIPv6AddressRequestUL G \<in> ids,
                     IPv4LinkMTURequest = True, PCSCFIPv4Request = PCSCFIPv4AddressRequestUL G \<in> ids\<rparr>)
              in Ok (Some (of_nat (length reply), reply)))
        else Ok None)"
proof -
  obtain r c where sel: "select_type nas (SupportedPDUSessionType cfg) (erType req)
      ((ctx s)\<lparr>PDUSessionID := uint (erSessionID req)\<rparr>) = (r, c)" by fastforce
  have r: "accepted \<longleftrightarrow> r = Ok ()" using acc sel by simp
  show ?thesis
    using new net r containers_collected[OF assms(1)] unfolding s' HandlePDUSessionEstablishmentRequest_def
    by (cases r) (auto simp: sel accept_options_def Let_def split: option.splits)
qed

section \<open>Instances\<close>

definition sample_gsm :: "byte list gsm_lib" where
  "sample_gsm = \<lparr>PlainNasEncode = (\<lambda>_. Ok [46]), GsmMessageDecode = (\<lambda>_. Ok ReleaseComplete), ModelsToSessionAMBR = (\<lambda>_. Ok [6, 0, 1, 6, 0, 1]),
     CauseValue = (\<lambda>_. 31), FlowsIeType = 121, Rate16 = (\<lambda>_. Some 1), NewOptions = [128],
     AddDNSServerIPv4Address = (\<lambda>x p. p @ [13] @ x), AddDNSServerIPv6Address = (\<lambda>x p. p @ [3] @ x),
     AddIPv4LinkMTU = (\<lambda>m p. p @ [16, ucast m]), AddPCSCFIPv4Address = (\<lambda>x p. p @ [12] @ x), MarshalOptions = (\<lambda>p. p),
     UnMarshalOptions = map ucast, DNSServerIPv4AddressRequestUL = 13, DNSServerIPv6AddressRequestUL = 3, PCSCFIPv4AddressRequestUL = 12\<rparr>"

definition sample_config :: gsm_config where
  "sample_config = \<lparr>DnnNet = (\<lambda>_. Some \<lparr>DnsIPv4Addr = [8, 8, 8, 8], DnsIPv6Addr = [], MTU = 100\<rparr>), ConfigPCSCF = '''',
     ContextPCSCF = '''', SupportedPDUSessionType = ''IPv4''\<rparr>"

theorem requested_options_answered_witness:
  "accept_options sample_gsm sample_config (HandlePDUSessionEstablishmentRequest sample_gsm nas_24501 sample_config
     \<lparr>erSessionID = 5, erPTI = 1, erType = None, erOptions = Some [13]\<rparr> sample_session) = Ok (Some (8, [128, 13, 8, 8, 8, 8, 16, 100]))"
proof -
  have d: "distinct_containers sample_gsm" by (simp add: distinct_containers_def sample_gsm_def)
  show ?thesis
    by (subst requested_options_answered[OF d _ refl, where d = "\<lparr>DnsIPv4Addr = [8, 8, 8, 8], DnsIPv6Addr = [], MTU = 100\<rparr>" and accepted = True])
      (simp_all add: sample_session_def sample_config_def sample_gsm_def select_type_def configuration_options_def when_opt_def Let_def)
qed

definition accepted_session :: "id_pool session" where
  "accepted_session = sample_session\<lparr>ctx := sample_context\<lparr>SelectedPDUSessionType := 1, SmPolicyUpdates :=
     [\<lparr>SessRuleUpdate = Some \<lparr>add = [], modi = [], del = [],
         ActiveSessRule = Some \<lparr>SessRuleId = ''r'', AuthSessAmbr = None, AuthDefQos = None\<rparr>, activeRuleName = ''r''\<rparr>,
       PccRuleUpdate = None, QosFlowUpdate = Some no_change, TCUpdate = None, SmPolicyDecision = None\<rparr>]\<rparr>,
     SessSnssai := \<lparr>Sd = ''010203'', Sst = 1\<rparr>\<rparr>"


end
