(* ===== verification/Pfcp_Build.thy ===== *)
theory Pfcp_Build
  imports Data_Path
begin

text \<open>
  Building PFCP messages, \<^verbatim>\<open>src/pfcp/message/build.go\<close>.  An information element of \<^verbatim>\<open>go-pfcp\<close> is a
  constructor with the arguments that the builders give it.  The builders read the rules of a session
  from the heap and also change them: what was sent is marked as created, and the flag that asks for an
  end marker is cleared.
\<close>

section \<open>Flags\<close>

definition setBit :: "nat \<Rightarrow> bool \<Rightarrow> u8 \<Rightarrow> u8" where
  "setBit pos v f = (if pos < 1 \<or> 8 < pos then f
     else if v then f OR push_bit (pos - 1) 1 else f AND NOT (push_bit (pos - 1) 1))"

section \<open>Information elements\<close>

datatype pfcp_ie =
    NodeIDIE string | FSEIDIE u64 ip | PDNTypeIPv4IE | CauseIE u8 | PFCPSRRspFlagsIE u8
  | PDRIDIE u16 | PrecedenceIE u32 | PDIIE "pfcp_ie list" | SourceInterfaceIE u8 | FTEIDIE u8 u32 ip ip u8
  | NetworkInstanceIE string | UEIPAddressIE u8 string string u8 | SDFFilterIE string string string string
  | OuterHeaderRemovalIE u8 | FARIDIE u32 | QERIDIE u32 | BARIDIE u8 | ApplyActionIE u8
  | DestinationInterfaceIE u8 | OuterHeaderCreationIE u16 u32 string string u16 | PFCPSMReqFlagsIE u8
  | ForwardingParametersIE "pfcp_ie list" | UpdateForwardingParametersIE "pfcp_ie list"
  | GateStatusIE u8 u8 | QFIIE u8 | MBRIE u64 u64 | GBRIE u64 u64
  | CreatePDRIE "pfcp_ie list" | CreateFARIE "pfcp_ie list" | CreateQERIE "pfcp_ie list"
  | UpdatePDRIE "pfcp_ie list" | UpdateFARIE "pfcp_ie list"
  | RemovePDRIE u16 | RemoveFARIE u32 | RemoveQERIE u32

text \<open>Messages with the session identifier of their header, where they have one, and their sequence
  number.  The start time of the server is a constant and left out.\<close>

datatype pfcp_msg =
    HeartbeatRequest u32 | HeartbeatResponse u32
  | AssociationSetupRequest u32 string | AssociationSetupResponse u32 string u8
  | AssociationReleaseResponse u32 string u8
  | SessionEstablishmentRequest u64 u32 "pfcp_ie list"
  | SessionModificationRequest u64 u32 "pfcp_ie list"
  | SessionDeletionRequest u64 u32 "pfcp_ie list"
  | SessionReportResponse u64 u32 "pfcp_ie list"

definition BuildPfcpHeartbeatRequest :: "u32 \<Rightarrow> pfcp_msg" where
  "BuildPfcpHeartbeatRequest sq = HeartbeatRequest sq"

definition BuildPfcpHeartbeatResponse :: "u32 \<Rightarrow> pfcp_msg" where
  "BuildPfcpHeartbeatResponse sq = HeartbeatResponse sq"

definition BuildPfcpAssociationSetupRequest :: "u32 \<Rightarrow> string \<Rightarrow> pfcp_msg" where
  "BuildPfcpAssociationSetupRequest sq nodeID = AssociationSetupRequest sq nodeID"

definition BuildPfcpAssociationSetupResponse :: "u8 \<Rightarrow> string \<Rightarrow> pfcp_msg" where
  "BuildPfcpAssociationSetupResponse cause nodeID = AssociationSetupResponse 1 nodeID cause"

definition BuildPfcpAssociationReleaseResponse :: "u8 \<Rightarrow> string \<Rightarrow> pfcp_msg" where
  "BuildPfcpAssociationReleaseResponse cause nodeID = AssociationReleaseResponse 1 nodeID cause"

text \<open>The fields of a tunnel identifier and of a UE address that no other code sets have their zero
  values: no address (whose text is \<^verbatim>\<open><nil>\<close>), no flag.  No rule has an application identifier or a
  forwarding policy.\<close>

definition createPDIIE :: "pdi \<Rightarrow> pfcp_ie" where
  "createPDIIE p = PDIIE
     ([SourceInterfaceIE (SourceInterface p)]
      @ (case LocalFTeidCh p of None \<Rightarrow> []
         | Some ch \<Rightarrow> [FTEIDIE (setBit 4 False (setBit 3 ch (setBit 2 False (setBit 1 False 0)))) 0 [] [] 0])
      @ [NetworkInstanceIE (PdiNetworkInstance p)]
      @ (case UEIPAddress p of None \<Rightarrow> []
         | Some a \<Rightarrow> [UEIPAddressIE (setBit 6 False (setBit 5 (CHV4 a) (setBit 4 False (setBit 3 False (setBit 2 (V4 a) (setBit 1 False 0))))))
             (IPString (Ipv4Address a)) (IPString []) 0])
      @ (case SDFFilter p of None \<Rightarrow> []
         | Some f \<Rightarrow> [SDFFilterIE (string_of (SdfFlowDescription f)) (string_of (SdfTosTrafficClass f))
             (string_of (SecurityParameterIndex f)) (string_of (SdfFlowLabel f))]))"

definition qer_ids :: "'g dp_state \<Rightarrow> nat list \<Rightarrow> pfcp_ie list" where
  "qer_ids s qs = List.map_filter (\<lambda>q. map_option (\<lambda>x. QERIDIE (QERID x)) (qers (rules s) q)) qs"

definition far_id :: "'g dp_state \<Rightarrow> pdr \<Rightarrow> pfcp_ie list" where
  "far_id s x = (case Option.bind (FAR x) (fars (rules s)) of None \<Rightarrow> [] | Some y \<Rightarrow> [FARIDIE (FARID y)])"

definition pdr_ies :: "'g dp_state \<Rightarrow> pdr \<Rightarrow> pfcp_ie list" where
  "pdr_ies s x = [PDRIDIE (PDRID x), PrecedenceIE (PdrPrecedence x), createPDIIE (PDI x)]
     @ (case OuterHeaderRemoval x of None \<Rightarrow> [] | Some d \<Rightarrow> [OuterHeaderRemovalIE d]) @ far_id s x @ qer_ids s (QER x)"

definition pdrToCreatePDR :: "'g dp_state \<Rightarrow> pdr \<Rightarrow> pfcp_ie" where
  "pdrToCreatePDR s x = CreatePDRIE (pdr_ies s x)"

definition pdrToUpdatePDR :: "'g dp_state \<Rightarrow> pdr \<Rightarrow> pfcp_ie" where
  "pdrToUpdatePDR s x = UpdatePDRIE (pdr_ies s x)"

definition action_flags :: "apply_action \<Rightarrow> u8" where
  "action_flags a = setBit 5 (Dupl a) (setBit 4 (Nocp a) (setBit 3 (Buff a) (setBit 2 (Forw a) (setBit 1 (Drop a) 0))))"

definition bar_id :: "'g dp_state \<Rightarrow> far \<Rightarrow> pfcp_ie list" where
  "bar_id s y = (case Option.bind (BAR y) (bars (rules s)) of None \<Rightarrow> [] | Some b \<Rightarrow> [BARIDIE (BARID b)])"

definition forwarding_ies :: "forwarding_parameters \<Rightarrow> pfcp_ie list" where
  "forwarding_ies w = [DestinationInterfaceIE (DestinationInterface w), NetworkInstanceIE (string_of (FwdNetworkInstance w))]
     @ (case OuterHeaderCreation w of None \<Rightarrow> []
        | Some h \<Rightarrow> [OuterHeaderCreationIE (OuterHeaderCreationDescription h) (Teid h) (IPString (OhcIpv4Address h)) (IPString []) 0])"

definition farToCreateFAR :: "'g dp_state \<Rightarrow> far \<Rightarrow> pfcp_ie" where
  "farToCreateFAR s y = CreateFARIE ([FARIDIE (FARID y), ApplyActionIE (action_flags (ApplyAction y))] @ bar_id s y
     @ (case ForwardingParameters y of None \<Rightarrow> [] | Some w \<Rightarrow> [ForwardingParametersIE (forwarding_ies w)]))"

definition qerToCreateQER :: "qer \<Rightarrow> pfcp_ie" where
  "qerToCreateQER q = CreateQERIE ([QERIDIE (QERID q)]
     @ (case GateStatus q of None \<Rightarrow> [] | Some (ul, dl) \<Rightarrow> [GateStatusIE ul dl]) @ [QFIIE (QerQFI q)]
     @ (case MBR q of None \<Rightarrow> [] | Some (ul, dl) \<Rightarrow> [MBRIE ul dl])
     @ (case GBR q of None \<Rightarrow> [] | Some (ul, dl) \<Rightarrow> [GBRIE ul dl]))"

text \<open>The flags are sent once: the builder resets them in the rule.\<close>

definition farToUpdateFAR :: "'g dp_state \<Rightarrow> far \<Rightarrow> pfcp_ie \<times> far" where
  "farToUpdateFAR s y =
     (UpdateFARIE ([FARIDIE (FARID y)] @ bar_id s y @ [ApplyActionIE (action_flags (ApplyAction y))]
        @ (case ForwardingParameters y of None \<Rightarrow> []
           | Some w \<Rightarrow> [UpdateForwardingParametersIE (forwarding_ies w
               @ (case PFCPSMReqFlags w of None \<Rightarrow> [] | Some sndem \<Rightarrow> [PFCPSMReqFlagsIE (setBit 3 False (setBit 2 sndem (setBit 1 False 0)))]))])),
      y\<lparr>ForwardingParameters := map_option (\<lambda>w. w\<lparr>PFCPSMReqFlags := None\<rparr>) (ForwardingParameters y)\<rparr>)"

section \<open>Session establishment\<close>

text \<open>The state of a detection rule stays as it is; forwarding and QoS rules are marked as created.\<close>

fun est_pdrs :: "nat list \<Rightarrow> 'g dp_state \<Rightarrow> pfcp_ie list result" where
  "est_pdrs [] s = Ok []"
| "est_pdrs (p # ps) s = (case pdrs (rules s) p of
      None \<Rightarrow> Panic ''nil pointer dereference''
    | Some x \<Rightarrow> bind_res (est_pdrs ps s) (\<lambda>r. Ok ((if PdrState x = RULE_INITIAL then [pdrToCreatePDR s x] else []) @ r)))"

fun est_fars :: "nat option list \<Rightarrow> 'g dp_state \<Rightarrow> pfcp_ie list result \<times> 'g dp_state" where
  "est_fars [] s = (Ok [], s)"
| "est_fars (f # fs) s = (case f of
      None \<Rightarrow> (Panic ''nil pointer dereference'', s)
    | Some f \<Rightarrow> (case fars (rules s) f of
        None \<Rightarrow> (Panic ''nil pointer dereference'', s)
      | Some y \<Rightarrow> seq (est_fars fs (set_far f (\<lambda>y. y\<lparr>FarState := RULE_CREATE\<rparr>) s)) (\<lambda>r s'.
          (Ok ((if FarState y = RULE_INITIAL then [farToCreateFAR s y] else []) @ r), s'))))"

text \<open>The last rule with an identifier wins.\<close>

fun qer_map :: "'g dp_state \<Rightarrow> nat list \<Rightarrow> (u32 \<times> nat) list \<Rightarrow> (u32 \<times> nat) list result" where
  "qer_map s [] m = Ok m"
| "qer_map s (q # qs) m = (case qers (rules s) q of
      None \<Rightarrow> Panic ''nil pointer dereference''
    | Some x \<Rightarrow> qer_map s qs (AList.update (QERID x) q m))"

fun est_qers :: "(u32 \<times> nat) list \<Rightarrow> 'g dp_state \<Rightarrow> pfcp_ie list result \<times> 'g dp_state" where
  "est_qers [] s = (Ok [], s)"
| "est_qers ((_, q) # qs) s = (case qers (rules s) q of
      None \<Rightarrow> (Panic ''nil pointer dereference'', s)
    | Some x \<Rightarrow> seq (est_qers qs (set_qer q (\<lambda>x. x\<lparr>QerState := RULE_CREATE\<rparr>) s)) (\<lambda>r s.
        (Ok ((if QerState x = RULE_INITIAL then [qerToCreateQER x] else []) @ r), s)))"

definition BuildPfcpSessionEstablishmentRequest ::
    "u32 \<Rightarrow> string \<Rightarrow> ip \<Rightarrow> u64 \<Rightarrow> nat list \<Rightarrow> nat option list \<Rightarrow> nat list \<Rightarrow> 'g dp_state \<Rightarrow> pfcp_msg result \<times> 'g dp_state" where
  "BuildPfcpSessionEstablishmentRequest sq nodeID ip localSeid pdrList farList qerList s =
     seq (est_pdrs pdrList s, s) (\<lambda>ps s.
     seq (est_fars farList s) (\<lambda>fs s.
     seq (qer_map s qerList [], s) (\<lambda>m s.
     seq (est_qers m s) (\<lambda>qs s.
       (Ok (SessionEstablishmentRequest 0 sq ([NodeIDIE nodeID, FSEIDIE localSeid ip] @ ps @ fs @ qs @ [PDNTypeIPv4IE])), s)))))"

section \<open>Session modification\<close>

definition mod_pdr :: "'g dp_state \<Rightarrow> pdr \<Rightarrow> pfcp_ie list" where
  "mod_pdr s x = (case PdrState x of
      RULE_INITIAL \<Rightarrow> [pdrToCreatePDR s x] | RULE_UPDATE \<Rightarrow> [pdrToUpdatePDR s x]
    | RULE_REMOVE \<Rightarrow> [RemovePDRIE (PDRID x)] | RULE_CREATE \<Rightarrow> [])"

definition mod_far :: "'g dp_state \<Rightarrow> far \<Rightarrow> pfcp_ie list \<times> far" where
  "mod_far s y = (case FarState y of
      RULE_INITIAL \<Rightarrow> ([farToCreateFAR s y], y) | RULE_UPDATE \<Rightarrow> (case farToUpdateFAR s y of (i, y) \<Rightarrow> ([i], y))
    | RULE_REMOVE \<Rightarrow> ([RemoveFARIE (FARID y)], y) | RULE_CREATE \<Rightarrow> ([], y))"

fun mod_pdrs :: "nat list \<Rightarrow> 'g dp_state \<Rightarrow> pfcp_ie list result \<times> 'g dp_state" where
  "mod_pdrs [] s = (Ok [], s)"
| "mod_pdrs (p # ps) s = (case pdrs (rules s) p of
      None \<Rightarrow> (Panic ''nil pointer dereference'', s)
    | Some x \<Rightarrow> seq (mod_pdrs ps (set_pdr p (\<lambda>x. x\<lparr>PdrState := RULE_CREATE\<rparr>) s)) (\<lambda>r s'. (Ok (mod_pdr s x @ r), s')))"

fun mod_fars :: "nat option list \<Rightarrow> 'g dp_state \<Rightarrow> pfcp_ie list result \<times> 'g dp_state" where
  "mod_fars [] s = (Ok [], s)"
| "mod_fars (f # fs) s = (case f of
      None \<Rightarrow> (Panic ''nil pointer dereference'', s)
    | Some f \<Rightarrow> (case fars (rules s) f of
        None \<Rightarrow> (Panic ''nil pointer dereference'', s)
      | Some y \<Rightarrow> (case mod_far s y of (i, y') \<Rightarrow>
          seq (mod_fars fs (set_far f (\<lambda>_. y'\<lparr>FarState := RULE_CREATE\<rparr>) s)) (\<lambda>r s'. (Ok (i @ r), s')))))"

fun mod_qers :: "nat list \<Rightarrow> 'g dp_state \<Rightarrow> pfcp_ie list result \<times> 'g dp_state" where
  "mod_qers [] s = (Ok [], s)"
| "mod_qers (q # qs) s = (case qers (rules s) q of
      None \<Rightarrow> (Panic ''nil pointer dereference'', s)
    | Some x \<Rightarrow> seq (mod_qers qs (set_qer q (\<lambda>x. x\<lparr>QerState := RULE_CREATE\<rparr>) s)) (\<lambda>r s'.
        (Ok ((if QerState x = RULE_INITIAL then [qerToCreateQER x] else []) @ r), s')))"

definition buildRemovePDRIE :: "'g dp_state \<Rightarrow> nat \<Rightarrow> pfcp_ie result" where
  "buildRemovePDRIE s p = (case pdrs (rules s) p of None \<Rightarrow> Panic ''nil pointer dereference'' | Some x \<Rightarrow> Ok (RemovePDRIE (PDRID x)))"

definition buildRemoveFARIE :: "'g dp_state \<Rightarrow> nat \<Rightarrow> pfcp_ie result" where
  "buildRemoveFARIE s f = (case fars (rules s) f of None \<Rightarrow> Panic ''nil pointer dereference'' | Some y \<Rightarrow> Ok (RemoveFARIE (FARID y)))"

definition buildRemoveQERIE :: "'g dp_state \<Rightarrow> nat \<Rightarrow> pfcp_ie result" where
  "buildRemoveQERIE s q = (case qers (rules s) q of None \<Rightarrow> Panic ''nil pointer dereference'' | Some x \<Rightarrow> Ok (RemoveQERIE (QERID x)))"

text \<open>What a modification lists: rules to send and rules to remove.\<close>

record modification =
  pdrList :: "nat list"
  farList :: "nat option list"
  qerList :: "nat list"
  removePDR :: "nat list"
  removeFAR :: "nat list"
  removeQER :: "nat list"

definition BuildPfcpSessionModificationRequest ::
    "u32 \<Rightarrow> u64 \<Rightarrow> u64 \<Rightarrow> ip \<Rightarrow> modification \<Rightarrow> 'g dp_state \<Rightarrow> pfcp_msg result \<times> 'g dp_state" where
  "BuildPfcpSessionModificationRequest sq localSEID remoteSEID ip m s =
     seq (mod_pdrs (pdrList m) s) (\<lambda>ps s.
     seq (mod_fars (farList m) s) (\<lambda>fs s.
     seq (mod_qers (qerList m) s) (\<lambda>qs s.
     seq (map_res (buildRemovePDRIE s) (removePDR m), s) (\<lambda>rp s.
     seq (map_res (buildRemoveFARIE s) (removeFAR m), s) (\<lambda>rf s.
     seq (map_res (buildRemoveQERIE s) (removeQER m), s) (\<lambda>rq s.
       (Ok (SessionModificationRequest remoteSEID sq ([FSEIDIE localSEID ip] @ ps @ fs @ qs @ rp @ rf @ rq)), s)))))))"

section \<open>Other messages\<close>

definition BuildPfcpSessionDeletionRequest :: "u32 \<Rightarrow> u64 \<Rightarrow> u64 \<Rightarrow> ip \<Rightarrow> pfcp_msg" where
  "BuildPfcpSessionDeletionRequest sq localSEID remoteSEID ip = SessionDeletionRequest remoteSEID sq [FSEIDIE localSEID ip]"

definition BuildPfcpSessionReportResponse :: "u8 \<Rightarrow> bool \<Rightarrow> u32 \<Rightarrow> u64 \<Rightarrow> pfcp_msg" where
  "BuildPfcpSessionReportResponse cause drobu seqFromUPF seid =
     SessionReportResponse seid seqFromUPF [CauseIE cause, PFCPSRRspFlagsIE (if drobu then setBit 1 True 0 else 0)]"

section \<open>Flags are exact\<close>

lemma bit_setBit: "1 \<le> pos \<Longrightarrow> pos \<le> 8 \<Longrightarrow> bit (setBit pos v f) n \<longleftrightarrow> (if n = pos - 1 then v else bit f n)"
  by (auto simp: setBit_def bit_simps dest: bit_imp_le_length)

lemma bit_action_flags:
  "bit (action_flags a) n \<longleftrightarrow> (n = 0 \<and> Drop a) \<or> (n = 1 \<and> Forw a) \<or> (n = 2 \<and> Buff a) \<or> (n = 3 \<and> Nocp a) \<or> (n = 4 \<and> Dupl a)"
  by (auto simp: action_flags_def bit_setBit)

lemma action_flags_inject: "action_flags a = action_flags b \<longleftrightarrow> a = b"
proof
  assume eq: "action_flags a = action_flags b"
  have "bit (action_flags a) n = bit (action_flags b) n" for n by (simp add: eq)
  from this[of 0] this[of 1] this[of 2] this[of 3] this[of 4] show "a = b"
    by (cases a, cases b) (simp add: bit_action_flags)
qed simp

section \<open>Changes are sent once\<close>

text \<open>A rule after it was listed in a modification.\<close>

definition sent_pdr :: "pdr \<Rightarrow> pdr" where
  "sent_pdr x = x\<lparr>PdrState := RULE_CREATE\<rparr>"

definition sent_far :: "far \<Rightarrow> far" where
  "sent_far y = (if FarState y = RULE_UPDATE
     then y\<lparr>ForwardingParameters := map_option (\<lambda>w. w\<lparr>PFCPSMReqFlags := None\<rparr>) (ForwardingParameters y)\<rparr> else y)\<lparr>FarState := RULE_CREATE\<rparr>"

definition sent_qer :: "qer \<Rightarrow> qer" where
  "sent_qer x = x\<lparr>QerState := RULE_CREATE\<rparr>"

definition on_set :: "nat set \<Rightarrow> ('a \<Rightarrow> 'a) \<Rightarrow> (nat \<rightharpoonup> 'a) \<Rightarrow> nat \<rightharpoonup> 'a" where
  "on_set A f m = (\<lambda>p. if p \<in> A then map_option f (m p) else m p)"

text \<open>The state after a modification.\<close>

definition all_sent :: "nat set \<Rightarrow> nat set \<Rightarrow> nat set \<Rightarrow> 'g dp_state \<Rightarrow> 'g dp_state" where
  "all_sent P F Q s = s\<lparr>rules := (rules s)\<lparr>pdrs := on_set P sent_pdr (pdrs (rules s)),
     fars := on_set F sent_far (fars (rules s)), qers := on_set Q sent_qer (qers (rules s))\<rparr>\<rparr>"

lemma on_set_simps [simp]:
  "on_set {} f m = m" "p \<in> A \<Longrightarrow> on_set A f m p = map_option f (m p)" "p \<notin> A \<Longrightarrow> on_set A f m p = m p"
  by (auto simp: on_set_def)

lemma sent_idem [simp]: "sent_pdr (sent_pdr x) = sent_pdr x" "sent_far (sent_far y) = sent_far y" "sent_qer (sent_qer q) = sent_qer q"
  by (simp_all add: sent_pdr_def sent_far_def sent_qer_def)

lemma mod_far_sent: "snd (mod_far s y)\<lparr>FarState := RULE_CREATE\<rparr> = sent_far y"
  by (cases "FarState y") (simp_all add: mod_far_def sent_far_def farToUpdateFAR_def)

lemma all_sent_empty [simp]: "all_sent {} {} {} s = s"
  by (simp add: all_sent_def)

lemma on_set_insert: "(\<And>x. f (f x) = f x) \<Longrightarrow> on_set A f (m(p := map_option f (m p))) = on_set (insert p A) f m"
  by (auto simp: on_set_def fun_eq_iff option.map_comp comp_def)

lemma set_pdr_sent: "all_sent P {} {} (set_pdr p sent_pdr s) = all_sent (insert p P) {} {} s"
  by (simp add: all_sent_def set_pdr_def on_set_insert)

lemma set_far_sent: "all_sent {} F {} (set_far f sent_far s) = all_sent {} (insert f F) {} s"
  by (simp add: all_sent_def set_far_def on_set_insert)

lemma set_qer_sent: "all_sent {} {} Q (set_qer q sent_qer s) = all_sent {} {} (insert q Q) s"
  by (simp add: all_sent_def set_qer_def on_set_insert)

lemma set_far_const: "fars (rules s) f = Some y \<Longrightarrow> set_far f (\<lambda>_. h y) s = set_far f h s"
  by (simp add: set_far_def)

lemma state_sent: "(\<lambda>x. x\<lparr>PdrState := RULE_CREATE\<rparr>) = sent_pdr" "(\<lambda>x. x\<lparr>QerState := RULE_CREATE\<rparr>) = sent_qer"
  by (simp_all add: fun_eq_iff sent_pdr_def sent_qer_def)

lemma mod_pdr_cong:
  assumes "fars (rules t) = fars (rules s)" "qers (rules t) = qers (rules s)"
  shows "mod_pdr t = mod_pdr s"
  unfolding mod_pdr_def pdrToCreatePDR_def pdrToUpdatePDR_def pdr_ies_def far_id_def qer_ids_def assms ..

lemma mod_far_cong:
  assumes "bars (rules t) = bars (rules s)"
  shows "mod_far t = mod_far s"
  unfolding mod_far_def farToCreateFAR_def farToUpdateFAR_def bar_id_def assms ..

text \<open>The elements of a list of rules, and the state that building them leaves.\<close>

lemma mod_pdrs_Ok:
  assumes "mod_pdrs ps s = (Ok r, s')"
  shows "s' = all_sent (set ps) {} {} s \<and> (distinct ps \<longrightarrow> r = concat (map (\<lambda>p. mod_pdr s (the (pdrs (rules s) p))) ps))"
  using assms
proof (induction ps arbitrary: s r)
  case (Cons p ps)
  obtain x where x: "pdrs (rules s) p = Some x" using Cons.prems by (cases "pdrs (rules s) p") auto
  let ?t = "set_pdr p sent_pdr s"
  obtain r1 where run: "mod_pdrs ps ?t = (Ok r1, s')" and r: "r = mod_pdr s x @ r1"
    using Cons.prems x by (cases "fst (mod_pdrs ps ?t)"; cases "mod_pdrs ps ?t") (auto simp: state_sent)
  have same: "mod_pdr ?t = mod_pdr s" by (rule mod_pdr_cong) (simp_all add: set_pdr_def)
  have "r1 = concat (map (\<lambda>q. mod_pdr s (the (pdrs (rules s) q))) ps)" if d: "distinct (p # ps)"
  proof -
    have "map (\<lambda>q. mod_pdr ?t (the (pdrs (rules ?t) q))) ps = map (\<lambda>q. mod_pdr s (the (pdrs (rules s) q))) ps"
      unfolding same using d by (auto simp: set_pdr_def)
    moreover have "r1 = concat (map (\<lambda>q. mod_pdr ?t (the (pdrs (rules ?t) q))) ps)"
      using Cons.IH[OF run, THEN conjunct2] d by (simp only: distinct.simps)
    ultimately show ?thesis by (simp only:)
  qed
  moreover have "s' = all_sent (set (p # ps)) {} {} s" using Cons.IH[OF run] by (simp add: set_pdr_sent)
  ultimately show ?case using r x by simp
qed simp

lemma mod_fars_Ok:
  assumes "mod_fars fs s = (Ok r, s')"
  shows "None \<notin> set fs \<and> s' = all_sent {} (the ` set fs) {} s
    \<and> (distinct fs \<longrightarrow> r = concat (map (\<lambda>f. fst (mod_far s (the (fars (rules s) (the f))))) fs))"
  using assms
proof (induction fs arbitrary: s r)
  case (Cons g fs)
  obtain f y where y: "g = Some f" "fars (rules s) f = Some y"
    using Cons.prems by (cases g; cases "fars (rules s) (the g)") auto
  let ?t = "set_far f sent_far s"
  have upd: "set_far f (\<lambda>_. snd (mod_far s y)\<lparr>FarState := RULE_CREATE\<rparr>) s = ?t"
    using set_far_const[OF y(2), of sent_far] by (simp add: mod_far_sent)
  obtain r1 where run: "mod_fars fs ?t = (Ok r1, s')" and r: "r = fst (mod_far s y) @ r1"
    using Cons.prems y upd by (cases "fst (mod_fars fs ?t)"; cases "mod_fars fs ?t") (auto simp: case_prod_beta)
  have same: "mod_far ?t = mod_far s" by (rule mod_far_cong) (simp add: set_far_def)
  have none: "None \<notin> set fs" using Cons.IH[OF run] by simp
  have "r1 = concat (map (\<lambda>g. fst (mod_far s (the (fars (rules s) (the g))))) fs)" if d: "distinct (g # fs)"
  proof -
    have "the h \<noteq> f" if "h \<in> set fs" for h
    proof
      assume "the h = f"
      then have "h = g" using that none y by (cases h) auto
      then show False using d that by simp
    qed
    then have "map (\<lambda>g. fst (mod_far ?t (the (fars (rules ?t) (the g))))) fs = map (\<lambda>g. fst (mod_far s (the (fars (rules s) (the g))))) fs"
      unfolding same by (auto simp: set_far_def)
    moreover have "r1 = concat (map (\<lambda>g. fst (mod_far ?t (the (fars (rules ?t) (the g))))) fs)"
      using Cons.IH[OF run, THEN conjunct2, THEN conjunct2] d by (simp only: distinct.simps)
    ultimately show ?thesis by (simp only:)
  qed
  moreover have "s' = all_sent {} (the ` set (g # fs)) {} s" using Cons.IH[OF run] y by (simp add: set_far_sent)
  ultimately show ?case using r y none by simp
qed simp

lemma mod_qers_Ok:
  assumes "mod_qers qs s = (Ok r, s')"
  shows "s' = all_sent {} {} (set qs) s"
  using assms
proof (induction qs arbitrary: s r)
  case (Cons q qs)
  obtain x where x: "qers (rules s) q = Some x" using Cons.prems by (cases "qers (rules s) q") auto
  let ?t = "set_qer q sent_qer s"
  obtain r1 where run: "mod_qers qs ?t = (Ok r1, s')"
    using Cons.prems x by (cases "fst (mod_qers qs ?t)"; cases "mod_qers qs ?t") (auto simp: state_sent)
  then show ?case using Cons.IH[OF run] by (auto simp: set_qer_sent)
qed simp

lemma mod_pdrs_idle:
  "\<forall>p \<in> set ps. \<exists>x. pdrs (rules s) p = Some x \<and> sent_pdr x = x \<Longrightarrow> mod_pdrs ps s = (Ok [], s)"
proof (induction ps)
  case (Cons p ps)
  then obtain x where x: "pdrs (rules s) p = Some x" "sent_pdr x = x" by auto
  then have "set_pdr p sent_pdr s = s" by (simp add: set_pdr_def fun_upd_idem)
  moreover have "PdrState x = RULE_CREATE" using x(2) unfolding sent_pdr_def by (metis pdr.select_convs(5) pdr.surjective pdr.update_convs(5))
  ultimately show ?case using Cons x by (simp add: state_sent mod_pdr_def)
qed simp

lemma mod_fars_idle:
  "\<forall>g \<in> set fs. \<exists>f y. g = Some f \<and> fars (rules s) f = Some y \<and> sent_far y = y \<Longrightarrow> mod_fars fs s = (Ok [], s)"
proof (induction fs)
  case (Cons g fs)
  then obtain f y where y: "g = Some f" "fars (rules s) f = Some y" "sent_far y = y" by auto
  have st: "FarState y = RULE_CREATE" using y(3) unfolding sent_far_def by (metis far.select_convs(3) far.surjective far.update_convs(3))
  then have "mod_far s y = ([], y)" by (simp add: mod_far_def)
  moreover have "set_far f (\<lambda>_. y\<lparr>FarState := RULE_CREATE\<rparr>) s = s"
    using y(2) st by (simp add: set_far_def fun_upd_idem)
  ultimately show ?case using Cons y by simp
qed simp

lemma mod_qers_idle:
  "\<forall>q \<in> set qs. \<exists>x. qers (rules s) q = Some x \<and> sent_qer x = x \<Longrightarrow> mod_qers qs s = (Ok [], s)"
proof (induction qs)
  case (Cons q qs)
  then obtain x where x: "qers (rules s) q = Some x" "sent_qer x = x" by auto
  then have "set_qer q sent_qer s = s" by (simp add: set_qer_def fun_upd_idem)
  moreover have "QerState x = RULE_CREATE" using x(2) unfolding sent_qer_def by (metis qer.select_convs(4) qer.surjective qer.update_convs(4))
  ultimately show ?case using Cons x by (simp add: state_sent)
qed simp

lemma mod_exist:
  "mod_pdrs ps s = (Ok r, s') \<Longrightarrow> p \<in> set ps \<Longrightarrow> pdrs (rules s) p \<noteq> None"
  "mod_fars fs s = (Ok r, s') \<Longrightarrow> f \<in> set fs \<Longrightarrow> f \<noteq> None \<and> fars (rules s) (the f) \<noteq> None"
  "mod_qers qs s = (Ok r, s') \<Longrightarrow> q \<in> set qs \<Longrightarrow> qers (rules s) q \<noteq> None"
proof -
  show "mod_pdrs ps s = (Ok r, s') \<Longrightarrow> p \<in> set ps \<Longrightarrow> pdrs (rules s) p \<noteq> None"
  proof (induction ps arbitrary: s r)
    case (Cons a ps)
    then obtain x where x: "pdrs (rules s) a = Some x" by (cases "pdrs (rules s) a") auto
    let ?t = "set_pdr a sent_pdr s"
    obtain r1 where "mod_pdrs ps ?t = (Ok r1, s')"
      using Cons.prems(1) x by (cases "fst (mod_pdrs ps ?t)"; cases "mod_pdrs ps ?t") (auto simp: state_sent)
    then show ?case using Cons.IH[of ?t r1] Cons.prems(2) x by (cases "p = a") (auto simp: set_pdr_def)
  qed simp
  show "mod_fars fs s = (Ok r, s') \<Longrightarrow> f \<in> set fs \<Longrightarrow> f \<noteq> None \<and> fars (rules s) (the f) \<noteq> None"
  proof (induction fs arbitrary: s r)
    case (Cons a fs)
    then obtain b y where b: "a = Some b" "fars (rules s) b = Some y" by (cases a; cases "fars (rules s) (the a)") auto
    let ?t = "set_far b (\<lambda>_. snd (mod_far s y)\<lparr>FarState := RULE_CREATE\<rparr>) s"
    obtain r1 where "mod_fars fs ?t = (Ok r1, s')"
      using Cons.prems(1) b by (cases "fst (mod_fars fs ?t)"; cases "mod_fars fs ?t") (auto simp: case_prod_beta)
    then show ?case using Cons.IH[of ?t r1] Cons.prems(2) b by (cases "f = a"; cases f) (auto simp: set_far_def)
  qed simp
  show "mod_qers qs s = (Ok r, s') \<Longrightarrow> q \<in> set qs \<Longrightarrow> qers (rules s) q \<noteq> None"
  proof (induction qs arbitrary: s r)
    case (Cons a qs)
    then obtain x where x: "qers (rules s) a = Some x" by (cases "qers (rules s) a") auto
    let ?t = "set_qer a sent_qer s"
    obtain r1 where "mod_qers qs ?t = (Ok r1, s')"
      using Cons.prems(1) x by (cases "fst (mod_qers qs ?t)"; cases "mod_qers qs ?t") (auto simp: state_sent)
    then show ?case using Cons.IH[of ?t r1] Cons.prems(2) x by (cases "q = a") (auto simp: set_qer_def)
  qed simp
qed

lemma all_sent_comp: "all_sent {} {} Q (all_sent {} F {} (all_sent P {} {} s)) = all_sent P F Q s"
  by (simp add: all_sent_def)

lemma all_sent_rules:
  "pdrs (rules (all_sent P F Q s)) = on_set P sent_pdr (pdrs (rules s))" "fars (rules (all_sent P F Q s)) = on_set F sent_far (fars (rules s))"
  "qers (rules (all_sent P F Q s)) = on_set Q sent_qer (qers (rules s))" "bars (rules (all_sent P F Q s)) = bars (rules s)"
  by (simp_all add: all_sent_def)

lemma removals_only:
  "map_res (buildRemovePDRIE s) ps = Ok xs \<Longrightarrow> \<exists>ds. xs = map RemovePDRIE ds"
  "map_res (buildRemoveFARIE s) fs = Ok ys \<Longrightarrow> \<exists>ds. ys = map RemoveFARIE ds"
  "map_res (buildRemoveQERIE s) qs = Ok zs \<Longrightarrow> \<exists>ds. zs = map RemoveQERIE ds"
proof -
  have all: "map_res h as = Ok bs \<Longrightarrow> (\<And>a b. h a = Ok b \<Longrightarrow> \<exists>i. b = C i) \<Longrightarrow> \<exists>ds. bs = map C ds" for h :: "nat \<Rightarrow> pfcp_ie result" and as bs and C :: "'i \<Rightarrow> pfcp_ie"
  proof (induction as arbitrary: bs)
    case (Cons a as)
    then obtain b cs where b: "h a = Ok b" "map_res h as = Ok cs" "bs = b # cs" by auto
    have "\<exists>ks. cs = map C ks" by (rule Cons.IH[OF b(2)]) (rule Cons.prems(2))
    then obtain i ks where "b = C i" "cs = map C ks" using Cons.prems(2)[OF b(1)] by auto
    then show ?case using b(3) by (intro exI[of _ "i # ks"]) simp
  qed simp
  show "map_res (buildRemovePDRIE s) ps = Ok xs \<Longrightarrow> \<exists>ds. xs = map RemovePDRIE ds"
    by (erule all) (auto simp: buildRemovePDRIE_def split: option.splits)
  show "map_res (buildRemoveFARIE s) fs = Ok ys \<Longrightarrow> \<exists>ds. ys = map RemoveFARIE ds"
    by (erule all) (auto simp: buildRemoveFARIE_def split: option.splits)
  show "map_res (buildRemoveQERIE s) qs = Ok zs \<Longrightarrow> \<exists>ds. zs = map RemoveQERIE ds"
    by (erule all) (auto simp: buildRemoveQERIE_def split: option.splits)
qed

text \<open>C24: A modification request carries, for each listed rule in order, the element that its state asks
  for: create, update, remove or nothing.  Building it marks every listed rule as created and clears the
  flag for the end marker of updated rules, so building it again sends no rule a second time but only
  repeats the removals.\<close>

theorem modification_sends_changes_once:
  assumes run: "BuildPfcpSessionModificationRequest sq lseid rseid ip m s = (Ok msg, s')"
    and "distinct (pdrList m)" "distinct (farList m)"
  shows "(\<exists>rest. msg = SessionModificationRequest rseid sq (FSEIDIE lseid ip
        # concat (map (\<lambda>p. mod_pdr s (the (pdrs (rules s) p))) (pdrList m))
        @ concat (map (\<lambda>f. fst (mod_far s (the (fars (rules s) (the f))))) (farList m)) @ rest))
    \<and> s' = all_sent (set (pdrList m)) (the ` set (farList m)) (set (qerList m)) s
    \<and> (\<exists>ps fs qs. BuildPfcpSessionModificationRequest sq' lseid rseid ip m s' = (Ok (SessionModificationRequest rseid sq'
        (FSEIDIE lseid ip # map RemovePDRIE ps @ map RemoveFARIE fs @ map RemoveQERIE qs)), s'))"
proof -
  let ?P = "set (pdrList m)" and ?F = "the ` set (farList m)" and ?Q = "set (qerList m)"
  obtain ps s1 where 1: "mod_pdrs (pdrList m) s = (Ok ps, s1)"
    using run by (cases "fst (mod_pdrs (pdrList m) s)"; cases "mod_pdrs (pdrList m) s") (auto simp: BuildPfcpSessionModificationRequest_def)
  obtain fs s2 where 2: "mod_fars (farList m) s1 = (Ok fs, s2)"
    using run 1 by (cases "fst (mod_fars (farList m) s1)"; cases "mod_fars (farList m) s1") (auto simp: BuildPfcpSessionModificationRequest_def)
  obtain qs s3 where 3: "mod_qers (qerList m) s2 = (Ok qs, s3)"
    using run 1 2 by (cases "fst (mod_qers (qerList m) s2)"; cases "mod_qers (qerList m) s2") (auto simp: BuildPfcpSessionModificationRequest_def)
  have rest: "seq (map_res (buildRemovePDRIE s3) (removePDR m), s3) (\<lambda>rp s.
     seq (map_res (buildRemoveFARIE s) (removeFAR m), s) (\<lambda>rf s.
     seq (map_res (buildRemoveQERIE s) (removeQER m), s) (\<lambda>rq s.
       (Ok (SessionModificationRequest rseid sq ([FSEIDIE lseid ip] @ ps @ fs @ qs @ rp @ rf @ rq)), s)))) = (Ok msg, s')"
    using run 1 2 3 by (simp add: BuildPfcpSessionModificationRequest_def)
  obtain rp rf rq where r: "map_res (buildRemovePDRIE s3) (removePDR m) = Ok rp" "map_res (buildRemoveFARIE s3) (removeFAR m) = Ok rf"
    "map_res (buildRemoveQERIE s3) (removeQER m) = Ok rq" and msg: "msg = SessionModificationRequest rseid sq ([FSEIDIE lseid ip] @ ps @ fs @ qs @ rp @ rf @ rq)"
    and s3: "s' = s3"
    using rest by (cases "map_res (buildRemovePDRIE s3) (removePDR m)"; cases "map_res (buildRemoveFARIE s3) (removeFAR m)";
        cases "map_res (buildRemoveQERIE s3) (removeQER m)") auto
  note s1 = mod_pdrs_Ok[OF 1] and s2 = mod_fars_Ok[OF 2] and s3' = mod_qers_Ok[OF 3]
  have s': "s' = all_sent ?P ?F ?Q s" using s1 s2 s3' s3 all_sent_comp by metis
  have fars1: "fars (rules s1) = fars (rules s)" "mod_far s1 = mod_far s" "qers (rules s2) = qers (rules s)"
    using s1 s2 by (auto simp: all_sent_rules intro!: mod_far_cong)
  have P: "\<forall>p \<in> ?P. \<exists>x. pdrs (rules s') p = Some x \<and> sent_pdr x = x"
    using mod_exist(1)[OF 1] by (fastforce simp: s' all_sent_rules)
  have F: "\<forall>g \<in> set (farList m). \<exists>f y. g = Some f \<and> fars (rules s') f = Some y \<and> sent_far y = y"
  proof
    fix g assume g: "g \<in> set (farList m)"
    then obtain f y where y: "g = Some f" "fars (rules s) f = Some y" using mod_exist(2)[OF 2 g] fars1(1) by auto
    then have "f \<in> ?F" using g by (force intro: rev_image_eqI)
    then show "\<exists>f y. g = Some f \<and> fars (rules s') f = Some y \<and> sent_far y = y" using y by (simp add: s' all_sent_rules)
  qed
  have Q: "\<forall>q \<in> ?Q. \<exists>x. qers (rules s') q = Some x \<and> sent_qer x = x"
    using mod_exist(3)[OF 3] fars1(3) by (fastforce simp: s' all_sent_rules)
  obtain ds js ks where "rp = map RemovePDRIE ds" "rf = map RemoveFARIE js" "rq = map RemoveQERIE ks"
    using removals_only(1)[OF r(1)] removals_only(2)[OF r(2)] removals_only(3)[OF r(3)] by blast
  then have again: "BuildPfcpSessionModificationRequest sq' lseid rseid ip m s' = (Ok (SessionModificationRequest rseid sq'
        (FSEIDIE lseid ip # map RemovePDRIE ds @ map RemoveFARIE js @ map RemoveQERIE ks)), s')"
    using mod_pdrs_idle[OF P] mod_fars_idle[OF F] mod_qers_idle[OF Q] r s3 by (simp add: BuildPfcpSessionModificationRequest_def)
  show ?thesis using s' again msg s1 s2 fars1 assms(2,3) by auto
qed

text \<open>An established detection rule keeps its initial state, so the next modification that lists it
  without marking it asks the UPF to create it again.\<close>

lemma established_rule_created_again:
  assumes "BuildPfcpSessionEstablishmentRequest sq nodeID ip lseid ps fs qs s = (Ok msg, s')"
    and "p \<in> set ps" "pdrs (rules s) p = Some x" "PdrState x = RULE_INITIAL"
  shows "pdrs (rules s') p = Some x \<and> mod_pdr s' x = [pdrToCreatePDR s' x]"
proof -
  have frame_f: "est_fars fs t = (r, t') \<Longrightarrow> pdrs (rules t') = pdrs (rules t)" for fs t r t'
  proof (induction fs arbitrary: t r t')
    case (Cons g fs)
    then show ?case
      by (cases g; cases "fars (rules t) (the g)"; cases "est_fars fs (set_far (the g) (\<lambda>y. y\<lparr>FarState := RULE_CREATE\<rparr>) t)";
          cases "fst (est_fars fs (set_far (the g) (\<lambda>y. y\<lparr>FarState := RULE_CREATE\<rparr>) t))") (fastforce simp: set_far_def)+
  qed simp
  have frame_q: "est_qers ms t = (r, t') \<Longrightarrow> pdrs (rules t') = pdrs (rules t)" for ms t r t'
  proof (induction ms arbitrary: t r t')
    case (Cons a ms)
    obtain i q where a: "a = (i, q)" by (cases a)
    show ?case using Cons a
      by (cases "qers (rules t) q"; cases "est_qers ms (set_qer q (\<lambda>y. y\<lparr>QerState := RULE_CREATE\<rparr>) t)";
          cases "fst (est_qers ms (set_qer q (\<lambda>y. y\<lparr>QerState := RULE_CREATE\<rparr>) t))") (fastforce simp: set_qer_def)+
  qed simp
  obtain r t where 1: "est_fars fs s = (Ok r, t)"
    using assms(1) by (cases "est_pdrs ps s"; cases "fst (est_fars fs s)"; cases "est_fars fs s") (auto simp: BuildPfcpSessionEstablishmentRequest_def)
  obtain m where 2: "qer_map t qs [] = Ok m"
    using assms(1) 1 by (cases "est_pdrs ps s"; cases "qer_map t qs []") (auto simp: BuildPfcpSessionEstablishmentRequest_def)
  obtain r' where "est_qers m t = (r', s')"
    using assms(1) 1 2 by (cases "est_pdrs ps s"; cases "fst (est_qers m t)"; cases "est_qers m t") (auto simp: BuildPfcpSessionEstablishmentRequest_def)
  from frame_q[OF this] have "pdrs (rules s') = pdrs (rules s)" using frame_f[OF 1] by simp
  then show ?thesis using assms by (simp add: mod_pdr_def)
qed

definition changed_rules :: "id_pool dp_state" where
  "changed_rules = \<lparr>dpnodes = [], dupfs = [], rules = \<lparr>pdrs = [0 \<mapsto> new_pdr\<lparr>FAR := Some 1, PdrState := RULE_UPDATE, PDRID := 3\<rparr>],
     fars = [1 \<mapsto> new_far\<lparr>FarState := RULE_UPDATE, FARID := 4\<rparr>], bars = Map.empty, qers = Map.empty, nextRule = 2\<rparr>,
     sessions = [], seidCount = 0, seidContexts = {}, anIP = [], anTEID = 0\<rparr>"

definition sample_modification :: modification where
  "sample_modification = \<lparr>pdrList = [0], farList = [Some 1], qerList = [], removePDR = [], removeFAR = [], removeQER = []\<rparr>"

theorem modification_sends_changes_once_witness:
  "\<exists>s' rest. BuildPfcpSessionModificationRequest 7 1 2 [] sample_modification changed_rules =
      (Ok (SessionModificationRequest 2 7 (FSEIDIE 1 [] # UpdatePDRIE (pdr_ies changed_rules (new_pdr\<lparr>FAR := Some 1, PdrState := RULE_UPDATE, PDRID := 3\<rparr>)) # rest)), s')
    \<and> s' = all_sent {0} {1} {} changed_rules"
proof -
  obtain msg s' where run: "BuildPfcpSessionModificationRequest 7 1 2 [] sample_modification changed_rules = (Ok msg, s')"
    by (simp add: BuildPfcpSessionModificationRequest_def sample_modification_def changed_rules_def mod_far_def farToUpdateFAR_def set_pdr_def)
  have x: "mod_pdr changed_rules (the (pdrs (rules changed_rules) 0)) =
      [UpdatePDRIE (pdr_ies changed_rules (new_pdr\<lparr>FAR := Some 1, PdrState := RULE_UPDATE, PDRID := 3\<rparr>))]"
    by (simp add: mod_pdr_def pdrToUpdatePDR_def changed_rules_def)
  have d: "distinct (pdrList sample_modification)" "distinct (farList sample_modification)" by (simp_all add: sample_modification_def)
  show ?thesis
    using modification_sends_changes_once[OF run d] run x by (auto simp: sample_modification_def)
qed

end
