(* ===== verification/Pfcp_Session.thy ===== *)
theory Pfcp_Session
  imports N1_Message Pfcp_Build
begin

text \<open>
  Sending PFCP messages and handling what comes back: \<^verbatim>\<open>src/pfcp/message/send.go\<close>,
  \<^verbatim>\<open>src/pfcp/handler/handler.go\<close>, \<^verbatim>\<open>src/pfcp/dispatcher.go\<close>, \<^verbatim>\<open>src/pfcp/upf/upf.go\<close>,
  \<^verbatim>\<open>src/pfcp/ies\<close> and \<^verbatim>\<open>src/producer/datapath.go\<close>.  The model follows one session (\<^verbatim>\<open>self\<close>, \<^verbatim>\<open>sess\<close>); other
  sessions appear through the pools, and what is sent on their channels or done to them by mistake is
  recorded.  The UPF adapter and the uplink classifier are switched off, as by default.
\<close>

section \<open>State\<close>

record upf_assoc =
  NHeartBeat :: u8
  RecoveryTimeStamp :: int
  UPFunctionFeatures :: "(u16 \<times> u16 \<times> u16) option"

text \<open>\<^verbatim>\<open>upfTab\<close> is the pool of UPFs by identifier, which points to the UPFs of the session's data paths, and
  \<^verbatim>\<open>assoc\<close> their association; \<^verbatim>\<open>out\<close> are the messages handed to the transport, \<^verbatim>\<open>elsewhere\<close> what was
  sent on channels of other sessions, \<^verbatim>\<open>n1n2\<close> the sessions for which a message went to the access
  and mobility function.\<close>

record 'g smf =
  spools :: sm_pools
  self :: ptr
  sess :: "'g session"
  upfTab :: "nat go_map"
  assoc :: "nat \<Rightarrow> upf_assoc"
  PfcpTxns :: "u32 \<rightharpoonup> node_id"
  pseq :: u32
  out :: "pfcp_msg list"
  elsewhere :: "(ptr \<times> PFCPSessionResponseStatus) list"
  n1n2 :: "ptr list"

text \<open>The address of a node, the node identifier of the SMF, the variable \<^verbatim>\<open>SMF_COUNT\<close>, for which
  messages the transport reports an error at once, and the cause values of \<^verbatim>\<open>go-pfcp\<close>.\<close>

record penv =
  resolve :: "node_id \<Rightarrow> ip"
  CPNodeID :: node_id
  SMF_COUNT :: "string option"
  SendFails :: "pfcp_msg \<Rightarrow> bool"
  CauseRequestAccepted :: u8
  CauseRequestRejected :: u8
  CauseNoEstablishedPFCPAssociation :: u8

definition on_dps :: "('g dp_state \<Rightarrow> 'a result \<times> 'g dp_state) \<Rightarrow> 'g smf \<Rightarrow> 'a result \<times> 'g smf" where
  "on_dps f w = (case f (dps (sess w)) of (r, d) \<Rightarrow> (r, w\<lparr>sess := (sess w)\<lparr>dps := d\<rparr>\<rparr>))"

section \<open>Sequence numbers and pending transactions\<close>

definition getSeqNumber :: "penv \<Rightarrow> 'g smf \<Rightarrow> u32 \<times> 'g smf" where
  "getSeqNumber E w =
     (let smfCount = (case SMF_COUNT E of None \<Rightarrow> 1 | Some s \<Rightarrow> fst (Atoi s)) in
      (pseq w + 1 + of_int ((smfCount - 1) * 5000), w\<lparr>pseq := pseq w + 1\<rparr>))"

definition FetchPfcpTxn :: "u32 \<Rightarrow> 'g smf \<Rightarrow> node_id option \<times> 'g smf" where
  "FetchPfcpTxn sq w = (PfcpTxns w sq, w\<lparr>PfcpTxns := (PfcpTxns w)(sq := None)\<rparr>)"

definition InsertPfcpTxn :: "u32 \<Rightarrow> node_id \<Rightarrow> 'g smf \<Rightarrow> 'g smf" where
  "InsertPfcpTxn sq n w = w\<lparr>PfcpTxns := (PfcpTxns w)(sq \<mapsto> n)\<rparr>"

text \<open>\<^verbatim>\<open>udp.SendPfcp\<close>.\<close>

definition SendPfcp :: "penv \<Rightarrow> pfcp_msg \<Rightarrow> 'g smf \<Rightarrow> unit result \<times> 'g smf" where
  "SendPfcp E m w = (if SendFails E m then (Err ''send failed'', w) else (Ok (), w\<lparr>out := out w @ [m]\<rparr>))"

section \<open>Requests\<close>

definition SendHeartbeatRequest :: "penv \<Rightarrow> node_id \<Rightarrow> 'g smf \<Rightarrow> unit result \<times> 'g smf" where
  "SendHeartbeatRequest E n w = (case getSeqNumber E w of (sq, w) \<Rightarrow>
     (case SendPfcp E (BuildPfcpHeartbeatRequest sq) (InsertPfcpTxn sq n w) of
        (Err e, w) \<Rightarrow> (Err e, snd (FetchPfcpTxn sq w))
      | r \<Rightarrow> r))"

text \<open>\<^verbatim>\<open>net.IP.Equal\<close>.\<close>

definition IPEqual :: "ip \<Rightarrow> ip \<Rightarrow> bool" where
  "IPEqual a b \<longleftrightarrow> a = b \<or> (length a \<noteq> length b \<and> To4 a \<noteq> [] \<and> To4 a = To4 b)"

definition SendPfcpAssociationSetupRequest :: "penv \<Rightarrow> node_id \<Rightarrow> 'g smf \<Rightarrow> unit result \<times> 'g smf" where
  "SendPfcpAssociationSetupRequest E n w =
     (if IPEqual (resolve E n) (To16 [0, 0, 0, 0]) then (Err ''PFCP Association Setup Request failed, invalid NodeId'', w)
      else case getSeqNumber E w of (sq, w) \<Rightarrow>
        SendPfcp E (BuildPfcpAssociationSetupRequest sq (IPString (resolve E (CPNodeID E)))) (InsertPfcpTxn sq n w))"

definition SendPfcpAssociationSetupResponse :: "penv \<Rightarrow> u8 \<Rightarrow> 'g smf \<Rightarrow> unit result \<times> 'g smf" where
  "SendPfcpAssociationSetupResponse E cause w = SendPfcp E (BuildPfcpAssociationSetupResponse cause (IPString (resolve E (CPNodeID E)))) w"

definition SendPfcpAssociationReleaseResponse :: "penv \<Rightarrow> u8 \<Rightarrow> 'g smf \<Rightarrow> unit result \<times> 'g smf" where
  "SendPfcpAssociationReleaseResponse E cause w = SendPfcp E (BuildPfcpAssociationReleaseResponse cause (IPString (resolve E (CPNodeID E)))) w"

definition pfcp_context :: "penv \<Rightarrow> node_id \<Rightarrow> 'g smf \<Rightarrow> pfcp_session option" where
  "pfcp_context E n w = map_of (sessions (dps (sess w))) (IPString (resolve E n))"

definition SendPfcpSessionEstablishmentRequest ::
    "penv \<Rightarrow> node_id \<Rightarrow> nat list \<Rightarrow> nat option list \<Rightarrow> nat list \<Rightarrow> 'g smf \<Rightarrow> unit result \<times> 'g smf" where
  "SendPfcpSessionEstablishmentRequest E n ps fs qs w = (case pfcp_context E n w of
      None \<Rightarrow> (Err ''PFCP Context not found for NodeID'', w)
    | Some pc \<Rightarrow>
        (case getSeqNumber E w of (sq, w) \<Rightarrow>
           let a = resolve E (CPNodeID E) in
           seq (on_dps (BuildPfcpSessionEstablishmentRequest sq (IPString a) a (LocalSEID pc) ps fs qs) w) (\<lambda>m w.
           SendPfcp E m (InsertPfcpTxn sq n w))))"

text \<open>The arguments of the log lines are evaluated: they read the forwarding rule of every detection rule
  in the list, and every rule of the other lists.\<close>

definition logged_rules :: "modification \<Rightarrow> 'g dp_state \<Rightarrow> bool" where
  "logged_rules m s \<longleftrightarrow>
     list_all (\<lambda>p. case pdrs (rules s) p of None \<Rightarrow> False | Some x \<Rightarrow> Option.bind (FAR x) (fars (rules s)) \<noteq> None) (pdrList m)
     \<and> list_all (\<lambda>f. Option.bind f (fars (rules s)) \<noteq> None) (farList m) \<and> list_all (\<lambda>q. qers (rules s) q \<noteq> None) (qerList m)
     \<and> list_all (\<lambda>p. pdrs (rules s) p \<noteq> None) (removePDR m) \<and> list_all (\<lambda>f. fars (rules s) f \<noteq> None) (removeFAR m)
     \<and> list_all (\<lambda>q. qers (rules s) q \<noteq> None) (removeQER m)"

definition SendPfcpSessionModificationRequest :: "penv \<Rightarrow> node_id \<Rightarrow> modification \<Rightarrow> 'g smf \<Rightarrow> unit result \<times> 'g smf" where
  "SendPfcpSessionModificationRequest E n m w = (case getSeqNumber E w of (sq, w) \<Rightarrow>
     (case pfcp_context E n w of
        None \<Rightarrow> (Err ''PFCP Context not found for NodeID'', w)
      | Some pc \<Rightarrow>
          if \<not> logged_rules m (dps (sess w)) then (Panic ''nil pointer dereference'', w)
          else seq (on_dps (BuildPfcpSessionModificationRequest sq (LocalSEID pc) (RemoteSEID pc) (resolve E (CPNodeID E)) m) w) (\<lambda>msg w.
            SendPfcp E msg (InsertPfcpTxn sq n w))))"

definition SendPfcpSessionDeletionRequest :: "penv \<Rightarrow> node_id \<Rightarrow> 'g smf \<Rightarrow> unit result \<times> 'g smf" where
  "SendPfcpSessionDeletionRequest E n w = (case getSeqNumber E w of (sq, w) \<Rightarrow>
     (case pfcp_context E n w of
        None \<Rightarrow> (Err ''PFCP Context not found for NodeID'', w)
      | Some pc \<Rightarrow> SendPfcp E (BuildPfcpSessionDeletionRequest sq (LocalSEID pc) (RemoteSEID pc) (resolve E (CPNodeID E))) (InsertPfcpTxn sq n w)))"

definition SendPfcpSessionReportResponse :: "penv \<Rightarrow> u8 \<Rightarrow> bool \<Rightarrow> u32 \<Rightarrow> u64 \<Rightarrow> 'g smf \<Rightarrow> unit result \<times> 'g smf" where
  "SendPfcpSessionReportResponse E cause drobu seqFromUPF seid w = SendPfcp E (BuildPfcpSessionReportResponse cause drobu seqFromUPF seid) w"

definition SendHeartbeatResponse :: "penv \<Rightarrow> u32 \<Rightarrow> 'g smf \<Rightarrow> unit result \<times> 'g smf" where
  "SendHeartbeatResponse E sq w = SendPfcp E (BuildPfcpHeartbeatResponse sq) w"

section \<open>Channels and contexts\<close>

text \<open>A send on the channel of a session.\<close>

definition notify :: "ptr \<Rightarrow> PFCPSessionResponseStatus \<Rightarrow> 'g smf \<Rightarrow> 'g smf" where
  "notify p st w = (if p = self w then w\<lparr>sess := (sess w)\<lparr>chan := chan (sess w) @ [st]\<rparr>\<rparr> else w\<lparr>elsewhere := elsewhere w @ [(p, st)]\<rparr>)"

text \<open>The context of the session in the heap: its PFCP contexts are those of its data paths.\<close>

definition full_ctx :: "'g smf \<Rightarrow> sm_context" where
  "full_ctx w = (ctx (sess w))\<lparr>PFCPContext := map (\<lambda>(k, x). (k, LocalSEID x)) (sessions (dps (sess w)))\<rparr>"

definition full_pools :: "'g smf \<Rightarrow> sm_pools" where
  "full_pools w = (spools w)\<lparr>heap := (heap (spools w))(self w \<mapsto> full_ctx w)\<rparr>"

definition put_pools :: "sm_pools \<Rightarrow> 'g smf \<Rightarrow> 'g smf" where
  "put_pools pl w = w\<lparr>spools := pl, sess := (sess w)\<lparr>ctx := (case heap pl (self w) of None \<Rightarrow> ctx (sess w) | Some c \<Rightarrow> c)\<rparr>\<rparr>"

definition find_context :: "u64 \<Rightarrow> 'g smf \<Rightarrow> ptr option \<times> 'g smf" where
  "find_context seid w = (case GetSMContextBySEID seid (full_pools w) of (p, pl) \<Rightarrow> (p, put_pools pl w))"

definition remove_context :: "string \<Rightarrow> 'g smf \<Rightarrow> unit result \<times> 'g smf" where
  "remove_context ref w = (case RemoveSMContext ref (full_pools w) of
      Ok pl \<Rightarrow> (Ok (), put_pools pl w) | Err e \<Rightarrow> (Err e, w) | Panic e \<Rightarrow> (Panic e, w))"

section \<open>Requests that could not be sent\<close>

text \<open>The context is looked up by the session identifier in the header of the request.  A refusal
  goes to the UE through the access and mobility function, whose answer is only logged.\<close>

definition handleSendPfcpSessEstReqError :: "u64 \<Rightarrow> 'g smf \<Rightarrow> unit result \<times> 'g smf" where
  "handleSendPfcpSessEstReqError seid w = (case find_context seid w of
      (None, w) \<Rightarrow> (Ok (), w)
    | (Some p, w) \<Rightarrow>
        let pl = full_pools w in
        (case heap pl p of
           None \<Rightarrow> (Panic ''nil pointer dereference'', w)
         | Some c \<Rightarrow> remove_context (Ref c)
             (put_pools (pl\<lparr>heap := (heap pl)(p \<mapsto> ChangeState SmStateInit c)\<rparr>) (w\<lparr>n1n2 := n1n2 w @ [p]\<rparr>))))"

definition handleSendPfcpSessRelReqError :: "u64 \<Rightarrow> 'g smf \<Rightarrow> unit result \<times> 'g smf" where
  "handleSendPfcpSessRelReqError seid w = (case find_context seid w of
      (None, w) \<Rightarrow> (Ok (), w) | (Some p, w) \<Rightarrow> (Ok (), notify p SessionReleaseSuccess w))"

definition handleSendPfcpSessModReqError :: "u64 \<Rightarrow> 'g smf \<Rightarrow> unit result \<times> 'g smf" where
  "handleSendPfcpSessModReqError seid w = (case find_context seid w of
      (None, w) \<Rightarrow> (Ok (), w) | (Some p, w) \<Rightarrow> (Ok (), notify p SessionUpdateTimeout w))"

definition HandlePfcpSendError :: "pfcp_msg \<Rightarrow> 'g smf \<Rightarrow> unit result \<times> 'g smf" where
  "HandlePfcpSendError msg w = (case msg of
      SessionEstablishmentRequest seid _ _ \<Rightarrow> handleSendPfcpSessEstReqError seid w
    | SessionModificationRequest seid _ _ \<Rightarrow> handleSendPfcpSessModReqError seid w
    | SessionDeletionRequest seid _ _ \<Rightarrow> handleSendPfcpSessRelReqError seid w
    | _ \<Rightarrow> (Ok (), w))"

section \<open>Associations\<close>

text \<open>The pool lookup of a UPF, and changes of a UPF and of its association.\<close>

definition find_upf :: "penv \<Rightarrow> node_id \<Rightarrow> 'g smf \<Rightarrow> nat option" where
  "find_upf E n w = (let us = dupfs (dps (sess w)) in
     RetrieveUPFNodeByNodeID (resolve E) (\<lambda>p. if p < length us then Some (us ! p) else None) n (upfTab w))"

definition upd_smf_upf :: "nat \<Rightarrow> ('g upf \<Rightarrow> 'g upf) \<Rightarrow> 'g smf \<Rightarrow> 'g smf" where
  "upd_smf_upf u f w = (let d = dps (sess w) in w\<lparr>sess := (sess w)\<lparr>dps := d\<lparr>dupfs := (dupfs d)[u := f (dupfs d ! u)]\<rparr>\<rparr>\<rparr>)"

definition upd_assoc :: "nat \<Rightarrow> (upf_assoc \<Rightarrow> upf_assoc) \<Rightarrow> 'g smf \<Rightarrow> 'g smf" where
  "upd_assoc u f w = w\<lparr>assoc := (assoc w)(u := f (assoc w u))\<rparr>"

definition HandlePfcpHeartbeatRequest :: "penv \<Rightarrow> u32 \<Rightarrow> 'g smf \<Rightarrow> 'g smf" where
  "HandlePfcpHeartbeatRequest E sq w = snd (SendHeartbeatResponse E sq w)"

text \<open>\<^verbatim>\<open>ts\<close> is the time stamp of the response, nothing when it cannot be parsed.\<close>

definition HandlePfcpHeartbeatResponse :: "penv \<Rightarrow> u32 \<Rightarrow> int option \<Rightarrow> 'g smf \<Rightarrow> 'g smf" where
  "HandlePfcpHeartbeatResponse E sq ts w = (case FetchPfcpTxn sq w of
      (None, w) \<Rightarrow> w
    | (Some n, w) \<Rightarrow>
        (case find_upf E n w of
           None \<Rightarrow> w
         | Some u \<Rightarrow>
             (case ts of
                None \<Rightarrow> w
              | Some t \<Rightarrow> upd_assoc u (\<lambda>a. a\<lparr>NHeartBeat := 0\<rparr>)
                  (if t \<noteq> RecoveryTimeStamp (assoc w u) then upd_smf_upf u (\<lambda>x. x\<lparr>UpfStatus := NotAssociated\<rparr>) w else w))))"

definition SetUpfInactive :: "penv \<Rightarrow> node_id \<Rightarrow> 'g smf \<Rightarrow> 'g smf" where
  "SetUpfInactive E n w = (case find_upf E n w of
      None \<Rightarrow> w
    | Some u \<Rightarrow> upd_assoc u (\<lambda>a. a\<lparr>NHeartBeat := 0\<rparr>) (upd_smf_upf u (\<lambda>x. x\<lparr>UpfStatus := NotAssociated\<rparr>) w))"

text \<open>The node identifier of a message: nothing when it is missing or cannot be parsed.\<close>

definition HandlePfcpAssociationSetupRequest :: "penv \<Rightarrow> string option \<Rightarrow> int option \<Rightarrow> 'g smf \<Rightarrow> 'g smf" where
  "HandlePfcpAssociationSetupRequest E node ts w = (case (node, ts) of
      (Some s, Some t) \<Rightarrow>
        (case find_upf E (NewNodeID s) w of
           None \<Rightarrow> w
         | Some u \<Rightarrow> snd (SendPfcpAssociationSetupResponse E (CauseRequestAccepted E)
             (upd_assoc u (\<lambda>a. a\<lparr>RecoveryTimeStamp := t, NHeartBeat := 0\<rparr>) w)))
    | _ \<Rightarrow> w)"

definition LittleEndian_Uint16 :: "byte list \<Rightarrow> nat \<Rightarrow> u16" where
  "LittleEndian_Uint16 d i = ucast (d ! i) OR push_bit 8 (ucast (d ! (i + 1)))"

text \<open>The length is a 16-bit value, which a payload of an information element never exceeds.\<close>

definition UnmarshallUserPlaneFunctionFeatures :: "byte list \<Rightarrow> (u16 \<times> u16 \<times> u16) result" where
  "UnmarshallUserPlaneFunctionFeatures d = (let n = length d mod 2 ^ 16 in
     if n < 2 then Err ''inadequate TLV length''
     else Ok (LittleEndian_Uint16 d 0, if 4 \<le> n then LittleEndian_Uint16 d 2 else 0,
              if n = 6 then LittleEndian_Uint16 d 4 else 0))"

record association_setup_response =
  asNodeID :: "string option"
  asCause :: "u8 option"
  asSeq :: u32
  asRecovery :: "int option"
  asFeatures :: "byte list option"

definition HandlePfcpAssociationSetupResponse :: "penv \<Rightarrow> association_setup_response \<Rightarrow> 'g smf \<Rightarrow> 'g smf" where
  "HandlePfcpAssociationSetupResponse E rsp w =
     (if asNodeID rsp = None \<or> asCause rsp \<noteq> Some (CauseRequestAccepted E) then w
      else case FetchPfcpTxn (asSeq rsp) w of
        (None, w) \<Rightarrow> w
      | (Some n, w) \<Rightarrow>
          (case find_upf E n w of
             None \<Rightarrow> w
           | Some u \<Rightarrow>
               let w = upd_smf_upf u (\<lambda>x. x\<lparr>UpfStatus := AssociatedSetUpSuccess\<rparr>) w in
               (case asRecovery rsp of
                  None \<Rightarrow> w
                | Some t \<Rightarrow>
                    let w = upd_assoc u (\<lambda>a. a\<lparr>RecoveryTimeStamp := t, NHeartBeat := 0\<rparr>) w in
                    (case asFeatures rsp of
                       None \<Rightarrow> w
                     | Some bs \<Rightarrow> (case UnmarshallUserPlaneFunctionFeatures bs of
                         Ok f \<Rightarrow> upd_smf_upf u (\<lambda>x. x\<lparr>SupportedFeatures1 := Some (fst (snd f))\<rparr>) (upd_assoc u (\<lambda>a. a\<lparr>UPFunctionFeatures := Some f\<rparr>) w)
                       | _ \<Rightarrow> w)))))"

definition remove_upf :: "penv \<Rightarrow> node_id \<Rightarrow> 'g smf \<Rightarrow> 'g smf" where
  "remove_upf E n w = (let us = dupfs (dps (sess w)) in
     w\<lparr>upfTab := snd (RemoveUPFNodeByNodeID (resolve E) (\<lambda>p. if p < length us then Some (us ! p) else None) n (upfTab w))\<rparr>)"

definition HandlePfcpAssociationReleaseRequest :: "penv \<Rightarrow> string option \<Rightarrow> 'g smf \<Rightarrow> 'g smf" where
  "HandlePfcpAssociationReleaseRequest E node w = (case node of
      None \<Rightarrow> w
    | Some s \<Rightarrow> if find_upf E (NewNodeID s) w = None then w
        else snd (SendPfcpAssociationReleaseResponse E (CauseRequestAccepted E) (remove_upf E (NewNodeID s) w)))"

definition HandlePfcpAssociationReleaseResponse :: "penv \<Rightarrow> u8 option \<Rightarrow> string option \<Rightarrow> 'g smf \<Rightarrow> 'g smf" where
  "HandlePfcpAssociationReleaseResponse E cause node w =
     (if cause = Some (CauseRequestAccepted E) then (case node of None \<Rightarrow> w | Some s \<Rightarrow> remove_upf E (NewNodeID s) w) else w)"

section \<open>Heartbeats\<close>

definition maxHeartbeatRetry :: u8 where
  "maxHeartbeatRetry = 3"

text \<open>One round of each of the two loops, for the UPF \<^verbatim>\<open>u\<close>; the loops sleep between rounds.\<close>

definition heartbeat_upf :: "penv \<Rightarrow> nat \<Rightarrow> 'g smf \<Rightarrow> 'g smf" where
  "heartbeat_upf E u w = (let x = dupfs (dps (sess w)) ! u in
     if UpfStatus x = AssociatedSetUpSuccess \<and> NHeartBeat (assoc w u) < maxHeartbeatRetry
     then (case SendHeartbeatRequest E (NodeID x) w of
             (Ok _, w) \<Rightarrow> upd_assoc u (\<lambda>a. a\<lparr>NHeartBeat := NHeartBeat a + 1\<rparr>) w
           | (_, w) \<Rightarrow> w)
     else if NHeartBeat (assoc w u) = maxHeartbeatRetry then upd_smf_upf u (\<lambda>x. x\<lparr>UpfStatus := NotAssociated\<rparr>) w
     else w)"

definition InitPfcpHeartbeatRequest :: "penv \<Rightarrow> nat list \<Rightarrow> 'g smf \<Rightarrow> 'g smf" where
  "InitPfcpHeartbeatRequest E us w = fold (heartbeat_upf E) us w"

definition probe_upf :: "penv \<Rightarrow> nat \<Rightarrow> 'g smf \<Rightarrow> 'g smf" where
  "probe_upf E u w = (let x = dupfs (dps (sess w)) ! u in
     if UpfStatus x = NotAssociated then snd (SendPfcpAssociationSetupRequest E (NodeID x) w) else w)"

definition ProbeInactiveUpfs :: "penv \<Rightarrow> nat list \<Rightarrow> 'g smf \<Rightarrow> 'g smf" where
  "ProbeInactiveUpfs E us w = fold (probe_upf E) us w"

section \<open>Session responses\<close>

text \<open>The session identifier of the header, or that of the request when it is 0; nothing when the
  response has no usable event data.\<close>

definition rsp_seid :: "u64 \<Rightarrow> u64 option \<Rightarrow> u64 option" where
  "rsp_seid seid event = (if seid = 0 then event else Some seid)"

record created_pdr =
  cpUEIPAddress :: "ip option"
  cpFTEID :: "(u32 \<times> ip) option"

definition FindUEIPAddress :: "created_pdr list \<Rightarrow> ip" where
  "FindUEIPAddress cs = (case List.find (\<lambda>c. cpUEIPAddress c \<noteq> None) cs of None \<Rightarrow> [] | Some c \<Rightarrow> the (cpUEIPAddress c))"

definition FindFTEID :: "created_pdr list \<Rightarrow> (u32 \<times> ip) result" where
  "FindFTEID cs = (case List.find (\<lambda>c. cpFTEID c \<noteq> None) cs of
      None \<Rightarrow> Err ''FTEID not found in CreatedPDR'' | Some c \<Rightarrow> Ok (the (cpFTEID c)))"

text \<open>An element that may be absent (\<^verbatim>\<open>None\<close>) and may fail to parse.\<close>

record establishment_response =
  erSEID :: u64
  erEvent :: "u64 option"
  erSeq :: u32
  erUPFSEID :: "u64 result option"
  erCreatedPDR :: "created_pdr list"
  erNodeID :: "string result option"
  erCause :: "u8 result option"

definition set_sess :: "('g session \<Rightarrow> 'g session) \<Rightarrow> 'g smf \<Rightarrow> 'g smf" where
  "set_sess f w = w\<lparr>sess := f (sess w)\<rparr>"

definition set_dps :: "('g dp_state \<Rightarrow> 'g dp_state) \<Rightarrow> 'g smf \<Rightarrow> 'g smf" where
  "set_dps f w = set_sess (\<lambda>s. s\<lparr>dps := f (dps s)\<rparr>) w"

text \<open>The remote session identifier.  A missing PFCP context is a nil pointer.\<close>

definition store_remote :: "string \<Rightarrow> u64 \<Rightarrow> 'g smf \<Rightarrow> unit result \<times> 'g smf" where
  "store_remote key seid w = (let ss = sessions (dps (sess w)) in
     case map_of ss key of
       None \<Rightarrow> (Panic ''nil pointer dereference'', w)
     | Some pc \<Rightarrow> (Ok (), set_dps (\<lambda>d. d\<lparr>sessions := AList.update key (pc\<lparr>RemoteSEID := seid\<rparr>) ss\<rparr>) w))"

text \<open>An address that the UPF provides replaces the allocated one, which is released.\<close>

definition upf_address :: "ip \<Rightarrow> 'g smf \<Rightarrow> unit result \<times> 'g smf" where
  "upf_address a w = (if a = [] then (Ok (), w) else
     let pl = spools w; c = ctx (sess w); dnn = DNNInfo c in
     case ReleaseUeIpAddr c (allocators pl dnn) of
       Panic e \<Rightarrow> (Panic e, w)
     | r \<Rightarrow> (let (c, al) = (case r of Ok x \<Rightarrow> x | _ \<Rightarrow> (c, allocators pl dnn));
                 w = w\<lparr>spools := pl\<lparr>allocators := (allocators pl)(dnn := al)\<rparr>\<rparr> in
             case PDUAddress c of
               None \<Rightarrow> (Panic ''nil pointer dereference'', w)
             | Some _ \<Rightarrow> (Ok (), set_sess (\<lambda>s. s\<lparr>ctx := c\<lparr>PDUAddress := Some \<lparr>UeIp = a, UpfProvided = True\<rparr>\<rparr>\<rparr>) w)))"

definition n3_interface :: "ip \<Rightarrow> upf_interface_info" where
  "n3_interface a = \<lparr>NetworkInstance = '''', EndpointFQDN = '''', IPv4EndPointAddresses = [a], IPv6EndPointAddresses = []\<rparr>"

text \<open>\<^verbatim>\<open>Ok True\<close>: the handler goes on; \<^verbatim>\<open>Ok False\<close>: it returns.\<close>

definition created_rules :: "penv \<Rightarrow> node_id \<Rightarrow> nat option \<Rightarrow> created_pdr list \<Rightarrow> 'g smf \<Rightarrow> bool result \<times> 'g smf" where
  "created_rules E n anupf cs w = (if cs = [] then (Ok True, w) else
     seq (upf_address (FindUEIPAddress cs) w) (\<lambda>_ w.
     case FindFTEID cs of
       Ok (teid, a) \<Rightarrow>
         (case anupf of
            None \<Rightarrow> (Panic ''nil pointer dereference'', w)
          | Some x \<Rightarrow>
              let w = set_dps (upd_dpn x (\<lambda>d. d\<lparr>UpLinkTunnel := (UpLinkTunnel d)\<lparr>TEID := teid\<rparr>\<rparr>)) w in
              (case find_upf E n w of
                 None \<Rightarrow> (Ok False, w)
               | Some u \<Rightarrow> (Ok True, upd_smf_upf u (\<lambda>x. x\<lparr>N3Interfaces := [n3_interface a]\<rparr>) w)))
     | _ \<Rightarrow> (Ok False, w)))"

text \<open>The end of the handler: the answer of the first UPF of the default path decides.\<close>

definition first_upf_answer :: "penv \<Rightarrow> node_id \<Rightarrow> nat option \<Rightarrow> node_id \<Rightarrow> u8 result option \<Rightarrow> 'g smf \<Rightarrow> unit result \<times> 'g smf" where
  "first_upf_answer E n anupf rspNode cause w = (case anupf of
      None \<Rightarrow> (Panic ''nil pointer dereference'', w)
    | Some x \<Rightarrow>
        (case the_upf x (dps (sess w)) of
           Ok (_, u) \<Rightarrow>
             (if IPEqual (resolve E (NodeID u)) (resolve E n)
              then (case cause of
                      Some (Ok v) \<Rightarrow>
                        (if v = CauseRequestAccepted E then (Ok (), notify (self w) SessionEstablishSuccess w)
                         else (Ok (), (if v = CauseNoEstablishedPFCPAssociation E then SetUpfInactive E rspNode else (\<lambda>w. w))
                            (notify (self w) SessionEstablishFailed w)))
                    | _ \<Rightarrow> (Ok (), w))
              else (Ok (), w))
         | _ \<Rightarrow> (Ok (), w)))"

text \<open>A response for another session is not followed further.\<close>

definition HandlePfcpSessionEstablishmentResponse :: "penv \<Rightarrow> establishment_response \<Rightarrow> 'g smf \<Rightarrow> unit result \<times> 'g smf" where
  "HandlePfcpSessionEstablishmentResponse E rsp w = (case rsp_seid (erSEID rsp) (erEvent rsp) of
      None \<Rightarrow> (Ok (), w)
    | Some seid \<Rightarrow>
        (case find_context seid w of
           (None, w) \<Rightarrow> (Ok (), w)
         | (Some p, w) \<Rightarrow>
             (case FetchPfcpTxn (erSeq rsp) w of
                (None, w) \<Rightarrow> (Ok (), w)
              | (Some n, w) \<Rightarrow>
                  if p \<noteq> self w then (Ok (), w) else
                  (case erUPFSEID rsp of
                     Some (Err e) \<Rightarrow> (Ok (), w)
                   | x \<Rightarrow>
                       seq (case x of Some (Ok rs) \<Rightarrow> store_remote (IPString (resolve E n)) rs w | _ \<Rightarrow> (Ok (), w)) (\<lambda>_ w.
                       case Tunnel (sess w) of
                         None \<Rightarrow> (Panic ''nil pointer dereference'', w)
                       | Some pool \<Rightarrow>
                           (case GetDefaultPath (case pool of None \<Rightarrow> [] | Some q \<Rightarrow> q) of
                              None \<Rightarrow> (Ok (), w)
                            | Some path \<Rightarrow>
                                seq (created_rules E n (FirstDPNode path) (erCreatedPDR rsp) w) (\<lambda>go w.
                                if \<not> go then (Ok (), w) else
                                case erNodeID rsp of
                                  Some (Ok s) \<Rightarrow> first_upf_answer E n (FirstDPNode path) (NewNodeID s) (erCause rsp) w
                                | _ \<Rightarrow> (Ok (), w))))))))"

text \<open>The UPF of a response is taken off the list of those that the session waits for.\<close>

definition upf_answered :: "penv \<Rightarrow> u64 \<Rightarrow> 'g session \<Rightarrow> 'g session" where
  "upf_answered E seid s = s\<lparr>Pending := removeAll (IPString (case GetNodeIDByLocalSEID seid (dps s) of None \<Rightarrow> [] | Some n \<Rightarrow> resolve E n)) (Pending s)\<rparr>"

definition HandlePfcpSessionModificationResponse :: "penv \<Rightarrow> u64 \<Rightarrow> u64 option \<Rightarrow> u8 result option \<Rightarrow> 'g smf \<Rightarrow> unit result \<times> 'g smf" where
  "HandlePfcpSessionModificationResponse E hdr event cause w = (case rsp_seid hdr event of
      None \<Rightarrow> (Ok (), w)
    | Some seid \<Rightarrow>
        (case find_context seid w of (p, w) \<Rightarrow>
           (case cause of
              Some (Ok v) \<Rightarrow>
                (case p of
                   None \<Rightarrow> (Panic ''nil pointer dereference'', w)
                 | Some p \<Rightarrow>
                     if p \<noteq> self w \<or> State (ctx (sess w)) \<noteq> SmStatePfcpModify then (Ok (), w)
                     else if v = CauseRequestAccepted E
                     then (let w = set_sess (upf_answered E seid) w in
                           (Ok (), if Pending (sess w) = [] then notify p SessionUpdateSuccess w else w))
                     else (Ok (), notify p SessionUpdateFailed w))
            | _ \<Rightarrow> (Ok (), w))))"

definition HandlePfcpSessionDeletionResponse :: "penv \<Rightarrow> u64 \<Rightarrow> u64 option \<Rightarrow> u8 result option \<Rightarrow> 'g smf \<Rightarrow> unit result \<times> 'g smf" where
  "HandlePfcpSessionDeletionResponse E hdr event cause w = (case rsp_seid hdr event of
      None \<Rightarrow> (Ok (), w)
    | Some seid \<Rightarrow>
        (case find_context seid w of
           (None, w) \<Rightarrow> (Ok (), w)
         | (Some p, w) \<Rightarrow>
             (case cause of
                Some (Ok v) \<Rightarrow>
                  if p \<noteq> self w \<or> State (ctx (sess w)) \<noteq> SmStatePfcpRelease then (Ok (), w)
                  else if v = CauseRequestAccepted E
                  then (let w = set_sess (upf_answered E seid) w in
                        (Ok (), if Pending (sess w) = [] \<and> \<not> LocalPurged (sess w) then notify p SessionReleaseSuccess w else w))
                  else (Ok (), if LocalPurged (sess w) then w else notify p SessionReleaseSuccess w)
              | _ \<Rightarrow> (Ok (), w))))"

section \<open>Reports of a UPF\<close>

datatype n1n2_cause = ATTEMPTING_TO_REACH_UE | UE_NOT_RESPONDING | OTHER_N1N2_CAUSE

text \<open>\<^verbatim>\<open>dldr\<close>: the request reports downlink data.  \<^verbatim>\<open>answer\<close> is what the access and mobility function says to
  the message transfer.\<close>

definition HandlePfcpSessionReportRequest ::
    "penv \<Rightarrow> ngap_lib \<Rightarrow> nas_lib \<Rightarrow> (string \<Rightarrow> ip option) \<Rightarrow> n1n2_cause \<Rightarrow> u64 \<Rightarrow> u32 \<Rightarrow> bool \<Rightarrow> 'g smf \<Rightarrow> unit result \<times> 'g smf" where
  "HandlePfcpSessionReportRequest E N nas net answer seid sq dldr w = (case find_context seid w of
      (None, w) \<Rightarrow> logged (SendPfcpSessionReportResponse E (CauseRequestRejected E) True sq seid w)
    | (Some p, w) \<Rightarrow>
        if p = self w \<and> UpCnxState (sess w) = ''DEACTIVATED'' \<and> dldr
        then (case BuildPDUSessionResourceSetupRequestTransfer N nas net (sess w) of
                Panic e \<Rightarrow> (Panic e, w)
              | _ \<Rightarrow>
                  (let (cause, drobu) = (case answer of
                       ATTEMPTING_TO_REACH_UE \<Rightarrow> (CauseRequestAccepted E, False)
                     | UE_NOT_RESPONDING \<Rightarrow> (CauseRequestRejected E, True)
                     | OTHER_N1N2_CAUSE \<Rightarrow> (0, False)) in
                   logged (SendPfcpSessionReportResponse E cause drobu sq seid (w\<lparr>n1n2 := n1n2 w @ [p]\<rparr>))))
        else (Ok (), w))"

section \<open>Dispatch\<close>

text \<open>What reaches the PFCP handlers: a message of a UPF, or the transport's report that a request was
  given up.  The remaining message types are only logged.\<close>

datatype pfcp_event =
    HeartbeatRequestEv u32
  | HeartbeatResponseEv u32 "int option"
  | AssociationSetupRequestEv "string option" "int option"
  | AssociationSetupResponseEv association_setup_response
  | AssociationReleaseRequestEv "string option"
  | AssociationReleaseResponseEv "u8 option" "string option"
  | EstablishmentResponseEv establishment_response
  | ModificationResponseEv u64 "u64 option" "u8 result option"
  | DeletionResponseEv u64 "u64 option" "u8 result option"
  | UnhandledEv
  | SendErrorEv pfcp_msg

definition Dispatch :: "penv \<Rightarrow> pfcp_event \<Rightarrow> 'g smf \<Rightarrow> unit result \<times> 'g smf" where
  "Dispatch E ev w = (case ev of
      HeartbeatRequestEv sq \<Rightarrow> (Ok (), HandlePfcpHeartbeatRequest E sq w)
    | HeartbeatResponseEv sq ts \<Rightarrow> (Ok (), HandlePfcpHeartbeatResponse E sq ts w)
    | AssociationSetupRequestEv node ts \<Rightarrow> (Ok (), HandlePfcpAssociationSetupRequest E node ts w)
    | AssociationSetupResponseEv rsp \<Rightarrow> (Ok (), HandlePfcpAssociationSetupResponse E rsp w)
    | AssociationReleaseRequestEv node \<Rightarrow> (Ok (), HandlePfcpAssociationReleaseRequest E node w)
    | AssociationReleaseResponseEv cause node \<Rightarrow> (Ok (), HandlePfcpAssociationReleaseResponse E cause node w)
    | EstablishmentResponseEv rsp \<Rightarrow> HandlePfcpSessionEstablishmentResponse E rsp w
    | ModificationResponseEv hdr event cause \<Rightarrow> HandlePfcpSessionModificationResponse E hdr event cause w
    | DeletionResponseEv hdr event cause \<Rightarrow> HandlePfcpSessionDeletionResponse E hdr event cause w
    | UnhandledEv \<Rightarrow> (Ok (), w)
    | SendErrorEv msg \<Rightarrow> HandlePfcpSendError msg w)"

section \<open>Sending the rules of data paths\<close>

fun tunnel_rules :: "nat go_map \<Rightarrow> 'g dp_state \<Rightarrow> modification \<Rightarrow> modification result" where
  "tunnel_rules [] s m = Ok m"
| "tunnel_rules ((_, p) # ps) s m = (case pdrs (rules s) p of
      None \<Rightarrow> Panic ''nil pointer dereference''
    | Some x \<Rightarrow> tunnel_rules ps s (m\<lparr>pdrList := pdrList m @ [p], farList := farList m @ [FAR x], qerList := qerList m @ QER x\<rparr>))"

definition no_modification :: modification where
  "no_modification = \<lparr>pdrList = [], farList = [], qerList = [], removePDR = [], removeFAR = [], removeQER = []\<rparr>"

definition node_rules :: "nat \<Rightarrow> 'g dp_state \<Rightarrow> modification result" where
  "node_rules n s = bind_res (tunnel_rules (tunnel_pdrs UL n s) s no_modification) (tunnel_rules (tunnel_pdrs DL n s) s)"

text \<open>A request to establish the PFCP session of a node, or to modify it when the UPF has one already;
  errors are logged.\<close>

definition send_state :: "penv \<Rightarrow> node_id \<Rightarrow> modification \<Rightarrow> 'g smf \<Rightarrow> unit result \<times> 'g smf" where
  "send_state E n m w = logged (
     if (case pfcp_context E n w of None \<Rightarrow> True | Some pc \<Rightarrow> RemoteSEID pc = 0)
     then SendPfcpSessionEstablishmentRequest E n (pdrList m) (farList m) (qerList m) w
     else SendPfcpSessionModificationRequest E n m w)"

fun send_nodes :: "penv \<Rightarrow> nat list \<Rightarrow> 'g smf \<Rightarrow> unit result \<times> 'g smf" where
  "send_nodes E [] w = (Ok (), w)"
| "send_nodes E (n # ns) w = seq (node_rules n (dps (sess w)), w) (\<lambda>m w.
     seq (the_upf n (dps (sess w)), w) (\<lambda>(_, u) w.
     seq (send_state E (NodeID u) m w) (\<lambda>_. send_nodes E ns)))"

text \<open>\<^verbatim>\<open>k\<close> bounds the nodes of a path.\<close>

definition SendPFCPRule :: "penv \<Rightarrow> nat \<Rightarrow> data_path \<Rightarrow> 'g smf \<Rightarrow> (unit result \<times> 'g smf) option" where
  "SendPFCPRule E k d w = map_option (\<lambda>ns. send_nodes E ns w) (walk k (FirstDPNode d) (dps (sess w)))"

definition add_rules :: "modification \<Rightarrow> modification \<Rightarrow> modification" where
  "add_rules a b = a\<lparr>pdrList := pdrList a @ pdrList b, farList := farList a @ farList b, qerList := qerList a @ qerList b\<rparr>"

fun pool_rules :: "penv \<Rightarrow> 'g dp_state \<Rightarrow> nat list \<Rightarrow> (node_id \<times> modification) go_map \<Rightarrow> (node_id \<times> modification) go_map result" where
  "pool_rules E s [] pool = Ok pool"
| "pool_rules E s (n # ns) pool = bind_res (node_rules n s) (\<lambda>m. bind_res (the_upf n s) (\<lambda>(_, u).
     let key = IPString (resolve E (NodeID u)) in
     pool_rules E s ns (AList.update key (case map_of pool key of None \<Rightarrow> (NodeID u, m) | Some (i, m') \<Rightarrow> (i, add_rules m' m)) pool)))"

fun send_pool :: "penv \<Rightarrow> (node_id \<times> modification) go_map \<Rightarrow> 'g smf \<Rightarrow> unit result \<times> 'g smf" where
  "send_pool E [] w = (Ok (), w)"
| "send_pool E ((_, n, m) # ps) w = seq (send_state E n m w) (\<lambda>_. send_pool E ps)"

definition SendPFCPRules :: "penv \<Rightarrow> nat \<Rightarrow> 'g smf \<Rightarrow> (unit result \<times> 'g smf) option" where
  "SendPFCPRules E k w = (case Tunnel (sess w) of
      None \<Rightarrow> Some (Panic ''nil pointer dereference'', w)
    | Some pool \<Rightarrow> map_option (\<lambda>ns. seq (pool_rules E (dps (sess w)) ns [], w) (send_pool E))
        (walks k (filter Activated (pool_paths pool)) (dps (sess w))))"

definition mark_removed :: "nat \<Rightarrow> 'g dp_state \<Rightarrow> unit result \<times> 'g dp_state" where
  "mark_removed p s = (case pdrs (rules s) p of
      None \<Rightarrow> (Panic ''nil pointer dereference'', s)
    | Some x \<Rightarrow>
        (case FAR x of
           None \<Rightarrow> (Panic ''nil pointer dereference'', s)
         | Some f \<Rightarrow> (Ok (), set_far f (\<lambda>y. y\<lparr>FarState := RULE_REMOVE\<rparr>) (set_pdr p (\<lambda>x. x\<lparr>PdrState := RULE_REMOVE\<rparr>) s))))"

definition removeDataPath :: "nat \<Rightarrow> data_path \<Rightarrow> 'g dp_state \<Rightarrow> (unit result \<times> 'g dp_state) option" where
  "removeDataPath k d s = dp_loop k (\<lambda>n s. seq (each_pdr mark_removed (tunnel_pdrs DL n s) s) (\<lambda>_ s. each_pdr mark_removed (tunnel_pdrs UL n s) s)) (FirstDPNode d) s"

definition UpdateDataPathToUPF :: "penv \<Rightarrow> nat \<Rightarrow> data_path option \<Rightarrow> data_path \<Rightarrow> 'g smf \<Rightarrow> (unit result \<times> 'g smf) option" where
  "UpdateDataPathToUPF E k old new w = (case old of
      None \<Rightarrow> SendPFCPRule E k new w
    | Some d \<Rightarrow> (case removeDataPath k d (dps (sess w)) of
        None \<Rightarrow> None
      | Some (Ok _, s) \<Rightarrow> SendPFCPRule E k new (set_dps (\<lambda>_. s) w)
      | Some (r, s) \<Rightarrow> Some (r, set_dps (\<lambda>_. s) w)))"

section \<open>Frame rules\<close>

lemma find_context_frame:
  assumes "find_context seid w = (p, w')"
  shows "chan (sess w') = chan (sess w)" "elsewhere w' = elsewhere w" "self w' = self w" "Pending (sess w') = Pending (sess w)"
    "LocalPurged (sess w') = LocalPurged (sess w)" "dps (sess w') = dps (sess w)" "Tunnel (sess w') = Tunnel (sess w)"
    "out w' = out w" "PfcpTxns w' = PfcpTxns w"
  using assms by (auto simp: find_context_def put_pools_def split: prod.splits)

text \<open>Without a database a lookup only reads the table.\<close>

lemma find_context_plain:
  assumes "\<not> EnableDbStore (spools w)"
  shows "find_context seid w = (seidSMContextMap (spools w) seid, put_pools (full_pools w) w)"
  using assms by (auto simp: find_context_def GetSMContextBySEID_def full_pools_def split: option.splits)

lemma put_full_pools:
  "ctx (sess (put_pools (full_pools w) w)) = full_ctx w" "spools (put_pools (full_pools w) w) = full_pools w"
  "self (put_pools (full_pools w) w) = self w" "dps (sess (put_pools (full_pools w) w)) = dps (sess w)"
  "Pending (sess (put_pools (full_pools w) w)) = Pending (sess w)" "chan (sess (put_pools (full_pools w) w)) = chan (sess w)"
  "elsewhere (put_pools (full_pools w) w) = elsewhere w" "LocalPurged (sess (put_pools (full_pools w) w)) = LocalPurged (sess w)"
  by (simp_all add: put_pools_def full_pools_def)

lemma full_pools_simps [simp]:
  "seidSMContextMap (full_pools w) = seidSMContextMap (spools w)" "EnableDbStore (full_pools w) = EnableDbStore (spools w)"
  by (simp_all add: full_pools_def)

lemma full_ctx_simps [simp]: "State (full_ctx w) = State (ctx (sess w))" "Ref (full_ctx w) = Ref (ctx (sess w))" "Supi (full_ctx w) = Supi (ctx (sess w))"
  by (simp_all add: full_ctx_def)

lemma notify_simps [simp]:
  "p = self w \<Longrightarrow> chan (sess (notify p st w)) = chan (sess w) @ [st]" "p = self w \<Longrightarrow> elsewhere (notify p st w) = elsewhere w"
  "p \<noteq> self w \<Longrightarrow> chan (sess (notify p st w)) = chan (sess w)" "p \<noteq> self w \<Longrightarrow> elsewhere (notify p st w) = elsewhere w @ [(p, st)]"
  "self (notify p st w) = self w" "Pending (sess (notify p st w)) = Pending (sess w)" "spools (notify p st w) = spools w"
  "ctx (sess (notify p st w)) = ctx (sess w)" "dps (sess (notify p st w)) = dps (sess w)"
  "LocalPurged (sess (notify p st w)) = LocalPurged (sess w)"
  by (simp_all add: notify_def)

section \<open>Heartbeats find silent UPFs\<close>

lemma SendHeartbeatRequest_ok:
  assumes "\<And>m. \<not> SendFails E m"
  shows "\<exists>sq w'. SendHeartbeatRequest E n w = (Ok (), w') \<and> out w' = out w @ [HeartbeatRequest sq] \<and> sess w' = sess w \<and> assoc w' = assoc w"
  using assms by (simp add: SendHeartbeatRequest_def SendPfcp_def BuildPfcpHeartbeatRequest_def InsertPfcpTxn_def getSeqNumber_def Let_def)

lemma SendHeartbeatRequest_fails:
  assumes "\<And>m. SendFails E m"
  shows "\<exists>e w'. SendHeartbeatRequest E n w = (Err e, w') \<and> sess w' = sess w \<and> assoc w' = assoc w"
  using assms by (simp add: SendHeartbeatRequest_def SendPfcp_def InsertPfcpTxn_def getSeqNumber_def FetchPfcpTxn_def Let_def)

abbreviation (input) upf_status :: "nat \<Rightarrow> 'g smf \<Rightarrow> UPFStatus" where
  "upf_status u w \<equiv> UpfStatus (dupfs (dps (sess w)) ! u)"

lemma heartbeat_sent:
  assumes "\<And>m. \<not> SendFails E m" and "upf_status u w = AssociatedSetUpSuccess" and "NHeartBeat (assoc w u) < maxHeartbeatRetry"
  shows "\<exists>sq. out (heartbeat_upf E u w) = out w @ [HeartbeatRequest sq] \<and> sess (heartbeat_upf E u w) = sess w
    \<and> NHeartBeat (assoc (heartbeat_upf E u w) u) = NHeartBeat (assoc w u) + 1"
proof -
  obtain sq w' where "SendHeartbeatRequest E (NodeID (dupfs (dps (sess w)) ! u)) w = (Ok (), w')"
    "out w' = out w @ [HeartbeatRequest sq]" "sess w' = sess w" "assoc w' = assoc w"
    using SendHeartbeatRequest_ok[OF assms(1)] by blast
  then show ?thesis using assms(2,3) by (simp add: heartbeat_upf_def Let_def upd_assoc_def)
qed

lemma heartbeat_detaches:
  assumes "u < length (dupfs (dps (sess w)))" and "NHeartBeat (assoc w u) = maxHeartbeatRetry"
  shows "upf_status u (heartbeat_upf E u w) = NotAssociated" "out (heartbeat_upf E u w) = out w"
    "assoc (heartbeat_upf E u w) = assoc w" "length (dupfs (dps (sess (heartbeat_upf E u w)))) = length (dupfs (dps (sess w)))"
  using assms by (simp_all add: heartbeat_upf_def Let_def upd_smf_upf_def)

text \<open>C27: An associated UPF that answers no heartbeat is sent exactly three, one per round, and is
  detached in the fourth round; until then it stays associated.  When the heartbeats cannot even be sent,
  nothing is counted and the UPF stays associated for ever.\<close>

theorem silent_upf_detached:
  fixes E :: penv
  assumes u: "u < length (dupfs (dps (sess w)))" and st: "upf_status u w = AssociatedSetUpSuccess" and nh: "NHeartBeat (assoc w u) = 0"
  defines "after \<equiv> \<lambda>k. (heartbeat_upf E u ^^ k) w"
  shows "((\<forall>m. \<not> SendFails E m) \<longrightarrow>
      (\<forall>k \<le> 3. upf_status u (after k) = AssociatedSetUpSuccess \<and> length (out (after k)) = length (out w) + k)
      \<and> (\<forall>k > 3. upf_status u (after k) = NotAssociated \<and> length (out (after k)) = length (out w) + 3))
    \<and> ((\<forall>m. SendFails E m) \<longrightarrow> (\<forall>k. upf_status u (after k) = AssociatedSetUpSuccess))"
proof (intro conjI impI)
  assume ok: "\<forall>m. \<not> SendFails E m"
  have few: "k \<le> 3 \<Longrightarrow> sess (after k) = sess w \<and> NHeartBeat (assoc (after k) u) = of_nat k \<and> length (out (after k)) = length (out w) + k" for k
  proof (induction k)
    case (Suc k)
    then have IH: "sess (after k) = sess w" "NHeartBeat (assoc (after k) u) = of_nat k" "length (out (after k)) = length (out w) + k" by auto
    have "k \<in> {0, 1, 2}" using Suc.prems by auto
    then have lt: "NHeartBeat (assoc (after k) u) < maxHeartbeatRetry" using IH(2) by (auto simp: maxHeartbeatRetry_def)
    have "upf_status u (after k) = AssociatedSetUpSuccess" using IH(1) st by simp
    from heartbeat_sent[of E, OF _ this lt] ok obtain sq where "out (heartbeat_upf E u (after k)) = out (after k) @ [HeartbeatRequest sq]"
      "sess (heartbeat_upf E u (after k)) = sess (after k)" "NHeartBeat (assoc (heartbeat_upf E u (after k)) u) = NHeartBeat (assoc (after k) u) + 1" by blast
    then show ?case using IH by (simp add: after_def add.commute)
  qed (simp add: after_def nh)
  then show "\<forall>k \<le> 3. upf_status u (after k) = AssociatedSetUpSuccess \<and> length (out (after k)) = length (out w) + k" using st by simp
  have "upf_status u (after (4 + k)) = NotAssociated \<and> length (out (after (4 + k))) = length (out w) + 3
      \<and> NHeartBeat (assoc (after (4 + k)) u) = maxHeartbeatRetry \<and> u < length (dupfs (dps (sess (after (4 + k)))))" for k
  proof (induction k)
    case 0
    have three: "NHeartBeat (assoc (after 3) u) = maxHeartbeatRetry" "u < length (dupfs (dps (sess (after 3))))"
      using few[of 3] u by (simp_all add: maxHeartbeatRetry_def)
    have "after (4 + 0) = heartbeat_upf E u (after 3)" by (simp add: after_def eval_nat_numeral)
    then show ?case using heartbeat_detaches[OF three(2,1)] three few[of 3] by simp
  next
    case (Suc k)
    have "after (4 + Suc k) = heartbeat_upf E u (after (4 + k))" unfolding after_def add_Suc_right funpow.simps comp_apply ..
    then show ?case using heartbeat_detaches[of u "after (4 + k)" E] Suc by simp
  qed
  note late = this
  show "\<forall>k > 3. upf_status u (after k) = NotAssociated \<and> length (out (after k)) = length (out w) + 3"
  proof (intro allI impI)
    fix k :: nat assume "3 < k"
    then have "k = 4 + (k - 4)" by simp
    then show "upf_status u (after k) = NotAssociated \<and> length (out (after k)) = length (out w) + 3" using late[of "k - 4"] by simp
  qed
next
  assume fails: "\<forall>m. SendFails E m"
  have "sess (after k) = sess w \<and> assoc (after k) = assoc w" for k
  proof (induction k)
    case (Suc k)
    obtain e w' where "SendHeartbeatRequest E (NodeID (dupfs (dps (sess (after k))) ! u)) (after k) = (Err e, w')"
      "sess w' = sess (after k)" "assoc w' = assoc (after k)" using SendHeartbeatRequest_fails fails by blast
    then show ?case using Suc st nh by (simp add: after_def heartbeat_upf_def Let_def maxHeartbeatRetry_def)
  qed (simp add: after_def)
  then show "\<forall>k. upf_status u (after k) = AssociatedSetUpSuccess" using st by simp
qed

section \<open>What reaches the channel of a session\<close>

text \<open>The events other than responses for sessions and given-up requests leave the channels alone.\<close>

lemma assoc_frame [simp]:
  "sess (upd_assoc u f w) = sess w" "elsewhere (upd_assoc u f w) = elsewhere w" "self (upd_assoc u f w) = self w"
  "chan (sess (upd_smf_upf u h w)) = chan (sess w)" "elsewhere (upd_smf_upf u h w) = elsewhere w" "self (upd_smf_upf u h w) = self w"
  "chan (sess (set_dps k w)) = chan (sess w)" "elsewhere (set_dps k w) = elsewhere w" "self (set_dps k w) = self w"
  "chan (sess (snd (SendPfcp E m w))) = chan (sess w)" "elsewhere (snd (SendPfcp E m w)) = elsewhere w" "self (snd (SendPfcp E m w)) = self w"
  "sess (remove_upf E n w) = sess w" "elsewhere (remove_upf E n w) = elsewhere w"
  by (simp_all add: upd_assoc_def upd_smf_upf_def set_dps_def set_sess_def SendPfcp_def remove_upf_def Let_def)

lemma FetchPfcpTxn_frame: "FetchPfcpTxn sq w = (n, w') \<Longrightarrow> sess w' = sess w \<and> elsewhere w' = elsewhere w \<and> self w' = self w"
  by (auto simp: FetchPfcpTxn_def)

lemma SetUpfInactive_chan [simp]: "chan (sess (SetUpfInactive E n w)) = chan (sess w)"
  by (simp add: SetUpfInactive_def split: option.splits)

lemma set_sess_chan: "(\<And>s. chan (f s) = chan s) \<Longrightarrow> chan (sess (set_sess f w)) = chan (sess w)"
  by (simp add: set_sess_def)

lemma upf_address_chan: "chan (sess (snd (upf_address a w))) = chan (sess w)"
  by (cases "ReleaseUeIpAddr (ctx (sess w)) (allocators (spools w) (DNNInfo (ctx (sess w))))")
    (auto simp: upf_address_def Let_def set_sess_def split: option.splits)

lemma created_rules_chan: "chan (sess (snd (created_rules E n a cs w))) = chan (sess w)"
proof -
  obtain r w1 where u: "upf_address (FindUEIPAddress cs) w = (r, w1)" by fastforce
  then have "chan (sess w1) = chan (sess w)" using upf_address_chan[of "FindUEIPAddress cs" w] by simp
  then show ?thesis unfolding created_rules_def u
    by (cases r; cases "FindFTEID cs") (auto simp: Let_def split: option.splits)
qed

lemma store_remote_chan: "chan (sess (snd (store_remote k seid w))) = chan (sess w)"
  by (simp add: store_remote_def Let_def split: option.splits)

text \<open>At most one status is sent, and which ones.\<close>

definition sends :: "PFCPSessionResponseStatus set \<Rightarrow> 'g smf \<Rightarrow> 'g smf \<Rightarrow> bool" where
  "sends A w w' \<longleftrightarrow> (\<exists>sts. chan (sess w') = chan (sess w) @ sts \<and> length sts \<le> 1 \<and> set sts \<subseteq> A)"

lemma sends_none: "chan (sess w') = chan (sess w) \<Longrightarrow> sends A w w'"
  by (simp add: sends_def)

lemma sends_one: "chan (sess w') = chan (sess w) @ [st] \<Longrightarrow> st \<in> A \<Longrightarrow> sends A w w'"
  by (simp add: sends_def)

lemma sends_trans: "chan (sess w1) = chan (sess w) \<Longrightarrow> sends A w1 w' \<Longrightarrow> sends A w w'"
  by (simp add: sends_def)

lemma sends_mono: "sends A w w' \<Longrightarrow> A \<subseteq> B \<Longrightarrow> sends B w w'"
  by (auto simp: sends_def)

lemma sends_seq:
  assumes "chan (sess (snd m)) = chan (sess w)" and "\<And>x w'. chan (sess w') = chan (sess w) \<Longrightarrow> sends A w (snd (f x w'))"
  shows "sends A w (snd (seq m f))"
proof (cases m)
  case (Pair r w')
  then have "chan (sess w') = chan (sess w)" using assms(1) by simp
  then show ?thesis using assms(2) by (cases r) (simp_all add: Pair sends_none)
qed

lemma sends_notify: "chan (sess w') = chan (sess w) \<Longrightarrow> st \<in> A \<Longrightarrow> sends A w (notify p st w')"
  by (cases "p = self w'") (simp_all add: sends_def)

lemma first_upf_answer_sends:
  assumes "chan (sess w') = chan (sess w)"
  shows "sends {SessionEstablishSuccess, SessionEstablishFailed} w (snd (first_upf_answer E n a r cause w'))"
proof (cases a)
  case (Some x)
  have inactive: "sends {SessionEstablishSuccess, SessionEstablishFailed} w (SetUpfInactive E r (notify (self w') SessionEstablishFailed w'))"
    using assms by (simp add: sends_def)
  show ?thesis using assms
    by (cases "the_upf x (dps (sess w'))")
      (auto simp: first_upf_answer_def Some sends_none sends_notify inactive split: option.splits result.splits)
qed (simp add: first_upf_answer_def sends_none assms)

lemma establishment_sends: "sends {SessionEstablishSuccess, SessionEstablishFailed} w (snd (HandlePfcpSessionEstablishmentResponse E rsp w))"
proof (cases "rsp_seid (erSEID rsp) (erEvent rsp)")
  case None
  then show ?thesis by (simp add: HandlePfcpSessionEstablishmentResponse_def sends_none)
next
  case (Some seid)
  obtain p w1 where 1: "find_context seid w = (p, w1)" by fastforce
  obtain n w2 where 2: "FetchPfcpTxn (erSeq rsp) w1 = (n, w2)" by fastforce
  have c1: "chan (sess w1) = chan (sess w)" and c2: "chan (sess w2) = chan (sess w)"
    using find_context_frame(1)[OF 1] FetchPfcpTxn_frame[OF 2] by simp_all
  have tail: "sends {SessionEstablishSuccess, SessionEstablishFailed} w (snd (seq (created_rules E k x cs w') (\<lambda>go w.
      if \<not> go then (Ok (), w) else case nd of Some (Ok s) \<Rightarrow> first_upf_answer E k x (NewNodeID s) (erCause rsp) w | _ \<Rightarrow> (Ok (), w))))"
    if "chan (sess w') = chan (sess w)" for k x cs nd w'
    by (rule sends_seq) (auto simp: created_rules_chan that sends_none first_upf_answer_sends split: option.splits result.splits)
  have rest: "sends {SessionEstablishSuccess, SessionEstablishFailed} w (snd (case Tunnel (sess w') of
      None \<Rightarrow> (Panic ''nil pointer dereference'', w')
    | Some pool \<Rightarrow> (case GetDefaultPath (case pool of None \<Rightarrow> [] | Some q \<Rightarrow> q) of
        None \<Rightarrow> (Ok (), w')
      | Some path \<Rightarrow> seq (created_rules E k (FirstDPNode path) cs w') (\<lambda>go w.
          if \<not> go then (Ok (), w) else case nd of Some (Ok s) \<Rightarrow> first_upf_answer E k (FirstDPNode path) (NewNodeID s) (erCause rsp) w | _ \<Rightarrow> (Ok (), w)))))"
    if "chan (sess w') = chan (sess w)" for k cs nd w'
    using that tail[OF that] by (auto simp: sends_none split: option.splits)
  have remote: "chan (sess (snd (store_remote k rs w2))) = chan (sess w)" for k rs by (simp add: c2 store_remote_chan)
  show ?thesis
    unfolding HandlePfcpSessionEstablishmentResponse_def Some 1 2 option.case prod.case
    by (cases p; cases n; cases "erUPFSEID rsp"; cases "the (erUPFSEID rsp)")
      (auto simp: c1 c2 2 sends_none rest sends_seq[OF remote rest] simp del: split_paired_All)
qed

text \<open>What each event may put on the channel of the session it belongs to.\<close>

definition event_statuses :: "pfcp_event \<Rightarrow> PFCPSessionResponseStatus set" where
  "event_statuses ev = (case ev of
      EstablishmentResponseEv _ \<Rightarrow> {SessionEstablishSuccess, SessionEstablishFailed}
    | ModificationResponseEv _ _ _ \<Rightarrow> {SessionUpdateSuccess, SessionUpdateFailed}
    | DeletionResponseEv _ _ _ \<Rightarrow> {SessionReleaseSuccess}
    | SendErrorEv (SessionModificationRequest _ _ _) \<Rightarrow> {SessionUpdateTimeout}
    | SendErrorEv (SessionDeletionRequest _ _ _) \<Rightarrow> {SessionReleaseSuccess}
    | _ \<Rightarrow> {})"

lemma set_sess_answered [simp]: "chan (sess (set_sess (upf_answered E seid) w)) = chan (sess w)" "self (set_sess (upf_answered E seid) w) = self w"
  by (simp_all add: set_sess_def upf_answered_def)

lemma modification_sends:
  "sends {SessionUpdateSuccess, SessionUpdateFailed} w (snd (HandlePfcpSessionModificationResponse E hdr event cause w))"
proof (cases "rsp_seid hdr event")
  case (Some seid)
  obtain p w1 where 1: "find_context seid w = (p, w1)" by fastforce
  then show ?thesis using find_context_frame(1)[OF 1]
    by (auto simp: HandlePfcpSessionModificationResponse_def Some Let_def sends_none sends_notify split: option.splits result.splits)
qed (simp add: HandlePfcpSessionModificationResponse_def sends_none)

lemma deletion_sends: "sends {SessionReleaseSuccess} w (snd (HandlePfcpSessionDeletionResponse E hdr event cause w))"
proof (cases "rsp_seid hdr event")
  case (Some seid)
  obtain p w1 where 1: "find_context seid w = (p, w1)" by fastforce
  then show ?thesis using find_context_frame(1)[OF 1]
    by (auto simp: HandlePfcpSessionDeletionResponse_def Some Let_def sends_none sends_notify split: option.splits result.splits)
qed (simp add: HandlePfcpSessionDeletionResponse_def sends_none)

lemma remove_context_chan [simp]: "chan (sess (snd (remove_context ref w))) = chan (sess w)"
  by (simp add: remove_context_def put_pools_def split: result.splits)

lemma put_pools_chan [simp]: "chan (sess (put_pools pl w)) = chan (sess w)"
  by (simp add: put_pools_def)

lemma send_error_sends: "sends (event_statuses (SendErrorEv msg)) w (snd (HandlePfcpSendError msg w))"
proof (cases "\<exists>seid sq ies. msg = SessionEstablishmentRequest seid sq ies \<or> msg = SessionModificationRequest seid sq ies \<or> msg = SessionDeletionRequest seid sq ies")
  case True
  then obtain seid sq ies where m: "msg = SessionEstablishmentRequest seid sq ies \<or> msg = SessionModificationRequest seid sq ies \<or> msg = SessionDeletionRequest seid sq ies" by blast
  obtain p w1 where 1: "find_context seid w = (p, w1)" by fastforce
  show ?thesis using m find_context_frame(1)[OF 1]
    by (auto simp: HandlePfcpSendError_def handleSendPfcpSessEstReqError_def handleSendPfcpSessModReqError_def handleSendPfcpSessRelReqError_def
      event_statuses_def 1 Let_def sends_none sends_notify split: option.splits)
qed (auto simp: HandlePfcpSendError_def event_statuses_def sends_none split: pfcp_msg.splits)

lemma associations_chan:
  "chan (sess (HandlePfcpHeartbeatRequest E sq w)) = chan (sess w)" "chan (sess (HandlePfcpHeartbeatResponse E sq ts w)) = chan (sess w)"
  "chan (sess (HandlePfcpAssociationSetupRequest E node ts w)) = chan (sess w)"
  "chan (sess (HandlePfcpAssociationSetupResponse E rsp w)) = chan (sess w)"
  "chan (sess (HandlePfcpAssociationReleaseRequest E node w)) = chan (sess w)"
  "chan (sess (HandlePfcpAssociationReleaseResponse E cause node w)) = chan (sess w)"
  by (auto simp: HandlePfcpHeartbeatRequest_def SendHeartbeatResponse_def HandlePfcpHeartbeatResponse_def HandlePfcpAssociationSetupRequest_def
      SendPfcpAssociationSetupResponse_def HandlePfcpAssociationSetupResponse_def HandlePfcpAssociationReleaseRequest_def
      SendPfcpAssociationReleaseResponse_def HandlePfcpAssociationReleaseResponse_def FetchPfcpTxn_def Let_def
      split: option.splits result.splits)


section \<open>Waiting for several UPFs\<close>

text \<open>The address under which the session waits for the UPF of a local session identifier.\<close>

definition seid_upf :: "penv \<Rightarrow> u64 \<Rightarrow> 'g dp_state \<Rightarrow> string" where
  "seid_upf E seid d = IPString (case GetNodeIDByLocalSEID seid d of None \<Rightarrow> [] | Some n \<Rightarrow> resolve E n)"

text \<open>The identifier leads to the session, by the table alone.\<close>

definition own :: "'g smf \<Rightarrow> u64 \<Rightarrow> bool" where
  "own w seid \<longleftrightarrow> \<not> EnableDbStore (spools w) \<and> seidSMContextMap (spools w) seid = Some (self w)"

text \<open>Handlers of accepted responses: each takes its UPF off the list and reports a status when the list
  has become empty.\<close>

locale collector =
  fixes E :: penv and handle :: "u64 \<Rightarrow> 'g smf \<Rightarrow> 'g smf" and st :: PFCPSessionResponseStatus and waiting :: "'g smf \<Rightarrow> bool"
  assumes handle: "waiting w \<Longrightarrow> own w seid \<Longrightarrow> waiting (handle seid w) \<and> own (handle seid w) = own w
      \<and> dps (sess (handle seid w)) = dps (sess w) \<and> Pending (sess (handle seid w)) = removeAll (seid_upf E seid (dps (sess w))) (Pending (sess w))
      \<and> chan (sess (handle seid w)) = chan (sess w) @ (if Pending (sess (handle seid w)) = [] then [st] else [])"
begin

lemma collects:
  assumes "waiting w" "\<forall>i \<in> set seids. own w i" "distinct (map (\<lambda>i. seid_upf E i (dps (sess w))) seids)"
    "set (Pending (sess w)) = (\<lambda>i. seid_upf E i (dps (sess w))) ` set seids" "seids \<noteq> []"
  shows "chan (sess (fold handle seids w)) = chan (sess w) @ [st] \<and> Pending (sess (fold handle seids w)) = []
    \<and> (\<forall>k < length seids. chan (sess (fold handle (take k seids) w)) = chan (sess w))"
  using assms
proof (induction seids arbitrary: w)
  case (Cons i js)
  let ?w = "handle i w"
  have h: "waiting ?w" "own ?w = own w" "dps (sess ?w) = dps (sess w)" "Pending (sess ?w) = removeAll (seid_upf E i (dps (sess w))) (Pending (sess w))"
    "chan (sess ?w) = chan (sess w) @ (if Pending (sess ?w) = [] then [st] else [])"
    using handle[of w i] Cons.prems(1,2) by auto
  have pend: "set (Pending (sess ?w)) = (\<lambda>i. seid_upf E i (dps (sess w))) ` set js"
    using h(4) Cons.prems(3,4) by auto
  show ?case
  proof (cases js)
    case Nil
    then have "Pending (sess ?w) = []" using pend by simp
    then show ?thesis using h(5) by (simp add: Nil)
  next
    case (Cons j ks)
    then have "chan (sess ?w) = chan (sess w)" using h(5) pend by auto
    moreover have "chan (sess (fold handle js ?w)) = chan (sess ?w) @ [st] \<and> Pending (sess (fold handle js ?w)) = []
        \<and> (\<forall>k < length js. chan (sess (fold handle (take k js) ?w)) = chan (sess ?w))"
      using Cons.IH[of ?w] Cons.prems h pend Cons by simp
    ultimately show ?thesis by (auto simp: take_Cons split: nat.splits)
  qed
qed simp

end

lemma answered_upf: "upf_answered E seid s = s\<lparr>Pending := removeAll (seid_upf E seid (dps s)) (Pending s)\<rparr>"
  by (simp add: upf_answered_def seid_upf_def)

lemma own_find: "own w seid \<Longrightarrow> find_context seid w = (Some (self w), put_pools (full_pools w) w)"
  by (simp add: own_def find_context_plain)

lemma own_frame [simp]:
  "own (put_pools (full_pools w) w) = own w" "own (w\<lparr>sess := x\<rparr>) = own w" "own (notify p st w) = own w"
  by (simp_all add: own_def fun_eq_iff put_full_pools notify_def)

interpretation modify: collector E "\<lambda>seid w. snd (HandlePfcpSessionModificationResponse E seid (Some seid) (Some (Ok (CauseRequestAccepted E))) w)"
    SessionUpdateSuccess "\<lambda>w. State (ctx (sess w)) = SmStatePfcpModify" for E
proof (unfold_locales, goal_cases)
  case (1 w seid)
  then show ?case
    by (simp add: HandlePfcpSessionModificationResponse_def rsp_seid_def own_find put_full_pools Let_def set_sess_def answered_upf)
qed

interpretation release: collector E "\<lambda>seid w. snd (HandlePfcpSessionDeletionResponse E seid (Some seid) (Some (Ok (CauseRequestAccepted E))) w)"
    SessionReleaseSuccess "\<lambda>w. State (ctx (sess w)) = SmStatePfcpRelease \<and> \<not> LocalPurged (sess w)" for E
proof (unfold_locales, goal_cases)
  case (1 w seid)
  then show ?case
    by (simp add: HandlePfcpSessionDeletionResponse_def rsp_seid_def own_find put_full_pools Let_def set_sess_def answered_upf)
qed

text \<open>C26: When every UPF that a session waits for accepts, a modification (a release that was not purged
  locally) completes: exactly one success is reported, after the last answer and not before, and nothing is
  awaited any more.\<close>

theorem all_accepted_completes:
  fixes E :: penv and w :: "'g smf"
  defines "accept \<equiv> \<lambda>ev seids. fold (\<lambda>i w. snd (Dispatch E (ev i (Some i) (Some (Ok (CauseRequestAccepted E)))) w)) seids w"
  assumes "\<forall>i \<in> set seids. own w i" and "distinct (map (\<lambda>i. seid_upf E i (dps (sess w))) seids)" and "seids \<noteq> []"
    and "set (Pending (sess w)) = (\<lambda>i. seid_upf E i (dps (sess w))) ` set seids"
  shows "(State (ctx (sess w)) = SmStatePfcpModify \<longrightarrow>
      chan (sess (accept ModificationResponseEv seids)) = chan (sess w) @ [SessionUpdateSuccess] \<and> Pending (sess (accept ModificationResponseEv seids)) = []
      \<and> (\<forall>k < length seids. chan (sess (accept ModificationResponseEv (take k seids))) = chan (sess w)))
    \<and> (State (ctx (sess w)) = SmStatePfcpRelease \<and> \<not> LocalPurged (sess w) \<longrightarrow>
      chan (sess (accept DeletionResponseEv seids)) = chan (sess w) @ [SessionReleaseSuccess] \<and> Pending (sess (accept DeletionResponseEv seids)) = []
      \<and> (\<forall>k < length seids. chan (sess (accept DeletionResponseEv (take k seids))) = chan (sess w)))"
  using assms(2-) modify.collects[of w seids E] release.collects[of w seids E]
  by (simp add: accept_def Dispatch_def)

section \<open>Time-outs that get lost\<close>

lemma seq_OkE:
  assumes "seq m f = (Ok y, s')" obtains x s where "m = (Ok x, s)" "f x s = (Ok y, s')"
  using assms by (cases "fst m"; cases m) auto

lemma modification_message:
  assumes "BuildPfcpSessionModificationRequest sq lseid rseid ip m s = (Ok msg, s')"
  shows "\<exists>ies. msg = SessionModificationRequest rseid sq ies"
  using assms unfolding BuildPfcpSessionModificationRequest_def by (auto elim!: seq_OkE)

lemma modification_header:
  assumes "SendPfcpSessionModificationRequest E n m w = (Ok (), w')" and "pfcp_context E n w = Some pc"
  shows "(\<exists>sq ies. out w' = out w @ [SessionModificationRequest (RemoteSEID pc) sq ies]) \<and> spools w' = spools w \<and> self w' = self w
    \<and> chan (sess w') = chan (sess w) \<and> elsewhere w' = elsewhere w"
proof -
  have ctx: "pfcp_context E n (w\<lparr>pseq := p\<rparr>) = Some pc" for p using assms(2) by (simp add: pfcp_context_def)
  from assms(1) ctx show ?thesis
    by (auto simp: SendPfcpSessionModificationRequest_def getSeqNumber_def Let_def on_dps_def SendPfcp_def InsertPfcpTxn_def
        split: if_splits prod.splits elim!: seq_OkE) (blast dest: modification_message)
qed

text \<open>A modification request carries the session identifier of the UPF in its header, and when the
  transport gives it up that identifier is looked up among the SMF's own: the time-out goes to whichever
  session happens to have it, or to nobody, and not to the session that waits for the answer.\<close>

lemma timeout_follows_remote_seid:
  fixes w :: "'g smf"
  assumes "SendPfcpSessionModificationRequest E n m w = (Ok (), w1)" and "pfcp_context E n w = Some pc" and "\<not> EnableDbStore (spools w)"
  defines "w2 \<equiv> snd (Dispatch E (SendErrorEv (last (out w1))) w1)"
  shows "case seidSMContextMap (spools w) (RemoteSEID pc) of
      None \<Rightarrow> chan (sess w2) = chan (sess w) \<and> elsewhere w2 = elsewhere w
    | Some p \<Rightarrow> if p = self w then chan (sess w2) = chan (sess w) @ [SessionUpdateTimeout]
        else chan (sess w2) = chan (sess w) \<and> elsewhere w2 = elsewhere w @ [(p, SessionUpdateTimeout)]"
proof -
  from modification_header[OF assms(1,2)] obtain sq ies where
    h: "out w1 = out w @ [SessionModificationRequest (RemoteSEID pc) sq ies]" "spools w1 = spools w" "self w1 = self w"
      "chan (sess w1) = chan (sess w)" "elsewhere w1 = elsewhere w" by blast
  then show ?thesis using assms(3)
    by (auto simp: w2_def Dispatch_def HandlePfcpSendError_def handleSendPfcpSessModReqError_def find_context_plain put_full_pools split: option.splits)
qed

section \<open>A session with two UPFs\<close>

definition sample_env :: penv where
  "sample_env = \<lparr>resolve = NodeIdValue, CPNodeID = NewNodeID ''10.0.0.9'', SMF_COUNT = None, SendFails = (\<lambda>_. False),
     CauseRequestAccepted = 1, CauseRequestRejected = 64, CauseNoEstablishedPFCPAssociation = 72\<rparr>"

definition pfcp_of :: "string \<Rightarrow> u64 \<Rightarrow> u64 \<Rightarrow> pfcp_session" where
  "pfcp_of n l r = \<lparr>SessPDRs = Map.empty, SessNodeID = NewNodeID n, LocalSEID = l, RemoteSEID = r\<rparr>"

text \<open>The first UPF has assigned an identifier that another session of the SMF has as its own.\<close>

definition two_upf_smf :: "SMContextState \<Rightarrow> id_pool smf" where
  "two_upf_smf st = \<lparr>spools = sample_pools\<lparr>seidSMContextMap := [1 \<mapsto> 0, 2 \<mapsto> 0, 11 \<mapsto> 5]\<rparr>, self = 0,
     sess = sample_session\<lparr>ctx := sample_context\<lparr>State := st\<rparr>,
       dps := sample_dps\<lparr>dupfs := [sample_upf\<lparr>UpfStatus := AssociatedSetUpSuccess\<rparr>],
         sessions := [(''10.0.0.1'', pfcp_of ''10.0.0.1'' 1 11), (''10.0.0.2'', pfcp_of ''10.0.0.2'' 2 12)]\<rparr>,
       Pending := [''10.0.0.1'', ''10.0.0.2'']\<rparr>,
     upfTab = [], assoc = (\<lambda>_. \<lparr>NHeartBeat = 0, RecoveryTimeStamp = 0, UPFunctionFeatures = None\<rparr>), PfcpTxns = Map.empty, pseq = 0, out = [],
     elsewhere = [], n1n2 = []\<rparr>"

lemma sample_addresses:
  "IPString (resolve sample_env (NewNodeID ''10.0.0.1'')) = ''10.0.0.1''" "IPString (resolve sample_env (NewNodeID ''10.0.0.2'')) = ''10.0.0.2''"
  by (simp_all add: sample_env_def NewNodeID_def go_simps IPString_def nat_digits.simps char_of_def bit_0)

theorem silent_upf_detached_witness:
  "upf_status 0 ((heartbeat_upf sample_env 0 ^^ 3) (two_upf_smf SmStateActive)) = AssociatedSetUpSuccess
   \<and> upf_status 0 ((heartbeat_upf sample_env 0 ^^ 4) (two_upf_smf SmStateActive)) = NotAssociated"
  using silent_upf_detached[of 0 "two_upf_smf SmStateActive" sample_env] by (simp add: two_upf_smf_def sample_env_def)

lemma two_upf_seids:
  "seid_upf sample_env 1 (dps (sess (two_upf_smf st))) = ''10.0.0.1''" "seid_upf sample_env 2 (dps (sess (two_upf_smf st))) = ''10.0.0.2''"
  by (simp_all add: seid_upf_def two_upf_smf_def GetNodeIDByLocalSEID_def pfcp_of_def sample_addresses)

theorem all_accepted_completes_witness:
  "chan (sess (fold (\<lambda>i w. snd (Dispatch sample_env (ModificationResponseEv i (Some i) (Some (Ok 1))) w)) [2, 1] (two_upf_smf SmStatePfcpModify)))
     = [SessionUpdateSuccess]"
proof -
  have "own (two_upf_smf SmStatePfcpModify) 1" "own (two_upf_smf SmStatePfcpModify) 2"
    by (simp_all add: own_def two_upf_smf_def sample_pools_def)
  moreover have "Pending (sess (two_upf_smf SmStatePfcpModify)) = [''10.0.0.1'', ''10.0.0.2'']" "chan (sess (two_upf_smf SmStatePfcpModify)) = []"
    "State (ctx (sess (two_upf_smf SmStatePfcpModify))) = SmStatePfcpModify" "CauseRequestAccepted sample_env = 1"
    by (simp_all add: two_upf_smf_def sample_session_def sample_env_def)
  ultimately show ?thesis
    using all_accepted_completes[of "[2, 1]" "two_upf_smf SmStatePfcpModify" sample_env] by (simp add: two_upf_seids insert_commute)
qed

theorem timeout_follows_remote_seid_witness:
  "\<exists>w1. SendPfcpSessionModificationRequest sample_env (NewNodeID ''10.0.0.1'') no_modification (two_upf_smf SmStatePfcpModify) = (Ok (), w1)
     \<and> chan (sess (snd (Dispatch sample_env (SendErrorEv (last (out w1))) w1))) = []
     \<and> elsewhere (snd (Dispatch sample_env (SendErrorEv (last (out w1))) w1)) = [(5, SessionUpdateTimeout)]"
proof -
  let ?w = "two_upf_smf SmStatePfcpModify"
  have pc: "pfcp_context sample_env (NewNodeID ''10.0.0.1'') (?w\<lparr>pseq := q\<rparr>) = Some (pfcp_of ''10.0.0.1'' 1 11)" for q
    by (simp add: pfcp_context_def sample_addresses two_upf_smf_def)
  have "?w\<lparr>pseq := pseq ?w\<rparr> = ?w" by simp
  then have pc0: "pfcp_context sample_env (NewNodeID ''10.0.0.1'') ?w = Some (pfcp_of ''10.0.0.1'' 1 11)" using pc by metis
  obtain w1 where run: "SendPfcpSessionModificationRequest sample_env (NewNodeID ''10.0.0.1'') no_modification ?w = (Ok (), w1)"
    by (simp add: SendPfcpSessionModificationRequest_def getSeqNumber_def Let_def pc logged_rules_def no_modification_def on_dps_def
        BuildPfcpSessionModificationRequest_def SendPfcp_def) (simp add: sample_env_def)
  have tab: "seidSMContextMap (spools ?w) (RemoteSEID (pfcp_of ''10.0.0.1'' 1 11)) = Some 5" "self ?w = 0" "\<not> EnableDbStore (spools ?w)"
    "chan (sess ?w) = []" "elsewhere ?w = []"
    by (simp_all add: two_upf_smf_def pfcp_of_def sample_pools_def sample_session_def)
  show ?thesis using timeout_follows_remote_seid[OF run pc0 tab(3)] run tab by simp
qed

end
