(* ===== verification/Session_Update.thy ===== *)
theory Session_Update
  imports Pfcp_Session
begin

text \<open>
  The procedures that change a session and release it: \<^verbatim>\<open>src/producer/n1n2_data_handler.go\<close>,
  \<^verbatim>\<open>src/producer/sm_pfcp_handling.go\<close> and the update, release and transfer handlers of
  \<^verbatim>\<open>src/producer/pdu_session.go\<close>.  A procedure that waits for the UPFs reads the channel of its session: while
  it waits the PFCP events of \<^verbatim>\<open>arrivals\<close> are dispatched in their order, and \<^verbatim>\<open>None\<close> is a procedure that
  never returns because the events run out before a status arrives (or because a path is longer than
  \<^verbatim>\<open>bound\<close> nodes).
\<close>

section \<open>Requests, responses and state\<close>

text \<open>A missing container is the empty list, a missing name the empty string.\<close>

record update_request =
  reqN1 :: "byte list option"
  reqN2 :: "byte list"
  reqUpCnxState :: string
  reqHoState :: string
  reqCause :: string
  reqN2SmInfoType :: string

record update_response =
  rspN1SmMsg :: string
  rspN1 :: "byte list"
  rspN2SmInfo :: string
  rspN2SmInfoType :: string
  rspN2 :: "byte list"
  rspUpCnxState :: string
  rspHoState :: string

definition new_response :: update_response where
  "new_response = \<lparr>rspN1SmMsg = '''', rspN1 = [], rspN2SmInfo = '''', rspN2SmInfoType = '''', rspN2 = [], rspUpCnxState = '''', rspHoState = ''''\<rparr>"

text \<open>Problem details: title, status, detail and cause.\<close>

datatype problem = N1SmError | ProblemDetails string int string string

datatype http_body =
    NoBody
  | Updated update_response
  | UpdateError problem string "byte list" string string "byte list"
  | CreateError "int \<times> string" "byte list"

record http_response =
  Status :: int
  Body :: http_body

text \<open>What a procedure works on: the SMF, the PFCP events still to come, the response, the actions and the
  lists of rules it collects, and the response of its transaction.\<close>

record 'g procedure =
  world :: "'g smf"
  arrivals :: "pfcp_event list"
  rsp :: update_response
  sendPfcpModify :: bool
  sendPfcpDelete :: bool
  pfcpParam :: modification
  httpRsp :: "http_response option"

text \<open>The libraries, the identifier generators, the topology and the bound on the nodes of a path.\<close>

record ('p, 'g) lib =
  pfcp :: penv
  ngap :: ngap_lib
  nas :: nas_lib
  net :: "string \<Rightarrow> ip option"
  gsm :: "'p gsm_lib"
  config :: gsm_config
  gens :: "'g idgen"
  topology :: "'g upi"
  bound :: nat

section \<open>Steps\<close>

definition andthen :: "('a result \<times> 's) option \<Rightarrow> ('a \<Rightarrow> 's \<Rightarrow> ('b result \<times> 's) option) \<Rightarrow> ('b result \<times> 's) option" where
  "andthen m f = (case m of
      None \<Rightarrow> None | Some (Ok x, s) \<Rightarrow> f x s | Some (Err e, s) \<Rightarrow> Some (Err e, s) | Some (Panic e, s) \<Rightarrow> Some (Panic e, s))"

definition finish :: "'s \<Rightarrow> (unit result \<times> 's) option" where
  "finish s = Some (Ok (), s)"

text \<open>A step on the SMF; an error that the caller only logs; a step on the session.\<close>

definition on_world :: "('g smf \<Rightarrow> 'a result \<times> 'g smf) \<Rightarrow> 'g procedure \<Rightarrow> ('a result \<times> 'g procedure) option" where
  "on_world f s = (case f (world s) of (r, w) \<Rightarrow> Some (r, s\<lparr>world := w\<rparr>))"

definition log_error :: "('g smf \<Rightarrow> unit result \<times> 'g smf) \<Rightarrow> 'g procedure \<Rightarrow> (unit result \<times> 'g procedure) option" where
  "log_error f = on_world (\<lambda>w. logged (f w))"

definition on_sess :: "('g session \<Rightarrow> 'a result \<times> 'g session) \<Rightarrow> 'g smf \<Rightarrow> 'a result \<times> 'g smf" where
  "on_sess f w = (case f (sess w) of (r, x) \<Rightarrow> (r, w\<lparr>sess := x\<rparr>))"

definition change :: "('g session \<Rightarrow> 'g session) \<Rightarrow> 'g procedure \<Rightarrow> 'g procedure" where
  "change f s = s\<lparr>world := set_sess f (world s)\<rparr>"

definition to_state :: "SMContextState \<Rightarrow> 'g procedure \<Rightarrow> 'g procedure" where
  "to_state st = change (\<lambda>x. x\<lparr>ctx := ChangeState st (ctx x)\<rparr>)"

definition respond :: "(update_response \<Rightarrow> update_response) \<Rightarrow> 'g procedure \<Rightarrow> 'g procedure" where
  "respond f s = s\<lparr>rsp := f (rsp s)\<rparr>"

text \<open>A container that was built, or nothing when building failed.\<close>

definition built :: "byte list result \<Rightarrow> 's \<Rightarrow> (byte list option \<Rightarrow> 's \<Rightarrow> ('b result \<times> 's) option) \<Rightarrow> ('b result \<times> 's) option" where
  "built r s f = (case r of Ok b \<Rightarrow> f (Some b) s | Err _ \<Rightarrow> f None s | Panic e \<Rightarrow> Some (Panic e, s))"

definition buf :: "byte list option \<Rightarrow> byte list" where
  "buf b = (case b of None \<Rightarrow> [] | Some x \<Rightarrow> x)"

section \<open>Waiting for the UPFs\<close>

fun receive :: "penv \<Rightarrow> pfcp_event list \<Rightarrow> 'g smf \<Rightarrow> (PFCPSessionResponseStatus result \<times> pfcp_event list \<times> 'g smf) option" where
  "receive E evs w = (case chan (sess w) of
      st # sts \<Rightarrow> Some (Ok st, evs, set_sess (\<lambda>x. x\<lparr>chan := sts\<rparr>) w)
    | [] \<Rightarrow>
        (case evs of
           [] \<Rightarrow> None
         | ev # evs \<Rightarrow> (case Dispatch E ev w of
             (Panic e, w) \<Rightarrow> Some (Panic e, evs, w)
           | (_, w) \<Rightarrow> receive E evs w)))"

declare receive.simps [simp del]

definition wait_status :: "penv \<Rightarrow> 'g procedure \<Rightarrow> (PFCPSessionResponseStatus result \<times> 'g procedure) option" where
  "wait_status E s = map_option (\<lambda>(r, evs, w). (r, s\<lparr>world := w, arrivals := evs\<rparr>)) (receive E (arrivals s) (world s))"

text \<open>The request for the UPF of the default path, whose answer is awaited even when it could not be sent.\<close>

definition SendPfcpSessionModifyReq :: "('p, 'g) lib \<Rightarrow> 'g procedure \<Rightarrow> (unit result \<times> 'g procedure) option" where
  "SendPfcpSessionModifyReq L s = (case an_upf (sess (world s)) of
      Ok (_, u) \<Rightarrow>
        andthen (log_error (SendPfcpSessionModificationRequest (pfcp L) (NodeID u) (pfcpParam s)) s) (\<lambda>_ s.
        andthen (wait_status (pfcp L) s) (\<lambda>st s.
        if st = SessionUpdateFailed \<or> st = SessionUpdateTimeout then Some (Err ''pfcp modification failure'', s) else finish s))
    | Err e \<Rightarrow> Some (Err e, s)
    | Panic e \<Rightarrow> Some (Panic e, s))"

fun delete_sessions :: "penv \<Rightarrow> node_id list \<Rightarrow> 'g smf \<Rightarrow> unit result \<times> 'g smf" where
  "delete_sessions E [] w = (Ok (), w)"
| "delete_sessions E (n # ns) w = seq (logged (SendPfcpSessionDeletionRequest E n w)) (\<lambda>_. delete_sessions E ns)"

text \<open>\<^verbatim>\<open>releaseTunnel\<close> with the requests it sends; \<^verbatim>\<open>Ok False\<close> when there is no tunnel.\<close>

definition release_tunnel :: "('p, 'g) lib \<Rightarrow> 'g procedure \<Rightarrow> (bool result \<times> 'g procedure) option" where
  "release_tunnel L s = (let w = world s; x = sess w in
     case releaseTunnel (gens L) (resolve (pfcp L)) (bound L) (map_option pool_paths (Tunnel x)) (topology L) (dps x) of
       None \<Rightarrow> None
     | Some (Ok None, d) \<Rightarrow> Some (Ok False, change (\<lambda>x. x\<lparr>dps := d\<rparr>) s)
     | Some (Ok (Some rel), d) \<Rightarrow>
         andthen (on_world (delete_sessions (pfcp L) (DeletionRequests rel)) (change (\<lambda>x. x\<lparr>dps := d, Pending := PendingUPF rel\<rparr>) s)) (\<lambda>_ s.
         Some (Ok True, change (\<lambda>x. x\<lparr>Tunnel := None\<rparr>) s))
     | Some (Err e, d) \<Rightarrow> Some (Err e, change (\<lambda>x. x\<lparr>dps := d\<rparr>) s)
     | Some (Panic e, d) \<Rightarrow> Some (Panic e, change (\<lambda>x. x\<lparr>dps := d\<rparr>) s))"

definition SendPfcpSessionReleaseReq :: "('p, 'g) lib \<Rightarrow> 'g procedure \<Rightarrow> (unit result \<times> 'g procedure) option" where
  "SendPfcpSessionReleaseReq L s = andthen (release_tunnel L s) (\<lambda>_ s.
     andthen (wait_status (pfcp L) s) (\<lambda>st s.
     if st = SessionReleaseTimeout then Some (Err ''pfcp session release timeout'', s)
     else if st = SessionReleaseFailed then Some (Err ''pfcp session release failed'', s) else finish s))"

section \<open>Marking the downlink rules\<close>

record 'g marks =
  mdps :: "'g dp_state"
  mPending :: "string list"
  mPdrs :: "nat list"
  mFars :: "nat option list"

definition only_forward :: apply_action where
  "only_forward = \<lparr>Dupl = False, Nocp = False, Buff = False, Forw = True, Drop = False\<rparr>"

definition only_drop :: apply_action where
  "only_drop = \<lparr>Dupl = False, Nocp = False, Buff = False, Forw = False, Drop = True\<rparr>"

definition access_parameters :: "string \<Rightarrow> forwarding_parameters" where
  "access_parameters dnn = \<lparr>OuterHeaderCreation = None, PFCPSMReqFlags = None, FwdNetworkInstance = bytes_of dnn,
     DestinationInterface = DestinationInterfaceAccess\<rparr>"

text \<open>The address of the UPF of a node is added to those awaited; a node without UPF panics.\<close>

definition await_node :: "(node_id \<Rightarrow> ip) \<Rightarrow> nat \<Rightarrow> 'g marks \<Rightarrow> unit result \<times> 'g marks" where
  "await_node rs n m = (case the_upf n (mdps m) of
      Ok (_, u) \<Rightarrow> (Ok (), m\<lparr>mPending := List.insert (node_key rs u) (mPending m)\<rparr>)
    | Err e \<Rightarrow> (Err e, m) | Panic e \<Rightarrow> (Panic e, m))"

definition touch_far :: "(far \<Rightarrow> far) \<Rightarrow> nat \<Rightarrow> 'g dp_state \<Rightarrow> 'g dp_state" where
  "touch_far h f = set_far f (\<lambda>y. (h y)\<lparr>FarState := RULE_UPDATE\<rparr>)"

definition touch_pdr :: "nat \<Rightarrow> 'g dp_state \<Rightarrow> 'g dp_state" where
  "touch_pdr p = set_pdr p (\<lambda>x. x\<lparr>PdrState := RULE_UPDATE\<rparr>)"

text \<open>The bodies of the loops over the downlink rules of a node: forward with new parameters, buffer, forward
  with the parameters there are, collect only, and drop.\<close>

definition mark_forward :: "(node_id \<Rightarrow> ip) \<Rightarrow> string \<Rightarrow> nat \<Rightarrow> nat \<Rightarrow> 'g marks \<Rightarrow> unit result \<times> 'g marks" where
  "mark_forward rs dnn n p m = (case far_of p (mdps m) of
      None \<Rightarrow> (Panic ''nil pointer dereference'', m)
    | Some (f, _) \<Rightarrow> await_node rs n (m\<lparr>
        mdps := touch_pdr p (touch_far (\<lambda>y. y\<lparr>ApplyAction := only_forward, ForwardingParameters := Some (access_parameters dnn)\<rparr>) f (mdps m)),
        mPdrs := mPdrs m @ [p], mFars := mFars m @ [Some f]\<rparr>))"

definition mark_buffer :: "(node_id \<Rightarrow> ip) \<Rightarrow> nat \<Rightarrow> nat \<Rightarrow> 'g marks \<Rightarrow> unit result \<times> 'g marks" where
  "mark_buffer rs n p m = (if pdrs (rules (mdps m)) p = None then (Ok (), m) else
     case far_of p (mdps m) of
       None \<Rightarrow> (Panic ''nil pointer dereference'', m)
     | Some (f, _) \<Rightarrow> seq (await_node rs n (m\<lparr>mdps := touch_far (\<lambda>y. y\<lparr>
             ApplyAction := (ApplyAction y)\<lparr>Forw := False, Buff := True, Nocp := True\<rparr>,
             ForwardingParameters := map_option (\<lambda>w. w\<lparr>OuterHeaderCreation := None\<rparr>) (ForwardingParameters y)\<rparr>) f (mdps m)\<rparr>))
         (\<lambda>_ m. (Ok (), m\<lparr>mFars := mFars m @ [Some f]\<rparr>)))"

definition mark_complete :: "(node_id \<Rightarrow> ip) \<Rightarrow> nat \<Rightarrow> nat \<Rightarrow> 'g marks \<Rightarrow> unit result \<times> 'g marks" where
  "mark_complete rs n p m = (case far_of p (mdps m) of
      None \<Rightarrow> (Ok (), m)
    | Some (f, _) \<Rightarrow> await_node rs n (m\<lparr>
        mdps := touch_pdr p (touch_far (\<lambda>y. y\<lparr>ApplyAction := only_forward\<rparr>) f (mdps m)),
        mPdrs := mPdrs m @ [p], mFars := mFars m @ [Some f]\<rparr>))"

definition mark_switch :: "(node_id \<Rightarrow> ip) \<Rightarrow> nat \<Rightarrow> nat \<Rightarrow> 'g marks \<Rightarrow> unit result \<times> 'g marks" where
  "mark_switch rs n p m = (case pdrs (rules (mdps m)) p of
      None \<Rightarrow> (Panic ''nil pointer dereference'', m)
    | Some x \<Rightarrow> await_node rs n (m\<lparr>mPdrs := mPdrs m @ [p], mFars := mFars m @ [FAR x]\<rparr>))"

definition mark_drop :: "(node_id \<Rightarrow> ip) \<Rightarrow> nat \<Rightarrow> nat \<Rightarrow> 'g marks \<Rightarrow> unit result \<times> 'g marks" where
  "mark_drop rs n p m = (if pdrs (rules (mdps m)) p = None then (Err ''AN Release Error'', m) else
     case far_of p (mdps m) of
       None \<Rightarrow> (Panic ''nil pointer dereference'', m)
     | Some (f, _) \<Rightarrow> seq (await_node rs n (m\<lparr>mdps := touch_far (\<lambda>y. y\<lparr>ApplyAction := only_drop\<rparr>) f (mdps m)\<rparr>))
         (\<lambda>_ m. (Ok (), m\<lparr>mFars := mFars m @ [Some f]\<rparr>)))"

definition mark_paths :: "(nat \<Rightarrow> nat \<Rightarrow> 'g marks \<Rightarrow> unit result \<times> 'g marks) \<Rightarrow> (data_path \<Rightarrow> bool) \<Rightarrow> data_path list \<Rightarrow>
    'g marks \<Rightarrow> unit result \<times> 'g marks" where
  "mark_paths mark sel = each_path sel (\<lambda>n m. each_pdr (mark n) (tunnel_pdrs DL n (mdps m)) m)"

text \<open>The loop of a procedure starts with no UPF awaited and gives the rules it collected.\<close>

definition mark_downlink :: "(nat \<Rightarrow> nat \<Rightarrow> 'g marks \<Rightarrow> unit result \<times> 'g marks) \<Rightarrow> (data_path \<Rightarrow> bool) \<Rightarrow> data_path list \<Rightarrow>
    'g procedure \<Rightarrow> ((nat list \<times> nat option list) result \<times> 'g procedure) option" where
  "mark_downlink mark sel ds s =
     (case mark_paths mark sel ds \<lparr>mdps = dps (sess (world s)), mPending = [], mPdrs = [], mFars = []\<rparr> of (r, m) \<Rightarrow>
        Some (bind_res r (\<lambda>_. Ok (mPdrs m, mFars m)), change (\<lambda>x. x\<lparr>dps := mdps m, Pending := mPending m\<rparr>) s))"

definition add_param :: "nat list \<times> nat option list \<Rightarrow> 'g procedure \<Rightarrow> 'g procedure" where
  "add_param rs s = s\<lparr>pfcpParam := (pfcpParam s)\<lparr>pdrList := pdrList (pfcpParam s) @ fst rs, farList := farList (pfcpParam s) @ snd rs\<rparr>\<rparr>"

text \<open>The end of a change that needs the UPFs.\<close>

definition ask_upfs :: "nat list \<times> nat option list \<Rightarrow> 'g procedure \<Rightarrow> 'g procedure" where
  "ask_upfs rs s = to_state SmStatePfcpModify ((add_param rs s)\<lparr>sendPfcpModify := True\<rparr>)"

definition dnn_of :: "'g procedure \<Rightarrow> string" where
  "dnn_of s = Dnn (ctx (sess (world s)))"

abbreviation (input) session_of :: "'g procedure \<Rightarrow> 'g session" where
  "session_of s \<equiv> sess (world s)"

definition PDU_SESS_REL_CMD :: string where
  "PDU_SESS_REL_CMD = ''PDUSessionReleaseCommand''"

section \<open>Messages of the UE\<close>

definition makePduCtxtModifyErrRsp :: "('p, 'g) lib \<Rightarrow> string \<Rightarrow> 'g procedure \<Rightarrow> (http_response result \<times> 'g procedure) option" where
  "makePduCtxtModifyErrRsp L errStr s =
     built (BuildGSMPDUSessionReleaseCommand (gsm L) (session_of s)) s (\<lambda>n1 s.
     built (BuildPDUSessionResourceReleaseCommandTransfer (ngap L)) s (\<lambda>n2 s.
     Some (Ok \<lparr>Status = 503, Body = UpdateError (ProblemDetails errStr 500 errStr ''UPF_NOT_RESPONDING'')
       PDU_SESS_REL_CMD (buf n1) PDU_SESS_REL_CMD ''PDU_RES_REL_CMD'' (buf n2)\<rparr>, s)))"

definition GeneratePDUSessionEstablishmentReject :: "'p gsm_lib \<Rightarrow> string \<Rightarrow> 'g session \<Rightarrow> http_response result" where
  "GeneratePDUSessionEstablishmentReject G cause x = (case BuildGSMPDUSessionEstablishmentReject G x (cause_octet G cause) of
      Panic e \<Rightarrow> Panic e
    | r \<Rightarrow> (case ErrorType cause of
        None \<Rightarrow> Panic ''nil pointer dereference''
      | Some (st, c) \<Rightarrow> Ok \<lparr>Status = st, Body = CreateError (st, c) (case r of Ok b \<Rightarrow> b | _ \<Rightarrow> [])\<rparr>))"

text \<open>The address of the UE goes back to the allocator of its data network.\<close>

definition release_request :: "u8 \<Rightarrow> 'g smf \<Rightarrow> unit result \<times> 'g smf" where
  "release_request pti w = (let pl = spools w; dnn = DNNInfo (ctx (sess w)) in
     case HandlePDUSessionReleaseRequest pti (sess w, allocators pl dnn) of
       (r, x, a) \<Rightarrow> (r, w\<lparr>spools := pl\<lparr>allocators := (allocators pl)(dnn := a)\<rparr>, sess := x\<rparr>))"

definition n1_release :: "('p, 'g) lib \<Rightarrow> u8 \<Rightarrow> u8 \<Rightarrow> 'g procedure \<Rightarrow> (unit result \<times> 'g procedure) option" where
  "n1_release L sid pti s =
     (if uint sid = PDUSessionID (ctx (session_of s))
      then andthen (on_world (release_request pti) s) (\<lambda>_ s.
           built (BuildGSMPDUSessionReleaseCommand (gsm L) (session_of s)) s (\<lambda>n1 s.
           let s = respond (\<lambda>r. r\<lparr>rspN1 := (case n1 of None \<Rightarrow> rspN1 r | Some b \<Rightarrow> b), rspN1SmMsg := ''PDUSessionReleaseCommand'',
                 rspN2SmInfo := ''PDUResourceReleaseCommand'', rspN2SmInfoType := ''PDU_RES_REL_CMD''\<rparr>) s in
           built (BuildPDUSessionResourceReleaseCommandTransfer (ngap L)) s (\<lambda>n2 s.
           let s = respond (\<lambda>r. r\<lparr>rspN2 := (case n2 of None \<Rightarrow> rspN2 r | Some b \<Rightarrow> b)\<rparr>) s;
               s = (if Tunnel (session_of s) \<noteq> None then (to_state SmStatePfcpModify s)\<lparr>sendPfcpDelete := True\<rparr>
                    else to_state SmStateModify s)
           in finish (change (\<lambda>x. x\<lparr>ctx := ReleasePduSessionID (ctx x)\<rparr>) s))))
      else built (BuildGSMPDUSessionReleaseRejectWithCause (gsm L) (session_of s) (uint sid) ''InvalidPDUSessionIdentity'') s (\<lambda>n1 s.
           finish (to_state SmStateModify (respond (\<lambda>r. r\<lparr>rspN1 := (case n1 of None \<Rightarrow> rspN1 r | Some b \<Rightarrow> b),
             rspN1SmMsg := ''PDUSessionReleaseReject''\<rparr>) s))))"

definition n1_establishment :: "('p, 'g) lib \<Rightarrow> u8 \<Rightarrow> 'g procedure \<Rightarrow> (unit result \<times> 'g procedure) option" where
  "n1_establishment L sid s = (let c = ctx (session_of s) in
     if uint sid = PDUSessionID c \<and> PDUSessionID c \<noteq> 0
     then let s = to_state SmStateModify s in
       (case Tunnel (session_of s) of
          None \<Rightarrow> Some (Panic ''nil pointer dereference'', change (\<lambda>x. x\<lparr>Pending := []\<rparr>) s)
        | Some pool \<Rightarrow>
            andthen (mark_downlink (mark_forward (resolve (pfcp L)) (dnn_of s)) Activated (pool_paths pool) s) (\<lambda>rs s.
            (case SendPfcpSessionModifyReq L (ask_upfs rs s) of
               Some (Err e, s) \<Rightarrow> andthen (makePduCtxtModifyErrRsp L e s) (\<lambda>h s. Some (Err e, s\<lparr>httpRsp := Some h\<rparr>))
             | Some (Ok _, s) \<Rightarrow> finish ((to_state SmStateActive s)\<lparr>httpRsp := Some \<lparr>Status = 201, Body = NoBody\<rparr>\<rparr>)
             | r \<Rightarrow> r)))
     else let s = (if PDUSessionID c = 0 then change (\<lambda>x. x\<lparr>ctx := (ctx x)\<lparr>PDUSessionID := uint sid\<rparr>\<rparr>) s else s) in
       (case GeneratePDUSessionEstablishmentReject (gsm L) ''PDUSessionDoesNotExist'' (session_of s) of
          Ok h \<Rightarrow> Some (Err ''PDUSessionDoesNotExist'', s\<lparr>httpRsp := Some h\<rparr>)
        | Err e \<Rightarrow> Some (Err e, s)
        | Panic e \<Rightarrow> Some (Panic e, s)))"

definition HandleUpdateN1Msg :: "('p, 'g) lib \<Rightarrow> update_request \<Rightarrow> 'g procedure \<Rightarrow> (unit result \<times> 'g procedure) option" where
  "HandleUpdateN1Msg L req s = (case reqN1 req of
      None \<Rightarrow> finish s
    | Some b \<Rightarrow>
        (case GsmMessageDecode (gsm L) b of
           Panic e \<Rightarrow> Some (Panic e, s)
         | Err e \<Rightarrow> Some (Err e, s\<lparr>httpRsp := Some \<lparr>Status = 403, Body = UpdateError N1SmError '''' [] '''' '''' []\<rparr>\<rparr>)
         | Ok (ReleaseRequest sid pti) \<Rightarrow> n1_release L sid pti s
         | Ok ReleaseComplete \<Rightarrow> finish (respond (\<lambda>r. r\<lparr>rspUpCnxState := ''DEACTIVATED''\<rparr>) (to_state SmStateInit s))
         | Ok (EstablishmentRequest er) \<Rightarrow> n1_establishment L (erSessionID er) s
         | Ok OtherRequest \<Rightarrow> finish s))"

section \<open>The user plane connection\<close>

definition HandleUpCnxState :: "('p, 'g) lib \<Rightarrow> update_request \<Rightarrow> 'g procedure \<Rightarrow> (unit result \<times> 'g procedure) option" where
  "HandleUpCnxState L req s =
     (if reqUpCnxState req = ''ACTIVATING''
      then let s = respond (\<lambda>r. r\<lparr>rspN2SmInfo := ''PDUSessionResourceSetupRequestTransfer'', rspUpCnxState := ''ACTIVATING'',
                 rspN2SmInfoType := ''PDU_RES_SETUP_REQ''\<rparr>) (to_state SmStateModify s) in
        built (BuildPDUSessionResourceSetupRequestTransfer (ngap L) (nas L) (net L) (session_of s)) s (\<lambda>b s.
        finish (respond (\<lambda>r. r\<lparr>rspN2 := buf b\<rparr>) (change (\<lambda>x. x\<lparr>UpCnxState := ''ACTIVATING''\<rparr>) s)))
      else if reqUpCnxState req = ''DEACTIVATED''
      then (case Tunnel (session_of s) of
              None \<Rightarrow> finish s
            | Some pool \<Rightarrow>
                let s = change (\<lambda>x. x\<lparr>UpCnxState := ''DEACTIVATED''\<rparr>)
                          (respond (\<lambda>r. r\<lparr>rspUpCnxState := ''DEACTIVATED''\<rparr>) (to_state SmStateModify s)) in
                andthen (mark_downlink (mark_buffer (resolve (pfcp L))) (\<lambda>_. True) (pool_paths pool) s) (\<lambda>rs s.
                finish (ask_upfs rs s)))
      else finish s)"

section \<open>Messages of the access network\<close>

definition n2_setup :: "('p, 'g) lib \<Rightarrow> byte list \<Rightarrow> data_path_pool option \<Rightarrow> 'g procedure \<Rightarrow> (unit result \<times> 'g procedure) option" where
  "n2_setup L b pool s = (let s = to_state SmStateModify s in
     if pool = None then finish (change (\<lambda>x. x\<lparr>Pending := []\<rparr>) s)
     else andthen (mark_downlink (mark_forward (resolve (pfcp L)) (dnn_of s)) Activated (pool_paths pool) s) (\<lambda>rs s.
          andthen (log_error (on_sess (HandlePDUSessionResourceSetupResponseTransfer (ngap L) b)) s) (\<lambda>_ s.
          finish (ask_upfs rs s))))"

definition n2_released :: "'g procedure \<Rightarrow> (unit result \<times> 'g procedure) option" where
  "n2_released s =
     (if DupRelease (session_of s)
      then let s = change (\<lambda>x. x\<lparr>DupRelease := False\<rparr>) (respond (\<lambda>r. r\<lparr>rspUpCnxState := ''DEACTIVATED''\<rparr>) (to_state SmStateInit s)) in
        log_error (remove_context (Ref (ctx (session_of s)))) s
      else finish (to_state SmStateInActivePending s))"

definition n2_path_switch :: "('p, 'g) lib \<Rightarrow> byte list \<Rightarrow> data_path_pool option \<Rightarrow> 'g procedure \<Rightarrow> (unit result \<times> 'g procedure) option" where
  "n2_path_switch L b pool s =
     andthen (log_error (on_sess (HandlePathSwitchRequestTransfer (ngap L) b)) (to_state SmStateModify s)) (\<lambda>_ s.
     built (BuildPathSwitchRequestAcknowledgeTransfer (ngap L) (nas L) (net L) (session_of s)) s (\<lambda>a s.
     let s = respond (\<lambda>r. r\<lparr>rspN2 := (case a of None \<Rightarrow> rspN2 r | Some x \<Rightarrow> x), rspN2SmInfoType := ''PATH_SWITCH_REQ_ACK'',
           rspN2SmInfo := ''PATH_SWITCH_REQ_ACK''\<rparr>) s in
     if pool = None then finish (change (\<lambda>x. x\<lparr>Pending := []\<rparr>) s)
     else andthen (mark_downlink (mark_switch (resolve (pfcp L))) Activated (pool_paths pool) s) (\<lambda>rs s.
          finish (ask_upfs rs s))))"

definition HandleUpdateN2Msg :: "('p, 'g) lib \<Rightarrow> update_request \<Rightarrow> 'g procedure \<Rightarrow> (unit result \<times> 'g procedure) option" where
  "HandleUpdateN2Msg L req s = (case Tunnel (session_of s) of
      None \<Rightarrow> finish s
    | Some pool \<Rightarrow> (let ty = reqN2SmInfoType req in
        if ty = ''PDU_RES_SETUP_RSP'' then n2_setup L (reqN2 req) pool s
        else if ty = ''PDU_RES_SETUP_FAIL'' then log_error (on_sess (HandlePDUSessionResourceSetupResponseTransfer (ngap L) (reqN2 req))) s
        else if ty = ''PDU_RES_REL_RSP'' then n2_released s
        else if ty = ''PATH_SWITCH_REQ'' then n2_path_switch L (reqN2 req) pool s
        else if ty = ''PATH_SWITCH_SETUP_FAIL''
        then log_error (on_sess (HandlePathSwitchRequestSetupFailedTransfer (ngap L) (reqN2 req))) (to_state SmStateModify s)
        else if ty = ''HANDOVER_REQUIRED'' then finish (respond (\<lambda>r. r\<lparr>rspN2SmInfo := ''Handover''\<rparr>) (to_state SmStateModify s))
        else finish s))"

section \<open>Handover and duplicate sessions\<close>

definition ho_preparing :: "('p, 'g) lib \<Rightarrow> byte list \<Rightarrow> 'g procedure \<Rightarrow> (unit result \<times> 'g procedure) option" where
  "ho_preparing L b s = (let s = change (\<lambda>x. x\<lparr>HoState := ''PREPARING''\<rparr>) (to_state SmStateModify s) in
     andthen (log_error (on_sess (HandleHandoverRequiredTransfer (ngap L) b)) s) (\<lambda>_ s.
     built (BuildPDUSessionResourceSetupRequestTransfer (ngap L) (nas L) (net L) (session_of s)) s (\<lambda>a s.
     finish (respond (\<lambda>r. r\<lparr>rspN2 := (case a of None \<Rightarrow> rspN2 r | Some x \<Rightarrow> x), rspN2SmInfoType := ''PDU_RES_SETUP_REQ'',
       rspN2SmInfo := ''PDU_RES_SETUP_REQ'', rspHoState := ''PREPARING''\<rparr>) s))))"

definition ho_prepared :: "('p, 'g) lib \<Rightarrow> byte list \<Rightarrow> 'g procedure \<Rightarrow> (unit result \<times> 'g procedure) option" where
  "ho_prepared L b s = (let s = respond (\<lambda>r. r\<lparr>rspHoState := ''PREPARED''\<rparr>)
       (change (\<lambda>x. x\<lparr>HoState := ''PREPARED''\<rparr>) (to_state SmStateModify s)) in
     andthen (log_error (on_sess (HandleHandoverRequestAcknowledgeTransfer (ngap L) b)) s) (\<lambda>_ s.
     built (BuildHandoverCommandTransfer (ngap L) (nas L) (net L) (session_of s)) s (\<lambda>a s.
     finish (respond (\<lambda>r. r\<lparr>rspN2 := (case a of None \<Rightarrow> rspN2 r | Some x \<Rightarrow> x), rspN2SmInfoType := ''HANDOVER_CMD'',
       rspN2SmInfo := ''HANDOVER_CMD'', rspHoState := ''PREPARING''\<rparr>) s))))"

text \<open>Paths without first node and rules without forwarding rule are skipped.\<close>

definition ho_completed :: "('p, 'g) lib \<Rightarrow> 'g procedure \<Rightarrow> (unit result \<times> 'g procedure) option" where
  "ho_completed L s =
     (if State (ctx (session_of s)) \<noteq> SmStateActive then Some (Err ''invalid SMContext state for HoState_COMPLETED'', s)
      else case Tunnel (session_of s) of
        None \<Rightarrow> Some (Err ''tunnel is nil during HoState_COMPLETED'', s)
      | Some None \<Rightarrow> Some (Err ''DataPathPool is nil during HoState_COMPLETED'', s)
      | Some pool \<Rightarrow>
          andthen (mark_downlink (mark_complete (resolve (pfcp L))) Activated (filter (\<lambda>d. FirstDPNode d \<noteq> None) (pool_paths pool)) s) (\<lambda>rs s.
          finish (respond (\<lambda>r. r\<lparr>rspHoState := ''COMPLETED''\<rparr>) (change (\<lambda>x. x\<lparr>HoState := ''COMPLETED''\<rparr>) (ask_upfs rs s)))))"

definition HandleUpdateHoState :: "('p, 'g) lib \<Rightarrow> update_request \<Rightarrow> 'g procedure \<Rightarrow> (unit result \<times> 'g procedure) option" where
  "HandleUpdateHoState L req s = (let ho = reqHoState req in
     if ho = ''PREPARING'' then ho_preparing L (reqN2 req) s
     else if ho = ''PREPARED'' then ho_prepared L (reqN2 req) s
     else if ho = ''COMPLETED'' then ho_completed L s
     else finish s)"

definition HandleUpdateCause :: "('p, 'g) lib \<Rightarrow> update_request \<Rightarrow> 'g procedure \<Rightarrow> (unit result \<times> 'g procedure) option" where
  "HandleUpdateCause L req s =
     (if reqCause req = ''REL_DUE_TO_DUPLICATE_SESSION_ID''
      then let s = change (\<lambda>x. x\<lparr>DupRelease := True\<rparr>)
                     (respond (\<lambda>r. r\<lparr>rspN2SmInfo := ''PDUResourceReleaseCommand'', rspN2SmInfoType := ''PDU_RES_REL_CMD''\<rparr>) s) in
        built (BuildPDUSessionResourceReleaseCommandTransfer (ngap L)) s (\<lambda>a s.
        finish ((to_state SmStatePfcpModify (respond (\<lambda>r. r\<lparr>rspN2 := buf a\<rparr>) s))\<lparr>sendPfcpDelete := True\<rparr>))
      else finish s)"

section \<open>The update of a session\<close>

definition updated :: "'g procedure \<Rightarrow> 'g procedure" where
  "updated s = s\<lparr>httpRsp := Some \<lparr>Status = 200, Body = Updated (rsp s)\<rparr>\<rparr>"

text \<open>The last part: the UPFs are asked for what the handlers decided.  The response stays nil when the
  state asks for a change of the UPFs and no action was chosen.\<close>

definition run_actions :: "('p, 'g) lib \<Rightarrow> 'g procedure \<Rightarrow> (unit result \<times> 'g procedure) option" where
  "run_actions L s = (case State (ctx (session_of s)) of
      SmStatePfcpModify \<Rightarrow>
        (if sendPfcpDelete s
         then (case SendPfcpSessionReleaseReq L (to_state SmStatePfcpRelease s) of
                 None \<Rightarrow> None
               | Some (Panic e, s) \<Rightarrow> Some (Panic e, s)
               | Some (_, s) \<Rightarrow> finish (updated (to_state SmStateInActivePending s)))
         else if sendPfcpModify s
         then (case SendPfcpSessionModifyReq L (to_state SmStatePfcpModify s) of
                 None \<Rightarrow> None
               | Some (Panic e, s) \<Rightarrow> Some (Panic e, s)
               | Some (Err e, s) \<Rightarrow> andthen (makePduCtxtModifyErrRsp L e s) (\<lambda>h s. finish (s\<lparr>httpRsp := Some h\<rparr>))
               | Some (Ok _, s) \<Rightarrow> finish (to_state SmStateActive (updated s)))
         else finish (s\<lparr>httpRsp := None\<rparr>))
    | SmStateModify \<Rightarrow> finish (updated (to_state SmStateActive s))
    | _ \<Rightarrow> finish (updated s))"

definition new_procedure :: "pfcp_event list \<Rightarrow> 'g smf \<Rightarrow> 'g procedure" where
  "new_procedure evs w = \<lparr>world = w, arrivals = evs, rsp = new_response, sendPfcpModify = False, sendPfcpDelete = False,
     pfcpParam = no_modification, httpRsp = None\<rparr>"

definition HandlePDUSessionSMContextUpdate :: "('p, 'g) lib \<Rightarrow> update_request \<Rightarrow> pfcp_event list \<Rightarrow> 'g smf \<Rightarrow> (unit result \<times> 'g procedure) option" where
  "HandlePDUSessionSMContextUpdate L req evs w =
     (let s = new_procedure evs w in
      andthen (HandleUpdateN1Msg L req s) (\<lambda>_ s.
      andthen (HandleUpCnxState L req s) (\<lambda>_ s.
      andthen (HandleUpdateN2Msg L req s) (\<lambda>_ s.
      andthen (HandleUpdateHoState L req s) (\<lambda>_ s.
      andthen (HandleUpdateCause L req s) (\<lambda>_ s.
      run_actions L s))))))"

section \<open>Release and replacement\<close>

text \<open>The address is released; errors are logged.\<close>

definition release_address :: "'g smf \<Rightarrow> unit result \<times> 'g smf" where
  "release_address w = (let pl = spools w; c = ctx (sess w); dnn = DNNInfo c in
     case ReleaseUeIpAddr c (allocators pl dnn) of
       Ok (c, a) \<Rightarrow> (Ok (), w\<lparr>spools := pl\<lparr>allocators := (allocators pl)(dnn := a)\<rparr>, sess := (sess w)\<lparr>ctx := c\<rparr>\<rparr>)
     | Err e \<Rightarrow> (Err e, w) | Panic e \<Rightarrow> (Panic e, w))"

definition release_failed :: "('p, 'g) lib \<Rightarrow> 'g procedure \<Rightarrow> (unit result \<times> 'g procedure) option" where
  "release_failed L s = (let s = to_state SmStateActive s in
     built (BuildGSMPDUSessionReleaseReject (gsm L) (session_of s)) s (\<lambda>n1 s.
     finish (s\<lparr>httpRsp := Some \<lparr>Status = 500, Body = UpdateError (ProblemDetails '''' 500 '''' ''SYSTEM_FAILULE'')
       ''PDUSessionReleaseReject'' (buf n1) '''' '''' []\<rparr>\<rparr>)))"

definition answer_release :: "('p, 'g) lib \<Rightarrow> PFCPSessionResponseStatus \<Rightarrow> 'g procedure \<Rightarrow> (unit result \<times> 'g procedure) option" where
  "answer_release L st s = (case st of
      SessionReleaseSuccess \<Rightarrow> finish ((to_state SmStatePfcpRelease s)\<lparr>httpRsp := Some \<lparr>Status = 204, Body = NoBody\<rparr>\<rparr>)
    | SessionReleaseTimeout \<Rightarrow> finish ((to_state SmStateActive s)\<lparr>httpRsp := Some \<lparr>Status = 500, Body = NoBody\<rparr>\<rparr>)
    | _ \<Rightarrow> release_failed L s)"

definition remove_self :: "'g procedure \<Rightarrow> (unit result \<times> 'g procedure) option" where
  "remove_self s = log_error (remove_context (Ref (ctx (session_of s)))) s"

definition HandlePDUSessionSMContextRelease :: "('p, 'g) lib \<Rightarrow> pfcp_event list \<Rightarrow> 'g smf \<Rightarrow> (unit result \<times> 'g procedure) option" where
  "HandlePDUSessionSMContextRelease L evs w =
     andthen (log_error release_address (new_procedure evs w)) (\<lambda>_ s.
     andthen (release_tunnel L (to_state SmStatePfcpRelease s)) (\<lambda>ok s.
     if \<not> ok then remove_self (s\<lparr>httpRsp := Some \<lparr>Status = 204, Body = NoBody\<rparr>\<rparr>)
     else andthen (wait_status (pfcp L) s) (\<lambda>st s.
          andthen (answer_release L st s) (\<lambda>_ s. remove_self s))))"

text \<open>A session that is established anew; only the session that the model follows is purged.\<close>

definition HandlePduSessionContextReplacement :: "('p, 'g) lib \<Rightarrow> string \<Rightarrow> 'g smf \<Rightarrow> (unit result \<times> 'g procedure) option" where
  "HandlePduSessionContextReplacement L smCtxtRef w = (case GetSMContext smCtxtRef (full_pools w) of (p, pl) \<Rightarrow>
     let s = new_procedure [] (put_pools pl w) in
     if p \<noteq> Some (self w) then finish s
     else andthen (remove_self (change (\<lambda>x. x\<lparr>LocalPurged := True\<rparr>) s)) (\<lambda>_ s.
       if Tunnel (session_of s) \<noteq> None then andthen (release_tunnel L s) (\<lambda>_. finish) else finish s))"

section \<open>Failed paging\<close>

text \<open>\<^verbatim>\<open>HandlePFCPResponse\<close>; the response is the value.\<close>

definition modification_timed_out :: "('p, 'g) lib \<Rightarrow> 'g procedure \<Rightarrow> (http_response result \<times> 'g procedure) option" where
  "modification_timed_out L s =
     built (BuildGSMPDUSessionReleaseCommand (gsm L) (session_of s)) s (\<lambda>n1 s.
     built (BuildPDUSessionResourceReleaseCommandTransfer (ngap L)) s (\<lambda>n2 s.
     let h = \<lparr>Status = 503, Body = UpdateError (ProblemDetails ''PFCP Session Mod Timeout'' 500 ''PFCP Session Modification Timeout'' ''UPF_NOT_RESPONDING'')
           PDU_SESS_REL_CMD (buf n1) PDU_SESS_REL_CMD ''PDU_RES_REL_CMD'' (buf n2)\<rparr> in
     case SendPfcpSessionReleaseReq L (to_state SmStatePfcpModify s) of
       None \<Rightarrow> None
     | Some (Panic e, s) \<Rightarrow> Some (Panic e, s)
     | Some (_, s) \<Rightarrow> Some (Ok h, s)))"

definition HandlePFCPResponse :: "('p, 'g) lib \<Rightarrow> PFCPSessionResponseStatus \<Rightarrow> 'g procedure \<Rightarrow> (http_response result \<times> 'g procedure) option" where
  "HandlePFCPResponse L st s = (case st of
      SessionUpdateSuccess \<Rightarrow> Some (Ok \<lparr>Status = 204, Body = NoBody\<rparr>, to_state SmStateActive s)
    | SessionUpdateFailed \<Rightarrow> Some (Ok \<lparr>Status = 403, Body = UpdateError N1SmError '''' [] '''' '''' []\<rparr>, to_state SmStateActive s)
    | SessionUpdateTimeout \<Rightarrow> modification_timed_out L s
    | _ \<Rightarrow> Some (Ok \<lparr>Status = 204, Body = NoBody\<rparr>, s))"

definition HandlePduSessN1N2TransFailInd :: "('p, 'g) lib \<Rightarrow> pfcp_event list \<Rightarrow> 'g smf \<Rightarrow> (unit result \<times> 'g procedure) option" where
  "HandlePduSessN1N2TransFailInd L evs w = (let s = new_procedure evs w in
     andthen (case Tunnel (session_of s) of
         None \<Rightarrow> finish s
       | Some pool \<Rightarrow>
           andthen (mark_downlink (mark_drop (resolve (pfcp L))) (\<lambda>_. True) (pool_paths pool) s) (\<lambda>(_, fs) s.
           case an_upf (session_of s) of
             Ok (_, u) \<Rightarrow> log_error (SendPfcpSessionModificationRequest (pfcp L) (NodeID u) (no_modification\<lparr>farList := fs\<rparr>)) s
           | Err e \<Rightarrow> Some (Err e, s)
           | Panic e \<Rightarrow> Some (Panic e, s))) (\<lambda>_ s.
     andthen (wait_status (pfcp L) s) (\<lambda>st s.
     andthen (HandlePFCPResponse L st s) (\<lambda>h s. finish (s\<lparr>httpRsp := Some h\<rparr>)))))"

section \<open>Telling the mobility function\<close>

text \<open>The request carries the session, the message for the UE and the container for the access network, each
  only when it could be built.\<close>

record n1n2_request =
  tSession :: int
  tN1 :: "byte list option"
  tN2 :: "byte list option"

datatype transfer_answer = TransferFailed | N1_MSG_NOT_TRANSFERRED | Transferred

definition SendPduSessN1N2Transfer ::
    "('p, 'g) lib \<Rightarrow> (n1n2_request \<Rightarrow> transfer_answer) \<Rightarrow> bool \<Rightarrow> 'g session \<Rightarrow> (n1n2_request option \<times> unit result) \<times> 'g session" where
  "SendPduSessN1N2Transfer L amf success x = (
     let opt = (\<lambda>r. case r of Ok b \<Rightarrow> Ok (Some b) | Err _ \<Rightarrow> Ok None | Panic e \<Rightarrow> Panic e) in
     case (if success
           then bind_res (opt (BuildGSMPDUSessionEstablishmentAccept (gsm L) (nas L) (config L) x)) (\<lambda>n1.
                bind_res (opt (BuildPDUSessionResourceSetupRequestTransfer (ngap L) (nas L) (net L) x)) (\<lambda>n2. Ok (n1, n2)))
           else bind_res (opt (BuildGSMPDUSessionEstablishmentReject (gsm L) x (CauseValue (gsm L) RequestRejectedUnspecified))) (\<lambda>n1. Ok (n1, None))) of
       Panic e \<Rightarrow> ((None, Panic e), x)
     | Err e \<Rightarrow> ((None, Err e), x)
     | Ok (n1, n2) \<Rightarrow>
         let q = \<lparr>tSession = PDUSessionID (ctx x), tN1 = n1, tN2 = n2\<rparr>; a = amf q in
         case CommitSmPolicyDecision_ctx (a = Transferred) (ctx x) of
           Ok c \<Rightarrow> ((Some q, if a = N1_MSG_NOT_TRANSFERRED then Err ''N1N2MessageTransfer failure'' else Ok ()), x\<lparr>ctx := c\<rparr>)
         | Err e \<Rightarrow> ((Some q, Err e), x)
         | Panic e \<Rightarrow> ((Some q, Panic e), x))"

section \<open>Every update is answered\<close>

lemma andthen_simps [simp]:
  "andthen (Some (Ok x, s)) f = f x s" "andthen (Some (Err e, s)) f = Some (Err e, s)" "andthen (Some (Panic e, s)) f = Some (Panic e, s)"
  "andthen None f = None"
  by (simp_all add: andthen_def)

lemma andthen_OkE:
  assumes "andthen m f = Some (Ok y, s')" obtains x s where "m = Some (Ok x, s)" "f x s = Some (Ok y, s')"
  using assms by (cases m; cases "fst (the m)"; cases "the m") auto

lemma built_OkE:
  assumes "built r s f = Some (Ok y, s')" obtains b where "f b s = Some (Ok y, s')"
  using assms by (cases r) (auto simp: built_def)

lemmas okE = andthen_OkE built_OkE

abbreviation (input) sm_state :: "'g procedure \<Rightarrow> SMContextState" where
  "sm_state s \<equiv> State (ctx (sess (world s)))"

lemma procedure_simps [simp]:
  "sm_state (to_state st s) = st" "sendPfcpModify (to_state st s) = sendPfcpModify s" "sendPfcpDelete (to_state st s) = sendPfcpDelete s"
  "sendPfcpModify (change f s) = sendPfcpModify s" "sendPfcpDelete (change f s) = sendPfcpDelete s"
  "world (respond g' s) = world s" "sendPfcpModify (respond g' s) = sendPfcpModify s" "sendPfcpDelete (respond g' s) = sendPfcpDelete s"
  "httpRsp (to_state st s) = httpRsp s" "rsp (to_state st s) = rsp s" "sess (world (change f s)) = f (sess (world s))" "arrivals (change f s) = arrivals s" "arrivals (to_state st s) = arrivals s"
  "Tunnel (sess (world (to_state st s))) = Tunnel (sess (world s))" "dps (sess (world (to_state st s))) = dps (sess (world s))"
  by (simp_all add: to_state_def change_def set_sess_def ChangeState_def respond_def)

lemma finish_iff [simp]: "finish s = Some (r, s') \<longleftrightarrow> r = Ok () \<and> s' = s"
  by (auto simp: finish_def)

text \<open>A session that is about to change its UPFs has an action chosen.\<close>

definition action_chosen :: "'g procedure \<Rightarrow> bool" where
  "action_chosen s \<longleftrightarrow> (sm_state s = SmStatePfcpModify \<longrightarrow> sendPfcpModify s \<or> sendPfcpDelete s)"

lemma ask_upfs_simps [simp]: "sm_state (ask_upfs rs s) = SmStatePfcpModify" "sendPfcpModify (ask_upfs rs s)"
  by (simp_all add: ask_upfs_def)

lemma mark_downlink_frame:
  assumes "mark_downlink mark sel ds s = Some (r, s')"
  shows "\<exists>d pe. s' = change (\<lambda>x. x\<lparr>dps := d, Pending := pe\<rparr>) s"
  using assms by (auto simp: mark_downlink_def split: prod.splits)

lemma log_error_Ok: "log_error f s = Some (Ok (), s') \<Longrightarrow> \<exists>r. f (world s) = (r, world s') \<and> s' = s\<lparr>world := world s'\<rparr>"
  by (cases "f (world s)"; cases "fst (f (world s))") (auto simp: log_error_def on_world_def logged_def)

lemma seq_snd:
  assumes "P (snd m)" and "\<And>x s. P s \<Longrightarrow> P (snd (f x s))"
  shows "P (snd (seq m f))"
  using assms by (cases "fst m"; cases m) auto

lemma an_tunnel_ctx: "ctx (snd (an_tunnel sw tnl s)) = ctx s"
  by (auto simp: an_tunnel_def lift_res_def Let_def split: option.splits prod.splits result.splits if_splits intro!: seq_snd[where P = "\<lambda>t. ctx t = ctx s"])

lemma n2_handlers_ctx:
  "ctx (snd (HandlePDUSessionResourceSetupResponseTransfer N b s)) = ctx s" "ctx (snd (HandlePathSwitchRequestTransfer N b s)) = ctx s"
  "ctx (snd (HandlePathSwitchRequestSetupFailedTransfer N b s)) = ctx s" "ctx (snd (HandleHandoverRequiredTransfer N b s)) = ctx s"
  "ctx (snd (HandleHandoverRequestAcknowledgeTransfer N b s)) = ctx s"
proof -
  note P = seq_snd[where P = "\<lambda>t. ctx t = ctx s"]
  show "ctx (snd (HandlePDUSessionResourceSetupResponseTransfer N b s)) = ctx s"
    unfolding HandlePDUSessionResourceSetupResponseTransfer_def by (intro P) (simp_all add: an_tunnel_ctx)
  show "ctx (snd (HandlePathSwitchRequestTransfer N b s)) = ctx s"
    unfolding HandlePathSwitchRequestTransfer_def by (intro P) (simp_all add: an_tunnel_ctx)
  show "ctx (snd (HandleHandoverRequestAcknowledgeTransfer N b s)) = ctx s"
    unfolding HandleHandoverRequestAcknowledgeTransfer_def by (auto intro!: P split: option.splits prod.splits)
qed (simp_all add: HandlePathSwitchRequestSetupFailedTransfer_def HandleHandoverRequiredTransfer_def)

lemma log_error_sess:
  assumes "log_error (on_sess f) s = Some (Ok (), s')" and "ctx (snd (f (sess (world s)))) = ctx (sess (world s))"
  shows "sm_state s' = sm_state s" "sendPfcpModify s' = sendPfcpModify s" "sendPfcpDelete s' = sendPfcpDelete s"
proof -
  from log_error_Ok[OF assms(1)] obtain r where r: "on_sess f (world s) = (r, world s')" and s': "s' = s\<lparr>world := world s'\<rparr>" by blast
  have "ctx (sess (world s')) = ctx (sess (world s))"
    using arg_cong[OF r, of "\<lambda>p. ctx (sess (snd p))"] assms(2) by (simp add: on_sess_def split: prod.splits)
  then show "sm_state s' = sm_state s" by simp
  show "sendPfcpModify s' = sendPfcpModify s" "sendPfcpDelete s' = sendPfcpDelete s" by (subst s', simp)+
qed

lemma remove_context_state:
  assumes "log_error (remove_context ref) s = Some (Ok (), s')"
  shows "sm_state s' \<in> {sm_state s, SmStateRelease}"
proof -
  from log_error_Ok[OF assms] obtain r where r: "remove_context ref (world s) = (r, world s')" by blast
  let ?w = "world s"
  show ?thesis
  proof (cases "RemoveSMContext ref (full_pools ?w)")
    case (Ok pl)
    then have w': "world s' = put_pools pl ?w" using r by (simp add: remove_context_def)
    obtain p c0 c' a where p: "smContextPool (full_pools ?w) ref = Some p" "heap (full_pools ?w) p = Some c0"
      and h: "heap pl = (heap (full_pools ?w))(p \<mapsto> c')"
      and c: "ReleaseUeIpAddr (ChangeState SmStateRelease c0) (allocators (full_pools ?w) (DNNInfo (ChangeState SmStateRelease c0))) = Ok (c', a)"
      using Ok by (auto simp: RemoveSMContext_def Let_def decSMContextActive_def split: option.splits result.splits if_splits)
    have "State c' = SmStateRelease" using c
      by (auto simp: ReleaseUeIpAddr_def ChangeState_def split: option.splits if_splits result.splits)
    then show ?thesis using w' h by (auto simp: put_pools_def full_pools_def)
  qed (use r in \<open>auto simp: remove_context_def\<close>)
qed

lemma n1_chosen:
  assumes "HandleUpdateN1Msg L req s = Some (Ok (), s')" and "action_chosen s"
  shows "action_chosen s'"
proof (cases "reqN1 req")
  case (Some b)
  note defs = HandleUpdateN1Msg_def Some
  consider (release) sid pti where "GsmMessageDecode (gsm L) b = Ok (ReleaseRequest sid pti)" | (complete) "GsmMessageDecode (gsm L) b = Ok ReleaseComplete"
    | (establish) er where "GsmMessageDecode (gsm L) b = Ok (EstablishmentRequest er)" | (other) "GsmMessageDecode (gsm L) b = Ok OtherRequest"
    using assms(1) by (cases "GsmMessageDecode (gsm L) b") (auto simp: defs split: gsm_request.splits)
  then show ?thesis
  proof cases
    case release
    have "sm_state s' \<noteq> SmStatePfcpModify \<or> sendPfcpDelete s'"
      using assms(1) by (auto simp: defs release n1_release_def Let_def ReleasePduSessionID_def split: if_splits elim!: okE)
    then show ?thesis by (auto simp: action_chosen_def)
  next
    case complete
    then show ?thesis using assms(1) by (auto simp: defs action_chosen_def)
  next
    case establish
    have "sm_state s' = SmStateActive"
      using assms(1) by (auto simp: defs establish n1_establishment_def Let_def split: if_splits option.splits result.splits elim!: okE)
    then show ?thesis by (auto simp: action_chosen_def)
  next
    case other
    then show ?thesis using assms by (auto simp: defs)
  qed
qed (use assms in \<open>auto simp: HandleUpdateN1Msg_def\<close>)

lemma up_chosen:
  assumes "HandleUpCnxState L req s = Some (Ok (), s')" and "action_chosen s"
  shows "action_chosen s'"
  using assms by (auto simp: HandleUpCnxState_def action_chosen_def Let_def split: if_splits option.splits elim!: okE)

lemma n2_chosen:
  assumes "HandleUpdateN2Msg L req s = Some (Ok (), s')" and "action_chosen s"
  shows "action_chosen s'"
proof (cases "Tunnel (session_of s)")
  case (Some pool)
  have kept: "action_chosen s'" if "log_error (on_sess f) t = Some (Ok (), s')" "\<And>x. ctx (snd (f x)) = ctx x" "action_chosen t" for f t
    using log_error_sess[OF that(1,2)] that(3) by (simp add: action_chosen_def)
  have to: "action_chosen (to_state SmStateModify s)" by (simp add: action_chosen_def)
  have set_up: "action_chosen s'" if "n2_setup L b p s = Some (Ok (), s')" for b p
    using that by (auto simp: n2_setup_def action_chosen_def Let_def split: if_splits elim!: okE)
  have switch: "action_chosen s'" if run: "n2_path_switch L b p s = Some (Ok (), s')" for b p
  proof -
    obtain t where t: "log_error (on_sess (HandlePathSwitchRequestTransfer (ngap L) b)) (to_state SmStateModify s) = Some (Ok (), t)"
      using run unfolding n2_path_switch_def by (auto elim!: andthen_OkE)
    then have "sm_state t = SmStateModify"
      using log_error_sess(1)[of "HandlePathSwitchRequestTransfer (ngap L) b", OF t] by (simp add: n2_handlers_ctx)
    then show ?thesis using run t by (auto simp: n2_path_switch_def action_chosen_def Let_def split: if_splits elim!: okE)
  qed
  have released: "action_chosen s'" if "n2_released s = Some (Ok (), s')"
    using that by (auto simp: n2_released_def action_chosen_def Let_def split: if_splits dest!: remove_context_state)
  show ?thesis using assms Some kept[OF _ n2_handlers_ctx(1)] kept[OF _ n2_handlers_ctx(3) to] set_up switch released
    by (auto simp: HandleUpdateN2Msg_def Let_def action_chosen_def[of "respond _ _"] split: if_splits)
qed (use assms in \<open>auto simp: HandleUpdateN2Msg_def\<close>)

lemma ho_chosen:
  assumes "HandleUpdateHoState L req s = Some (Ok (), s')" and "action_chosen s"
  shows "action_chosen s'"
proof -
  have prep: "action_chosen s'" if run: "andthen (log_error (on_sess f) t) (\<lambda>_ s. built (r s) s (\<lambda>a s. finish (respond (h a) s))) = Some (Ok (), s')"
    and f: "\<And>x. ctx (snd (f x)) = ctx x" and t: "sm_state t = SmStateModify" for f t r h
  proof -
    obtain u where u: "log_error (on_sess f) t = Some (Ok (), u)" and v: "built (r u) u (\<lambda>a s. finish (respond (h a) s)) = Some (Ok (), s')"
      using run by (auto elim: andthen_OkE)
    then show ?thesis using log_error_sess(1)[OF u f] t by (auto simp: action_chosen_def elim!: built_OkE)
  qed
  have complete: "action_chosen s'" if "ho_completed L s = Some (Ok (), s')"
    using that by (auto simp: ho_completed_def action_chosen_def split: if_splits option.splits elim!: okE)
  have preparing: "action_chosen s'" if "ho_preparing L b s = Some (Ok (), s')" for b
    by (rule prep[OF that[unfolded ho_preparing_def Let_def] n2_handlers_ctx(4)]) simp
  have prepared: "action_chosen s'" if "ho_prepared L b s = Some (Ok (), s')" for b
    by (rule prep[OF that[unfolded ho_prepared_def Let_def] n2_handlers_ctx(5)]) simp
  show ?thesis using assms complete preparing prepared by (auto simp: HandleUpdateHoState_def Let_def split: if_splits)
qed

lemma cause_chosen:
  assumes "HandleUpdateCause L req s = Some (Ok (), s')" and "action_chosen s"
  shows "action_chosen s'"
  using assms by (auto simp: HandleUpdateCause_def action_chosen_def Let_def split: if_splits elim!: okE)

lemma run_actions_answers:
  assumes "run_actions L s = Some (Ok (), s')" and "action_chosen s"
  shows "\<exists>h. httpRsp s' = Some h \<and> (h = \<lparr>Status = 200, Body = Updated (rsp s')\<rparr> \<and> sm_state s' \<notin> {SmStateModify, SmStatePfcpModify} \<or> Status h = 503)"
proof (cases "sm_state s")
  case SmStatePfcpModify
  show ?thesis
  proof (cases "sendPfcpDelete s")
    case True
    then show ?thesis using assms(1) SmStatePfcpModify
      by (auto simp: run_actions_def updated_def split: option.splits result.splits) 
  next
    case False
    then have "sendPfcpModify s" using assms(2) SmStatePfcpModify by (simp add: action_chosen_def)
    then show ?thesis using assms(1) SmStatePfcpModify False
      by (auto simp: run_actions_def updated_def makePduCtxtModifyErrRsp_def split: option.splits result.splits elim!: okE)
  qed
qed (use assms(1) in \<open>auto simp: run_actions_def updated_def\<close>)


section \<open>Waiting\<close>

text \<open>A status is received from the event that sends it, and before that the procedure waits.\<close>

lemma receive_until:
  fixes E :: penv and w :: "'g smf"
  defines "D \<equiv> \<lambda>ev w. snd (Dispatch E ev w)"
  assumes "\<And>k. k < length evs \<Longrightarrow> chan (sess (fold D (take k evs) w)) = []" and "chan (sess (fold D evs w)) = st # sts"
    and "\<And>ev (w :: 'g smf) e. ev \<in> set evs \<Longrightarrow> fst (Dispatch E ev w) \<noteq> Panic e"
  shows "receive E (evs @ rest) w = Some (Ok st, rest, set_sess (\<lambda>x. x\<lparr>chan := sts\<rparr>) (fold D evs w))
    \<and> (\<forall>k < length evs. receive E (take k evs) w = None)"
  using assms(2-)
proof (induction evs arbitrary: w)
  case Nil
  then show ?case by (simp add: receive.simps[of E rest])
next
  case (Cons ev evs)
  have empty: "chan (sess w) = []" using Cons.prems(1)[of 0] by simp
  obtain r w1 where d: "Dispatch E ev w = (r, w1)" by fastforce
  then have r: "\<forall>e. r \<noteq> Panic e" using Cons.prems(3)[of ev w] by simp
  have w1: "D ev w = w1" by (simp add: D_def d)
  have IH: "receive E (evs @ rest) w1 = Some (Ok st, rest, set_sess (\<lambda>x. x\<lparr>chan := sts\<rparr>) (fold D evs w1)) \<and> (\<forall>k < length evs. receive E (take k evs) w1 = None)"
  proof (rule Cons.IH)
    show "chan (sess (fold D (take k evs) w1)) = []" if "k < length evs" for k using Cons.prems(1)[of "Suc k"] that by (simp add: w1)
  qed (use Cons.prems(2,3) w1 in auto)
  have step: "receive E (ev # xs) w = receive E xs w1" for xs
    using r by (subst receive.simps) (cases r; simp add: empty d)
  have "receive E (take k (ev # evs)) w = None" if "k < length (ev # evs)" for k
  proof (cases k)
    case 0
    then show ?thesis by (simp add: receive.simps empty)
  next
    case (Suc j)
    then show ?thesis using IH that step by simp
  qed
  then show ?case using IH step by (simp add: w1)
qed

text \<open>Answers of UPFs and association traffic, but no establishment and no time-out.\<close>

definition upf_answer :: "pfcp_event \<Rightarrow> bool" where
  "upf_answer ev = (case ev of EstablishmentResponseEv _ \<Rightarrow> False | SendErrorEv _ \<Rightarrow> False | _ \<Rightarrow> True)"

definition deaf :: "'g smf \<Rightarrow> bool" where
  "deaf w \<longleftrightarrow> \<not> EnableDbStore (spools w) \<and> State (ctx (sess w)) \<notin> {SmStatePfcpModify, SmStatePfcpRelease} \<and> chan (sess w) = []"

lemma deaf_found: "deaf w \<Longrightarrow> deaf (put_pools (full_pools w) w)"
  by (simp add: deaf_def put_full_pools)

lemma deaf_frame [simp]:
  "deaf (upd_assoc u f w) = deaf w" "deaf (upd_smf_upf u h w) = deaf w" "deaf (snd (SendPfcp E m w)) = deaf w" "deaf (remove_upf E n w) = deaf w"
  "deaf (w\<lparr>PfcpTxns := T\<rparr>) = deaf w"
  by (simp_all add: deaf_def upd_assoc_def upd_smf_upf_def SendPfcp_def remove_upf_def Let_def)

lemma deaf_dispatch:
  assumes "deaf w" and "upf_answer ev"
  shows "deaf (snd (Dispatch E ev w))"
proof -
  note found = find_context_plain[of w] deaf_found[OF assms(1)]
  have db: "\<not> EnableDbStore (spools w)" and st: "State (full_ctx w) \<notin> {SmStatePfcpModify, SmStatePfcpRelease}" using assms(1) by (simp_all add: deaf_def)
  have m: "deaf (snd (HandlePfcpSessionModificationResponse E hdr event cause w))" for hdr event cause
    using assms(1) found st by (auto simp: HandlePfcpSessionModificationResponse_def find_context_plain[OF db] put_full_pools split: option.splits result.splits)
  have d: "deaf (snd (HandlePfcpSessionDeletionResponse E hdr event cause w))" for hdr event cause
    using assms(1) found st by (auto simp: HandlePfcpSessionDeletionResponse_def find_context_plain[OF db] put_full_pools split: option.splits result.splits)
  have a: "deaf (HandlePfcpHeartbeatRequest E sq w)" "deaf (HandlePfcpHeartbeatResponse E sq ts w)" "deaf (HandlePfcpAssociationSetupRequest E node ts w)"
    "deaf (HandlePfcpAssociationSetupResponse E rs w)" "deaf (HandlePfcpAssociationReleaseRequest E node w)" "deaf (HandlePfcpAssociationReleaseResponse E c node w)"
    for sq ts node rs c
    using assms(1)
    by (auto simp: HandlePfcpHeartbeatRequest_def SendHeartbeatResponse_def HandlePfcpHeartbeatResponse_def HandlePfcpAssociationSetupRequest_def
      SendPfcpAssociationSetupResponse_def HandlePfcpAssociationSetupResponse_def HandlePfcpAssociationReleaseRequest_def
      SendPfcpAssociationReleaseResponse_def HandlePfcpAssociationReleaseResponse_def FetchPfcpTxn_def Let_def split: option.splits result.splits)
  show ?thesis using assms m d a by (cases ev) (simp_all add: Dispatch_def upf_answer_def)
qed

lemma deaf_receive:
  assumes "deaf w" and "list_all upf_answer evs"
  shows "receive E evs w \<noteq> Some (Ok st, evs', w')"
  using assms
proof (induction evs arbitrary: w)
  case Nil
  then show ?case by (simp add: receive.simps deaf_def)
next
  case (Cons ev evs)
  obtain r w1 where d: "Dispatch E ev w = (r, w1)" by fastforce
  have "deaf w1" using deaf_dispatch[of w ev E] Cons.prems d by simp
  then have "receive E evs w1 \<noteq> Some (Ok st, evs', w')" using Cons by simp
  then show ?case using Cons.prems(1) d by (subst receive.simps) (cases r; simp add: deaf_def)
qed

lemma sending_frame:
  "spools (snd (SendPfcpSessionModificationRequest E n m w)) = spools w" "ctx (sess (snd (SendPfcpSessionModificationRequest E n m w))) = ctx (sess w)"
  "chan (sess (snd (SendPfcpSessionModificationRequest E n m w))) = chan (sess w)" "Pending (sess (snd (SendPfcpSessionModificationRequest E n m w))) = Pending (sess w)"
  "self (snd (SendPfcpSessionModificationRequest E n m w)) = self w"
proof -
  let ?P = "\<lambda>t :: 'a smf. spools t = spools w \<and> ctx (sess t) = ctx (sess w) \<and> chan (sess t) = chan (sess w) \<and> Pending (sess t) = Pending (sess w) \<and> self t = self w"
  have "?P (snd (SendPfcpSessionModificationRequest E n m w))"
    unfolding SendPfcpSessionModificationRequest_def getSeqNumber_def Let_def prod.case
    by (auto simp: on_dps_def SendPfcp_def InsertPfcpTxn_def split: option.splits prod.splits intro!: seq_snd[where P = ?P])
  then show "spools (snd (SendPfcpSessionModificationRequest E n m w)) = spools w" "ctx (sess (snd (SendPfcpSessionModificationRequest E n m w))) = ctx (sess w)"
    "chan (sess (snd (SendPfcpSessionModificationRequest E n m w))) = chan (sess w)" "Pending (sess (snd (SendPfcpSessionModificationRequest E n m w))) = Pending (sess w)"
    "self (snd (SendPfcpSessionModificationRequest E n m w)) = self w" by blast+
qed

lemma deaf_wait: "deaf (world s) \<Longrightarrow> list_all upf_answer (arrivals s) \<Longrightarrow> wait_status E s \<noteq> Some (Ok st, s')"
  using deaf_receive[of "world s" "arrivals s" E] by (auto simp: wait_status_def)

lemma deaf_change [simp]:
  "deaf (world (change (\<lambda>x. x\<lparr>dps := d, Pending := pe\<rparr>) s)) = deaf (world s)" "deaf (world (new_procedure evs w)) = deaf w"
  "arrivals (new_procedure evs w) = evs"
  by (simp_all add: deaf_def change_def set_sess_def new_procedure_def)

lemma log_error_send:
  assumes "log_error (SendPfcpSessionModificationRequest E n m) s = Some (Ok (), s')"
  shows "world s' = snd (SendPfcpSessionModificationRequest E n m (world s))" "arrivals s' = arrivals s"
  using assms by (auto simp: log_error_def on_world_def logged_def split: prod.splits result.splits)

text \<open>C32: When the mobility function reports that it could not reach the UE, the SMF asks the UPF to drop the
  downlink data and waits, but it does not enter the state in which it takes note of modification
  responses: whatever the UPFs answer, accepting or refusing, the procedure never completes.\<close>

theorem paging_failure_never_completes:
  assumes "deaf w" and "list_all upf_answer evs"
  shows "HandlePduSessN1N2TransFailInd L evs w \<noteq> Some (Ok (), s)"
proof
  let ?s = "new_procedure evs w"
  assume "HandlePduSessN1N2TransFailInd L evs w = Some (Ok (), s)"
  then obtain t st u where t: "(case Tunnel (session_of ?s) of None \<Rightarrow> finish ?s
       | Some pool \<Rightarrow>
           andthen (mark_downlink (mark_drop (resolve (pfcp L))) (\<lambda>_. True) (pool_paths pool) ?s) (\<lambda>(_, fs) s.
           case an_upf (session_of s) of
             Ok (_, u) \<Rightarrow> log_error (SendPfcpSessionModificationRequest (pfcp L) (NodeID u) (no_modification\<lparr>farList := fs\<rparr>)) s
           | Err e \<Rightarrow> Some (Err e, s)
           | Panic e \<Rightarrow> Some (Panic e, s))) = Some (Ok (), t)" and wait: "wait_status (pfcp L) t = Some (Ok st, u)"
    unfolding HandlePduSessN1N2TransFailInd_def Let_def by (auto elim!: andthen_OkE)
  have "deaf (world t) \<and> arrivals t = evs"
  proof (cases "Tunnel (session_of ?s)")
    case None
    then show ?thesis using t assms by simp
  next
    case (Some pool)
    then obtain fs v n m where v: "mark_downlink (mark_drop (resolve (pfcp L))) (\<lambda>_. True) (pool_paths pool) ?s = Some (Ok fs, v)"
      and send: "log_error (SendPfcpSessionModificationRequest (pfcp L) n m) v = Some (Ok (), t)"
      using t by (auto elim!: andthen_OkE split: result.splits prod.splits)
    from mark_downlink_frame[OF v] have "deaf (world v)" "arrivals v = evs" using assms(1) by auto
    then show ?thesis using log_error_send[OF send] by (simp add: deaf_def sending_frame)
  qed
  then show False using deaf_wait assms(2) wait by blast
qed

section \<open>Release\<close>

lemma deletion_response_ok: "fst (HandlePfcpSessionDeletionResponse E hdr event cause w) = Ok ()"
  by (auto simp: HandlePfcpSessionDeletionResponse_def Let_def split: option.splits result.splits prod.splits)

definition deletions_accepted :: "penv \<Rightarrow> u64 list \<Rightarrow> pfcp_event list" where
  "deletions_accepted E seids = map (\<lambda>i. DeletionResponseEv i (Some i) (Some (Ok (CauseRequestAccepted E)))) seids"

lemma deletions_fold:
  "fold (\<lambda>ev w. snd (Dispatch E ev w)) (deletions_accepted E seids) w
     = fold (\<lambda>i w. snd (HandlePfcpSessionDeletionResponse E i (Some i) (Some (Ok (CauseRequestAccepted E))) w)) seids w"
  by (induction seids arbitrary: w) (simp_all add: deletions_accepted_def Dispatch_def)

lemma receive_release:
  assumes "\<forall>i \<in> set seids. own w i" and "distinct (map (\<lambda>i. seid_upf E i (dps (sess w))) seids)" and "seids \<noteq> []"
    and "set (Pending (sess w)) = (\<lambda>i. seid_upf E i (dps (sess w))) ` set seids" and "chan (sess w) = []"
    and "State (ctx (sess w)) = SmStatePfcpRelease" "\<not> LocalPurged (sess w)"
  shows "(\<exists>w'. receive E (deletions_accepted E seids) w = Some (Ok SessionReleaseSuccess, [], w'))
    \<and> (\<forall>k < length seids. receive E (deletions_accepted E (take k seids)) w = None)"
proof -
  note c = release.collects[of w seids E, OF _ assms(1,2,4,3)]
  have take: "take k (deletions_accepted E seids) = deletions_accepted E (take k seids)" for k by (simp add: deletions_accepted_def take_map)
  have "receive E (deletions_accepted E seids @ []) w = Some (Ok SessionReleaseSuccess, [], set_sess (\<lambda>x. x\<lparr>chan := []\<rparr>)
        (fold (\<lambda>ev w. snd (Dispatch E ev w)) (deletions_accepted E seids) w))
      \<and> (\<forall>k < length (deletions_accepted E seids). receive E (take k (deletions_accepted E seids)) w = None)"
  proof (rule receive_until)
    show "chan (sess (fold (\<lambda>ev w. snd (Dispatch E ev w)) (take k (deletions_accepted E seids)) w)) = []" if "k < length (deletions_accepted E seids)" for k
      using c assms(5-) that by (simp add: take deletions_fold) (simp add: deletions_accepted_def)
    show "chan (sess (fold (\<lambda>ev w. snd (Dispatch E ev w)) (deletions_accepted E seids) w)) = [SessionReleaseSuccess]"
      using c assms(5-) by (simp add: deletions_fold)
    show "fst (Dispatch E ev v) \<noteq> Panic e" if "ev \<in> set (deletions_accepted E seids)" for ev and v :: "'a smf" and e
      using that by (auto simp: deletions_accepted_def Dispatch_def deletion_response_ok)
  qed
  then show ?thesis using take by (auto simp: deletions_accepted_def)
qed

lemma RemoveSMContext_removes:
  "RemoveSMContext ref pl = Ok pl' \<Longrightarrow> smContextPool pl' = (smContextPool pl)(ref := None)" "RemoveSMContext ref pl \<noteq> Err e"
proof -
  have "ReleaseUeIpAddr c a \<noteq> Err e'" for c a e'
    by (auto simp: ReleaseUeIpAddr_def Release_def IPAddrOffset_def split: option.splits if_splits result.splits)
  moreover have "bind_res m (\<lambda>(c, a). Ok (h c a)) = Err e \<longleftrightarrow> m = Err e" for m :: "(sm_context \<times> ip_allocator) result" and h :: "sm_context \<Rightarrow> ip_allocator \<Rightarrow> sm_pools"
    by (cases m) auto
  ultimately show "RemoveSMContext ref pl \<noteq> Err e"
    by (auto simp: RemoveSMContext_def Let_def split: option.splits)
  show "RemoveSMContext ref pl = Ok pl' \<Longrightarrow> smContextPool pl' = (smContextPool pl)(ref := None)"
    by (auto simp: RemoveSMContext_def Let_def decSMContextActive_def split: option.splits result.splits if_splits)
qed

lemma removed_from_pool:
  assumes "remove_self t = Some (Ok (), s)"
  shows "httpRsp s = httpRsp t \<and> smContextPool (spools (world s)) (Ref (ctx (sess (world t)))) = None"
proof -
  let ?ref = "Ref (ctx (sess (world t)))"
  from log_error_Ok[OF assms[unfolded remove_self_def]] obtain r where r: "remove_context ?ref (world t) = (r, world s)" "s = t\<lparr>world := world s\<rparr>" by blast
  obtain pl where pl: "RemoveSMContext ?ref (full_pools (world t)) = Ok pl" "world s = put_pools pl (world t)"
    using r(1) RemoveSMContext_removes(2)[of ?ref "full_pools (world t)"] assms
    by (cases "RemoveSMContext ?ref (full_pools (world t))") (auto simp: remove_context_def remove_self_def log_error_def on_world_def logged_def)
  have "httpRsp s = httpRsp t" by (subst r(2)) simp
  then show ?thesis using RemoveSMContext_removes(1)[OF pl(1)] pl(2) by (simp add: put_pools_def)
qed

text \<open>Steps that do not wait treat the events to come alike.\<close>

definition later :: "pfcp_event list \<Rightarrow> ('a result \<times> 'g procedure) option \<Rightarrow> ('a result \<times> 'g procedure) option" where
  "later a = map_option (\<lambda>(r, s). (r, s\<lparr>arrivals := a\<rparr>))"

lemma later_steps:
  "on_world f (s\<lparr>arrivals := a\<rparr>) = later a (on_world f s)" "log_error h (s\<lparr>arrivals := a\<rparr>) = later a (log_error h s)"
  "change k (s\<lparr>arrivals := a\<rparr>) = (change k s)\<lparr>arrivals := a\<rparr>" "to_state st (s\<lparr>arrivals := a\<rparr>) = (to_state st s)\<lparr>arrivals := a\<rparr>"
  "new_procedure evs' w = (new_procedure evs w)\<lparr>arrivals := evs'\<rparr>"
  by (auto simp: later_def on_world_def log_error_def change_def to_state_def new_procedure_def split: prod.splits)

lemma later_andthen:
  assumes "\<And>x s. f x (s\<lparr>arrivals := a\<rparr>) = later a (f x s)"
  shows "andthen (later a m) f = later a (andthen m f)"
  using assms by (cases m; cases "fst (the m)"; cases "the m") (auto simp: later_def)

lemma release_tunnel_later:
  fixes L :: "('p, 'g) lib" and s :: "'g procedure"
  shows "release_tunnel L (s\<lparr>arrivals := a\<rparr>) = later a (release_tunnel L s)"
proof -
  let ?x = "sess (world s)"
  have fin: "andthen (on_world h (t\<lparr>arrivals := a\<rparr>)) (\<lambda>_ s. Some (Ok True, change j s))
      = later a (andthen (on_world h t) (\<lambda>_ s. Some (Ok True, change j s)))" for h j and t :: "'g procedure"
    by (simp only: later_steps) (rule later_andthen, simp add: later_def later_steps)
  show ?thesis
    by (cases "releaseTunnel (gens L) (resolve (pfcp L)) (bound L) (map_option pool_paths (Tunnel ?x)) (topology L) (dps ?x)")
      (auto simp: release_tunnel_def Let_def later_steps(3) fin[unfolded later_def] later_def split: option.splits result.splits prod.splits)
qed

lemma release_steps:
  assumes "log_error release_address (new_procedure evs w) = Some (Ok (), s0)" and "release_tunnel L (to_state SmStatePfcpRelease s0) = Some (Ok True, s1)"
  shows "HandlePDUSessionSMContextRelease L a w = andthen (wait_status (pfcp L) (s1\<lparr>arrivals := a\<rparr>)) (\<lambda>st s. andthen (answer_release L st s) (\<lambda>_ s. remove_self s))"
proof -
  have "log_error release_address (new_procedure a w) = Some (Ok (), s0\<lparr>arrivals := a\<rparr>)"
    using assms(1) by (subst later_steps(5)[of a w evs]) (simp add: later_steps(2) later_def)
  moreover have "release_tunnel L (to_state SmStatePfcpRelease (s0\<lparr>arrivals := a\<rparr>)) = Some (Ok True, s1\<lparr>arrivals := a\<rparr>)"
    using assms(2) by (simp add: later_steps(4) release_tunnel_later later_def)
  ultimately show ?thesis by (simp add: HandlePDUSessionSMContextRelease_def)
qed


section \<open>Telling the mobility function\<close>

text \<open>When the transfer of the messages that establish a session fails, the SMF reports success to the
  state machine; only an answer that the message was not transferred is reported as an error.  The policy
  decision is committed exactly when the transfer succeeded, and is dropped in the other cases; without a
  pending decision a successful transfer panics.\<close>

lemma transfer_outcome:
  assumes "SendPduSessN1N2Transfer L amf success x = ((Some q, r), x')"
  shows "(amf q = TransferFailed \<longrightarrow> r = Ok ()) \<and> (amf q = N1_MSG_NOT_TRANSFERRED \<longrightarrow> (\<exists>e. r = Err e))
    \<and> (amf q \<noteq> Transferred \<longrightarrow> SmPolicyData (ctx x') = SmPolicyData (ctx x) \<and> SmPolicyUpdates (ctx x') = tl (SmPolicyUpdates (ctx x)))
    \<and> (amf q = Transferred \<longrightarrow> (case SmPolicyUpdates (ctx x) of
          [] \<Rightarrow> \<exists>e. r = Panic e
        | u # us \<Rightarrow> r = Ok () \<and> SmPolicyData (ctx x') = CommitSmPolicyDecision (SmPolicyData (ctx x)) u \<and> SmPolicyUpdates (ctx x') = us))"
proof -
  have commit: "CommitSmPolicyDecision_ctx False c = Ok (c\<lparr>SmPolicyUpdates := tl (SmPolicyUpdates c)\<rparr>)" for c
    by (cases "SmPolicyUpdates c") (simp_all add: CommitSmPolicyDecision_ctx_def)
  obtain n1 n2 where q: "q = \<lparr>tSession = PDUSessionID (ctx x), tN1 = n1, tN2 = n2\<rparr>"
    and run: "(case CommitSmPolicyDecision_ctx (amf q = Transferred) (ctx x) of
           Ok c \<Rightarrow> ((Some q, if amf q = N1_MSG_NOT_TRANSFERRED then Err ''N1N2MessageTransfer failure'' else Ok ()), x\<lparr>ctx := c\<rparr>)
         | Err e \<Rightarrow> ((Some q, Err e), x)
         | Panic e \<Rightarrow> ((Some q, Panic e), x)) = ((Some q, r), x')"
    using assms unfolding SendPduSessN1N2Transfer_def Let_def by (auto split: result.splits prod.splits)
  show ?thesis
  proof (cases "amf q = Transferred")
    case True
    then show ?thesis using run by (cases "SmPolicyUpdates (ctx x)") (auto simp: CommitSmPolicyDecision_ctx_def nth_res_def)
  next
    case False
    then show ?thesis using run by (cases "amf q") (auto simp: commit)
  qed
qed

section \<open>Samples\<close>

definition sample_lib :: "(byte list, id_pool) lib" where
  "sample_lib = \<lparr>pfcp = sample_env, ngap = sample_ngap, nas = nas_24501, net = (\<lambda>_. None), gsm = sample_gsm, config = sample_config,
     gens = pool_G, topology = two_upf_ids, bound = 2\<rparr>"

definition no_request :: update_request where
  "no_request = \<lparr>reqN1 = None, reqN2 = [], reqUpCnxState = '''', reqHoState = '''', reqCause = '''', reqN2SmInfoType = ''''\<rparr>"


theorem paging_failure_never_completes_witness:
  "\<forall>s. HandlePduSessN1N2TransFailInd sample_lib [ModificationResponseEv 1 (Some 1) (Some (Ok 1))] (two_upf_smf SmStateActive) \<noteq> Some (Ok (), s)"
proof -
  have "deaf (two_upf_smf SmStateActive)" by (simp add: deaf_def two_upf_smf_def sample_session_def sample_pools_def)
  then show ?thesis using paging_failure_never_completes[of "two_upf_smf SmStateActive" "[ModificationResponseEv 1 (Some 1) (Some (Ok 1))]" sample_lib]
    by (simp add: upf_answer_def)
qed

theorem transfer_outcome_witness:
  "\<exists>q x'. SendPduSessN1N2Transfer sample_lib (\<lambda>_. TransferFailed) False sample_session = ((Some q, Ok ()), x')"
proof -
  obtain q r x' where run: "SendPduSessN1N2Transfer sample_lib (\<lambda>_. TransferFailed) False sample_session = ((Some q, r), x')"
    by (simp add: SendPduSessN1N2Transfer_def sample_lib_def BuildGSMPDUSessionEstablishmentReject_def sample_gsm_def Let_def CommitSmPolicyDecision_ctx_def)
  then show ?thesis using transfer_outcome[OF run] by auto
qed

text \<open>A session over two UPFs, of which the release reaches the first.\<close>

definition releasing :: "id_pool smf" where
  "releasing = (two_upf_smf SmStateActive)\<lparr>spools := sample_pools\<lparr>seidSMContextMap := [1 \<mapsto> 0], smContextPool := [Ref sample_context \<mapsto> 0]\<rparr>,
     sess := sample_session\<lparr>ctx := sample_context\<lparr>PDUAddress := None\<rparr>, Tunnel := Some (Some [(1, fst two_node_path)]),
       dps := (snd two_node_path)\<lparr>sessions := [(''10.0.0.1'', pfcp_of ''10.0.0.1'' 1 11)]\<rparr>\<rparr>\<rparr>"

lemma releasing_tunnel:
  "\<exists>d. releaseTunnel pool_G NodeIdValue 2 (Some [fst two_node_path]) two_upf_ids (dps (sess releasing)) =
     Some (Ok (Some \<lparr>PendingUPF = [''10.0.0.1''], DeletionRequests = [NewNodeID ''10.0.0.1'']\<rparr>), d) \<and> sessions d = sessions (dps (sess releasing))"
proof -
  let ?d = "dps (sess releasing)" let ?s = "clear_downlink 0 ?d"
  have d: "?d = (snd two_node_path)\<lparr>sessions := [(''10.0.0.1'', pfcp_of ''10.0.0.1'' 1 11)]\<rparr>" by (simp add: releasing_def)
  have deact: "DeactivateTunnelAndPDR pool_G NodeIdValue (Suc 1) (fst two_node_path) ?d = Some (Ok (), fst two_node_path\<lparr>Activated := False\<rparr>, ?s)"
    using DeactivateUlDl_no_pdrs[of 0 ?d pool_G NodeIdValue 1 NewDataPath] by (simp add: d two_node_path_def tunnel_pdrs_def tunnel_def)
  have walk: "walk (Suc 1) (FirstDPNode (fst two_node_path)) ?s = Some [0]"
    by (simp add: d two_node_path_def clear_downlink_def upd_dpn_def Next_def empty_tunnel_def)
  have upf: "the_upf 0 ?s = Ok (0, sample_upf)" by (simp add: d the_upf_def two_node_path_def clear_downlink_def upd_dpn_def empty_dps_def)
  have id: "NodeID sample_upf = NewNodeID ''10.0.0.1''" by (simp add: sample_upf_def NewUPF_def)
  have "release_targets NodeIdValue [0] [] two_upf_ids ?s = Ok ([NodeID sample_upf], [''upf-1''], two_upf_ids)"
    by (simp add: upf GetUPFID_def two_upf_ids_def)
  then have "releaseTunnel pool_G NodeIdValue (Suc 1) (Some [fst two_node_path]) two_upf_ids ?d =
     Some (Ok (Some \<lparr>PendingUPF = [''10.0.0.1''], DeletionRequests = [NewNodeID ''10.0.0.1'']\<rparr>), ?s)"
    using deact walk upf sample_addresses(1) by (simp add: releaseTunnel_def id sample_env_def del: walk.simps release_targets.simps)
  then show ?thesis by (simp add: numeral_2_eq_2 clear_downlink_def upd_dpn_def)
qed

lemma releasing_sent:
  "\<exists>s0 s1. log_error release_address (new_procedure [] releasing) = Some (Ok (), s0) \<and> release_tunnel sample_lib (to_state SmStatePfcpRelease s0) = Some (Ok True, s1)
     \<and> own (world s1) 1 \<and> seid_upf sample_env 1 (dps (sess (world s1))) = ''10.0.0.1'' \<and> Pending (sess (world s1)) = [''10.0.0.1'']
     \<and> chan (sess (world s1)) = [] \<and> State (ctx (sess (world s1))) = SmStatePfcpRelease \<and> \<not> LocalPurged (sess (world s1))"
proof -
  let ?pl = "spools releasing" and ?dnn = "DNNInfo (ctx (sess releasing))"
  let ?start = "(new_procedure [] releasing)\<lparr>world := releasing\<lparr>spools := ?pl\<lparr>allocators := (allocators ?pl)(?dnn := allocators ?pl ?dnn)\<rparr>\<rparr>\<rparr>"
  have E: "pfcp sample_lib = sample_env" "resolve sample_env = NodeIdValue" "gens sample_lib = pool_G" "topology sample_lib = two_upf_ids" "bound sample_lib = 2"
    by (simp_all add: sample_lib_def sample_env_def)
  have addr: "PDUAddress (ctx (sess releasing)) = None" by (simp add: releasing_def)
  have s0: "log_error release_address (new_procedure [] releasing) = Some (Ok (), ?start)"
    using addr by (simp add: log_error_def on_world_def logged_def release_address_def new_procedure_def ReleaseUeIpAddr_def Let_def)
  obtain d where d: "releaseTunnel pool_G NodeIdValue 2 (Some [fst two_node_path]) two_upf_ids (dps (sess releasing)) =
     Some (Ok (Some \<lparr>PendingUPF = [''10.0.0.1''], DeletionRequests = [NewNodeID ''10.0.0.1'']\<rparr>), d)" "sessions d = [(''10.0.0.1'', pfcp_of ''10.0.0.1'' 1 11)]"
    using releasing_tunnel by (auto simp: releasing_def)
  let ?mid = "change (\<lambda>x. x\<lparr>dps := d, Pending := [''10.0.0.1'']\<rparr>) (to_state SmStatePfcpRelease ?start)"
  have tun: "Tunnel (sess releasing) = Some (Some [(1, fst two_node_path)])" "pool_paths (Some [(1, fst two_node_path)]) = [fst two_node_path]"
    by (simp_all add: releasing_def pool_paths_def)
  have ctx: "pfcp_context sample_env (NewNodeID ''10.0.0.1'') (v\<lparr>pseq := k\<rparr>) = Some (pfcp_of ''10.0.0.1'' 1 11)" if "dps (sess v) = d" for v :: "id_pool smf" and k
    using that by (simp add: pfcp_context_def sample_addresses d(2))
  obtain w where sent: "delete_sessions sample_env [NewNodeID ''10.0.0.1''] (world ?mid) = (Ok (), w)" "spools w = spools (world ?mid)" "self w = self (world ?mid)" "sess w = sess (world ?mid)"
    by (simp add: SendPfcpSessionDeletionRequest_def getSeqNumber_def Let_def ctx SendPfcp_def InsertPfcpTxn_def logged_def) (simp add: sample_env_def)
  let ?final = "change (\<lambda>x. x\<lparr>Tunnel := None\<rparr>) (?mid\<lparr>world := w\<rparr>)"
  have rel: "releaseTunnel (gens sample_lib) (resolve (pfcp sample_lib)) (bound sample_lib) (map_option pool_paths (Tunnel (sess (world (to_state SmStatePfcpRelease ?start)))))
      (topology sample_lib) (dps (sess (world (to_state SmStatePfcpRelease ?start)))) =
      Some (Ok (Some \<lparr>PendingUPF = [''10.0.0.1''], DeletionRequests = [NewNodeID ''10.0.0.1'']\<rparr>), d)"
    unfolding procedure_simps using d(1) tun by (simp add: E)
  have "release_tunnel sample_lib (to_state SmStatePfcpRelease ?start) = Some (Ok True, ?final)"
    unfolding release_tunnel_def Let_def rel using sent(1) by (simp add: on_world_def E(1))
  moreover have "own (world ?final) 1" using sent(2,3)
    by (simp add: own_def change_def set_sess_def to_state_def new_procedure_def releasing_def two_upf_smf_def sample_pools_def)
  moreover have "seid_upf sample_env 1 (dps (sess (world ?final))) = ''10.0.0.1''" using d(2) sent(4)
    by (simp add: seid_upf_def GetNodeIDByLocalSEID_def pfcp_of_def sample_addresses)
  moreover have "Pending (sess (world ?final)) = [''10.0.0.1'']" "State (ctx (sess (world ?final))) = SmStatePfcpRelease" using sent(4)
    by (simp_all add: to_state_def change_def set_sess_def ChangeState_def)
  moreover have "chan (sess (world ?final)) = []" "\<not> LocalPurged (sess (world ?final))" using sent(4)
    by (simp_all add: to_state_def change_def set_sess_def new_procedure_def releasing_def sample_session_def)
  ultimately show ?thesis using s0 by blast
qed


end
