(* ===== verification/Session_Rules.thy ===== *)
theory Session_Rules
  imports Session_Update
begin

text \<open>
  What the procedures of \<^verbatim>\<open>src/producer/n1n2_data_handler.go\<close> and \<^verbatim>\<open>src/producer/pdu_session.go\<close> do to the downlink
  rules of a session: the loops over the rules have one contract, which their bodies fulfil, and the
  procedures that call them inherit it.
\<close>

section \<open>The contract of the loops\<close>

text \<open>The forwarding rule that a detection rule refers to, and the rules of the first nodes of the paths.\<close>

definition link :: "'g dp_state \<Rightarrow> nat \<Rightarrow> nat option" where
  "link d p = Option.bind (pdrs (rules d) p) FAR"

definition downlink_rules :: "(data_path \<Rightarrow> bool) \<Rightarrow> data_path list \<Rightarrow> 'g dp_state \<Rightarrow> (nat \<times> nat) set" where
  "downlink_rules sel ds d = {(n, p). \<exists>e \<in> set ds. sel e \<and> FirstDPNode e = Some n \<and> p \<in> snd ` set (tunnel_pdrs DL n d)}"

definition has_rule :: "(far \<Rightarrow> bool) \<Rightarrow> 'g dp_state \<Rightarrow> nat \<Rightarrow> bool" where
  "has_rule B d f \<longleftrightarrow> (\<exists>y. fars (rules d) f = Some y \<and> B y)"

text \<open>One iteration keeps the nodes, UPFs and links and what earlier iterations achieved.\<close>

definition grows :: "(far \<Rightarrow> bool) \<Rightarrow> 'g marks \<Rightarrow> 'g marks \<Rightarrow> bool" where
  "grows B m m' \<longleftrightarrow> dpnodes (mdps m') = dpnodes (mdps m) \<and> dupfs (mdps m') = dupfs (mdps m) \<and> link (mdps m') = link (mdps m)
     \<and> dom (fars (rules (mdps m'))) = dom (fars (rules (mdps m)))
     \<and> (\<forall>f. has_rule B (mdps m) f \<longrightarrow> has_rule B (mdps m') f) \<and> set (mFars m) \<subseteq> set (mFars m') \<and> set (mPending m) \<subseteq> set (mPending m')"

text \<open>What the iteration for a rule achieves.\<close>

definition marked :: "(node_id \<Rightarrow> ip) \<Rightarrow> (far \<Rightarrow> bool) \<Rightarrow> 'g dp_state \<Rightarrow> nat \<Rightarrow> nat \<Rightarrow> 'g marks \<Rightarrow> bool" where
  "marked rs B d n p m \<longleftrightarrow> (\<forall>f. link d p = Some f \<and> fars (rules d) f \<noteq> None \<longrightarrow> has_rule B (mdps m) f \<and> Some f \<in> set (mFars m)
     \<and> (\<exists>i u. the_upf n d = Ok (i, u) \<and> node_key rs u \<in> set (mPending m)))"

lemma grows_refl [simp]: "grows B m m"
  by (simp add: grows_def)

lemma grows_trans: "grows B m m' \<Longrightarrow> grows B m' m'' \<Longrightarrow> grows B m m''"
  unfolding grows_def by auto

lemma grows_marked: "grows B m m' \<Longrightarrow> marked rs B d n p m \<Longrightarrow> marked rs B d n p m'"
  unfolding grows_def marked_def by blast

lemma grows_same:
  assumes "grows B m m'"
  shows "marked rs B (mdps m') n p = marked rs B (mdps m) n p" "tunnel_pdrs dir n (mdps m') = tunnel_pdrs dir n (mdps m)"
proof -
  have "(fars (rules (mdps m')) f = None) = (fars (rules (mdps m)) f = None)" for f using assms unfolding grows_def by (metis domIff)
  moreover have n: "dpnodes (mdps m') = dpnodes (mdps m)" "dupfs (mdps m') = dupfs (mdps m)" "link (mdps m') = link (mdps m)"
    using assms by (simp_all add: grows_def)
  moreover have "the_upf n (mdps m') = the_upf n (mdps m)" unfolding the_upf_def n ..
  ultimately show "marked rs B (mdps m') n p = marked rs B (mdps m) n p" by (simp add: fun_eq_iff marked_def)
  show "tunnel_pdrs dir n (mdps m') = tunnel_pdrs dir n (mdps m)" using assms by (simp add: grows_def tunnel_pdrs_def)
qed

locale marking =
  fixes mark :: "nat \<Rightarrow> nat \<Rightarrow> 'g marks \<Rightarrow> unit result \<times> 'g marks" and rs :: "node_id \<Rightarrow> ip" and B :: "far \<Rightarrow> bool"
  assumes step: "mark n p m = (Ok (), m') \<Longrightarrow> grows B m m' \<and> marked rs B (mdps m) n p m'"
begin

lemma node_marked:
  assumes "each_pdr (mark n) ps m = (Ok (), m')"
  shows "grows B m m' \<and> (\<forall>p \<in> snd ` set ps. marked rs B (mdps m) n p m')"
proof -
  have "grows B m m' \<and> (\<forall>p. marked rs B (mdps m) n p m \<or> p \<in> snd ` set ps \<longrightarrow> marked rs B (mdps m) n p m')"
  proof (rule each_pdr_rule[OF assms, where I = "grows B m" and Q = "marked rs B (mdps m) n"])
    show "grows B m t' \<and> marked rs B (mdps m) n p t'" if "grows B m t" "mark n p t = (Ok (), t')" for p t t'
      using step[OF that(2)] grows_trans[OF that(1)] by (simp add: grows_same(1)[OF that(1)])
    show "marked rs B (mdps m) n p t'" if "grows B m t" "mark n q t = (Ok (), t')" "marked rs B (mdps m) n p t" for p q t t'
      using step[OF that(2)] grows_marked that(3) by blast
  qed simp
  then show ?thesis by blast
qed

lemma paths_marked:
  assumes "mark_paths mark sel ds m = (Ok (), m')"
  shows "grows B m m' \<and> (\<forall>(n, p) \<in> downlink_rules sel ds (mdps m). marked rs B (mdps m) n p m')"
proof -
  let ?Q = "\<lambda>n t. \<forall>p \<in> snd ` set (tunnel_pdrs DL n (mdps m)). marked rs B (mdps m) n p t"
  have "grows B m m' \<and> (\<forall>n. ?Q n m \<or> (\<exists>d \<in> set ds. sel d \<and> FirstDPNode d = Some n) \<longrightarrow> ?Q n m')"
  proof (rule each_path_rule[OF assms[unfolded mark_paths_def], where I = "grows B m" and Q = ?Q])
    show "grows B m t' \<and> ?Q n t'" if g: "grows B m t" and run: "each_pdr (mark n) (tunnel_pdrs DL n (mdps t)) t = (Ok (), t')" for n t t'
    proof -
      have "grows B t t' \<and> (\<forall>p \<in> snd ` set (tunnel_pdrs DL n (mdps t)). marked rs B (mdps t) n p t')" using node_marked[OF run] .
      then show ?thesis using grows_trans[OF g] by (simp add: grows_same[OF g])
    qed
    show "?Q n t'" if "grows B m t" "each_pdr (mark k) (tunnel_pdrs DL k (mdps t)) t = (Ok (), t')" "?Q n t" for n k t t'
      using grows_marked[OF node_marked[OF that(2), THEN conjunct1]] that(3) by simp
  qed simp
  then show ?thesis by (auto simp: downlink_rules_def)
qed

text \<open>A procedure that runs the loop and asks the UPFs.\<close>

lemma procedure_run:
  assumes "mark_downlink mark sel ds s = Some (Ok r, s')"
  obtains m where "mark_paths mark sel ds \<lparr>mdps = dps (sess (world s)), mPending = [], mPdrs = [], mFars = []\<rparr> = (Ok (), m)"
    "r = (mPdrs m, mFars m)" "s' = change (\<lambda>x. x\<lparr>dps := mdps m, Pending := mPending m\<rparr>) s"
  using assms by (cases "fst (mark_paths mark sel ds \<lparr>mdps = dps (sess (world s)), mPending = [], mPdrs = [], mFars = []\<rparr>)")
    (auto simp: mark_downlink_def split: prod.splits)

lemma procedure_links:
  assumes "mark_downlink mark sel ds s = Some (Ok r, s')"
  shows "dpnodes (dps (sess (world s'))) = dpnodes (dps (sess (world s))) \<and> link (dps (sess (world s'))) = link (dps (sess (world s)))"
  using assms by (rule procedure_run) (use paths_marked in \<open>fastforce simp: grows_def\<close>)

lemma procedure_marked:
  assumes "mark_downlink mark sel ds s = Some (Ok r, s')"
  shows "\<forall>(n, p) \<in> downlink_rules sel ds (dps (sess (world s))). \<forall>f. link (dps (sess (world s))) p = Some f \<and> fars (rules (dps (sess (world s)))) f \<noteq> None \<longrightarrow>
      has_rule B (dps (sess (world s'))) f \<and> Some f \<in> set (snd r)
      \<and> (\<exists>i u. the_upf n (dps (sess (world s))) = Ok (i, u) \<and> node_key rs u \<in> set (Pending (sess (world s'))))"
proof -
  obtain m where m: "mark_paths mark sel ds \<lparr>mdps = dps (sess (world s)), mPending = [], mPdrs = [], mFars = []\<rparr> = (Ok (), m)"
    "r = (mPdrs m, mFars m)" "s' = change (\<lambda>x. x\<lparr>dps := mdps m, Pending := mPending m\<rparr>) s"
    using assms by (rule procedure_run)
  from paths_marked[OF m(1)] show ?thesis by (auto simp: m(2,3) marked_def)
qed

end

section \<open>The bodies of the loops\<close>

lemma touch_simps [simp]:
  "dpnodes (touch_far h f d) = dpnodes d" "dupfs (touch_far h f d) = dupfs d" "pdrs (rules (touch_far h f d)) = pdrs (rules d)" "link (touch_far h f d) = link d"
  "dpnodes (touch_pdr p d) = dpnodes d" "dupfs (touch_pdr p d) = dupfs d" "fars (rules (touch_pdr p d)) = fars (rules d)" "link (touch_pdr p d) = link d"
  "fars (rules d) f = Some y \<Longrightarrow> fars (rules (touch_far h f d)) = (fars (rules d))(f \<mapsto> (h y)\<lparr>FarState := RULE_UPDATE\<rparr>)"
proof -
  show "link (touch_pdr p d) = link d"
  proof
    show "link (touch_pdr p d) q = link d q" for q
      by (cases "pdrs (rules d) q"; cases "p = q") (simp_all add: touch_pdr_def set_pdr_def link_def)
  qed
qed (simp_all add: touch_far_def touch_pdr_def set_far_def set_pdr_def link_def fun_eq_iff)

lemma the_upf_touch [simp]: "the_upf n (touch_far h f d) = the_upf n d" "the_upf n (touch_pdr p d) = the_upf n d"
  by (simp_all add: the_upf_def split: option.splits)

lemma await_node_Ok:
  "await_node rs n m = (Ok (), m') \<longleftrightarrow> (\<exists>i u. the_upf n (mdps m) = Ok (i, u) \<and> m' = m\<lparr>mPending := List.insert (node_key rs u) (mPending m)\<rparr>)"
  by (cases "the_upf n (mdps m)") (auto simp: await_node_def)

lemma far_of_link: "far_of p d = Some (f, y) \<longleftrightarrow> link d p = Some f \<and> fars (rules d) f = Some y"
  by (auto simp: far_of_Some link_def bind_eq_Some_conv)

text \<open>An iteration that changes one forwarding rule, collects it and awaits the UPF of its node.\<close>

lemma marks_step:
  assumes "far_of p (mdps m) = Some (f, y)" and "the_upf n (mdps m) = Ok (i, u)"
    and "mPending m' = List.insert (node_key rs u) (mPending m)" "mFars m' = mFars m @ [Some f]"
    and "dpnodes (mdps m') = dpnodes (mdps m)" "dupfs (mdps m') = dupfs (mdps m)" "link (mdps m') = link (mdps m)"
    and "fars (rules (mdps m')) = (fars (rules (mdps m)))(f \<mapsto> z)" "B z"
  shows "grows B m m' \<and> marked rs B (mdps m) n p m'"
proof -
  have f: "link (mdps m) p = Some f" "fars (rules (mdps m)) f = Some y" using assms(1) by (simp_all add: far_of_link)
  have rules: "has_rule B (mdps m') f" "has_rule B (mdps m) f' \<Longrightarrow> has_rule B (mdps m') f'" for f'
    using assms(8,9) by (auto simp: has_rule_def)
  have "grows B m m'" using assms(3-8) f(2) rules(2) by (auto simp: grows_def)
  moreover have "marked rs B (mdps m) n p m'" using assms(2-4) f(1) rules(1) by (auto simp: marked_def)
  ultimately show ?thesis ..
qed

lemma unmarked_step:
  assumes "far_of p (mdps m) = None"
  shows "grows B m m \<and> marked rs B (mdps m) n p m"
proof -
  have "link (mdps m) p = Some f \<Longrightarrow> fars (rules (mdps m)) f = None" for f using assms far_of_link[of p "mdps m" f] by (cases "fars (rules (mdps m)) f") auto
  then show ?thesis by (fastforce simp: marked_def)
qed

definition buffered :: "far \<Rightarrow> bool" where
  "buffered y \<longleftrightarrow> \<not> Forw (ApplyAction y) \<and> Buff (ApplyAction y) \<and> Nocp (ApplyAction y) \<and> FarState y = RULE_UPDATE
     \<and> (\<forall>w. ForwardingParameters y = Some w \<longrightarrow> OuterHeaderCreation w = None)"

definition forwards :: "string \<Rightarrow> far \<Rightarrow> bool" where
  "forwards dnn y \<longleftrightarrow> ApplyAction y = only_forward \<and> FarState y = RULE_UPDATE \<and> ForwardingParameters y = Some (access_parameters dnn)"

definition resumes :: "far \<Rightarrow> bool" where
  "resumes y \<longleftrightarrow> ApplyAction y = only_forward \<and> FarState y = RULE_UPDATE"

definition dropped :: "far \<Rightarrow> bool" where
  "dropped y \<longleftrightarrow> ApplyAction y = only_drop \<and> FarState y = RULE_UPDATE"

interpretation forward: marking "mark_forward rs dnn" rs "forwards dnn" for rs dnn
proof (unfold_locales, goal_cases)
  case (1 n p m m')
  then obtain f y where f: "far_of p (mdps m) = Some (f, y)" by (auto simp: mark_forward_def split: option.splits)
  then have far: "fars (rules (mdps m)) f = Some y" by (simp add: far_of_link)
  from 1 f obtain i u where "the_upf n (mdps m) = Ok (i, u)" by (auto simp: mark_forward_def await_node_Ok)
  then show ?case using 1 f far by (intro marks_step[OF f]) (auto simp: mark_forward_def await_node_Ok forwards_def)
qed

interpretation buffer: marking "mark_buffer rs" rs buffered for rs
proof (unfold_locales, goal_cases)
  case (1 n p m m')
  show ?case
  proof (cases "far_of p (mdps m)")
    case None
    then have "m' = m" using 1 by (auto simp: mark_buffer_def split: if_splits)
    then show ?thesis using unmarked_step[OF None] by simp
  next
    case (Some a)
    obtain f y where f: "far_of p (mdps m) = Some (f, y)" using Some by (cases a) auto
    then have far: "fars (rules (mdps m)) f = Some y" "pdrs (rules (mdps m)) p \<noteq> None" by (auto simp: far_of_Some)
    from 1 f far obtain i u where "the_upf n (mdps m) = Ok (i, u)" by (auto simp: mark_buffer_def await_node_Ok elim!: seq_OkE)
    then show ?thesis using 1 f far by (intro marks_step[OF f]) (auto simp: mark_buffer_def await_node_Ok buffered_def elim!: seq_OkE)
  qed
qed

interpretation complete: marking "mark_complete rs" rs resumes for rs
proof (unfold_locales, goal_cases)
  case (1 n p m m')
  show ?case
  proof (cases "far_of p (mdps m)")
    case None
    then show ?thesis using unmarked_step[OF None] 1 by (auto simp: mark_complete_def)
  next
    case (Some a)
    obtain f y where f: "far_of p (mdps m) = Some (f, y)" using Some by (cases a) auto
    then have far: "fars (rules (mdps m)) f = Some y" by (simp add: far_of_link)
    from 1 f obtain i u where "the_upf n (mdps m) = Ok (i, u)" by (auto simp: mark_complete_def await_node_Ok)
    then show ?thesis using 1 f far by (intro marks_step[OF f]) (auto simp: mark_complete_def await_node_Ok resumes_def)
  qed
qed

interpretation drop: marking "mark_drop rs" rs dropped for rs
proof (unfold_locales, goal_cases)
  case (1 n p m m')
  then obtain f y where f: "far_of p (mdps m) = Some (f, y)" by (auto simp: mark_drop_def split: if_splits option.splits)
  then have far: "fars (rules (mdps m)) f = Some y" "pdrs (rules (mdps m)) p \<noteq> None" by (auto simp: far_of_Some)
  from 1 f far obtain i u where "the_upf n (mdps m) = Ok (i, u)" by (auto simp: mark_drop_def await_node_Ok elim!: seq_OkE)
  then show ?case using 1 f far by (intro marks_step[OF f]) (auto simp: mark_drop_def await_node_Ok dropped_def elim!: seq_OkE)
qed

section \<open>Idle sessions\<close>

text \<open>C30: When the user plane of a session is deactivated without error, every downlink rule of every path
  stops forwarding, buffers and notifies, and has lost the tunnel of the access network; each of these rules is
  in the request for the UPF, and the UPF of each node with such a rule is awaited.\<close>

theorem deactivation_buffers:
  assumes "HandleUpCnxState L req s = Some (Ok (), s')" and "reqUpCnxState req = ''DEACTIVATED''" and "Tunnel (sess (world s)) = Some pool"
  shows "State (ctx (sess (world s'))) = SmStatePfcpModify \<and> UpCnxState (sess (world s')) = ''DEACTIVATED'' \<and> sendPfcpModify s'
    \<and> (\<forall>(n, p) \<in> downlink_rules (\<lambda>_. True) (pool_paths pool) (dps (sess (world s))). \<forall>f.
        link (dps (sess (world s))) p = Some f \<and> fars (rules (dps (sess (world s)))) f \<noteq> None \<longrightarrow>
        has_rule buffered (dps (sess (world s'))) f \<and> Some f \<in> set (farList (pfcpParam s'))
        \<and> (\<exists>i u. the_upf n (dps (sess (world s))) = Ok (i, u) \<and> node_key (resolve (pfcp L)) u \<in> set (Pending (sess (world s')))))"
proof -
  let ?s = "change (\<lambda>x. x\<lparr>UpCnxState := ''DEACTIVATED''\<rparr>) (respond (\<lambda>r. r\<lparr>rspUpCnxState := ''DEACTIVATED''\<rparr>) (to_state SmStateModify s))"
  obtain r t where t: "mark_downlink (mark_buffer (resolve (pfcp L))) (\<lambda>_. True) (pool_paths pool) ?s = Some (Ok r, t)" and s': "s' = ask_upfs r t"
    using assms by (auto simp: HandleUpCnxState_def Let_def elim!: andthen_OkE)
  obtain d pe where f: "t = change (\<lambda>x. x\<lparr>dps := d, Pending := pe\<rparr>) ?s" using mark_downlink_frame[OF t] by blast
  have same: "dps (sess (world ?s)) = dps (sess (world s))" by simp
  have sess': "dps (sess (world s')) = dps (sess (world t))" "Pending (sess (world s')) = Pending (sess (world t))" "farList (pfcpParam s') = farList (pfcpParam t) @ snd r"
    "UpCnxState (sess (world s')) = UpCnxState (sess (world t))"
    by (simp_all add: s' ask_upfs_def add_param_def to_state_def change_def set_sess_def)
  have "UpCnxState (sess (world t)) = ''DEACTIVATED''" by (simp add: f)
  then show ?thesis using buffer.procedure_marked[OF t, unfolded same] by (auto simp: sess') (auto simp: s')
qed

section \<open>Active sessions\<close>

lemma an_header_keeps:
  assumes "each_path sel (\<lambda>n d. each_pdr (set_an_header a t False) (tunnel_pdrs DL n d) d) ds d = (Ok (), d')"
  shows "\<forall>f. has_rule resumes d f \<longrightarrow> has_rule resumes d' f"
proof -
  let ?I = "\<lambda>u. \<forall>f. has_rule resumes d f \<longrightarrow> has_rule resumes u f"
  have one: "?I u'" if "?I u" "set_an_header a t False p u = (Ok (), u')" for p u u'
    using that(2) by (rule set_an_header_Ok) (use that(1) in \<open>auto simp: has_rule_def resumes_def\<close>)
  have node: "?I u'" if "?I u" "each_pdr (set_an_header a t False) ps u = (Ok (), u')" for ps u u'
    using each_pdr_rule[OF that(2), where I = ?I and Q = "\<lambda>_ _. True"] that(1) one by blast
  show ?thesis using each_path_rule[OF assms, where I = ?I and Q = "\<lambda>_ _. True"] node by blast
qed

lemma setup_transfer:
  assumes "HandlePDUSessionResourceSetupResponseTransfer N b x = (Ok (), x')" and "UnmarshalSetupResponse N b = Ok tnl"
    and "TnlGTP tnl = Some (oct, ad)" "Uint32 oct = Ok teid" and "Tunnel x = Some pool"
  shows "(\<forall>f. has_rule resumes (dps x) f \<longrightarrow> has_rule resumes (dps x') f)
    \<and> (\<forall>f \<in> downlink_fars (pool_paths pool) (dps x). header_set (To4 ad) teid (dps x') f)"
proof -
  let ?d = "(dps x)\<lparr>anIP := ad, anTEID := teid\<rparr>"
  obtain d' where d': "each_path Activated (\<lambda>n d. each_pdr (set_an_header (To4 ad) teid False) (tunnel_pdrs DL n d) d) (pool_paths pool) ?d = (Ok (), d')"
    "dps x' = d'"
    using assms by (auto simp: HandlePDUSessionResourceSetupResponseTransfer_def an_tunnel_def split: prod.splits if_splits elim!: seq_OkE)
  have "has_rule resumes ?d f = has_rule resumes (dps x) f" for f by (simp add: has_rule_def)
  moreover have "downlink_fars (pool_paths pool) ?d = downlink_fars (pool_paths pool) (dps x)" by (simp add: downlink_fars_def tunnel_pdrs_def)
  ultimately show ?thesis using an_header_keeps[OF d'(1)] each_set_an_header[OF d'(1)] d'(2) by simp
qed

lemma setup_transfer_pending: "Pending (snd (HandlePDUSessionResourceSetupResponseTransfer N b x)) = Pending x"
proof -
  have tunnel: "Pending (snd (an_tunnel sw tnl y)) = Pending y" for sw tnl y
    by (auto simp: an_tunnel_def split: option.splits prod.splits intro!: seq_snd[where P = "\<lambda>t. Pending t = Pending y"])
  show ?thesis unfolding HandlePDUSessionResourceSetupResponseTransfer_def
    by (intro seq_snd[where P = "\<lambda>t. Pending t = Pending x"]) (simp_all add: tunnel)
qed

lemma no_err:
  "(\<And>p s e. fst (f p s) \<noteq> Err e) \<Longrightarrow> fst (each_pdr f ps s) \<noteq> Err e"
  "(\<And>n s e. fst (h n s) \<noteq> Err e) \<Longrightarrow> fst (each_path sel h ds s) \<noteq> Err e"
proof -
  have step: "fst (seq m k) \<noteq> Err e" if "\<And>e. fst m \<noteq> Err e" "\<And>x s. fst (k x s) \<noteq> Err e" for m :: "unit result \<times> 's" and k :: "unit \<Rightarrow> 's \<Rightarrow> unit result \<times> 's" and e
    using that by (cases "fst m"; cases m) auto
  show "(\<And>p s e. fst (f p s) \<noteq> Err e) \<Longrightarrow> fst (each_pdr f ps s) \<noteq> Err e"
    by (induction f ps s rule: each_pdr.induct) (simp_all add: step)
  show "(\<And>n s e. fst (h n s) \<noteq> Err e) \<Longrightarrow> fst (each_path sel h ds s) \<noteq> Err e"
    by (induction sel h ds s rule: each_path.induct) (simp_all add: step split: option.splits)
qed

lemma setup_transfer_no_err:
  assumes "UnmarshalSetupResponse N b = Ok tnl" "IsGTPTunnel tnl" "TnlGTP tnl = Some (oct, ad)" "Uint32 oct = Ok teid" "Tunnel x = Some pool"
  shows "fst (HandlePDUSessionResourceSetupResponseTransfer N b x) \<noteq> Err e"
proof -
  let ?run = "each_path Activated (\<lambda>n d. each_pdr (set_an_header (To4 ad) teid False) (tunnel_pdrs DL n d) d) (pool_paths pool) ((dps x)\<lparr>anIP := ad, anTEID := teid\<rparr>)"
  have "fst (set_an_header a t sw p d) \<noteq> Err e'" for a t sw p e' and d :: "'b dp_state"
    by (auto simp: set_an_header_def split: option.splits)
  then have "fst ?run \<noteq> Err e'" for e' by (intro no_err)
  then show ?thesis using assms
    by (cases "fst ?run"; cases ?run) (auto simp: HandlePDUSessionResourceSetupResponseTransfer_def an_tunnel_def)
qed

text \<open>C29: When the access network confirms its tunnel, every downlink rule of the activated paths forwards, and
  only forwards, with a header for the confirmed address and tunnel; the rule is marked for an update and is in
  the request for the UPF, which is awaited.\<close>

theorem setup_response_forwards:
  assumes run: "n2_setup L b pool s = Some (Ok (), s')" and pool: "Tunnel (sess (world s)) = Some pool" "pool \<noteq> None"
    and tnl: "UnmarshalSetupResponse (ngap L) b = Ok tnl" "IsGTPTunnel tnl" "TnlGTP tnl = Some (oct, ad)" "Uint32 oct = Ok teid"
  shows "\<forall>(n, p) \<in> downlink_rules Activated (pool_paths pool) (dps (sess (world s))). \<forall>f.
        link (dps (sess (world s))) p = Some f \<and> fars (rules (dps (sess (world s)))) f \<noteq> None \<longrightarrow>
        has_rule resumes (dps (sess (world s'))) f \<and> header_set (To4 ad) teid (dps (sess (world s'))) f \<and> Some f \<in> set (farList (pfcpParam s'))
        \<and> (\<exists>i u. the_upf n (dps (sess (world s))) = Ok (i, u) \<and> node_key (resolve (pfcp L)) u \<in> set (Pending (sess (world s'))))"
proof -
  let ?s = "to_state SmStateModify s"
  obtain r t u where t: "mark_downlink (mark_forward (resolve (pfcp L)) (dnn_of ?s)) Activated (pool_paths pool) ?s = Some (Ok r, t)"
    and u: "log_error (on_sess (HandlePDUSessionResourceSetupResponseTransfer (ngap L) b)) t = Some (Ok (), u)" and s': "s' = ask_upfs r u"
    using run pool(2) unfolding n2_setup_def Let_def by (auto elim!: andthen_OkE)
  have same: "dps (sess (world ?s)) = dps (sess (world s))" by simp
  note marked = forward.procedure_marked[OF t, unfolded same] and links = forward.procedure_links[OF t, unfolded same]
  have tun: "Tunnel (sess (world t)) = Some pool" "farList (pfcpParam t) = farList (pfcpParam s)" using mark_downlink_frame[OF t] pool(1)
    by (auto simp: to_state_def change_def set_sess_def)
  obtain x' where x': "HandlePDUSessionResourceSetupResponseTransfer (ngap L) b (sess (world t)) = (Ok (), x')" "u = t\<lparr>world := (world t)\<lparr>sess := x'\<rparr>\<rparr>"
    using u setup_transfer_no_err[OF tnl tun(1)]
    by (cases "fst (HandlePDUSessionResourceSetupResponseTransfer (ngap L) b (sess (world t)))"; cases "HandlePDUSessionResourceSetupResponseTransfer (ngap L) b (sess (world t))")
      (auto simp: log_error_def on_world_def on_sess_def logged_def)
  have keep: "Pending x' = Pending (sess (world t))" using setup_transfer_pending[of "ngap L" b "sess (world t)"] x'(1) by simp
  have sess': "dps (sess (world s')) = dps x'" "Pending (sess (world s')) = Pending (sess (world t))" "farList (pfcpParam s') = farList (pfcpParam s) @ snd r"
    by (simp_all add: s' ask_upfs_def add_param_def to_state_def change_def set_sess_def x'(2) keep tun)
  note after = setup_transfer[OF x'(1) tnl(1,3,4) tun(1)]
  show ?thesis
  proof (safe, goal_cases)
    fix n p f y assume np: "(n, p) \<in> downlink_rules Activated (pool_paths pool) (dps (sess (world s)))" and f: "link (dps (sess (world s))) p = Some f" "fars (rules (dps (sess (world s)))) f = Some y"
    then have m: "has_rule (forwards (dnn_of ?s)) (dps (sess (world t))) f" "Some f \<in> set (snd r)"
      "\<exists>i u. the_upf n (dps (sess (world s))) = Ok (i, u) \<and> node_key (resolve (pfcp L)) u \<in> set (Pending (sess (world t)))" using marked by blast+
    obtain e where e: "e \<in> set (pool_paths pool)" "Activated e" "FirstDPNode e = Some n" "p \<in> snd ` set (tunnel_pdrs DL n (dps (sess (world s))))"
      using np by (auto simp: downlink_rules_def)
    have "tunnel_pdrs DL n (dps (sess (world t))) = tunnel_pdrs DL n (dps (sess (world s)))" using links by (simp add: tunnel_pdrs_def)
    moreover obtain x where "pdrs (rules (dps (sess (world t)))) p = Some x" "FAR x = Some f"
      using f(1) links by (metis link_def bind_eq_Some_conv)
    ultimately have "f \<in> downlink_fars (pool_paths pool) (dps (sess (world t)))" unfolding downlink_fars_def using e by (intro CollectI bexI[of _ e] exI[of _ n] exI[of _ p] exI[of _ x]) auto
    then show "has_rule resumes (dps (sess (world s'))) f" "header_set (To4 ad) teid (dps (sess (world s'))) f" "Some f \<in> set (farList (pfcpParam s'))"
      "\<exists>i u. the_upf n (dps (sess (world s))) = Ok (i, u) \<and> node_key (resolve (pfcp L)) u \<in> set (Pending (sess (world s')))"
      using after m by (auto simp: sess' has_rule_def forwards_def resumes_def)
  qed
qed

section \<open>A session with one rule\<close>

definition one_rule :: "id_pool procedure" where
  "one_rule = new_procedure [] (two_upf_smf SmStateActive)"

lemma one_rule_paths:
  "Tunnel (sess (world one_rule)) = Some (Some [(1, NewDataPath\<lparr>FirstDPNode := Some 0, Activated := True, IsDefaultPath := True\<rparr>)])"
  "pool_paths (Some [(1, NewDataPath\<lparr>FirstDPNode := Some 0, Activated := True, IsDefaultPath := True\<rparr>)]) = [NewDataPath\<lparr>FirstDPNode := Some 0, Activated := True, IsDefaultPath := True\<rparr>]"
  by (simp_all add: one_rule_def new_procedure_def two_upf_smf_def sample_session_def pool_paths_def)

lemma one_rule_state:
  "far_of 0 (dps (sess (world one_rule))) = Some (1, sample_far)" "tunnel_pdrs DL 0 (dps (sess (world one_rule))) = [(''default'', 0)]"
  "\<exists>u. the_upf 0 (dps (sess (world one_rule))) = Ok (0, u)"
  by (simp_all add: one_rule_def new_procedure_def two_upf_smf_def sample_dps_def far_of_Some tunnel_pdrs_def tunnel_def the_upf_def)

lemma one_rule_link: "link (dps (sess (world one_rule))) 0 = Some 1" "fars (rules (dps (sess (world one_rule)))) 1 = Some sample_far"
  using one_rule_state(1) by (simp_all add: far_of_link)

lemma one_rule_downlink: "sel (NewDataPath\<lparr>FirstDPNode := Some 0, Activated := True, IsDefaultPath := True\<rparr>) \<Longrightarrow>
    (0, 0) \<in> downlink_rules sel [NewDataPath\<lparr>FirstDPNode := Some 0, Activated := True, IsDefaultPath := True\<rparr>] (dps (sess (world one_rule)))"
  by (simp add: downlink_rules_def one_rule_state(2))

theorem deactivation_buffers_witness:
  "\<exists>s'. HandleUpCnxState sample_lib (no_request\<lparr>reqUpCnxState := ''DEACTIVATED''\<rparr>) one_rule = Some (Ok (), s') \<and> has_rule buffered (dps (sess (world s'))) 1"
proof -
  have pdr: "pdrs (rules (dps (sess (world one_rule)))) 0 \<noteq> None" using one_rule_state(1) by (auto simp: far_of_Some)
  obtain u where u: "the_upf 0 (dps (sess (world one_rule))) = Ok (0, u)" using one_rule_state(3) by blast
  obtain s' where run: "HandleUpCnxState sample_lib (no_request\<lparr>reqUpCnxState := ''DEACTIVATED''\<rparr>) one_rule = Some (Ok (), s')"
    using pdr u by (auto simp: HandleUpCnxState_def no_request_def one_rule_paths mark_downlink_def mark_paths_def one_rule_state(1,2) mark_buffer_def await_node_def finish_def)
  from deactivation_buffers[OF run, of "Some [(1, NewDataPath\<lparr>FirstDPNode := Some 0, Activated := True, IsDefaultPath := True\<rparr>)]"]
  have "has_rule buffered (dps (sess (world s'))) 1"
    using one_rule_downlink[of "\<lambda>_. True"] one_rule_link by (fastforce simp: one_rule_paths no_request_def)
  then show ?thesis using run by blast
qed

theorem setup_response_forwards_witness:
  "\<exists>s'. n2_setup sample_lib [0, 0, 0, 7, 10, 0, 0, 9] (Some [(1, NewDataPath\<lparr>FirstDPNode := Some 0, Activated := True, IsDefaultPath := True\<rparr>)]) one_rule = Some (Ok (), s')
     \<and> has_rule resumes (dps (sess (world s'))) 1 \<and> header_set [10, 0, 0, 9] 7 (dps (sess (world s'))) 1"
proof -
  let ?b = "[0, 0, 0, 7, 10, 0, 0, 9] :: byte list" and ?pool = "Some [(1 :: int, NewDataPath\<lparr>FirstDPNode := Some 0, Activated := True, IsDefaultPath := True\<rparr>)]"
  let ?d = "dps (sess (world one_rule))" and ?h = "\<lambda>y. y\<lparr>ApplyAction := only_forward, ForwardingParameters := Some (access_parameters (dnn_of (to_state SmStateModify one_rule)))\<rparr>"
  let ?d' = "touch_pdr 0 (touch_far ?h 1 ?d)"
  obtain u where u: "the_upf 0 ?d = Ok (0, u)" using one_rule_state(3) by blast
  have same: "link (d\<lparr>anIP := a, anTEID := t\<rparr>) = link d" for a t and d :: "id_pool dp_state" by (simp add: link_def fun_eq_iff)
  have far: "far_of 0 (?d'\<lparr>anIP := a, anTEID := t\<rparr>) = Some (1, (?h sample_far)\<lparr>FarState := RULE_UPDATE\<rparr>)" for a t
    using one_rule_link by (simp add: far_of_link same)
  have pdrs: "tunnel_pdrs DL 0 (?d'\<lparr>anIP := a, anTEID := t\<rparr>) = [(''default'', 0)]" for a t
    using one_rule_state(2) by (simp add: tunnel_pdrs_def)
  have tnl: "UnmarshalSetupResponse (ngap sample_lib) ?b = Ok \<lparr>IsGTPTunnel = True, TnlGTP = Some ([0, 0, 0, 7], [10, 0, 0, 9])\<rparr>" "Uint32 [0, 0, 0, 7] = Ok 7"
    by (simp_all add: sample_lib_def sample_ngap_def Uint32_def)
  let ?s = "to_state SmStateModify one_rule" and ?t = "change (\<lambda>x. x\<lparr>dps := ?d', Pending := [node_key (resolve (pfcp sample_lib)) u]\<rparr>) (to_state SmStateModify one_rule)"
  have mark: "mark_downlink (mark_forward (resolve (pfcp sample_lib)) (dnn_of ?s)) Activated (pool_paths ?pool) ?s = Some (Ok ([0], [Some 1]), ?t)"
    using u by (simp add: one_rule_paths mark_downlink_def mark_paths_def one_rule_state(1,2) mark_forward_def await_node_def)
  obtain d where "set_an_header (To4 [10, 0, 0, 9]) 7 False 0 (?d'\<lparr>anIP := [10, 0, 0, 9], anTEID := 7\<rparr>) = (Ok (), d)"
    unfolding set_an_header_def far by simp
  moreover have "Tunnel (sess (world ?t)) = Some ?pool" by (simp add: one_rule_paths)
  ultimately obtain x' where transfer: "HandlePDUSessionResourceSetupResponseTransfer (ngap sample_lib) ?b (sess (world ?t)) = (Ok (), x')"
    by (simp add: HandlePDUSessionResourceSetupResponseTransfer_def an_tunnel_def tnl one_rule_paths pdrs[unfolded One_nat_def])
  obtain s' where run: "n2_setup sample_lib ?b ?pool one_rule = Some (Ok (), s')"
    unfolding n2_setup_def Let_def mark using transfer by (simp add: mark log_error_def on_world_def on_sess_def logged_def finish_def)
  from setup_response_forwards[OF run one_rule_paths(1) _ tnl(1)] tnl(2)
  have "has_rule resumes (dps (sess (world s'))) 1 \<and> header_set (To4 [10, 0, 0, 9]) 7 (dps (sess (world s'))) 1"
    using one_rule_downlink[of Activated] one_rule_link by (fastforce simp: one_rule_paths)
  then show ?thesis using run by (auto simp: To4_def)
qed

end
