(* ===== verification/Config_Update.thy ===== *)
theory Config_Update
  imports User_Plane N1_Message
begin

text \<open>
  Configuration updates at run time (\<^verbatim>\<open>factory/config.go\<close>, \<^verbatim>\<open>context/config.go\<close>, \<^verbatim>\<open>context/context.go\<close>,
  \<^verbatim>\<open>context/nf_profile.go\<close>).  The management system sends the network slices; they are parsed into a
  configuration, the configuration is compared with the one in force, and the differences are
  applied to the SMF's slices and to its user plane.  The locale \<^verbatim>\<open>config_store\<close> is what the update needs of a
  table of configured items; the slices of the SMF interpret it.  A slice always carries its S-NSSAI.
\<close>

section \<open>The configuration\<close>

record plmn_id =
  Mcc :: string
  Mnc :: string

record snssai_dnn_info_item =
  NsDnn :: string
  NsDnsIPv4 :: string
  NsDnsIPv6 :: string
  UESubnet :: string
  NsMTU :: u16

record snssai_info_item =
  NsSNssai :: snssai
  NsPlmnId :: plmn_id
  NsDnnInfos :: "snssai_dnn_info_item list"

record cfg_up_node = cfg_node +
  CfgDnn :: string

record static_ip_info =
  ImsiIpInfo :: "string go_map"
  StaticDnn :: string

record configuration =
  SNssaiInfo :: "snssai_info_item list"
  CfgUPNodes :: "cfg_up_node go_map"
  CfgLinks :: "cfg_link list"
  CfgEnterpriseList :: "string go_map"

definition no_configuration :: configuration where
  "no_configuration = \<lparr>SNssaiInfo = [], CfgUPNodes = [], CfgLinks = [], CfgEnterpriseList = []\<rparr>"

record update_smf_config =
  DelSNssaiInfo :: "snssai_info_item list option"
  ModSNssaiInfo :: "snssai_info_item list option"
  AddSNssaiInfo :: "snssai_info_item list option"
  UpdDelUPNodes :: "cfg_up_node go_map option"
  UpdModUPNodes :: "cfg_up_node go_map option"
  UpdAddUPNodes :: "cfg_up_node go_map option"
  UpdAddLinks :: "cfg_link list option"
  UpdDelLinks :: "cfg_link list option"
  UpdEnterpriseList :: "string go_map option"

definition no_update :: update_smf_config where
  "no_update = \<lparr>DelSNssaiInfo = None, ModSNssaiInfo = None, AddSNssaiInfo = None, UpdDelUPNodes = None, UpdModUPNodes = None,
     UpdAddUPNodes = None, UpdAddLinks = None, UpdDelLinks = None, UpdEnterpriseList = None\<rparr>"

text \<open>The message of the management system; a field that is a message of its own may be absent.\<close>

record ip_domain =
  DnnName :: string
  DnsPrimary :: string
  UePool :: string
  DomainMtu :: int

record roc_nssai =
  RocSst :: string
  RocSd :: string

record roc_site =
  SitePlmn :: "plmn_id option"
  SiteUpf :: "string option"
  SiteGnb :: "string list"

record network_slice =
  RocName :: string
  RocNssai :: "roc_nssai option"
  RocSite :: "roc_site option"
  DeviceGroup :: "ip_domain list list"

section \<open>Parsing\<close>

text \<open>The part of a name before its last colon and the part after it.\<close>

fun last_colon :: "string \<Rightarrow> (string \<times> string) option" where
  "last_colon [] = None"
| "last_colon (ch # cs) = (case last_colon cs of
      Some (a, b) \<Rightarrow> Some (ch # a, b)
    | None \<Rightarrow> if ch = CHR '':'' then Some ([], cs) else None)"

definition upf_port :: "u16 \<Rightarrow> string \<Rightarrow> string \<times> u16" where
  "upf_port common name = (case last_colon name of
      None \<Rightarrow> (name, common)
    | Some (nodeStr, portStr) \<Rightarrow>
        if portStr = '''' then (name, common)
        else (nodeStr, case ParseUint32 portStr of Ok v \<Rightarrow> ucast v | _ \<Rightarrow> common))"

definition pfcp_port :: "string \<Rightarrow> u16 result" where
  "pfcp_port env = (if env = '''' then Ok 8805 else bind_res (ParseUint32 env) (\<lambda>v. Ok (ucast v)))"

definition parse_nssai :: "roc_nssai \<Rightarrow> snssai" where
  "parse_nssai n = \<lparr>Sd = RocSd n, Sst = signed_take_bit 31 (fst (Atoi (RocSst n)))\<rparr>"

definition dnn_info :: "ip_domain \<Rightarrow> snssai_dnn_info_item" where
  "dnn_info d = \<lparr>NsDnn = DnnName d, NsDnsIPv4 = DnsPrimary d, NsDnsIPv6 = '''', UESubnet = UePool d, NsMTU = word_of_int (DomainMtu d)\<rparr>"

definition slice_upf :: "snssai \<Rightarrow> string \<Rightarrow> u16 \<Rightarrow> ip_domain list \<Rightarrow> cfg_up_node" where
  "slice_upf nssai node port ds =
     \<lparr>CfgType = ''UPF'', CfgNodeID = node, CfgANIP = '''',
      CfgSNssaiInfos = [\<lparr>SNssai = nssai, DnnList = map (\<lambda>d. \<lparr>ItemDnn = DnnName d, DnaiList = [], PduSessionTypes = []\<rparr>) ds\<rparr>],
      CfgInterfaces = map (\<lambda>d. \<lparr>IfNetworkInstance = DnnName d, InterfaceType = N3, Endpoints = [node]\<rparr>) ds,
      CfgPort = port, CfgDnn = ''''\<rparr>"

definition gnb_node :: "string \<Rightarrow> cfg_up_node" where
  "gnb_node name = \<lparr>CfgType = ''AN'', CfgNodeID = name, CfgANIP = '''', CfgSNssaiInfos = [], CfgInterfaces = [],
     CfgPort = 0, CfgDnn = ''''\<rparr>"

fun add_gnbs :: "string \<Rightarrow> string list \<Rightarrow> configuration \<Rightarrow> configuration" where
  "add_gnbs upf [] c = c"
| "add_gnbs upf (gNb # gs) c = add_gnbs upf gs (c\<lparr>CfgLinks := CfgLinks c @ [\<lparr>LinkA = gNb, LinkB = upf\<rparr>],
     CfgUPNodes := AList.update gNb (gnb_node gNb) (CfgUPNodes c)\<rparr>)"

definition parse_slice :: "u16 \<Rightarrow> network_slice \<Rightarrow> configuration \<Rightarrow> configuration result" where
  "parse_slice common ns c = (case (RocNssai ns, RocSite ns) of
      (Some n, Some site) \<Rightarrow>
        (let nssai = parse_nssai n; ds = concat (DeviceGroup ns);
             item = \<lparr>NsSNssai = nssai,
                     NsPlmnId = (case SitePlmn site of Some p \<Rightarrow> p | None \<Rightarrow> \<lparr>Mcc = '''', Mnc = ''''\<rparr>),
                     NsDnnInfos = map dnn_info ds\<rparr>;
             c = c\<lparr>CfgEnterpriseList := AList.update (RocSst n @ RocSd n) (RocName ns) (CfgEnterpriseList c),
                   SNssaiInfo := SNssaiInfo c @ [item]\<rparr> in
         case SiteUpf site of
           None \<Rightarrow> Panic ''nil pointer dereference''
         | Some upfName \<Rightarrow>
             (let (node, port) = upf_port common upfName in
              Ok (add_gnbs node (SiteGnb site) (c\<lparr>CfgUPNodes := AList.update node (slice_upf nssai node port ds) (CfgUPNodes c)\<rparr>))))
    | _ \<Rightarrow> Panic ''nil pointer dereference'')"

fun parse_slices :: "u16 \<Rightarrow> network_slice list \<Rightarrow> configuration \<Rightarrow> configuration result" where
  "parse_slices common [] c = Ok c"
| "parse_slices common (ns # nss) c = bind_res (parse_slice common ns c) (parse_slices common nss)"

definition parseRocConfig :: "string \<Rightarrow> network_slice list \<Rightarrow> configuration result" where
  "parseRocConfig env rsp = bind_res (pfcp_port env) (\<lambda>port. parse_slices port rsp no_configuration)"

section \<open>Comparing configurations\<close>

definition missing :: "('a \<Rightarrow> 'a \<Rightarrow> bool) \<Rightarrow> 'a list \<Rightarrow> 'a list \<Rightarrow> 'a list" where
  "missing cmp sl1 sl2 = filter (\<lambda>x. \<not> list_ex (cmp x) sl2) sl1"

definition compareGenericSlices :: "'a list \<Rightarrow> 'a list \<Rightarrow> ('a \<Rightarrow> 'a \<Rightarrow> bool) \<Rightarrow> bool \<times> 'a list \<times> 'a list" where
  "compareGenericSlices t1 t2 cmp =
     (let del = missing cmp t1 t2; ins = missing cmp t2 t1 in (del = [] \<and> ins = [], ins, del))"

definition compareNsDnn :: "snssai_dnn_info_item \<Rightarrow> snssai_dnn_info_item \<Rightarrow> bool" where
  "compareNsDnn c1 c2 \<longleftrightarrow> c1 = c2"

definition compareUPLinks :: "cfg_link \<Rightarrow> cfg_link \<Rightarrow> bool" where
  "compareUPLinks c1 c2 \<longleftrightarrow> LinkA c1 = LinkA c2 \<and> LinkB c1 = LinkB c2"

definition compareUpfDnn :: "dnn_upf_info_item \<Rightarrow> dnn_upf_info_item \<Rightarrow> bool" where
  "compareUpfDnn c1 c2 \<longleftrightarrow> ItemDnn c1 = ItemDnn c2"

text \<open>Both comparisons of slices are the same two passes: the first collects what is modified and
  what is deleted, the second, with the slices swapped, what is added.\<close>

record 'a slice_diff =
  DiffMatch :: bool
  DiffAdd :: "'a list"
  DiffMod :: "'a list"
  DiffDel :: "'a list"

fun slice_pass :: "bool \<Rightarrow> ('a \<Rightarrow> 'a \<Rightarrow> bool) \<Rightarrow> ('a \<Rightarrow> 'a \<Rightarrow> bool) \<Rightarrow> 'a list \<Rightarrow> 'a list \<Rightarrow> 'a slice_diff \<Rightarrow> 'a slice_diff" where
  "slice_pass first same inst [] sl2 d = d"
| "slice_pass first same inst (s1 # ss) sl2 d = slice_pass first same inst ss sl2
     (case find (same s1) sl2 of
        Some s2 \<Rightarrow> if \<not> inst s1 s2 \<and> first then d\<lparr>DiffMod := DiffMod d @ [s2], DiffMatch := False\<rparr> else d
      | None \<Rightarrow> if first then d\<lparr>DiffMatch := False, DiffDel := DiffDel d @ [s1]\<rparr>
                else d\<lparr>DiffMatch := False, DiffAdd := DiffAdd d @ [s1]\<rparr>)"

definition two_passes :: "('a \<Rightarrow> 'a \<Rightarrow> bool) \<Rightarrow> ('a \<Rightarrow> 'a \<Rightarrow> bool) \<Rightarrow> 'a list \<Rightarrow> 'a list \<Rightarrow> 'a slice_diff" where
  "two_passes same inst sl1 sl2 = slice_pass False same inst sl2 sl1
     (slice_pass True same inst sl1 sl2 \<lparr>DiffMatch = True, DiffAdd = [], DiffMod = [], DiffDel = []\<rparr>)"

definition compareNetworkSliceInstance :: "snssai_info_item \<Rightarrow> snssai_info_item \<Rightarrow> bool" where
  "compareNetworkSliceInstance s1 s2 \<longleftrightarrow>
     fst (compareGenericSlices (NsDnnInfos s1) (NsDnnInfos s2) compareNsDnn) \<and> NsPlmnId s1 = NsPlmnId s2"

definition compareNetworkSlices :: "snssai_info_item list \<Rightarrow> snssai_info_item list \<Rightarrow> snssai_info_item slice_diff" where
  "compareNetworkSlices = two_passes
     (\<lambda>s1 s2. Sd (NsSNssai s1) = Sd (NsSNssai s2) \<and> Sst (NsSNssai s1) = Sst (NsSNssai s2)) compareNetworkSliceInstance"

definition compareUPNetworkSlices :: "snssai_upf_info list \<Rightarrow> snssai_upf_info list \<Rightarrow> snssai_upf_info slice_diff" where
  "compareUPNetworkSlices = two_passes
     (\<lambda>s1 s2. Sd (SNssai s1) = Sd (SNssai s2) \<and> Sst (SNssai s1) = Sst (SNssai s2))
     (\<lambda>s1 s2. fst (compareGenericSlices (DnnList s1) (DnnList s2) compareUpfDnn))"

definition compareUPNode :: "cfg_up_node \<Rightarrow> cfg_up_node \<Rightarrow> bool" where
  "compareUPNode u1 u2 \<longleftrightarrow>
     CfgANIP u1 = CfgANIP u2 \<and> CfgDnn u1 = CfgDnn u2 \<and> CfgNodeID u1 = CfgNodeID u2 \<and> CfgType u1 = CfgType u2 \<and>
     DiffMatch (compareUPNetworkSlices (CfgSNssaiInfos u1) (CfgSNssaiInfos u2))"

text \<open>The range over the map of existing nodes and the range over the map of new nodes.\<close>

fun existing_nodes :: "cfg_up_node go_map \<Rightarrow> cfg_up_node go_map \<Rightarrow> (string \<times> cfg_up_node) slice_diff \<Rightarrow> (string \<times> cfg_up_node) slice_diff" where
  "existing_nodes [] new d = d"
| "existing_nodes ((name, node) # ns) new d = existing_nodes ns new (case map_of new name of
      Some newNode \<Rightarrow> if \<not> compareUPNode node newNode
        then d\<lparr>DiffMod := AList.update name newNode (DiffMod d), DiffMatch := False\<rparr> else d
    | None \<Rightarrow> d\<lparr>DiffDel := AList.update name node (DiffDel d), DiffMatch := False\<rparr>)"

fun new_nodes :: "cfg_up_node go_map \<Rightarrow> cfg_up_node go_map \<Rightarrow> (string \<times> cfg_up_node) slice_diff \<Rightarrow> (string \<times> cfg_up_node) slice_diff" where
  "new_nodes [] existing d = d"
| "new_nodes ((name, node) # ns) existing d = new_nodes ns existing (case map_of existing name of
      Some _ \<Rightarrow> d
    | None \<Rightarrow> d\<lparr>DiffAdd := AList.update name node (DiffAdd d), DiffMatch := False\<rparr>)"

definition compareUPNodesConfigs :: "cfg_up_node go_map \<Rightarrow> cfg_up_node go_map \<Rightarrow> (string \<times> cfg_up_node) slice_diff" where
  "compareUPNodesConfigs existing new =
     new_nodes new existing (existing_nodes existing new \<lparr>DiffMatch = True, DiffAdd = [], DiffMod = [], DiffDel = []\<rparr>)"

definition unless_empty :: "'a list \<Rightarrow> 'a list option \<Rightarrow> 'a list option" where
  "unless_empty xs old = (if length xs > 0 then Some xs else old)"

definition compareAndProcessConfigs :: "configuration \<Rightarrow> configuration \<Rightarrow> update_smf_config \<Rightarrow> update_smf_config" where
  "compareAndProcessConfigs smfCfg newCfg u =
     (let s = compareNetworkSlices (SNssaiInfo smfCfg) (SNssaiInfo newCfg);
          u = (if DiffMatch s then u
               else u\<lparr>DelSNssaiInfo := unless_empty (DiffDel s) (DelSNssaiInfo u), AddSNssaiInfo := unless_empty (DiffAdd s) (AddSNssaiInfo u),
                      ModSNssaiInfo := unless_empty (DiffMod s) (ModSNssaiInfo u)\<rparr>);
          n = compareUPNodesConfigs (CfgUPNodes smfCfg) (CfgUPNodes newCfg);
          u = (if DiffMatch n then u
               else u\<lparr>UpdDelUPNodes := unless_empty (DiffDel n) (UpdDelUPNodes u), UpdAddUPNodes := unless_empty (DiffAdd n) (UpdAddUPNodes u),
                      UpdModUPNodes := unless_empty (DiffMod n) (UpdModUPNodes u)\<rparr>);
          (match, addLinks, delLinks) = compareGenericSlices (CfgLinks smfCfg) (CfgLinks newCfg) compareUPLinks;
          u = (if match then u
               else u\<lparr>UpdAddLinks := unless_empty addLinks (UpdAddLinks u), UpdDelLinks := unless_empty delLinks (UpdDelLinks u)\<rparr>) in
      u\<lparr>UpdEnterpriseList := Some (CfgEnterpriseList newCfg)\<rparr>)"

text \<open>One round of the loop over the messages, up to the trigger for the SMF.  A message that
  cannot be parsed is skipped.\<close>

definition UpdateConfig :: "string \<Rightarrow> network_slice list \<Rightarrow> configuration \<times> update_smf_config \<Rightarrow> (bool \<times> configuration \<times> update_smf_config) result" where
  "UpdateConfig env rsp cu = (case cu of (c, u) \<Rightarrow> (case parseRocConfig env rsp of
      Panic e \<Rightarrow> Panic e
    | Err e \<Rightarrow> Ok (False, c, u)
    | Ok new \<Rightarrow>
        Ok (True, c\<lparr>SNssaiInfo := SNssaiInfo new, CfgUPNodes := CfgUPNodes new, CfgLinks := CfgLinks new\<rparr>, compareAndProcessConfigs c new u)))"

section \<open>The slices of the SMF\<close>

record smf_dnn_info = dnn_net +
  UeIPAllocator :: ip_allocator

record snssai_smf_info =
  SmfSnssai :: snssai
  SmfPlmnId :: plmn_id
  SmfDnnInfos :: "smf_dnn_info go_map"

text \<open>\<^verbatim>\<open>StaticIpInfo\<close> is nil until the configuration file has been read.\<close>

record smf_slices =
  SnssaiInfos :: "snssai_smf_info list"
  StaticIpInfo :: "static_ip_info list option"

definition same_slice :: "snssai_info_item \<Rightarrow> snssai_smf_info \<Rightarrow> bool" where
  "same_slice i s \<longleftrightarrow> Sd (SmfSnssai s) = Sd (NsSNssai i) \<and> Sst (SmfSnssai s) = Sst (NsSNssai i)"

definition getSmfNssaiInfo :: "int \<Rightarrow> string \<Rightarrow> smf_slices \<Rightarrow> snssai_smf_info option" where
  "getSmfNssaiInfo sst sd c = find (\<lambda>s. Sd (SmfSnssai s) = sd \<and> Sst (SmfSnssai s) = sst) (SnssaiInfos c)"

fun remove_slice :: "snssai_info_item \<Rightarrow> snssai_smf_info list \<Rightarrow> snssai_smf_info list option" where
  "remove_slice i [] = None"
| "remove_slice i (s # ss) = (if same_slice i s then Some ss else map_option ((#) s) (remove_slice i ss))"

definition deleteSmfNssaiInfo :: "snssai_info_item \<Rightarrow> smf_slices \<Rightarrow> smf_slices result" where
  "deleteSmfNssaiInfo i c = (case remove_slice i (SnssaiInfos c) of
      Some ss \<Rightarrow> Ok (c\<lparr>SnssaiInfos := ss\<rparr>)
    | None \<Rightarrow> Err ''network slice to be deleted not found'')"

definition GetDnnStaticIpInfo :: "string \<Rightarrow> smf_slices \<Rightarrow> static_ip_info option result" where
  "GetDnnStaticIpInfo dnn c = (case StaticIpInfo c of
      None \<Rightarrow> Panic ''nil pointer dereference''
    | Some infos \<Rightarrow> Ok (find (\<lambda>info. StaticDnn info = dnn) infos))"

definition new_dnn :: "string \<Rightarrow> smf_slices \<Rightarrow> snssai_dnn_info_item \<Rightarrow> smf_dnn_info go_map \<Rightarrow> smf_dnn_info go_map result" where
  "new_dnn env c d m = (case NewIPAllocator env (UESubnet d) of
      Err e \<Rightarrow> Ok m
    | Panic e \<Rightarrow> Panic e
    | Ok allocator \<Rightarrow>
        bind_res (GetDnnStaticIpInfo (NsDnn d) c) (\<lambda>static.
        bind_res (case static of None \<Rightarrow> Ok allocator | Some info \<Rightarrow> ReserveStaticIps (ImsiIpInfo info) allocator) (\<lambda>allocator.
        Ok (AList.update (NsDnn d)
              \<lparr>DnsIPv4Addr = To4 (ParseIP (NsDnsIPv4 d)), DnsIPv6Addr = To4 (ParseIP (NsDnsIPv6 d)),
               MTU = (if NsMTU d \<noteq> 0 then NsMTU d else 1400), UeIPAllocator = allocator\<rparr> m))))"

fun new_dnns :: "string \<Rightarrow> smf_slices \<Rightarrow> snssai_dnn_info_item list \<Rightarrow> smf_dnn_info go_map \<Rightarrow> smf_dnn_info go_map result" where
  "new_dnns env c [] m = Ok m"
| "new_dnns env c (d # ds) m = bind_res (new_dnn env c d m) (new_dnns env c ds)"

definition insertSmfNssaiInfo :: "string \<Rightarrow> snssai_info_item \<Rightarrow> smf_slices \<Rightarrow> smf_slices result" where
  "insertSmfNssaiInfo env i c =
     bind_res (if getSmfNssaiInfo (Sst (NsSNssai i)) (Sd (NsSNssai i)) c \<noteq> None then deleteSmfNssaiInfo i c else Ok c) (\<lambda>c.
     bind_res (new_dnns env c (NsDnnInfos i) []) (\<lambda>m.
     Ok (c\<lparr>SnssaiInfos := SnssaiInfos c @ [\<lparr>SmfSnssai = NsSNssai i, SmfPlmnId = NsPlmnId i, SmfDnnInfos = m\<rparr>]\<rparr>)))"

definition updateSmfNssaiInfo :: "string \<Rightarrow> snssai_info_item \<Rightarrow> smf_slices \<Rightarrow> smf_slices result" where
  "updateSmfNssaiInfo env i c = bind_res (deleteSmfNssaiInfo i c) (insertSmfNssaiInfo env i)"

definition RetrieveDnnInformation :: "snssai \<Rightarrow> string \<Rightarrow> smf_slices \<Rightarrow> smf_dnn_info option" where
  "RetrieveDnnInformation nssai dnn c =
     (case find (\<lambda>i. Sst (SmfSnssai i) = Sst nssai \<and> Sd (SmfSnssai i) = Sd nssai) (SnssaiInfos c) of
        Some i \<Rightarrow> map_of (SmfDnnInfos i) dnn
      | None \<Rightarrow> None)"

section \<open>The profile for the NRF\<close>

definition slice_key :: "snssai \<Rightarrow> string" where
  "slice_key n = fmt_d (Sst n) @ Sd n"

definition SNssaiSmfInfo :: "snssai_smf_info list \<Rightarrow> (snssai \<times> string list) list \<times> plmn_id go_map" where
  "SNssaiSmfInfo infos =
     (map (\<lambda>s. (SmfSnssai s, map fst (SmfDnnInfos s))) infos,
      fold (\<lambda>s m. if Mcc (SmfPlmnId s) \<noteq> '''' \<and> Mnc (SmfPlmnId s) \<noteq> ''''
                  then AList.update (slice_key (SmfSnssai s)) (SmfPlmnId s) m else m) infos [])"

definition SmfPlmnConfig :: "plmn_id go_map \<Rightarrow> plmn_id list option" where
  "SmfPlmnConfig m = (if map snd m \<noteq> [] then Some (map snd m) else None)"

record nf_service =
  ServiceInstanceId :: string
  ServiceName :: string
  ApiFullVersion :: string
  ApiPrefix :: string
  AllowedPlmns :: "plmn_id list option"

record smf_identity =
  NfInstanceID :: string
  URIScheme :: string
  RegisterIPv4 :: string
  SBIPort :: int
  ServiceNameList :: "string list"

record nf_profile =
  NrfSlices :: "(snssai \<times> string list) list"
  SmfPlmnInfo :: "plmn_id go_map"
  NFServices :: "nf_service list"

text \<open>The profile built from the slices; the time of its creation is left out.\<close>

definition SetupNFProfile :: "smf_identity \<Rightarrow> snssai_smf_info list \<Rightarrow> nf_profile" where
  "SetupNFProfile self infos =
     (let (smfInfo, plmns) = SNssaiSmfInfo infos in
      \<lparr>NrfSlices = smfInfo, SmfPlmnInfo = plmns,
       NFServices = map (\<lambda>serviceName.
         \<lparr>ServiceInstanceId = NfInstanceID self @ serviceName, ServiceName = serviceName,
          ApiFullVersion = ''https://'' @ RegisterIPv4 self @ '':'' @ fmt_d (SBIPort self) @ ''/nsmf-pdusession/v1'',
          ApiPrefix = URIScheme self @ ''://'' @ RegisterIPv4 self @ '':'' @ fmt_d (SBIPort self),
          AllowedPlmns = SmfPlmnConfig plmns\<rparr>) (ServiceNameList self)\<rparr>)"

section \<open>Applying an update\<close>

text \<open>An operation that returns an error leaves the table as it is and the error is logged.\<close>

fun log_and_keep :: "'s result \<Rightarrow> 's \<Rightarrow> 's result" where
  "log_and_keep (Ok s') s = Ok s'"
| "log_and_keep (Err e) s = Ok s"
| "log_and_keep (Panic e) s = Panic e"

fun apply_all :: "('i \<Rightarrow> 's \<Rightarrow> 's result) \<Rightarrow> 'i list \<Rightarrow> 's \<Rightarrow> 's result" where
  "apply_all f [] s = Ok s"
| "apply_all f (i # is) s = bind_res (log_and_keep (f i s) s) (apply_all f is)"

definition items :: "'a list option \<Rightarrow> 'a list" where
  "items x = (case x of None \<Rightarrow> [] | Some xs \<Rightarrow> xs)"

definition update_slices :: "string \<Rightarrow> update_smf_config \<Rightarrow> smf_slices \<Rightarrow> smf_slices result" where
  "update_slices env u c =
     bind_res (apply_all deleteSmfNssaiInfo (items (DelSNssaiInfo u)) c) (\<lambda>c.
     bind_res (apply_all (insertSmfNssaiInfo env) (items (AddSNssaiInfo u)) c) (\<lambda>c.
     apply_all (updateSmfNssaiInfo env) (items (ModSNssaiInfo u)) c))"

text \<open>The UPFs of new nodes and of nodes that change their address get the identifiers that
  \<^verbatim>\<open>uuid.New\<close> would give them.\<close>

definition up_changes :: "(string \<Rightarrow> string) \<Rightarrow> (string \<Rightarrow> string) \<Rightarrow> update_smf_config \<Rightarrow> up_update" where
  "up_changes addUid modUid u =
     \<lparr>DelLinks = items (UpdDelLinks u),
      DelUPNodes = map (\<lambda>(name, n). (name, cfg_node.truncate n)) (items (UpdDelUPNodes u)),
      AddUPNodes = map (\<lambda>(name, n). (addUid name, name, cfg_node.truncate n)) (items (UpdAddUPNodes u)),
      ModUPNodes = map (\<lambda>(name, n). (modUid name, name, cfg_node.truncate n)) (items (UpdModUPNodes u)),
      AddLinks = items (UpdAddLinks u)\<rparr>"

record 'g smf_state =
  Slices :: smf_slices
  UserPlane :: "'g upi"
  EnterpriseList :: "string go_map option"
  Identity :: smf_identity
  Profile :: nf_profile

text \<open>The result says whether the SMF has to register again with the NRF.  What has been applied is
  removed from the pending update.\<close>

definition ProcessConfigUpdate ::
    "'g idgen \<Rightarrow> (node_id \<Rightarrow> ip) \<Rightarrow> (string \<Rightarrow> string) \<Rightarrow> (string \<Rightarrow> string) \<Rightarrow> string \<Rightarrow>
     update_smf_config \<Rightarrow> 'g smf_state \<Rightarrow> (bool \<times> update_smf_config \<times> 'g smf_state) result" where
  "ProcessConfigUpdate G resolve addUid modUid env u w =
     bind_res (update_slices env u (Slices w)) (\<lambda>c.
     bind_res (ProcessUserPlaneUpdate G resolve (up_changes addUid modUid u) (UserPlane w)) (\<lambda>t.
     case UpdEnterpriseList u of
       None \<Rightarrow> Panic ''nil pointer dereference''
     | Some e \<Rightarrow>
         (let w = w\<lparr>Slices := c, UserPlane := t, EnterpriseList := Some e\<rparr>;
              send = (DelSNssaiInfo u \<noteq> None \<or> AddSNssaiInfo u \<noteq> None \<or> ModSNssaiInfo u \<noteq> None);
              w = (if send then w\<lparr>Profile := SetupNFProfile (Identity w) (SnssaiInfos c)\<rparr> else w) in
          Ok (send, no_update\<lparr>UpdEnterpriseList := Some e\<rparr>, w))))"

section \<open>What a comparison finds\<close>

lemma find_None_filter: "find P xs = None \<longleftrightarrow> (\<forall>x \<in> set xs. \<not> P x)"
  by (auto simp: find_None_iff)

lemma slice_pass_first:
  "slice_pass True same inst xs ys d =
     d\<lparr>DiffMod := DiffMod d @ List.map_filter (\<lambda>x. case find (same x) ys of Some y \<Rightarrow> if inst x y then None else Some y | None \<Rightarrow> None) xs,
       DiffDel := DiffDel d @ filter (\<lambda>x. find (same x) ys = None) xs,
       DiffMatch := (DiffMatch d \<and> (\<forall>x \<in> set xs. \<exists>y. find (same x) ys = Some y \<and> inst x y))\<rparr>"
  by (induction xs arbitrary: d) (auto simp: map_filter_simps split: option.split)

lemma slice_pass_second:
  "slice_pass False same inst xs ys d =
     d\<lparr>DiffAdd := DiffAdd d @ filter (\<lambda>x. find (same x) ys = None) xs,
       DiffMatch := (DiffMatch d \<and> (\<forall>x \<in> set xs. find (same x) ys \<noteq> None))\<rparr>"
  by (induction xs arbitrary: d) (auto split: option.split)

lemma two_passes_eq:
  "two_passes same inst xs ys =
     \<lparr>DiffMatch = (\<forall>x \<in> set xs. \<exists>y. find (same x) ys = Some y \<and> inst x y) \<and> (\<forall>y \<in> set ys. find (same y) xs \<noteq> None),
      DiffAdd = filter (\<lambda>y. find (same y) xs = None) ys,
      DiffMod = List.map_filter (\<lambda>x. case find (same x) ys of Some y \<Rightarrow> if inst x y then None else Some y | None \<Rightarrow> None) xs,
      DiffDel = filter (\<lambda>x. find (same x) ys = None) xs\<rparr>"
  by (simp add: two_passes_def slice_pass_first slice_pass_second)

lemma two_passes_match:
  "DiffMatch (two_passes same inst xs ys) \<longleftrightarrow>
     DiffAdd (two_passes same inst xs ys) = [] \<and> DiffMod (two_passes same inst xs ys) = [] \<and> DiffDel (two_passes same inst xs ys) = []"
proof -
  have "List.map_filter f xs = [] \<longleftrightarrow> (\<forall>x \<in> set xs. f x = None)" for f :: "'a \<Rightarrow> 'a option"
    by (induction xs) (auto simp: map_filter_simps split: option.splits)
  then show ?thesis
    by (auto simp: two_passes_eq filter_empty_conv split: option.splits if_splits)
      (metis option.exhaust)+
qed

lemma compareGenericSlices_match:
  assumes "\<And>x y. cmp x y \<longleftrightarrow> x = y"
  shows "compareGenericSlices xs ys cmp =
    (set xs = set ys, filter (\<lambda>y. y \<notin> set xs) ys, filter (\<lambda>x. x \<notin> set ys) xs)"
  by (auto simp: compareGenericSlices_def missing_def assms list_ex_iff filter_empty_conv)

text \<open>With items of distinct keys the three lists are the keys that disappear, the keys that appear and
  the new items of the keys that stay with a different content.\<close>

lemma two_passes_sets:
  assumes same: "\<And>x y. same x y \<longleftrightarrow> key x = key y" and d: "distinct (map key new)"
  shows "set (DiffAdd (two_passes same inst old new)) = {y \<in> set new. key y \<notin> key ` set old}"
    and "set (DiffDel (two_passes same inst old new)) = {x \<in> set old. key x \<notin> key ` set new}"
    and "set (DiffMod (two_passes same inst old new)) = {y \<in> set new. \<exists>x \<in> set old. key x = key y \<and> \<not> inst x y}"
proof -
  have found: "find (same x) ys = Some y \<longleftrightarrow> y \<in> set ys \<and> key x = key y" if "distinct (map key ys)" for x y ys
    using that
  proof (induction ys)
    case (Cons z zs)
    from Cons.prems have "key z \<notin> key ` set zs" by simp
    then have "y \<in> set zs \<Longrightarrow> key y \<noteq> key z" by (metis image_eqI)
    with Cons show ?case by (auto simp: same)
  qed simp
  have none: "find (same x) ys = None \<longleftrightarrow> key x \<notin> key ` set ys" for x ys
    by (auto simp: find_None_iff same)
  show "set (DiffAdd (two_passes same inst old new)) = {y \<in> set new. key y \<notin> key ` set old}"
    and "set (DiffDel (two_passes same inst old new)) = {x \<in> set old. key x \<notin> key ` set new}"
    by (auto simp: two_passes_eq none)
  have mod: "(case find (same x) new of Some y \<Rightarrow> if inst x y then None else Some y | None \<Rightarrow> None) = Some z \<longleftrightarrow>
      z \<in> set new \<and> key x = key z \<and> \<not> inst x z" for x z
    using found[OF d, of x z] by (auto split: option.split)
  have filt: "z \<in> set (List.map_filter f xs) \<longleftrightarrow> (\<exists>x \<in> set xs. f x = Some z)" for f :: "'a \<Rightarrow> 'a option" and xs z
    by (induction xs) (auto simp: map_filter_simps split: option.splits)
  show "set (DiffMod (two_passes same inst old new)) = {y \<in> set new. \<exists>x \<in> set old. key x = key y \<and> \<not> inst x y}"
    by (auto simp: two_passes_eq filt mod)
qed

section \<open>Tables of configured items\<close>

text \<open>What an update needs of a table: the items have a key and a value, and on well-formed items the
  three operations return, keep the invariant and change the entry of the key.\<close>

locale config_store =
  fixes inv :: "'s \<Rightarrow> bool" and view :: "'s \<Rightarrow> 'k \<rightharpoonup> 'v" and ok :: "'i \<Rightarrow> bool" and key :: "'i \<Rightarrow> 'k" and val :: "'i \<Rightarrow> 'v"
    and insert_item modify_item delete_item :: "'i \<Rightarrow> 's \<Rightarrow> 's result"
  assumes insert_law: "inv s \<Longrightarrow> ok i \<Longrightarrow> \<exists>s'. insert_item i s = Ok s' \<and> inv s' \<and> view s' = (view s)(key i \<mapsto> val i)"
    and modify_law: "inv s \<Longrightarrow> ok i \<Longrightarrow> key i \<in> dom (view s) \<Longrightarrow>
      \<exists>s'. modify_item i s = Ok s' \<and> inv s' \<and> view s' = (view s)(key i \<mapsto> val i)"
    and delete_law: "inv s \<Longrightarrow> key i \<in> dom (view s) \<Longrightarrow>
      \<exists>s'. delete_item i s = Ok s' \<and> inv s' \<and> view s' = (view s)(key i := None)"
begin

lemma insertions:
  assumes "inv s" and "\<forall>i \<in> set is. ok i"
  shows "\<exists>s'. apply_all insert_item is s = Ok s' \<and> inv s' \<and> view s' = view s ++ map_of (rev (map (\<lambda>i. (key i, val i)) is))"
  using assms
proof (induction "is" arbitrary: s)
  case (Cons i "is")
  then obtain s1 where s1: "insert_item i s = Ok s1" "inv s1" "view s1 = (view s)(key i \<mapsto> val i)"
    using insert_law[of s i] by auto
  with Cons.IH[of s1] Cons.prems show ?case by (auto simp: map_add_def fun_eq_iff split: option.split)
qed simp

lemma modifications:
  assumes "inv s" and "\<forall>i \<in> set is. ok i \<and> key i \<in> dom (view s)"
  shows "\<exists>s'. apply_all modify_item is s = Ok s' \<and> inv s' \<and> view s' = view s ++ map_of (rev (map (\<lambda>i. (key i, val i)) is))"
  using assms
proof (induction "is" arbitrary: s)
  case (Cons i "is")
  then obtain s1 where s1: "modify_item i s = Ok s1" "inv s1" "view s1 = (view s)(key i \<mapsto> val i)"
    using modify_law[of s i] by auto
  have "\<forall>j \<in> set is. ok j \<and> key j \<in> dom (view s1)" using Cons.prems(2) by (auto simp: s1(3))
  from Cons.IH[OF s1(2) this] show ?case using s1 by (auto simp: map_add_def fun_eq_iff split: option.split)
qed simp

lemma deletions:
  assumes "inv s" and "\<forall>i \<in> set is. key i \<in> dom (view s)" and "distinct (map key is)"
  shows "\<exists>s'. apply_all delete_item is s = Ok s' \<and> inv s' \<and> view s' = view s |` (- key ` set is)"
  using assms
proof (induction "is" arbitrary: s)
  case (Cons i "is")
  then obtain s1 where s1: "delete_item i s = Ok s1" "inv s1" "view s1 = (view s)(key i := None)"
    using delete_law[of s i] by auto
  have "\<forall>j \<in> set is. key j \<in> dom (view s1)"
  proof
    fix j assume "j \<in> set is"
    then have "key j \<noteq> key i" using Cons.prems(3) by (metis distinct.simps(2) image_eqI list.map(2) list.set_map)
    with \<open>j \<in> set is\<close> Cons.prems(2) show "key j \<in> dom (view s1)" by (auto simp: s1(3))
  qed
  from Cons.IH[OF s1(2) this] Cons.prems(3) show ?case
    using s1 by (auto simp: restrict_map_def fun_eq_iff)
qed (simp add: restrict_map_def)

definition table :: "'i list \<Rightarrow> 'k \<rightharpoonup> 'v" where
  "table is = map_of (map (\<lambda>i. (key i, val i)) is)"

lemma table_Some: "i \<in> set is \<Longrightarrow> distinct (map key is) \<Longrightarrow> table is (key i) = Some (val i)"
  by (auto simp: table_def comp_def intro!: map_of_is_SomeI)

lemma table_None: "k \<notin> key ` set is \<Longrightarrow> table is k = None"
  by (auto simp: table_def map_of_eq_None_iff)

lemma overrides:
  assumes "set is \<subseteq> set new" and "distinct (map key new)"
  shows "(m ++ map_of (rev (map (\<lambda>i. (key i, val i)) is))) k = (if k \<in> key ` set is then table new k else m k)"
proof (cases "map_of (rev (map (\<lambda>i. (key i, val i)) is)) k")
  case None
  then have "k \<notin> key ` set is" by (auto simp: map_of_eq_None_iff image_image)
  with None show ?thesis by (simp add: map_add_def)
next
  case (Some v)
  then obtain i where "i \<in> set is" "key i = k" "val i = v" by (auto dest!: map_of_SomeD)
  then show ?thesis using Some table_Some[of i new] assms by (auto simp: map_add_def)
qed

lemma diff_applied:
  assumes s: "inv s" "view s = table old" and d: "distinct (map key old)" "distinct (map key new)"
    and ok: "\<forall>i \<in> set new. ok i" and same: "\<And>x y. same x y \<longleftrightarrow> key x = key y"
    and inst: "\<And>x y. x \<in> set old \<Longrightarrow> y \<in> set new \<Longrightarrow> key x = key y \<Longrightarrow> inst x y \<Longrightarrow> val x = val y"
  shows "\<exists>s'. bind_res (apply_all delete_item (DiffDel (two_passes same inst old new)) s) (\<lambda>s.
      bind_res (apply_all insert_item (DiffAdd (two_passes same inst old new)) s)
        (apply_all modify_item (DiffMod (two_passes same inst old new)))) = Ok s' \<and> inv s' \<and> view s' = table new"
proof -
  let ?D = "two_passes same inst old new"
  note sets = two_passes_sets[where same=same and key=key and inst=inst and old=old, OF same d(2)]
  have "distinct (map key (DiffDel ?D))" by (simp add: two_passes_eq distinct_map_filter d(1))
  moreover have "\<forall>i \<in> set (DiffDel ?D). key i \<in> dom (view s)"
    using table_Some[OF _ d(1)] by (auto simp: sets(2) s(2) dom_def)
  ultimately obtain a where a: "apply_all delete_item (DiffDel ?D) s = Ok a" "inv a" "view a = view s |` (- key ` set (DiffDel ?D))"
    using deletions[OF s(1)] by blast
  obtain b where b: "apply_all insert_item (DiffAdd ?D) a = Ok b" "inv b"
      "view b = view a ++ map_of (rev (map (\<lambda>i. (key i, val i)) (DiffAdd ?D)))"
    using insertions[OF a(2), of "DiffAdd ?D"] ok by (auto simp: sets(1))
  have sub: "set (DiffAdd ?D) \<subseteq> set new" "set (DiffMod ?D) \<subseteq> set new" by (auto simp: sets)
  have bk: "view b k = (if k \<in> key ` set (DiffAdd ?D) then table new k else view a k)" for k
    by (simp only: b(3) overrides[OF sub(1) d(2)])
  have "\<forall>i \<in> set (DiffMod ?D). ok i \<and> key i \<in> dom (view b)"
  proof
    fix i assume "i \<in> set (DiffMod ?D)"
    then obtain x where x: "i \<in> set new" "x \<in> set old" "key x = key i" by (auto simp: sets(3))
    then have "table old (key i) = Some (val x)" using table_Some[OF x(2) d(1)] by simp
    moreover have "key i \<notin> key ` set (DiffDel ?D)" using x(1) by (auto simp: sets(2)) (metis image_eqI)
    ultimately have "key i \<in> dom (view b)" using table_Some[OF x(1) d(2)] by (simp add: bk a(3) s(2) dom_def)
    with ok x(1) show "ok i \<and> key i \<in> dom (view b)" by blast
  qed
  from modifications[OF b(2) this] obtain c where c: "apply_all modify_item (DiffMod ?D) b = Ok c" "inv c"
      "view c = view b ++ map_of (rev (map (\<lambda>i. (key i, val i)) (DiffMod ?D)))" by blast
  have "view c k = table new k" for k
  proof -
    have ck: "view c k = (if k \<in> key ` set (DiffMod ?D) then table new k else view b k)" for k
      by (simp only: c(3) overrides[OF sub(2) d(2)])
    show ?thesis
    proof (cases "k \<in> key ` set new")
      case True
      then obtain y where y: "y \<in> set new" "k = key y" by blast
      show ?thesis
      proof (cases "k \<in> key ` set (DiffMod ?D) \<or> k \<in> key ` set (DiffAdd ?D)")
        case False
        then have "y \<notin> set (DiffAdd ?D)" "y \<notin> set (DiffMod ?D)" using y(2) by blast+
        with y(1) obtain x where x: "x \<in> set old" "key x = key y" "inst x y" by (auto simp: sets(1,3))
        with inst[OF x(1) y(1)] have "val x = val y" by blast
        then show ?thesis
          using False table_Some[OF x(1) d(1)] table_Some[OF y(1) d(2)] True x(2) y(2)
          by (auto simp: ck bk a(3) s(2) restrict_map_def sets(2))
      qed (auto simp: ck bk)
    next
      case False
      then have "k \<notin> key ` set (DiffMod ?D)" "k \<notin> key ` set (DiffAdd ?D)" using sub by blast+
      moreover have "k \<in> key ` set (DiffDel ?D) \<or> table old k = None"
      proof (cases "k \<in> key ` set old")
        case True
        then obtain x where "x \<in> set old" "k = key x" by blast
        with False have "x \<in> set (DiffDel ?D)" by (simp add: sets(2))
        with \<open>k = key x\<close> show ?thesis by blast
      qed (simp add: table_None)
      ultimately show ?thesis using False by (auto simp: ck bk a(3) s(2) restrict_map_def table_None)
    qed
  qed
  with a b c show ?thesis by auto
qed

end

section \<open>The slices are such a table\<close>

text \<open>What a configured data network promises: name servers, MTU and the network of its UE addresses.  Of
  several entries for one name the last with a valid network counts.\<close>

definition cfg_dnn_view :: "snssai_dnn_info_item \<Rightarrow> (dnn_net \<times> ip \<times> byte list) option" where
  "cfg_dnn_view d = map_option (\<lambda>(a, m). (\<lparr>DnsIPv4Addr = To4 (ParseIP (NsDnsIPv4 d)), DnsIPv6Addr = To4 (ParseIP (NsDnsIPv6 d)),
     MTU = (if NsMTU d \<noteq> 0 then NsMTU d else 1400)\<rparr>, a, m)) (ParseCIDR (UESubnet d))"

definition cfg_dnns :: "snssai_dnn_info_item list \<Rightarrow> (string \<rightharpoonup> dnn_net \<times> ip \<times> byte list) \<Rightarrow> string \<rightharpoonup> dnn_net \<times> ip \<times> byte list" where
  "cfg_dnns ds m = fold (\<lambda>d m. case cfg_dnn_view d of None \<Rightarrow> m | Some v \<Rightarrow> m(NsDnn d \<mapsto> v)) ds m"

definition dnn_view :: "smf_dnn_info \<Rightarrow> dnn_net \<times> ip \<times> byte list" where
  "dnn_view d = (dnn_net.truncate d, netIP (UeIPAllocator d), netMask (UeIPAllocator d))"

definition dnns_view :: "smf_dnn_info go_map \<Rightarrow> string \<rightharpoonup> dnn_net \<times> ip \<times> byte list" where
  "dnns_view m = map_option dnn_view \<circ> map_of m"

definition cfg_view :: "snssai_info_item \<Rightarrow> plmn_id \<times> (string \<rightharpoonup> dnn_net \<times> ip \<times> byte list)" where
  "cfg_view i = (NsPlmnId i, cfg_dnns (NsDnnInfos i) Map.empty)"

definition slices_view :: "smf_slices \<Rightarrow> snssai \<rightharpoonup> plmn_id \<times> (string \<rightharpoonup> dnn_net \<times> ip \<times> byte list)" where
  "slices_view c = map_of (map (\<lambda>s. (SmfSnssai s, SmfPlmnId s, dnns_view (SmfDnnInfos s))) (SnssaiInfos c))"

definition slices_inv :: "smf_slices \<Rightarrow> bool" where
  "slices_inv c \<longleftrightarrow> distinct (map SmfSnssai (SnssaiInfos c)) \<and> StaticIpInfo c \<noteq> None"

definition v4_slice :: "snssai_info_item \<Rightarrow> bool" where
  "v4_slice i \<longleftrightarrow> (\<forall>d \<in> set (NsDnnInfos i). case ParseCIDR (UESubnet d) of None \<Rightarrow> True | Some (a, m) \<Rightarrow> length a = 4)"

lemma same_slice_iff: "same_slice i s \<longleftrightarrow> SmfSnssai s = NsSNssai i"
  by (auto simp: same_slice_def intro: snssai.equality)

lemma remove_slice_iff: "remove_slice i ss = None \<longleftrightarrow> NsSNssai i \<notin> SmfSnssai ` set ss"
  by (induction ss) (auto simp: same_slice_iff)

lemma remove_slice_Some:
  "distinct (map SmfSnssai ss) \<Longrightarrow> remove_slice i ss = Some ss' \<Longrightarrow> ss' = filter (\<lambda>s. SmfSnssai s \<noteq> NsSNssai i) ss"
proof (induction ss arbitrary: ss')
  case (Cons s ss)
  show ?case
  proof (cases "SmfSnssai s = NsSNssai i")
    case True
    with Cons.prems have "ss' = ss" and n: "NsSNssai i \<notin> SmfSnssai ` set ss" by (auto simp: same_slice_iff)
    from n have "\<forall>s' \<in> set ss. SmfSnssai s' \<noteq> NsSNssai i" by (metis image_eqI)
    with True \<open>ss' = ss\<close> show ?thesis by (simp add: filter_id_conv)
  qed (use Cons in \<open>auto simp: same_slice_iff\<close>)
qed simp

lemma slices_view_dom: "k \<in> dom (slices_view c) \<longleftrightarrow> k \<in> SmfSnssai ` set (SnssaiInfos c)"
  by (simp add: slices_view_def dom_map_of_conv_image_fst image_image)

lemma slices_view_filter:
  "slices_view (c\<lparr>SnssaiInfos := filter (\<lambda>s. SmfSnssai s \<noteq> k) (SnssaiInfos c)\<rparr>) = (slices_view c)(k := None)"
proof -
  have "map_of (map (\<lambda>s. (SmfSnssai s, f s)) (filter (\<lambda>s. SmfSnssai s \<noteq> k) ss)) =
      (map_of (map (\<lambda>s. (SmfSnssai s, f s)) ss))(k := None)" for f :: "snssai_smf_info \<Rightarrow> 'x" and ss
    by (induction ss) (auto simp: fun_eq_iff)
  then show ?thesis by (simp add: slices_view_def)
qed

lemma deleteSmfNssaiInfo_law:
  assumes "slices_inv c" and "NsSNssai i \<in> dom (slices_view c)"
  shows "\<exists>c'. deleteSmfNssaiInfo i c = Ok c' \<and> slices_inv c' \<and> slices_view c' = (slices_view c)(NsSNssai i := None)"
proof -
  from assms(2) obtain ss where r: "remove_slice i (SnssaiInfos c) = Some ss"
    by (cases "remove_slice i (SnssaiInfos c)") (auto simp: slices_view_dom remove_slice_iff)
  with assms(1) have ss: "ss = filter (\<lambda>s. SmfSnssai s \<noteq> NsSNssai i) (SnssaiInfos c)"
    by (auto simp: slices_inv_def dest: remove_slice_Some)
  have "slices_inv (c\<lparr>SnssaiInfos := ss\<rparr>)" using assms(1) by (simp add: slices_inv_def ss distinct_map_filter)
  then show ?thesis using r slices_view_filter[of "NsSNssai i" c] by (simp add: deleteSmfNssaiInfo_def ss)
qed

lemma block_static_v4: "length (netIP a) = 4 \<Longrightarrow> \<exists>b. block_static ips a = Ok b"
proof (induction ips a rule: block_static.induct)
  case (2 imsi s ips a)
  show ?case
  proof (cases "To4 (ParseIP s) = []")
    case False
    then have "length (To4 (ParseIP s)) = 4" by (auto simp: To4_def split: if_splits)
    then have "\<exists>b. BlockIp (To4 (ParseIP s)) a = Ok b \<and> netIP b = netIP a" using "2.prems" by (simp add: BlockIp_def IPAddrOffset_def)
    with 2 False show ?thesis by auto
  qed (use 2 in simp)
qed simp

lemma ReserveStaticIps_v4:
  assumes "length (netIP a) = 4"
  shows "\<exists>b. ReserveStaticIps ips a = Ok b \<and> netIP b = netIP a \<and> netMask b = netMask a"
proof -
  from assms obtain b where "ReserveStaticIps ips a = Ok b"
    using block_static_v4[of "a\<lparr>g := (g a)\<lparr>staticIps := Some ips\<rparr>\<rparr>" ips] by (auto simp: ReserveStaticIps_def)
  then show ?thesis by (auto simp: ReserveStaticIps_def dest!: block_static_frame)
qed

lemma NewIPAllocator_v4:
  assumes "ParseCIDR s = Some (a, m)" and "length a = 4"
  shows "\<exists>p. NewIPAllocator env s = Ok \<lparr>netIP = a, netMask = m, g = p\<rparr>"
proof -
  from assms(1) obtain b n where b: "map2 (AND) b (CIDRMask (int n) (8 * length b)) = a"
    "CIDRMask (int n) (8 * length b) = m" "n \<le> 8 * length b"
    by (auto simp: ParseCIDR_def Let_def split: list.splits option.splits if_splits)
  have "length (CIDRMask (int n) (8 * length b)) \<in> {0, length b}" by (simp add: CIDRMask_def)
  moreover have "length (map2 (AND) b (CIDRMask (int n) (8 * length b))) = 4" using assms(2) b(1) by metis
  ultimately have "length b = 4" by auto
  with b have "maskBits m = int n" "n \<le> 32" using maskBits_CIDRMask[of n] by auto
  then show ?thesis using assms(1) by (simp add: NewIPAllocator_def)
qed

lemma new_dnn_law:
  assumes "StaticIpInfo c \<noteq> None" and "case ParseCIDR (UESubnet d) of None \<Rightarrow> True | Some (a, m) \<Rightarrow> length a = 4"
  shows "\<exists>m'. new_dnn env c d m = Ok m' \<and>
    dnns_view m' = (case cfg_dnn_view d of None \<Rightarrow> dnns_view m
      | Some v \<Rightarrow> (dnns_view m)(NsDnn d \<mapsto> v))"
proof (cases "ParseCIDR (UESubnet d)")
  case None
  then show ?thesis by (simp add: new_dnn_def NewIPAllocator_def cfg_dnn_view_def)
next
  case (Some am)
  obtain a k where am: "am = (a, k)" by (cases am)
  with Some assms(2) have l: "length a = 4" by simp
  obtain p where p: "NewIPAllocator env (UESubnet d) = Ok \<lparr>netIP = a, netMask = k, g = p\<rparr>"
    using NewIPAllocator_v4[of _ a k env] Some am l by blast
  obtain static where static: "GetDnnStaticIpInfo (NsDnn d) c = Ok static"
    using assms(1) by (auto simp: GetDnnStaticIpInfo_def)
  obtain b where b: "(case static of None \<Rightarrow> Ok \<lparr>netIP = a, netMask = k, g = p\<rparr>
      | Some info \<Rightarrow> ReserveStaticIps (ImsiIpInfo info) \<lparr>netIP = a, netMask = k, g = p\<rparr>) = Ok b" "netIP b = a" "netMask b = k"
    using ReserveStaticIps_v4[of "\<lparr>netIP = a, netMask = k, g = p\<rparr>"] l by (cases static) auto
  show ?thesis
    by (auto simp: new_dnn_def p static b cfg_dnn_view_def Some am dnn_view_def dnns_view_def dnn_net.truncate_def update_conv fun_eq_iff)
qed

lemma new_dnns_law:
  assumes "StaticIpInfo c \<noteq> None" and "\<forall>d \<in> set ds. case ParseCIDR (UESubnet d) of None \<Rightarrow> True | Some (a, m) \<Rightarrow> length a = 4"
  shows "\<exists>m'. new_dnns env c ds m = Ok m' \<and> dnns_view m' = cfg_dnns ds (dnns_view m)"
  using assms(2)
proof (induction ds arbitrary: m)
  case (Cons d ds)
  then obtain m1 where m1: "new_dnn env c d m = Ok m1"
    "dnns_view m1 = (case cfg_dnn_view d of None \<Rightarrow> dnns_view m
      | Some v \<Rightarrow> (dnns_view m)(NsDnn d \<mapsto> v))"
    using new_dnn_law[OF assms(1), of d env m] by auto
  obtain m2 where m2: "new_dnns env c ds m1 = Ok m2" "dnns_view m2 = cfg_dnns ds (dnns_view m1)"
    using Cons.IH[of m1] Cons.prems by auto
  from m1(1) m2 show ?case by (simp add: cfg_dnns_def m1(2))
qed (simp add: cfg_dnns_def)

lemma getSmfNssaiInfo_iff: "getSmfNssaiInfo (Sst k) (Sd k) c \<noteq> None \<longleftrightarrow> k \<in> dom (slices_view c)"
  by (auto simp: getSmfNssaiInfo_def find_None_iff slices_view_dom image_iff) (metis snssai.equality unit.exhaust)

lemma insertSmfNssaiInfo_law:
  assumes "slices_inv c" and "v4_slice i"
  shows "\<exists>c'. insertSmfNssaiInfo env i c = Ok c' \<and> slices_inv c' \<and> slices_view c' = (slices_view c)(NsSNssai i \<mapsto> cfg_view i)"
proof -
  let ?got = "getSmfNssaiInfo (Sst (NsSNssai i)) (Sd (NsSNssai i)) c"
  have got: "?got \<noteq> None \<longleftrightarrow> NsSNssai i \<in> dom (slices_view c)" by (rule getSmfNssaiInfo_iff)
  obtain c1 where c1: "(if ?got \<noteq> None then deleteSmfNssaiInfo i c else Ok c) = Ok c1" "slices_inv c1"
      "slices_view c1 = (slices_view c)(NsSNssai i := None)"
    using deleteSmfNssaiInfo_law[OF assms(1)] assms(1) got by (cases "?got \<noteq> None") (auto simp: fun_upd_idem_iff domIff)
  from c1(2) assms(2) obtain m where m: "new_dnns env c1 (NsDnnInfos i) [] = Ok m"
      "dnns_view m = cfg_dnns (NsDnnInfos i) (dnns_view [])"
    using new_dnns_law[of c1 "NsDnnInfos i" env "[]"] by (auto simp: slices_inv_def v4_slice_def)
  have em: "dnns_view [] = Map.empty" by (auto simp: dnns_view_def)
  let ?s = "\<lparr>SmfSnssai = NsSNssai i, SmfPlmnId = NsPlmnId i, SmfDnnInfos = m\<rparr>"
  have fresh: "NsSNssai i \<notin> SmfSnssai ` set (SnssaiInfos c1)" using c1(3) slices_view_dom[of "NsSNssai i" c1] by auto
  have "map_of (map (\<lambda>s. (SmfSnssai s, f s)) (ss @ [?s])) = (map_of (map (\<lambda>s. (SmfSnssai s, f s)) ss))(NsSNssai i \<mapsto> f ?s)"
    if "NsSNssai i \<notin> SmfSnssai ` set ss" for f :: "snssai_smf_info \<Rightarrow> 'x" and ss
    using that by (induction ss) (auto simp: fun_eq_iff)
  from this[OF fresh, of "\<lambda>s. (SmfPlmnId s, dnns_view (SmfDnnInfos s))"] have "slices_view (c1\<lparr>SnssaiInfos := SnssaiInfos c1 @ [?s]\<rparr>) = (slices_view c1)(NsSNssai i \<mapsto> cfg_view i)"
    using m(2)[unfolded em] by (simp add: slices_view_def cfg_view_def)
  moreover have "slices_inv (c1\<lparr>SnssaiInfos := SnssaiInfos c1 @ [?s]\<rparr>)" using c1(2) fresh by (simp add: slices_inv_def)
  ultimately show ?thesis
    unfolding insertSmfNssaiInfo_def c1(1) bind_res.simps m(1) by (simp add: c1(3))
qed

lemma updateSmfNssaiInfo_law:
  assumes "slices_inv c" and "v4_slice i" and "NsSNssai i \<in> dom (slices_view c)"
  shows "\<exists>c'. updateSmfNssaiInfo env i c = Ok c' \<and> slices_inv c' \<and> slices_view c' = (slices_view c)(NsSNssai i \<mapsto> cfg_view i)"
proof -
  obtain c1 where c1: "deleteSmfNssaiInfo i c = Ok c1" "slices_inv c1" "slices_view c1 = (slices_view c)(NsSNssai i := None)"
    using deleteSmfNssaiInfo_law[OF assms(1,3)] by blast
  from insertSmfNssaiInfo_law[OF c1(2) assms(2), of env] show ?thesis by (auto simp: updateSmfNssaiInfo_def c1)
qed

interpretation slice_store: config_store slices_inv slices_view v4_slice NsSNssai cfg_view
  "insertSmfNssaiInfo env" "updateSmfNssaiInfo env" deleteSmfNssaiInfo for env
  by unfold_locales (fact insertSmfNssaiInfo_law updateSmfNssaiInfo_law deleteSmfNssaiInfo_law)+

definition config_ok :: "configuration \<Rightarrow> bool" where
  "config_ok c \<longleftrightarrow> distinct (map NsSNssai (SNssaiInfo c)) \<and>
     (\<forall>i \<in> set (SNssaiInfo c). distinct (map NsDnn (NsDnnInfos i)) \<and> v4_slice i)"

lemma cfg_dnns_Some:
  "distinct (map NsDnn ds) \<Longrightarrow> cfg_dnns ds m k = Some v \<longleftrightarrow>
     (\<exists>d \<in> set ds. NsDnn d = k \<and> cfg_dnn_view d = Some v) \<or>
     m k = Some v \<and> (\<forall>d \<in> set ds. NsDnn d = k \<longrightarrow> cfg_dnn_view d = None)"
proof (induction ds arbitrary: m)
  case (Cons d ds)
  from Cons.prems have "NsDnn d \<notin> NsDnn ` set ds" by simp
  then have other: "\<forall>e \<in> set ds. NsDnn e \<noteq> NsDnn d" by (metis image_eqI)
  from Cons.prems have ds: "distinct (map NsDnn ds)" by simp
  show ?case
  proof (cases "cfg_dnn_view d")
    case None
    then have "cfg_dnns (d # ds) m = cfg_dnns ds m" by (simp add: cfg_dnns_def)
    with Cons.IH[OF ds, of m] None show ?thesis by auto
  next
    case (Some w)
    then have "cfg_dnns (d # ds) m k = cfg_dnns ds (m(NsDnn d \<mapsto> w)) k" by (simp add: cfg_dnns_def)
    note eq = this[unfolded Cons.IH[OF ds, of "m(NsDnn d \<mapsto> w)"]]
    have "cfg_dnns (d # ds) m k = Some v \<longleftrightarrow>
        (\<exists>e \<in> set ds. NsDnn e = k \<and> cfg_dnn_view e = Some v) \<or>
        (if k = NsDnn d then w = v else m k = Some v) \<and> (\<forall>e \<in> set ds. NsDnn e = k \<longrightarrow> cfg_dnn_view e = None)"
      by (simp only: eq Cons.IH[OF ds]) simp
    with other Some show ?thesis by (cases "k = NsDnn d") auto
  qed
qed (simp add: cfg_dnns_def)

lemma option_eqI: "(\<And>v. a = Some v \<longleftrightarrow> b = Some v) \<Longrightarrow> a = b"
  by (cases a; cases b) auto

lemma matching_slices_view:
  assumes "distinct (map NsDnn (NsDnnInfos x))" and "distinct (map NsDnn (NsDnnInfos y))" and "compareNetworkSliceInstance x y"
  shows "cfg_view x = cfg_view y"
proof -
  have set: "set (NsDnnInfos x) = set (NsDnnInfos y)" and plmn: "NsPlmnId x = NsPlmnId y"
    using assms(3) compareGenericSlices_match[of compareNsDnn "NsDnnInfos x" "NsDnnInfos y"]
    by (simp_all add: compareNetworkSliceInstance_def compareNsDnn_def)
  have "cfg_dnns (NsDnnInfos x) Map.empty k = cfg_dnns (NsDnnInfos y) Map.empty k" for k
    by (rule option_eqI) (simp add: cfg_dnns_Some[OF assms(1)] cfg_dnns_Some[OF assms(2)] set)
  then show ?thesis by (auto simp: cfg_view_def plmn)
qed

lemma unless_empty_items: "items old = [] \<Longrightarrow> items (unless_empty xs old) = xs"
  by (auto simp: items_def unless_empty_def)

definition nothing_pending :: "update_smf_config \<Rightarrow> bool" where
  "nothing_pending u \<longleftrightarrow> u\<lparr>UpdEnterpriseList := None\<rparr> = no_update"

lemma nothing_pending_fields:
  assumes "nothing_pending u"
  shows "DelSNssaiInfo u = None" "ModSNssaiInfo u = None" "AddSNssaiInfo u = None" "UpdDelUPNodes u = None"
    "UpdModUPNodes u = None" "UpdAddUPNodes u = None" "UpdAddLinks u = None" "UpdDelLinks u = None"
  using assms by (cases u; simp add: nothing_pending_def no_update_def)+

lemma pending_items:
  assumes "nothing_pending u"
  shows "items (DelSNssaiInfo (compareAndProcessConfigs c new u)) = DiffDel (compareNetworkSlices (SNssaiInfo c) (SNssaiInfo new))"
    and "items (AddSNssaiInfo (compareAndProcessConfigs c new u)) = DiffAdd (compareNetworkSlices (SNssaiInfo c) (SNssaiInfo new))"
    and "items (ModSNssaiInfo (compareAndProcessConfigs c new u)) = DiffMod (compareNetworkSlices (SNssaiInfo c) (SNssaiInfo new))"
proof -
  have u: "items (DelSNssaiInfo u) = []" "items (AddSNssaiInfo u) = []" "items (ModSNssaiInfo u) = []"
    by (simp_all add: nothing_pending_fields[OF assms] items_def)
  show "items (DelSNssaiInfo (compareAndProcessConfigs c new u)) = DiffDel (compareNetworkSlices (SNssaiInfo c) (SNssaiInfo new))"
    and "items (AddSNssaiInfo (compareAndProcessConfigs c new u)) = DiffAdd (compareNetworkSlices (SNssaiInfo c) (SNssaiInfo new))"
    and "items (ModSNssaiInfo (compareAndProcessConfigs c new u)) = DiffMod (compareNetworkSlices (SNssaiInfo c) (SNssaiInfo new))"
    using two_passes_match[of _ compareNetworkSliceInstance "SNssaiInfo c" "SNssaiInfo new"]
    by (simp_all add: compareAndProcessConfigs_def Let_def case_prod_beta compareNetworkSlices_def unless_empty_items u)
qed

definition cfg_slices :: "configuration \<Rightarrow> snssai \<rightharpoonup> plmn_id \<times> (string \<rightharpoonup> dnn_net \<times> ip \<times> byte list)" where
  "cfg_slices c = map_of (map (\<lambda>i. (NsSNssai i, cfg_view i)) (SNssaiInfo c))"

lemma slices_updated:
  assumes "nothing_pending u" and "config_ok c" and "config_ok new" and "slices_inv s" and "slices_view s = cfg_slices c"
  shows "\<exists>s'. update_slices env (compareAndProcessConfigs c new u) s = Ok s' \<and> slices_inv s' \<and> slices_view s' = cfg_slices new"
proof -
  let ?same = "\<lambda>s1 s2. Sd (NsSNssai s1) = Sd (NsSNssai s2) \<and> Sst (NsSNssai s1) = Sst (NsSNssai s2)"
  have same: "?same x y \<longleftrightarrow> NsSNssai x = NsSNssai y" for x y by (auto intro: snssai.equality)
  have inst: "cfg_view x = cfg_view y" if "x \<in> set (SNssaiInfo c)" "y \<in> set (SNssaiInfo new)" "compareNetworkSliceInstance x y" for x y
    using matching_slices_view[of x y] assms(2,3) that by (auto simp: config_ok_def)
  from slice_store.diff_applied[where s=s and same="?same" and inst=compareNetworkSliceInstance
      and old="SNssaiInfo c" and new="SNssaiInfo new" and env=env, OF assms(4) _ _ _ _ same inst]
  show ?thesis
    using assms(2,3,5)
    by (simp add: update_slices_def pending_items[OF assms(1)] slice_store.table_def cfg_slices_def config_ok_def compareNetworkSlices_def)
qed

section \<open>So are the nodes of the user plane\<close>

definition ptrs :: "nat go_map \<Rightarrow> nat set" where
  "ptrs m = snd ` set m"

definition plane_inv :: "'g upi \<Rightarrow> bool" where
  "plane_inv t \<longleftrightarrow>
     (\<forall>x \<in> set (nodes t). (NodeTy x = UPNODE_AN \<or> NodeTy x = UPNODE_UPF) \<and>
        (NodeTy x = UPNODE_UPF \<longrightarrow> (\<exists>p < length (upfs t). NodeUPF x = Some p))) \<and>
     (\<forall>n \<in> ptrs (UPNodes t). n < length (nodes t)) \<and>
     (\<forall>n \<in> ptrs (UPFs t). n < length (nodes t) \<and> NodeTy (nodes t ! n) = UPNODE_UPF)"

definition node_names :: "'g upi \<Rightarrow> string \<rightharpoonup> unit" where
  "node_names t = map_option (\<lambda>_. ()) \<circ> map_of (UPNodes t)"

definition known_type :: "string \<times> string \<times> cfg_node \<Rightarrow> bool" where
  "known_type n \<longleftrightarrow> CfgType (snd (snd n)) = UPNODE_AN \<or> CfgType (snd (snd n)) = UPNODE_UPF"

lemma plane_invI:
  assumes "\<And>x. x \<in> set (nodes t) \<Longrightarrow> NodeTy x = UPNODE_AN \<or> NodeTy x = UPNODE_UPF \<and> (\<exists>p < length (upfs t). NodeUPF x = Some p)"
    and "ptrs (UPNodes t) \<subseteq> {..<length (nodes t)}"
    and "\<And>n. n \<in> ptrs (UPFs t) \<Longrightarrow> n < length (nodes t) \<and> NodeTy (nodes t ! n) = UPNODE_UPF"
  shows "plane_inv t"
  unfolding plane_inv_def
proof (intro conjI ballI)
  show "n < length (nodes t)" if "n \<in> ptrs (UPNodes t)" for n using that assms(2) by blast
qed (use assms(1,3) in \<open>fastforce+\<close>)

lemma plane_invD:
  assumes "plane_inv t"
  shows "x \<in> set (nodes t) \<Longrightarrow> NodeTy x = UPNODE_AN \<or> NodeTy x = UPNODE_UPF \<and> (\<exists>p < length (upfs t). NodeUPF x = Some p)"
    and "ptrs (UPNodes t) \<subseteq> {..<length (nodes t)}"
    and "n \<in> ptrs (UPFs t) \<Longrightarrow> n < length (nodes t) \<and> NodeTy (nodes t ! n) = UPNODE_UPF"
  using assms unfolding plane_inv_def by blast+

lemma plane_inv_upf: "plane_inv t \<Longrightarrow> x \<in> set (nodes t) \<Longrightarrow> NodeTy x \<noteq> UPNODE_AN \<Longrightarrow> \<exists>p < Suc (length (upfs t)). NodeUPF x = Some p"
  using plane_invD(1)[of t x] less_SucI by blast

lemma plane_inv_tables:
  "plane_inv t \<Longrightarrow> nodes t' = nodes t \<Longrightarrow> length (upfs t') = length (upfs t) \<Longrightarrow>
   ptrs (UPNodes t') \<subseteq> ptrs (UPNodes t) \<Longrightarrow> ptrs (UPFs t') \<subseteq> ptrs (UPFs t) \<Longrightarrow> plane_inv t'"
  by (rule plane_invI) (use plane_invD[of t] in \<open>auto\<close>)

lemma ptrs_update: "n \<in> ptrs (AList.update k v m) \<Longrightarrow> n = v \<or> n \<in> ptrs m"
  unfolding ptrs_def by (induction m) (auto split: if_splits)

lemma ptrs_delete: "ptrs (AList.delete k m) \<subseteq> ptrs m"
  by (auto simp: ptrs_def AList.delete_eq)

lemma ptrs_map_of: "map_of m k = Some n \<Longrightarrow> n \<in> ptrs m"
  by (force simp: ptrs_def dest: map_of_SomeD)

lemma node_names_update: "UPNodes t' = AList.update name n (UPNodes t) \<Longrightarrow> node_names t' = (node_names t)(name \<mapsto> ())"
  by (auto simp: node_names_def update_conv fun_eq_iff)

lemma node_names_dom: "name \<in> dom (node_names t) \<longleftrightarrow> map_of (UPNodes t) name \<noteq> None"
  by (auto simp: node_names_def dom_def)

lemma node_insert_law:
  assumes "plane_inv t" and "known_type (uid, name, cfg)"
  shows "\<exists>t'. Ok (InsertSmfUserPlaneNode G uid resolve name cfg t) = Ok t' \<and> plane_inv t' \<and> node_names t' = (node_names t)(name \<mapsto> ())"
proof -
  let ?t = "InsertSmfUserPlaneNode G uid resolve name cfg t"
  have names: "UPNodes ?t = AList.update name (length (nodes t)) (UPNodes t)"
    by (simp add: InsertSmfUserPlaneNode_def name_table_def Let_def)
  consider (an) "CfgType cfg = UPNODE_AN" | (upf) "CfgType cfg = UPNODE_UPF" using assms(2) by (auto simp: known_type_def)
  then have "plane_inv ?t"
  proof cases
    case an
    then show ?thesis
      by (intro plane_invI)
        (use plane_invD[OF assms(1)] in
          \<open>auto simp: InsertSmfUserPlaneNode_def name_table_def new_up_node_def Let_def nth_append dest!: ptrs_update intro: less_SucI\<close>)
  next
    case upf
    then show ?thesis
      by (intro plane_invI)
        (use plane_invD[OF assms(1)] plane_inv_upf[OF assms(1)] in
          \<open>auto simp: InsertSmfUserPlaneNode_def name_table_def new_up_node_def Let_def nth_append dest!: ptrs_update intro: less_SucI\<close>)
  qed
  then show ?thesis using node_names_update[OF names] by blast
qed

lemma node_delete_law:
  assumes inv: "plane_inv t" and known: "name \<in> dom (node_names t)"
  shows "\<exists>t'. DeleteSmfUserPlaneNode resolve name cfg t = Ok t' \<and> plane_inv t' \<and> node_names t' = (node_names t)(name := None)"
proof -
  from known obtain n where n: "map_of (UPNodes t) name = Some n" by (auto simp: node_names_dom)
  then have len: "n < length (nodes t)" using plane_invD(2)[OF inv] ptrs_map_of by blast
  note ty = plane_invD(1)[OF inv nth_mem[OF len]]
  have "\<exists>t1. (if NodeTy (nodes t ! n) = UPNODE_AN then Ok (t\<lparr>AccessNetwork := AList.delete name (AccessNetwork t)\<rparr>)
      else if NodeTy (nodes t ! n) = UPNODE_UPF then drop_upf resolve name n t else Panic ''invalid UP Node type'') = Ok t1 \<and>
      nodes t1 = nodes t \<and> upfs t1 = upfs t \<and> UPNodes t1 = UPNodes t \<and> ptrs (UPFs t1) \<subseteq> ptrs (UPFs t)"
  proof (cases "NodeTy (nodes t ! n) = UPNODE_AN")
    case False
    with ty obtain p where p: "NodeTy (nodes t ! n) = UPNODE_UPF" "p < length (upfs t)" "NodeUPF (nodes t ! n) = Some p" by blast
    then show ?thesis using len ptrs_delete[of name "UPFs t"] by (simp add: drop_upf_def Let_def upf_of_def)
  qed simp
  then obtain t1 where t1: "(if NodeTy (nodes t ! n) = UPNODE_AN then Ok (t\<lparr>AccessNetwork := AList.delete name (AccessNetwork t)\<rparr>)
      else if NodeTy (nodes t ! n) = UPNODE_UPF then drop_upf resolve name n t else Panic ''invalid UP Node type'') = Ok t1"
      "nodes t1 = nodes t" "upfs t1 = upfs t" "UPNodes t1 = UPNodes t" "ptrs (UPFs t1) \<subseteq> ptrs (UPFs t)" by blast
  let ?t = "t1\<lparr>UPNodes := AList.delete name (UPNodes t1), UPFIPToName := filter (\<lambda>(_, nodeName). nodeName \<noteq> name) (UPFIPToName t1)\<rparr>"
  have "DeleteSmfUserPlaneNode resolve name cfg t = Ok ?t"
    using t1(1) by (auto simp: DeleteSmfUserPlaneNode_def n split: if_splits)
  moreover have "plane_inv ?t"
    by (rule plane_inv_tables[OF inv]) (use t1 ptrs_delete[of name "UPNodes t"] in simp_all)
  moreover have "node_names ?t = (node_names t)(name := None)"
    by (auto simp: node_names_def delete_conv t1(4) fun_eq_iff)
  ultimately show ?thesis by blast
qed

lemma node_update_law:
  assumes inv: "plane_inv t" and known: "name \<in> dom (node_names t)"
  shows "\<exists>t'. UpdateSmfUserPlaneNode G uid resolve name cfg t = Ok t' \<and> plane_inv t' \<and> node_names t' = (node_names t)(name \<mapsto> ())"
proof -
  from known obtain n where n: "map_of (UPNodes t) name = Some n" by (auto simp: node_names_dom)
  then have len: "n < length (nodes t)" using plane_invD(2)[OF inv] ptrs_map_of by blast
  note ty = plane_invD(1)[OF inv nth_mem[OF len]]
  note upd = UpdateSmfUserPlaneNode_def n upd_node_def name_table_def update_upf_def
  have in_nodes: "x \<in> set ((nodes t)[n := y]) \<Longrightarrow> x = y \<or> x \<in> set (nodes t)" for x y using set_update_subset_insert by fastforce
  have "\<exists>t'. UpdateSmfUserPlaneNode G uid resolve name cfg t = Ok t' \<and> plane_inv t' \<and> UPNodes t' = AList.update name n (UPNodes t)"
  proof (cases "NodeTy (nodes t ! n) = UPNODE_AN")
    case True
    then show ?thesis
      by (simp add: upd Let_def len)
        (intro plane_invI; use plane_invD[OF inv] len True in \<open>auto simp: nth_list_update dest!: in_nodes ptrs_update\<close>)
  next
    case False
    with ty obtain p where p: "NodeTy (nodes t ! n) = UPNODE_UPF" "p < length (upfs t)" "NodeUPF (nodes t ! n) = Some p" by blast
    show ?thesis
    proof (cases "UpNodeID (nodes t ! n) = NewNodeID (CfgNodeID cfg)")
      case True
      then show ?thesis using p
        by (simp add: upd Let_def len)
          (intro plane_invI; use plane_invD[OF inv] len p in \<open>auto simp: nth_list_update dest!: in_nodes ptrs_update\<close>)
    next
      case False
      then show ?thesis using p
        by (simp add: upd Let_def len)
          (intro plane_invI; use plane_invD[OF inv] plane_inv_upf[OF inv] len p in \<open>auto simp: nth_list_update less_SucI dest!: in_nodes ptrs_update\<close>)
    qed
  qed
  then show ?thesis using node_names_update by blast
qed

interpretation node_store: config_store plane_inv node_names known_type "\<lambda>i. fst (snd i)" "\<lambda>_. ()"
  "\<lambda>(uid, name, cfg) t. Ok (InsertSmfUserPlaneNode G uid resolve name cfg t)"
  "\<lambda>(uid, name, cfg). UpdateSmfUserPlaneNode G uid resolve name cfg"
  "\<lambda>(uid, name, cfg). DeleteSmfUserPlaneNode resolve name cfg" for G resolve
proof unfold_locales
  fix s :: "'a upi" and i :: "string \<times> string \<times> cfg_node"
  assume s: "plane_inv s"
  obtain uid name cfg where i: "i = (uid, name, cfg)" by (cases i)
  show "known_type i \<Longrightarrow> \<exists>s'. (case i of (uid, name, cfg) \<Rightarrow> \<lambda>t. Ok (InsertSmfUserPlaneNode G uid resolve name cfg t)) s = Ok s' \<and>
      plane_inv s' \<and> node_names s' = (node_names s)(fst (snd i) \<mapsto> ())"
    unfolding i using node_insert_law[OF s, of uid name cfg G resolve] by simp
  show "fst (snd i) \<in> dom (node_names s) \<Longrightarrow> \<exists>s'. (case i of (uid, name, cfg) \<Rightarrow> UpdateSmfUserPlaneNode G uid resolve name cfg) s = Ok s' \<and>
      plane_inv s' \<and> node_names s' = (node_names s)(fst (snd i) \<mapsto> ())"
    unfolding i using node_update_law[OF s, of name G uid resolve cfg] by simp
  show "fst (snd i) \<in> dom (node_names s) \<Longrightarrow> \<exists>s'. (case i of (uid, name, cfg) \<Rightarrow> DeleteSmfUserPlaneNode resolve name cfg) s = Ok s' \<and>
      plane_inv s' \<and> node_names s' = (node_names s)(fst (snd i) := None)"
    unfolding i using node_delete_law[OF s, of name resolve cfg] by simp
qed

lemma plane_inv_link: "plane_inv t \<Longrightarrow> plane_inv (upd_node n (\<lambda>x. x\<lparr>Links := f x\<rparr>) t) \<and> node_names (upd_node n (\<lambda>x. x\<lparr>Links := f x\<rparr>) t) = node_names t"
proof
  assume inv: "plane_inv t"
  have in_nodes: "x \<in> set ((nodes t)[n := y]) \<Longrightarrow> x = y \<or> x \<in> set (nodes t)" for x y using set_update_subset_insert by fastforce
  show "plane_inv (upd_node n (\<lambda>x. x\<lparr>Links := f x\<rparr>) t)"
  proof (cases "n < length (nodes t)")
    case True
    from plane_invD(1)[OF inv nth_mem[OF True]] show ?thesis
      by (elim disjE; intro plane_invI; use plane_invD[OF inv] True in \<open>auto simp: upd_node_def nth_list_update dest!: in_nodes\<close>)
  qed (use inv in \<open>simp add: upd_node_def plane_inv_def list_update_beyond\<close>)
qed (simp add: node_names_def upd_node_def)

lemma insert_link_law:
  assumes "plane_inv t" and "LinkA l \<in> dom (node_names t)" and "LinkB l \<in> dom (node_names t)"
  shows "\<exists>t'. InsertUPNodeLinks l t = Ok t' \<and> plane_inv t' \<and> node_names t' = node_names t"
proof -
  obtain a b where ab: "map_of (UPNodes t) (LinkA l) = Some a" "map_of (UPNodes t) (LinkB l) = Some b"
    using assms(2,3) unfolding node_names_dom by blast
  let ?t = "upd_node a (\<lambda>x. x\<lparr>Links := Links x @ [b]\<rparr>) t"
  have "plane_inv ?t \<and> node_names ?t = node_names t" by (rule plane_inv_link[OF assms(1)])
  then show ?thesis using plane_inv_link[of ?t b "\<lambda>x. Links x @ [a]"] by (simp add: InsertUPNodeLinks_def ab)
qed

lemma drop_link_law:
  assumes "plane_inv t" and "b \<noteq> None"
  shows "\<exists>t'. drop_link a b t = Ok t' \<and> plane_inv t' \<and> node_names t' = node_names t"
  using assms plane_inv_link[OF assms(1)] by (auto simp: drop_link_def split: option.split)

lemma delete_link_law:
  assumes "plane_inv t" and "LinkA l \<in> dom (node_names t)" and "LinkB l \<in> dom (node_names t)"
  shows "\<exists>t'. DeleteUPNodeLinks l t = Ok t' \<and> plane_inv t' \<and> node_names t' = node_names t"
proof -
  let ?a = "map_of (UPNodes t) (LinkA l)" and ?b = "map_of (UPNodes t) (LinkB l)"
  have ab: "?a \<noteq> None" "?b \<noteq> None" using assms(2,3) unfolding node_names_dom .
  obtain t1 where t1: "drop_link ?a ?b t = Ok t1" "plane_inv t1" "node_names t1 = node_names t" using drop_link_law[OF assms(1) ab(2)] by blast
  from drop_link_law[OF t1(2) ab(1), of ?b] t1 show ?thesis by (auto simp: DeleteUPNodeLinks_def Let_def)
qed

lemma each_links:
  assumes law: "\<And>t l. plane_inv t \<Longrightarrow> LinkA l \<in> dom (node_names t) \<Longrightarrow> LinkB l \<in> dom (node_names t) \<Longrightarrow>
      \<exists>t'. f l t = Ok t' \<and> plane_inv t' \<and> node_names t' = node_names t"
    and "plane_inv t" and "\<forall>l \<in> set ls. LinkA l \<in> dom (node_names t) \<and> LinkB l \<in> dom (node_names t)"
  shows "\<exists>t'. each f ls t = Ok t' \<and> plane_inv t' \<and> node_names t' = node_names t"
  using assms(2,3)
proof (induction ls arbitrary: t)
  case (Cons l ls)
  then obtain t1 where "f l t = Ok t1" "plane_inv t1" "node_names t1 = node_names t" using law[of t l] by auto
  with Cons.IH[of t1] Cons.prems show ?case by auto
qed simp

lemma allocate_ids_law:
  "plane_inv t \<Longrightarrow> (\<forall>n \<in> ptrs us. n < length (nodes t) \<and> NodeTy (nodes t ! n) = UPNODE_UPF) \<Longrightarrow>
   \<exists>t'. allocate_ids resolve us t = Ok t' \<and> plane_inv t' \<and> node_names t' = node_names t"
proof (induction us arbitrary: t)
  case (Cons x us)
  obtain k n where x: "x = (k, n)" by (cases x)
  with Cons.prems have n: "n < length (nodes t)" "NodeTy (nodes t ! n) = UPNODE_UPF" by (auto simp: ptrs_def)
  then obtain u where u: "upf_of t n = Some u"
    using plane_invD(1)[OF Cons.prems(1) nth_mem[OF n(1)]] by (auto simp: upf_of_def)
  let ?t = "t\<lparr>UPFsID := AList.update k (uuid u) (UPFsID t),
           UPFsIPtoID := AList.update (IPString (resolve (UpNodeID (nodes t ! n)))) (uuid u) (UPFsIPtoID t)\<rparr>"
  have "plane_inv ?t" by (rule plane_inv_tables[OF Cons.prems(1)]) simp_all
  moreover have "\<forall>n \<in> ptrs us. n < length (nodes ?t) \<and> NodeTy (nodes ?t ! n) = UPNODE_UPF"
    using Cons.prems(2) by (auto simp: ptrs_def x)
  moreover have "node_names ?t = node_names t" by (simp add: node_names_def)
  ultimately show ?case using Cons.IH[of ?t] by (simp add: x u)
qed simp

lemma AllocateUPFID_law: "plane_inv t \<Longrightarrow> \<exists>t'. AllocateUPFID resolve t = Ok t' \<and> plane_inv t' \<and> node_names t' = node_names t"
  using allocate_ids_law[of t "UPFs t" resolve] plane_invD(3)[of t] by (simp add: AllocateUPFID_def)

lemma log_errors_eq: "log_errors r t = log_and_keep r t"
  by (cases r) auto

lemma each_apply_all: "each f xs t = apply_all f xs t"
proof -
  have "each f xs = apply_all f xs"
  proof (induction xs)
    case (Cons x xs)
    show ?case by (rule ext) (simp add: log_errors_eq Cons.IH)
  qed auto
  then show ?thesis by simp
qed

section \<open>Comparing user planes\<close>

lemma existing_nodes_exact:
  assumes "distinct (map fst old)"
  shows "map_of (DiffDel (existing_nodes old new d)) k =
      (if map_of old k \<noteq> None \<and> map_of new k = None then map_of old k else map_of (DiffDel d) k)"
    and "map_of (DiffMod (existing_nodes old new d)) k =
      (case (map_of old k, map_of new k) of
         (Some n, Some n') \<Rightarrow> if compareUPNode n n' then map_of (DiffMod d) k else Some n' | _ \<Rightarrow> map_of (DiffMod d) k)"
    and "DiffAdd (existing_nodes old new d) = DiffAdd d"
    and "DiffMatch (existing_nodes old new d) \<longleftrightarrow>
      DiffMatch d \<and> (\<forall>(name, n) \<in> set old. \<exists>n'. map_of new name = Some n' \<and> compareUPNode n n')"
  using assms
  by (induction old new d rule: existing_nodes.induct)
    (auto simp: update_conv map_of_eq_None_iff[symmetric] split: option.splits if_splits)

lemma new_nodes_exact:
  assumes "distinct (map fst new)"
  shows "map_of (DiffAdd (new_nodes new old d)) k =
      (if map_of new k \<noteq> None \<and> map_of old k = None then map_of new k else map_of (DiffAdd d) k)"
    and "DiffDel (new_nodes new old d) = DiffDel d" and "DiffMod (new_nodes new old d) = DiffMod d"
    and "DiffMatch (new_nodes new old d) \<longleftrightarrow> DiffMatch d \<and> (\<forall>(name, n) \<in> set new. map_of old name \<noteq> None)"
  using assms
  by (induction new old d rule: new_nodes.induct)
    (auto simp: update_conv map_of_eq_None_iff[symmetric] split: option.splits if_splits)

lemma existing_nodes_distinct:
  "distinct (map fst (DiffDel d)) \<Longrightarrow> distinct (map fst (DiffDel (existing_nodes old new d)))"
  "distinct (map fst (DiffMod d)) \<Longrightarrow> distinct (map fst (DiffMod (existing_nodes old new d)))"
  by (induction old new d rule: existing_nodes.induct) (simp_all add: distinct_update split: option.splits)

lemma new_nodes_distinct:
  "distinct (map fst (DiffAdd d)) \<Longrightarrow> distinct (map fst (DiffAdd (new_nodes new old d)))"
  by (induction new old d rule: new_nodes.induct) (simp_all add: distinct_update split: option.splits)

lemma rel_option_alt:
  "rel_option R a b \<longleftrightarrow> (\<forall>n. a = Some n \<longrightarrow> (\<exists>n'. b = Some n' \<and> R n n')) \<and> (\<forall>n. b = Some n \<longrightarrow> a \<noteq> None)"
  by (cases a; cases b) auto

lemma compareUPNodesConfigs_exact:
  assumes "go_map_ok old" and "go_map_ok new"
  defines "d \<equiv> compareUPNodesConfigs old new"
  shows "map_of (DiffDel d) k = (if map_of new k = None then map_of old k else None)"
    and "map_of (DiffAdd d) k = (if map_of old k = None then map_of new k else None)"
    and "map_of (DiffMod d) k = (case (map_of old k, map_of new k) of
           (Some n, Some n') \<Rightarrow> if compareUPNode n n' then None else Some n' | _ \<Rightarrow> None)"
    and "go_map_ok (DiffDel d)" and "go_map_ok (DiffAdd d)" and "go_map_ok (DiffMod d)"
    and "DiffMatch d \<longleftrightarrow> (\<forall>k. rel_option compareUPNode (map_of old k) (map_of new k))"
proof -
  note old = existing_nodes_exact[OF assms(1)[unfolded go_map_ok_def]]
  note new = new_nodes_exact[OF assms(2)[unfolded go_map_ok_def]]
  show "map_of (DiffDel d) k = (if map_of new k = None then map_of old k else None)"
    and "map_of (DiffAdd d) k = (if map_of old k = None then map_of new k else None)"
    and "map_of (DiffMod d) k = (case (map_of old k, map_of new k) of
           (Some n, Some n') \<Rightarrow> if compareUPNode n n' then None else Some n' | _ \<Rightarrow> None)"
    by (cases "map_of old k"; cases "map_of new k"; simp add: d_def compareUPNodesConfigs_def old new)+
  show "go_map_ok (DiffDel d)" and "go_map_ok (DiffAdd d)" and "go_map_ok (DiffMod d)"
    by (simp_all add: d_def compareUPNodesConfigs_def go_map_ok_def new old existing_nodes_distinct new_nodes_distinct)
  have "DiffMatch d \<longleftrightarrow> (\<forall>(name, n) \<in> set old. \<exists>n'. map_of new name = Some n' \<and> compareUPNode n n') \<and>
      (\<forall>(name, n) \<in> set new. map_of old name \<noteq> None)"
    by (simp add: d_def compareUPNodesConfigs_def old new)
  also have "\<dots> \<longleftrightarrow> (\<forall>k n. map_of old k = Some n \<longrightarrow> (\<exists>n'. map_of new k = Some n' \<and> compareUPNode n n')) \<and>
      (\<forall>k n. map_of new k = Some n \<longrightarrow> map_of old k \<noteq> None)"
    using assms(1,2) by (auto simp: go_map_ok_def map_of_eq_Some_iff)
  also have "\<dots> \<longleftrightarrow> (\<forall>k. rel_option compareUPNode (map_of old k) (map_of new k))"
    by (simp add: rel_option_alt) blast
  finally show "DiffMatch d \<longleftrightarrow> (\<forall>k. rel_option compareUPNode (map_of old k) (map_of new k))" .
qed

section \<open>A parsed configuration\<close>

definition plane_ok :: "configuration \<Rightarrow> bool" where
  "plane_ok c \<longleftrightarrow> go_map_ok (CfgUPNodes c) \<and>
     (\<forall>n \<in> ran (map_of (CfgUPNodes c)). CfgType n = UPNODE_AN \<or> CfgType n = UPNODE_UPF) \<and>
     (\<forall>l \<in> set (CfgLinks c). LinkA l \<in> dom (map_of (CfgUPNodes c)) \<and> LinkB l \<in> dom (map_of (CfgUPNodes c)))"

lemma plane_ok_put:
  assumes "plane_ok c" and "CfgType n = UPNODE_AN \<or> CfgType n = UPNODE_UPF"
  shows "plane_ok (c\<lparr>CfgUPNodes := AList.update name n (CfgUPNodes c)\<rparr>)"
  using assms
  by (auto simp: plane_ok_def go_map_ok_def distinct_update update_conv' ran_def split: if_splits; blast)

lemma plane_ok_link:
  "plane_ok c \<Longrightarrow> LinkA l \<in> dom (map_of (CfgUPNodes c)) \<Longrightarrow> LinkB l \<in> dom (map_of (CfgUPNodes c)) \<Longrightarrow>
   plane_ok (c\<lparr>CfgLinks := CfgLinks c @ [l]\<rparr>)"
  by (auto simp: plane_ok_def)

lemma add_gnbs_ok:
  "plane_ok c \<Longrightarrow> upf \<in> dom (map_of (CfgUPNodes c)) \<Longrightarrow> plane_ok (add_gnbs upf gs c)"
proof (induction upf gs c rule: add_gnbs.induct)
  case (2 upf gNb gs c)
  let ?c = "c\<lparr>CfgUPNodes := AList.update gNb (gnb_node gNb) (CfgUPNodes c)\<rparr>"
  have ok: "plane_ok ?c" by (rule plane_ok_put[OF "2.prems"(1)]) (simp add: gnb_node_def UPNODE_AN_def)
  have dom: "gNb \<in> dom (map_of (CfgUPNodes ?c))" "upf \<in> dom (map_of (CfgUPNodes ?c))" using "2.prems"(2) by (simp_all add: update_conv')
  have "plane_ok (?c\<lparr>CfgLinks := CfgLinks ?c @ [\<lparr>LinkA = gNb, LinkB = upf\<rparr>]\<rparr>)"
    by (rule plane_ok_link[OF ok]) (use dom in simp_all)
  then show ?case using "2.IH" dom(2) by (simp add: plane_ok_def)
qed simp

lemma parse_slice_ok:
  assumes "plane_ok c" and "parse_slice common ns c = Ok c'"
  shows "plane_ok c'"
proof -
  from assms(2) obtain n site upfName where p: "RocNssai ns = Some n" "RocSite ns = Some site" "SiteUpf site = Some upfName"
    by (auto simp: parse_slice_def Let_def split: option.splits)
  obtain node port where np: "upf_port common upfName = (node, port)" by (cases "upf_port common upfName")
  let ?c = "c\<lparr>CfgEnterpriseList := AList.update (RocSst n @ RocSd n) (RocName ns) (CfgEnterpriseList c), SNssaiInfo :=
    SNssaiInfo c @ [\<lparr>NsSNssai = parse_nssai n, NsPlmnId = (case SitePlmn site of Some p \<Rightarrow> p | None \<Rightarrow> \<lparr>Mcc = '''', Mnc = ''''\<rparr>),
                     NsDnnInfos = map dnn_info (concat (DeviceGroup ns))\<rparr>]\<rparr>"
  let ?d = "?c\<lparr>CfgUPNodes := AList.update node (slice_upf (parse_nssai n) node port (concat (DeviceGroup ns))) (CfgUPNodes ?c)\<rparr>"
  have "plane_ok ?c" using assms(1) by (simp add: plane_ok_def)
  then have "plane_ok ?d" by (rule plane_ok_put) (simp add: slice_upf_def UPNODE_UPF_def)
  then have "plane_ok (add_gnbs node (SiteGnb site) ?d)" by (rule add_gnbs_ok) (simp add: update_conv')
  with assms(2) show ?thesis by (simp add: parse_slice_def p np Let_def)
qed

lemma parse_slices_ok: "plane_ok c \<Longrightarrow> parse_slices common nss c = Ok c' \<Longrightarrow> plane_ok c'"
  by (induction nss arbitrary: c) (auto dest: parse_slice_ok)

lemma parseRocConfig_ok: "parseRocConfig env rsp = Ok new \<Longrightarrow> plane_ok new"
proof -
  have "plane_ok no_configuration" by (simp add: plane_ok_def no_configuration_def go_map_ok_def)
  then show "parseRocConfig env rsp = Ok new \<Longrightarrow> plane_ok new" by (auto simp: parseRocConfig_def dest: parse_slices_ok)
qed

section \<open>The user plane after an update\<close>

lemma compareUPLinks_eq: "compareUPLinks x y \<longleftrightarrow> x = y"
  by (auto simp: compareUPLinks_def intro: cfg_link.equality)

lemma no_entries: "(\<And>k. map_of m k = None) \<Longrightarrow> m = []"
  by (cases m) (auto split: if_splits, metis option.distinct(1))

lemma pending_plane_items:
  assumes "nothing_pending u" and "plane_ok c" and "plane_ok new"
  defines "u' \<equiv> compareAndProcessConfigs c new u" and "d \<equiv> compareUPNodesConfigs (CfgUPNodes c) (CfgUPNodes new)"
  shows "items (UpdDelUPNodes u') = DiffDel d" and "items (UpdAddUPNodes u') = DiffAdd d" and "items (UpdModUPNodes u') = DiffMod d"
    and "items (UpdDelLinks u') = filter (\<lambda>l. l \<notin> set (CfgLinks new)) (CfgLinks c)"
    and "items (UpdAddLinks u') = filter (\<lambda>l. l \<notin> set (CfgLinks c)) (CfgLinks new)"
    and "UpdEnterpriseList u' = Some (CfgEnterpriseList new)"
proof -
  have u: "items (UpdDelUPNodes u) = []" "items (UpdAddUPNodes u) = []" "items (UpdModUPNodes u) = []"
    "items (UpdDelLinks u) = []" "items (UpdAddLinks u) = []"
    by (simp_all add: nothing_pending_fields[OF assms(1)] items_def)
  have maps: "go_map_ok (CfgUPNodes c)" "go_map_ok (CfgUPNodes new)" using assms(2,3) by (simp_all add: plane_ok_def)
  note exact = compareUPNodesConfigs_exact[OF maps, folded d_def]
  have empty: "DiffDel d = [] \<and> DiffAdd d = [] \<and> DiffMod d = []" if "DiffMatch d"
  proof -
    have "rel_option compareUPNode (map_of (CfgUPNodes c) k) (map_of (CfgUPNodes new) k)" for k using that exact(7) by blast
    from this have "map_of (DiffDel d) k = None \<and> map_of (DiffAdd d) k = None \<and> map_of (DiffMod d) k = None" for k
      by (cases rule: option.rel_cases[of _ "map_of (CfgUPNodes c) k" "map_of (CfgUPNodes new) k"]) (simp_all add: exact(1-3))
    then show ?thesis by (simp add: no_entries)
  qed
  show "items (UpdDelUPNodes u') = DiffDel d" and "items (UpdAddUPNodes u') = DiffAdd d" and "items (UpdModUPNodes u') = DiffMod d"
    using empty by (simp_all add: u'_def compareAndProcessConfigs_def Let_def case_prod_beta unless_empty_items u d_def[symmetric])
  note links = compareGenericSlices_match[of compareUPLinks "CfgLinks c" "CfgLinks new", OF compareUPLinks_eq]
  have "set (CfgLinks c) = set (CfgLinks new) \<Longrightarrow> filter (\<lambda>l. l \<notin> set (CfgLinks new)) (CfgLinks c) = []"
    "set (CfgLinks c) = set (CfgLinks new) \<Longrightarrow> filter (\<lambda>l. l \<notin> set (CfgLinks c)) (CfgLinks new) = []"
    by (simp_all add: filter_empty_conv)
  then show "items (UpdDelLinks u') = filter (\<lambda>l. l \<notin> set (CfgLinks new)) (CfgLinks c)"
    and "items (UpdAddLinks u') = filter (\<lambda>l. l \<notin> set (CfgLinks c)) (CfgLinks new)"
    by (simp_all add: u'_def compareAndProcessConfigs_def Let_def links unless_empty_items u)
  show "UpdEnterpriseList u' = Some (CfgEnterpriseList new)" by (simp add: u'_def compareAndProcessConfigs_def Let_def case_prod_beta)
qed

lemma apply_all_map: "apply_all f (map h xs) s = apply_all (\<lambda>x. f (h x)) xs s"
proof -
  have "apply_all f (map h xs) = apply_all (\<lambda>x. f (h x)) xs"
  proof (induction xs)
    case (Cons x xs)
    show ?case by (rule ext) (simp add: Cons.IH)
  qed auto
  then show ?thesis by simp
qed

lemma image_ball: "f ` A \<subseteq> B \<Longrightarrow> \<forall>x \<in> A. f x \<in> B"
  by blast

lemma dom_overridden: "dom (m ++ map_of (rev (map (\<lambda>i. (key i, val i)) is))) = dom m \<union> key ` set is"
  by (auto simp: dom_map_add dom_map_of_conv_image_fst image_image)

lemma plane_updated:
  fixes t :: "'g upi"
  assumes "nothing_pending u" and "plane_ok c" and "plane_ok new" and t: "plane_inv t" "dom (node_names t) = dom (map_of (CfgUPNodes c))"
  shows "\<exists>t'. ProcessUserPlaneUpdate G resolve (up_changes addUid modUid (compareAndProcessConfigs c new u)) t = Ok t' \<and>
    plane_inv t' \<and> dom (node_names t') = dom (map_of (CfgUPNodes new)) \<and> DefaultUserPlanePath t' = []"
proof -
  let ?d = "compareUPNodesConfigs (CfgUPNodes c) (CfgUPNodes new)"
  have maps: "go_map_ok (CfgUPNodes c)" "go_map_ok (CfgUPNodes new)" using assms(2,3) by (simp_all add: plane_ok_def)
  note exact = compareUPNodesConfigs_exact[OF maps]
  note pending = pending_plane_items[OF assms(1-3)]
  let ?del = "map (\<lambda>(name, n). ('''' :: string, name, cfg_node.truncate n)) (DiffDel ?d)"
  let ?add = "map (\<lambda>(name, n). (addUid name, name, cfg_node.truncate n)) (DiffAdd ?d)"
  let ?mod = "map (\<lambda>(name, n). (modUid name, name, cfg_node.truncate n)) (DiffMod ?d)"
  have keys: "(\<lambda>i. fst (snd i)) ` set (map (\<lambda>(name, n). (f name, name, cfg_node.truncate n)) m) = dom (map_of m)"
    for f :: "string \<Rightarrow> string" and m :: "cfg_up_node go_map"
    by (force simp: dom_map_of_conv_image_fst)
  have kdel: "dom (map_of (DiffDel ?d)) = dom (map_of (CfgUPNodes c)) - dom (map_of (CfgUPNodes new))"
    and kadd: "dom (map_of (DiffAdd ?d)) = dom (map_of (CfgUPNodes new)) - dom (map_of (CfgUPNodes c))"
    and kmod: "dom (map_of (DiffMod ?d)) \<subseteq> dom (map_of (CfgUPNodes new))"
    by (auto simp: exact(1-3) dom_def split: option.splits if_splits)
  have types: "CfgType (cfg_node.truncate n) = UPNODE_AN \<or> CfgType (cfg_node.truncate n) = UPNODE_UPF"
    if "map_of (CfgUPNodes new) k = Some n" for k n
    using assms(3) ranI[of "map_of (CfgUPNodes new)", OF that] by (auto simp: plane_ok_def cfg_node.truncate_def)
  have known: "\<forall>i \<in> set ?add. known_type i" "\<forall>i \<in> set ?mod. known_type i"
  proof -
    have "map_of (CfgUPNodes new) k = Some n" if "(k, n) \<in> set (DiffAdd ?d)" for k n
      using map_of_is_SomeI[OF exact(5)[unfolded go_map_ok_def] that] by (auto simp: exact(2) split: if_splits)
    then show "\<forall>i \<in> set ?add. known_type i" using types by (fastforce simp: known_type_def)
    have "map_of (CfgUPNodes new) k = Some n" if "(k, n) \<in> set (DiffMod ?d)" for k n
      using map_of_is_SomeI[OF exact(6)[unfolded go_map_ok_def] that] by (auto simp: exact(3) split: option.splits if_splits)
    then show "\<forall>i \<in> set ?mod. known_type i" using types by (fastforce simp: known_type_def)
  qed
  let ?lc = "filter (\<lambda>l. l \<notin> set (CfgLinks new)) (CfgLinks c)" and ?ln = "filter (\<lambda>l. l \<notin> set (CfgLinks c)) (CfgLinks new)"
  have "\<forall>l \<in> set ?lc. LinkA l \<in> dom (node_names t) \<and> LinkB l \<in> dom (node_names t)" using assms(2) unfolding t(2) plane_ok_def by simp
  from each_links[where f=DeleteUPNodeLinks, OF delete_link_law t(1) this] obtain a where
    a: "each DeleteUPNodeLinks ?lc t = Ok a" "plane_inv a" "node_names a = node_names t" by blast
  have "distinct (map (\<lambda>i. fst (snd i)) ?del)"
    using exact(4) unfolding go_map_ok_def by (simp add: comp_def split_beta')
  moreover have "\<forall>i \<in> set ?del. fst (snd i) \<in> dom (node_names a)"
    by (rule image_ball) (simp only: keys[of "\<lambda>_. ''''"] kdel a(3) t(2) Diff_subset)
  ultimately obtain b where b: "apply_all (\<lambda>(uid, name, cfg). DeleteSmfUserPlaneNode resolve name cfg) ?del a = Ok b" "plane_inv b"
      "node_names b = node_names a |` (- (\<lambda>i. fst (snd i)) ` set ?del)"
    using node_store.deletions[OF a(2), of ?del resolve] by blast
  have nb: "dom (node_names b) = dom (map_of (CfgUPNodes c)) \<inter> dom (map_of (CfgUPNodes new))"
    unfolding b(3) keys kdel dom_restrict a(3) t(2) by blast
  from node_store.insertions[OF b(2) known(1), of G resolve] obtain e where
    e: "apply_all (\<lambda>(uid, name, cfg) t. Ok (InsertSmfUserPlaneNode G uid resolve name cfg t)) ?add b = Ok e" "plane_inv e"
      "node_names e = node_names b ++ map_of (rev (map (\<lambda>i. (fst (snd i), ())) ?add))" by blast
  have ne: "dom (node_names e) = dom (map_of (CfgUPNodes new))"
    unfolding e(3) dom_overridden keys nb kadd by blast
  obtain h where h: "(if ?add = [] then Ok e else AllocateUPFID resolve e) = Ok h" "plane_inv h" "node_names h = node_names e"
    using AllocateUPFID_law[OF e(2), of resolve] e(2) by (cases "?add = []") auto
  have "\<forall>i \<in> set ?mod. fst (snd i) \<in> dom (node_names h)"
    by (rule image_ball) (simp only: keys kmod h(3) ne)
  with known(2) have "\<forall>i \<in> set ?mod. known_type i \<and> fst (snd i) \<in> dom (node_names h)" by blast
  from node_store.modifications[OF h(2) this, of G resolve] obtain k where
    k: "apply_all (\<lambda>(uid, name, cfg). UpdateSmfUserPlaneNode G uid resolve name cfg) ?mod h = Ok k" "plane_inv k"
      "node_names k = node_names h ++ map_of (rev (map (\<lambda>i. (fst (snd i), ())) ?mod))" by blast
  have nk: "dom (node_names k) = dom (map_of (CfgUPNodes new))"
    unfolding k(3) dom_overridden keys h(3) ne using kmod by blast
  have "\<forall>l \<in> set ?ln. LinkA l \<in> dom (node_names k) \<and> LinkB l \<in> dom (node_names k)" using assms(3) unfolding nk plane_ok_def by simp
  from each_links[where f=InsertUPNodeLinks, OF insert_link_law k(2) this] obtain r where
    r: "each InsertUPNodeLinks ?ln k = Ok r" "plane_inv r" "node_names r = node_names k" by blast
  have del: "each (\<lambda>(name, cfg). DeleteSmfUserPlaneNode resolve name cfg) (map (\<lambda>(name, n). (name, cfg_node.truncate n)) (DiffDel ?d)) a = Ok b"
    using b(1) by (simp add: each_apply_all apply_all_map split_beta')
  have "ProcessUserPlaneUpdate G resolve (up_changes addUid modUid (compareAndProcessConfigs c new u)) t = Ok (ResetDefaultUserPlanePath r)"
    unfolding ProcessUserPlaneUpdate_def up_changes_def pending up_update.select_convs a(1) bind_res.simps del
      each_apply_all[of _ ?add] e(1) h(1) each_apply_all[of _ ?mod] k(1) r(1) ..
  moreover have "plane_inv (ResetDefaultUserPlanePath r)"
    by (rule plane_inv_tables[OF r(2)]) (simp_all add: ResetDefaultUserPlanePath_def)
  moreover have "node_names (ResetDefaultUserPlanePath r) = node_names r" by (simp add: ResetDefaultUserPlanePath_def node_names_def)
  ultimately show ?thesis using nk r(3) by (simp add: ResetDefaultUserPlanePath_def)
qed

section \<open>Properties\<close>

text \<open>One message of the management system and the SMF's answer to the trigger.\<close>

definition config_round ::
    "'g idgen \<Rightarrow> (node_id \<Rightarrow> ip) \<Rightarrow> (string \<Rightarrow> string) \<Rightarrow> (string \<Rightarrow> string) \<Rightarrow> string \<Rightarrow> string \<Rightarrow> network_slice list \<Rightarrow>
     configuration \<times> update_smf_config \<times> 'g smf_state \<Rightarrow> (configuration \<times> update_smf_config \<times> 'g smf_state) result" where
  "config_round G resolve addUid modUid portEnv countEnv rsp s = (case s of (c, u, w) \<Rightarrow>
     bind_res (UpdateConfig portEnv rsp (c, u)) (\<lambda>(trigger, c, u).
     if trigger
     then bind_res (ProcessConfigUpdate G resolve addUid modUid countEnv u w) (\<lambda>(_, u, w). Ok (c, u, w))
     else Ok (c, u, w)))"

definition in_sync :: "configuration \<Rightarrow> 'g smf_state \<Rightarrow> bool" where
  "in_sync c w \<longleftrightarrow> config_ok c \<and> plane_ok c \<and>
     slices_inv (Slices w) \<and> slices_view (Slices w) = cfg_slices c \<and>
     plane_inv (UserPlane w) \<and> dom (node_names (UserPlane w)) = dom (map_of (CfgUPNodes c))"


definition sample_message :: "network_slice list" where
  "sample_message =
     [\<lparr>RocName = ''enterprise'', RocNssai = Some \<lparr>RocSst = ''1'', RocSd = ''010203''\<rparr>,
       RocSite = Some \<lparr>SitePlmn = Some \<lparr>Mcc = ''208'', Mnc = ''93''\<rparr>, SiteUpf = Some ''upf:8806'', SiteGnb = [''gnb'']\<rparr>,
       DeviceGroup = [[\<lparr>DnnName = ''internet'', DnsPrimary = ''8.8.8.8'', UePool = ''10.250.0.0/16'', DomainMtu = 1460\<rparr>]]\<rparr>]"

definition sample_configuration :: configuration where
  "sample_configuration =
     \<lparr>SNssaiInfo = [\<lparr>NsSNssai = \<lparr>Sd = ''010203'', Sst = 1\<rparr>, NsPlmnId = \<lparr>Mcc = ''208'', Mnc = ''93''\<rparr>,
        NsDnnInfos = [\<lparr>NsDnn = ''internet'', NsDnsIPv4 = ''8.8.8.8'', NsDnsIPv6 = '''', UESubnet = ''10.250.0.0/16'', NsMTU = 1460\<rparr>]\<rparr>],
      CfgUPNodes = [(''upf'', slice_upf \<lparr>Sd = ''010203'', Sst = 1\<rparr> ''upf'' 8806 (concat (DeviceGroup (hd sample_message)))),
                    (''gnb'', gnb_node ''gnb'')],
      CfgLinks = [\<lparr>LinkA = ''gnb'', LinkB = ''upf''\<rparr>], CfgEnterpriseList = [(''1010203'', ''enterprise'')]\<rparr>"

definition empty_state :: "'g smf_state" where
  "empty_state = \<lparr>Slices = \<lparr>SnssaiInfos = [], StaticIpInfo = Some []\<rparr>, UserPlane = empty_upi, EnterpriseList = None,
     Identity = \<lparr>NfInstanceID = ''smf'', URIScheme = ''http'', RegisterIPv4 = ''127.0.0.2'', SBIPort = 8000, ServiceNameList = [''nsmf-pdusession'']\<rparr>,
     Profile = \<lparr>NrfSlices = [], SmfPlmnInfo = [], NFServices = []\<rparr>\<rparr>"

lemma sample_parsed: "parseRocConfig '''' sample_message = Ok sample_configuration"
  by (simp add: parseRocConfig_def pfcp_port_def sample_message_def sample_configuration_def no_configuration_def parse_slice_def
      upf_port_def parse_nssai_def dnn_info_def ParseUint32_def Let_def go_simps)

lemma empty_in_sync: "in_sync no_configuration empty_state"
  by (simp add: in_sync_def config_ok_def plane_ok_def no_configuration_def empty_state_def slices_inv_def slices_view_def cfg_slices_def
      plane_inv_def empty_upi_def node_names_def go_map_ok_def ptrs_def dom_def)

lemma sample_config_ok: "config_ok sample_configuration"
  by (simp add: config_ok_def sample_configuration_def v4_slice_def go_simps Let_def upt_conv_Cons)


text \<open>C34: the comparison of two lists of slices with distinct S-NSSAIs finds exactly the slices that
  disappear, the slices that appear, and the new items of the slices that stay but differ in their
  PLMN or in the set of their data networks; it reports a match only when all three are empty.\<close>

theorem compareNetworkSlices_exact:
  fixes old new :: "snssai_info_item list"
  assumes "distinct (map NsSNssai new)"
  defines "d \<equiv> compareNetworkSlices old new"
  shows "set (DiffAdd d) = {y \<in> set new. NsSNssai y \<notin> NsSNssai ` set old} \<and>
    set (DiffDel d) = {x \<in> set old. NsSNssai x \<notin> NsSNssai ` set new} \<and>
    set (DiffMod d) = {y \<in> set new. \<exists>x \<in> set old. NsSNssai x = NsSNssai y \<and>
      (set (NsDnnInfos x) \<noteq> set (NsDnnInfos y) \<or> NsPlmnId x \<noteq> NsPlmnId y)} \<and>
    (DiffMatch d \<longleftrightarrow> DiffAdd d = [] \<and> DiffMod d = [] \<and> DiffDel d = [])"
proof -
  let ?same = "\<lambda>s1 s2. Sd (NsSNssai s1) = Sd (NsSNssai s2) \<and> Sst (NsSNssai s1) = Sst (NsSNssai s2)"
  have same: "?same x y \<longleftrightarrow> NsSNssai x = NsSNssai y" for x y by (auto intro: snssai.equality)
  have inst: "compareNetworkSliceInstance x y \<longleftrightarrow> set (NsDnnInfos x) = set (NsDnnInfos y) \<and> NsPlmnId x = NsPlmnId y" for x y
    using compareGenericSlices_match[of compareNsDnn "NsDnnInfos x" "NsDnnInfos y"]
    by (simp add: compareNetworkSliceInstance_def compareNsDnn_def)
  show ?thesis
    unfolding d_def compareNetworkSlices_def
    using two_passes_sets[where same="?same" and key=NsSNssai and old=old and inst=compareNetworkSliceInstance, OF same assms(1)]
      two_passes_match[of ?same compareNetworkSliceInstance old new]
    by (simp add: inst)
qed

theorem compareNetworkSlices_exact_witness:
  "set (DiffAdd (compareNetworkSlices [] (SNssaiInfo sample_configuration))) = set (SNssaiInfo sample_configuration)"
proof -
  have "distinct (map NsSNssai (SNssaiInfo sample_configuration))" by (simp add: sample_configuration_def)
  from compareNetworkSlices_exact[OF this, of "[]"] show ?thesis by simp
qed

section \<open>Two updates before the SMF reacts, and live sessions\<close>

text \<open>The trigger has a buffer, so that a second message may be compared before the first is applied.
  Additions of the second message replace those of the first: no slice that the first message has
  added is among the pending additions, although it is in the configuration in force.\<close>

lemma pending_additions_overwritten:
  assumes "DiffAdd (compareNetworkSlices (SNssaiInfo first) (SNssaiInfo second)) \<noteq> []" and "i \<in> set (SNssaiInfo first)"
    and "distinct (map NsSNssai (SNssaiInfo second))"
  shows "NsSNssai i \<notin> NsSNssai ` set (items (AddSNssaiInfo (compareAndProcessConfigs first second (compareAndProcessConfigs c first u))))"
proof -
  let ?d = "compareNetworkSlices (SNssaiInfo first) (SNssaiInfo second)"
  let ?same = "\<lambda>s1 s2. Sd (NsSNssai s1) = Sd (NsSNssai s2) \<and> Sst (NsSNssai s1) = Sst (NsSNssai s2)"
  have same: "?same x y \<longleftrightarrow> NsSNssai x = NsSNssai y" for x y by (auto intro: snssai.equality)
  note sets = two_passes_sets[where same="?same" and key=NsSNssai and old="SNssaiInfo first" and inst=compareNetworkSliceInstance, OF same assms(3)]
  have "\<not> DiffMatch ?d"
    using assms(1) two_passes_match[of ?same compareNetworkSliceInstance "SNssaiInfo first" "SNssaiInfo second"]
    by (auto simp: compareNetworkSlices_def)
  then have "items (AddSNssaiInfo (compareAndProcessConfigs first second (compareAndProcessConfigs c first u))) = DiffAdd ?d"
    using assms(1) by (simp add: compareAndProcessConfigs_def[of first second] Let_def case_prod_beta unless_empty_def items_def)
  moreover have "NsSNssai i \<notin> NsSNssai ` set (DiffAdd ?d)"
    using assms(2) sets(1) by (auto simp: compareNetworkSlices_def) (metis image_eqI)
  ultimately show ?thesis by simp
qed

text \<open>A modified slice gets new address pools in which no address is in use, whatever the addresses
  of the sessions that go on.\<close>

lemma new_dnns_unused:
  assumes "new_dnns env c ds m = Ok m'" and "StaticIpInfo c = Some []" and "\<forall>v \<in> snd ` set m. isUsed (g (UeIPAllocator v)) = {}"
  shows "\<forall>v \<in> snd ` set m'. isUsed (g (UeIPAllocator v)) = {}"
  using assms(1,3)
proof (induction ds arbitrary: m)
  case (Cons d ds)
  then obtain m1 where m1: "new_dnn env c d m = Ok m1" "new_dnns env c ds m1 = Ok m'" by auto
  have upd: "snd ` set (AList.update k v n) \<subseteq> insert v (snd ` set n)" for k v and n :: "smf_dnn_info go_map"
    by (induction n) auto
  have "\<forall>v \<in> snd ` set m1. isUsed (g (UeIPAllocator v)) = {}"
  proof (cases "NewIPAllocator env (UESubnet d)")
    case (Ok a)
    then have "isUsed (g a) = {}" by (auto simp: NewIPAllocator_def newIDPool_def Let_def split: option.splits if_splits)
    moreover obtain v where "m1 = AList.update (NsDnn d) v m" "UeIPAllocator v = a"
      using m1(1) Ok assms(2) by (auto simp: new_dnn_def GetDnnStaticIpInfo_def)
    ultimately show ?thesis using Cons.prems(2) upd[of "NsDnn d" v m] by (metis (no_types, lifting) insertE subset_iff)
  qed (use m1(1) Cons.prems(2) in \<open>auto simp: new_dnn_def\<close>)
  with Cons.IH[OF m1(2)] show ?case .
qed simp

lemma find_append: "find P (xs @ ys) = (case find P xs of None \<Rightarrow> find P ys | Some x \<Rightarrow> Some x)"
  by (induction xs) auto

lemma modified_slice_forgets_addresses:
  assumes "updateSmfNssaiInfo env i c = Ok c'" and "StaticIpInfo c = Some []" and "slices_inv c"
    and "RetrieveDnnInformation (NsSNssai i) dnn c' = Some info"
  shows "isUsed (g (UeIPAllocator info)) = {}"
proof -
  from assms(1) obtain c1 where c1: "deleteSmfNssaiInfo i c = Ok c1" "insertSmfNssaiInfo env i c1 = Ok c'" by (auto simp: updateSmfNssaiInfo_def)
  then have "StaticIpInfo c1 = Some []" using assms(2) by (auto simp: deleteSmfNssaiInfo_def split: option.splits)
  have "NsSNssai i \<in> dom (slices_view c)"
    using c1(1) remove_slice_iff[of i "SnssaiInfos c"] unfolding slices_view_dom deleteSmfNssaiInfo_def
    by (cases "remove_slice i (SnssaiInfos c)") simp_all
  with deleteSmfNssaiInfo_law[OF assms(3), of i] c1(1) have gone: "NsSNssai i \<notin> dom (slices_view c1)" by auto
  with c1(2) obtain m where m: "new_dnns env c1 (NsDnnInfos i) [] = Ok m"
    "c' = c1\<lparr>SnssaiInfos := SnssaiInfos c1 @ [\<lparr>SmfSnssai = NsSNssai i, SmfPlmnId = NsPlmnId i, SmfDnnInfos = m\<rparr>]\<rparr>"
    using getSmfNssaiInfo_iff[of "NsSNssai i" c1] by (auto simp: insertSmfNssaiInfo_def)
  have unused: "\<forall>v \<in> snd ` set m. isUsed (g (UeIPAllocator v)) = {}"
    by (rule new_dnns_unused[OF m(1) \<open>StaticIpInfo c1 = Some []\<close>]) simp
  have "find (\<lambda>s. Sst (SmfSnssai s) = Sst (NsSNssai i) \<and> Sd (SmfSnssai s) = Sd (NsSNssai i)) (SnssaiInfos c1) = None"
    using gone getSmfNssaiInfo_iff[of "NsSNssai i" c1] by (simp add: getSmfNssaiInfo_def conj_commute)
  then have "find (\<lambda>s. Sst (SmfSnssai s) = Sst (NsSNssai i) \<and> Sd (SmfSnssai s) = Sd (NsSNssai i)) (SnssaiInfos c') =
      Some \<lparr>SmfSnssai = NsSNssai i, SmfPlmnId = NsPlmnId i, SmfDnnInfos = m\<rparr>"
    by (simp add: m(2) find_append)
  with assms(4) have "map_of m dnn = Some info" by (simp add: RetrieveDnnInformation_def)
  then show ?thesis using unused by (force dest: map_of_SomeD)
qed

end
