(* ===== verification/Session_Create.thy ===== *)
theory Session_Create
  imports Session_Update Config_Update
begin

text \<open>
  Establishing a session (\<^verbatim>\<open>HandlePDUSessionSMContextCreate\<close> of \<^verbatim>\<open>producer/pdu_session.go\<close>,
  \<^verbatim>\<open>consumer/sm_policy.go\<close>, \<^verbatim>\<open>PCFSelection\<close> and the handler of the HTTP request).  The answers of the other network
  functions are arguments.  The allocator of a data network of a slice is kept in the pools under a
  key of the slice and the network, which is what \<^verbatim>\<open>DNNInfo\<close> points to.
\<close>

section \<open>Requests and answers\<close>

record create_data =
  cdSupi :: string
  cdDnn :: string
  cdSNssai :: snssai
  cdServingNetwork :: "plmn_id option"
  cdGuamiPlmn :: "plmn_id option"
  cdN1 :: "byte list"

datatype create_response =
    N1SmErrorResponse
  | Rejected http_response
  | Created string snssai

datatype discovery = Discovered | DiscoveryProblem | DiscoveryError

text \<open>Subscription data: one entry per slice, with the session types of each data network; a network
  without an entry has no types.  No response at all is told from an error response.\<close>

datatype subscription =
    NoResponse
  | FetchError
  | Subscribed "(string \<rightharpoonup> pdu_session_type list) list"

record policy_context =
  pcSupi :: string
  pcSessionId :: int
  pcNotificationUri :: string
  pcDnn :: string
  pcType :: "pdu_session_type option"
  pcIpv4Address :: string
  pcSlice :: snssai
  pcServingNetwork :: plmn_id

text \<open>The services of the first network function found: none when nothing was found, nil when the
  profile has no list of services.\<close>

datatype search_answer = SearchError | Instances "(string list option) list"

record answers =
  UdmDiscovery :: discovery
  SmData :: subscription
  PcfSearch :: search_answer
  SmPoliciesPost :: "policy_context \<Rightarrow> sm_policy_decision option"
  AmfDiscovery :: discovery
  AmfServices :: "string list option"

record 'g creation =
  cworld :: "'g smf"
  plane :: "'g upi"
  bpManager :: "bp_manager option"
  SMPolicyClient :: bool
  CommunicationClient :: bool
  answer :: "create_response option"

text \<open>The part of the SMF's own data that the procedure reads: the slices, its identity and the
  pre-configured paths of the UE, if it has any and branching is supported.\<close>

record create_env =
  cslices :: smf_slices
  cself :: smf_identity
  UEPreConfigPaths :: "data_path_pool option"

section \<open>Helpers\<close>

definition SetCreateData :: "create_data \<Rightarrow> 'g session \<Rightarrow> 'g session" where
  "SetCreateData d x = x\<lparr>ctx := (ctx x)\<lparr>Supi := cdSupi d, Dnn := cdDnn d\<rparr>, SessSnssai := cdSNssai d\<rparr>"

definition dnn_key :: "snssai \<Rightarrow> string \<Rightarrow> string" where
  "dnn_key n dnn = slice_key n @ ''/'' @ dnn"

definition csess :: "'g creation \<Rightarrow> 'g session" where
  "csess s = sess (cworld s)"

definition cchange :: "('g session \<Rightarrow> 'g session) \<Rightarrow> 'g creation \<Rightarrow> 'g creation" where
  "cchange f s = s\<lparr>cworld := set_sess f (cworld s)\<rparr>"

text \<open>The response is a refusal with a cause, the error ends the procedure.\<close>

definition reject :: "'p gsm_lib \<Rightarrow> string \<Rightarrow> string \<Rightarrow> 'g creation \<Rightarrow> (unit result \<times> 'g creation) option" where
  "reject G cause e s = (case GeneratePDUSessionEstablishmentReject G cause (csess s) of
      Ok h \<Rightarrow> Some (Err e, s\<lparr>answer := Some (Rejected h)\<rparr>)
    | Err e \<Rightarrow> Some (Err e, s)
    | Panic e \<Rightarrow> Some (Panic e, s))"

section \<open>Policies\<close>

fun validate_rules :: "session_rule option go_map \<Rightarrow> unit result" where
  "validate_rules [] = Ok ()"
| "validate_rules ((name, rule) # rs) = (case rule of
      None \<Rightarrow> Panic ''nil pointer dereference''
    | Some r \<Rightarrow>
        if AuthSessAmbr r = None then Err ''authorised session ambr missing''
        else if AuthDefQos r = None then Err ''authorised default qos missing''
        else validate_rules rs)"

definition validateSmPolicyDecision :: "sm_policy_decision \<Rightarrow> unit result" where
  "validateSmPolicyDecision dec = validate_rules (SessRules dec)"

definition PCFSelection :: "answers \<Rightarrow> 'g creation \<Rightarrow> unit result \<times> 'g creation" where
  "PCFSelection A s = (case PcfSearch A of
      SearchError \<Rightarrow> (Err ''NF discovery'', s)
    | Instances [] \<Rightarrow> (Panic ''index out of range'', s)
    | Instances (None # _) \<Rightarrow> (Panic ''nil pointer dereference'', s)
    | Instances (Some services # _) \<Rightarrow> (Ok (), if ''npcf-smpolicycontrol'' \<in> set services then s\<lparr>SMPolicyClient := True\<rparr> else s))"

definition policy_context_of :: "nas_lib \<Rightarrow> smf_identity \<Rightarrow> ip \<Rightarrow> plmn_id \<Rightarrow> 'g session \<Rightarrow> policy_context" where
  "policy_context_of N me ueIp plmn x =
     \<lparr>pcSupi = Supi (ctx x), pcSessionId = PDUSessionID (ctx x),
      pcNotificationUri = URIScheme me @ ''://'' @ RegisterIPv4 me @ '':'' @ fmt_d (SBIPort me) @ ''/nsmf-callback/sm-policies/'' @ Ref (ctx x),
      pcDnn = Dnn (ctx x), pcType = PDUSessionTypeToModels N (SelectedPDUSessionType (ctx x)),
      pcIpv4Address = IPString (To4 ueIp), pcSlice = SessSnssai x, pcServingNetwork = plmn\<rparr>"

definition SendSMPolicyAssociationCreate :: "nas_lib \<Rightarrow> smf_identity \<Rightarrow> answers \<Rightarrow> create_data \<Rightarrow> 'g creation \<Rightarrow> sm_policy_decision result" where
  "SendSMPolicyAssociationCreate N me A d s =
     (if \<not> SMPolicyClient s then Err ''smContext not selected PCF''
      else case (PDUAddress (ctx (csess s)), cdServingNetwork d) of
        (Some u, Some plmn) \<Rightarrow>
          (case SmPoliciesPost A (policy_context_of N me (UeIp u) plmn (csess s)) of
             None \<Rightarrow> Err ''setup sm policy association failed''
           | Some dec \<Rightarrow> bind_res (validateSmPolicyDecision dec) (\<lambda>_. Ok dec))
      | _ \<Rightarrow> Panic ''nil pointer dereference'')"

section \<open>Addresses and paths\<close>

definition count_env :: "penv \<Rightarrow> string" where
  "count_env E = (case SMF_COUNT E of None \<Rightarrow> '''' | Some s \<Rightarrow> s)"

definition allocate_address :: "string \<Rightarrow> 'g smf \<Rightarrow> unit result \<times> 'g smf" where
  "allocate_address env w = (let pl = spools w; c = ctx (sess w); dnn = DNNInfo c in
     case Allocate env (Supi c) (allocators pl dnn) of
       Ok (x, a) \<Rightarrow> (Ok (), w\<lparr>spools := pl\<lparr>allocators := (allocators pl)(dnn := a)\<rparr>,
          sess := (sess w)\<lparr>ctx := c\<lparr>PDUAddress := Some \<lparr>UeIp = x, UpfProvided = False\<rparr>\<rparr>\<rparr>\<rparr>)
     | Err e \<Rightarrow> (Err e, w)
     | Panic e \<Rightarrow> (Panic e, w))"

definition activate_path :: "('p, 'g) lib \<Rightarrow> data_path \<Rightarrow> (data_path \<Rightarrow> data_path_pool) \<Rightarrow> 'g creation \<Rightarrow> (unit result \<times> 'g creation) option" where
  "activate_path L d pool s =
     (case ActivateTunnelAndPDR (gens L) (resolve (pfcp L)) (nas L) (net L) (bound L) (ctx (csess s)) 255 d (dps (csess s)) of
        None \<Rightarrow> None
      | Some (r, d', t) \<Rightarrow> Some (r, cchange (\<lambda>x. x\<lparr>dps := t, Tunnel := Some (Some (pool d'))\<rparr>) s))"

text \<open>The pre-configured paths: an error of the activation is only logged.\<close>

definition preconfigured_path :: "('p, 'g) lib \<Rightarrow> data_path_pool \<Rightarrow> 'g creation \<Rightarrow> (unit result \<times> 'g creation) option" where
  "preconfigured_path L pool s = (case List.find (\<lambda>(_, d). IsDefaultPath d) pool of
      None \<Rightarrow> Some (Panic ''nil pointer dereference'', s)
    | Some (i, d) \<Rightarrow>
        (case activate_path L d (\<lambda>d'. AList.update i d' pool) s of
           None \<Rightarrow> None
         | Some (Panic e, s) \<Rightarrow> Some (Panic e, s)
         | Some (_, s) \<Rightarrow> Some (Ok (), s\<lparr>bpManager := Some NewBPManager\<rparr>)))"

text \<open>The UPFs of the default path of the topology become the nodes of a new data path.  The result
  tells whether there is one.\<close>

definition default_path :: "('p, 'g) lib \<Rightarrow> create_data \<Rightarrow> 'g creation \<Rightarrow> (bool result \<times> 'g creation) option" where
  "default_path L d s =
     (case GetDefaultUserPlanePathByDNN \<lparr>SelDnnList = [cdDnn d], SelSNssai = cdSNssai d, SelDnai = ''''\<rparr> (plane s) of
        Err e \<Rightarrow> Some (Err e, s)
      | Panic e \<Rightarrow> Some (Panic e, s)
      | Ok (path, t) \<Rightarrow>
          (let upfs = map (\<lambda>n. NodeUPF (nodes t ! n)) (case path of None \<Rightarrow> [] | Some ns \<Rightarrow> ns) in
           case GenerateDataPath upfs (dps (csess s)) of
             (None, _) \<Rightarrow> Some (Ok False, s\<lparr>plane := t\<rparr>)
           | (Some p, dp) \<Rightarrow>
               andthen (activate_path L (p\<lparr>IsDefaultPath := True\<rparr>) (\<lambda>p. DataPathPool (AddDataPath (gens L) p (NewUPTunnel (gens L))))
                  (cchange (\<lambda>x. x\<lparr>dps := dp\<rparr>) (s\<lparr>plane := t\<rparr>)))
                 (\<lambda>_ s. Some (Ok True, s))))"

section \<open>The procedure\<close>

text \<open>Address, subscription and session type.\<close>

definition create_address :: "('p, 'g) lib \<Rightarrow> create_env \<Rightarrow> answers \<Rightarrow> create_data \<Rightarrow> 'g creation \<Rightarrow> (unit result \<times> 'g creation) option" where
  "create_address L E A d s =
     (case RetrieveDnnInformation (cdSNssai d) (cdDnn d) (cslices E) of
        None \<Rightarrow> reject (gsm L) ''DnnNotSupported'' ''SnssaiError'' s
      | Some _ \<Rightarrow>
          (let s = cchange (\<lambda>x. x\<lparr>ctx := (ctx x)\<lparr>DNNInfo := dnn_key (cdSNssai d) (cdDnn d)\<rparr>\<rparr>) s in
           if UdmDiscovery A \<noteq> Discovered then reject (gsm L) ''UDMDiscoveryFailure'' ''UdmError'' s
           else (case allocate_address (count_env (pfcp L)) (cworld s) of
               (Ok _, w) \<Rightarrow> Some (Ok (), s\<lparr>cworld := w\<rparr>)
             | (Err e, w) \<Rightarrow> reject (gsm L) ''IpAllocError'' ''IpAllocError'' s
             | (Panic e, w) \<Rightarrow> Some (Panic e, s))))"

definition create_subscription :: "('p, 'g) lib \<Rightarrow> answers \<Rightarrow> create_data \<Rightarrow> 'g creation \<Rightarrow> (unit result \<times> 'g creation) option" where
  "create_subscription L A d s =
     (if cdServingNetwork d = None \<and> cdGuamiPlmn d = None then Some (Panic ''nil pointer dereference'', s)
      else case SmData A of
        NoResponse \<Rightarrow> Some (Err ''response nil'', s)
      | FetchError \<Rightarrow> reject (gsm L) ''SubscriptionDataFetchError'' ''SubscriptionError'' s
      | Subscribed [] \<Rightarrow> reject (gsm L) ''SubscriptionDataLenError'' ''NoSubscriptionError'' s
      | Subscribed (m # _) \<Rightarrow> Some (Ok (), cchange (\<lambda>x. x\<lparr>ctx := (ctx x)\<lparr>AllowedSessionTypes := m (Dnn (ctx x))\<rparr>\<rparr>) s))"

definition pduSessionTypeToString :: "nas_lib \<Rightarrow> u8 \<Rightarrow> string" where
  "pduSessionTypeToString N t = (
     if t = ModelsToPDUSessionType N IPV4 then ''IPv4''
     else if t = ModelsToPDUSessionType N IPV6 then ''IPv6''
     else if t = ModelsToPDUSessionType N IPV4_V6 then ''IPv4IPv6''
     else if t = ModelsToPDUSessionType N ETHERNET then ''Ethernet''
     else if t = ModelsToPDUSessionType N UNSTRUCTURED then ''Unstructured''
     else ''IPv4'')"

definition create_type :: "('p, 'g) lib \<Rightarrow> establishment_request \<Rightarrow> 'g creation \<Rightarrow> (unit result \<times> 'g creation) option" where
  "create_type L er s =
     (let s = cchange (HandlePDUSessionEstablishmentRequest (gsm L) (nas L) (config L) er) s;
          t = SelectedPDUSessionType (ctx (csess s)) in
      if t \<noteq> ModelsToPDUSessionType (nas L) IPV4 \<and> t \<noteq> ModelsToPDUSessionType (nas L) IPV4_V6
      then reject (gsm L) ''PDUSessionTypeIPv4OnlyAllowed'' (pduSessionTypeToString (nas L) t @ '' PDU Session not supported'') s
      else Some (Ok (), s))"

definition create_policy :: "('p, 'g) lib \<Rightarrow> create_env \<Rightarrow> answers \<Rightarrow> create_data \<Rightarrow> 'g creation \<Rightarrow> (unit result \<times> 'g creation) option" where
  "create_policy L E A d s = (case PCFSelection A s of
      (Panic e, s) \<Rightarrow> Some (Panic e, s)
    | (Err e, s) \<Rightarrow> reject (gsm L) ''PCFDiscoveryFailure'' ''PcfError'' s
    | (Ok _, s) \<Rightarrow>
        (case SendSMPolicyAssociationCreate (nas L) (cself E) A d s of
           Panic e \<Rightarrow> Some (Panic e, s)
         | Err e \<Rightarrow> reject (gsm L) ''PCFPolicyCreateFailure'' ''PcfAssoError'' s
         | Ok dec \<Rightarrow> Some (Ok (), cchange (\<lambda>x. x\<lparr>ctx := (ctx x)\<lparr>SmPolicyUpdates :=
             SmPolicyUpdates (ctx x) @ [BuildSmPolicyUpdate (SmPolicyData (ctx x)) dec]\<rparr>\<rparr>) s)))"

definition create_path :: "('p, 'g) lib \<Rightarrow> create_env \<Rightarrow> create_data \<Rightarrow> 'g creation \<Rightarrow> (unit result \<times> 'g creation) option" where
  "create_path L E d s =
     (let s = cchange (\<lambda>x. x\<lparr>Tunnel := Some (Some [])\<rparr>) s in
      case UEPreConfigPaths E of
        Some pool \<Rightarrow> preconfigured_path L pool s
      | None \<Rightarrow>
          (case default_path L d s of
             None \<Rightarrow> None
           | Some (Panic e, s) \<Rightarrow> Some (Panic e, s)
           | Some (Err e, s) \<Rightarrow> reject (gsm L) ''UPFDataPathError'' ''DataPathError'' s
           | Some (Ok True, s) \<Rightarrow> Some (Ok (), s)
           | Some (Ok False, s) \<Rightarrow> reject (gsm L) ''InsufficientResourceSliceDnn'' ''InsufficientResourceSliceDnn''
               (cchange (\<lambda>x. x\<lparr>ctx := ChangeState SmStateInit (ctx x)\<rparr>) s)))"

definition create_amf :: "('p, 'g) lib \<Rightarrow> answers \<Rightarrow> 'g creation \<Rightarrow> (unit result \<times> 'g creation) option" where
  "create_amf L A s =
     (if AmfDiscovery A \<noteq> Discovered then reject (gsm L) ''AMFDiscoveryFailure'' ''AmfError'' s
      else case AmfServices A of
        None \<Rightarrow> Some (Panic ''nil pointer dereference'', s)
      | Some services \<Rightarrow> Some (Ok (), s\<lparr>CommunicationClient := CommunicationClient s \<or> ''namf-comm'' \<in> set services,
          answer := Some (Created (Ref (ctx (csess s))) (SessSnssai (csess s)))\<rparr>))"

definition HandlePDUSessionSMContextCreate ::
    "('p, 'g) lib \<Rightarrow> create_env \<Rightarrow> answers \<Rightarrow> create_data \<Rightarrow> 'g creation \<Rightarrow> (unit result \<times> 'g creation) option" where
  "HandlePDUSessionSMContextCreate L E A d s = (case GsmMessageDecode (gsm L) (cdN1 d) of
      Panic e \<Rightarrow> Some (Panic e, s)
    | Ok (EstablishmentRequest er) \<Rightarrow>
        andthen (create_address L E A d (cchange (SetCreateData d) s)) (\<lambda>_ s.
        andthen (create_subscription L A d s) (\<lambda>_ s.
        andthen (create_type L er s) (\<lambda>_ s.
        andthen (create_policy L E A d s) (\<lambda>_ s.
        andthen (create_path L E d s) (\<lambda>_ s.
        create_amf L A s)))))
    | _ \<Rightarrow> Some (Err ''GsmMsgDecodeError'', s\<lparr>answer := Some N1SmErrorResponse\<rparr>))"

text \<open>What the handler of the HTTP request does with the outcome: a context that was not created is
  removed; without a response the type assertion panics.  The result tells whether the PFCP session is
  to be established.\<close>

definition post_outcome :: "'g creation \<Rightarrow> bool result \<times> 'g creation" where
  "post_outcome s = (case answer s of
      None \<Rightarrow> (Panic ''interface conversion'', s)
    | Some (Created _ _) \<Rightarrow> (Ok True, s)
    | Some _ \<Rightarrow> (case remove_context (Ref (ctx (csess s))) (cworld s) of
        (Panic e, w) \<Rightarrow> (Panic e, s\<lparr>cworld := w\<rparr>) | (_, w) \<Rightarrow> (Ok False, s\<lparr>cworld := w\<rparr>)))"

section \<open>What the steps keep\<close>

definition same_address :: "'g smf \<Rightarrow> 'g smf \<Rightarrow> bool" where
  "same_address w w' \<longleftrightarrow> spools w' = spools w \<and> self w' = self w \<and> Ref (ctx (sess w')) = Ref (ctx (sess w)) \<and>
     Supi (ctx (sess w')) = Supi (ctx (sess w)) \<and> DNNInfo (ctx (sess w')) = DNNInfo (ctx (sess w)) \<and>
     PDUAddress (ctx (sess w')) = PDUAddress (ctx (sess w)) \<and> SessSnssai (sess w') = SessSnssai (sess w)"

lemma same_address_refl [simp]: "same_address w w"
  by (simp add: same_address_def)

lemma same_address_trans [trans]: "same_address u v \<Longrightarrow> same_address v w \<Longrightarrow> same_address u w"
  by (simp add: same_address_def)

lemma reject_cases:
  assumes "reject G cause e s = Some (r, s')"
  shows "cworld s' = cworld s" and "r \<noteq> Ok ()"
    and "(\<exists>h c. r = Err e \<and> answer s' = Some (Rejected h) \<and> ErrorType cause = Some (Status h, c)) \<or> is_Panic r"
  using assms
  by (auto simp: reject_def GeneratePDUSessionEstablishmentReject_def split: result.splits option.splits)

lemma select_type_frame:
  "select_type N spt t c = (r, c') \<Longrightarrow> Ref c' = Ref c \<and> Supi c' = Supi c \<and> DNNInfo c' = DNNInfo c \<and> PDUAddress c' = PDUAddress c \<and>
     SmPolicyUpdates c' = SmPolicyUpdates c \<and> SmPolicyData c' = SmPolicyData c \<and> Dnn c' = Dnn c"
  by (auto simp: select_type_def isAllowedPDUSessionType_def Let_def split: option.splits if_splits pdu_session_type.splits prod.splits)

lemma establishment_frame:
  fixes x :: "'g session" and G :: "'p gsm_lib" and N cfg er
  defines "x' \<equiv> HandlePDUSessionEstablishmentRequest G N cfg er x"
  shows "Ref (ctx x') = Ref (ctx x) \<and> Supi (ctx x') = Supi (ctx x) \<and> DNNInfo (ctx x') = DNNInfo (ctx x) \<and> PDUAddress (ctx x') = PDUAddress (ctx x) \<and>
     SmPolicyUpdates (ctx x') = SmPolicyUpdates (ctx x) \<and> SmPolicyData (ctx x') = SmPolicyData (ctx x) \<and> Dnn (ctx x') = Dnn (ctx x) \<and>
     SessSnssai x' = SessSnssai x"
proof -
  obtain r c where "select_type N (SupportedPDUSessionType cfg) (erType er) ((ctx x)\<lparr>PDUSessionID := uint (erSessionID er)\<rparr>) = (r, c)"
    by fastforce
  with select_type_frame[OF this] show ?thesis
    by (cases r) (auto simp: x'_def HandlePDUSessionEstablishmentRequest_def Let_def split: option.split)
qed

lemma create_subscription_frame: "create_subscription L A d s = Some (r, s') \<Longrightarrow> same_address (cworld s) (cworld s')"
  by (auto simp: create_subscription_def same_address_def cchange_def set_sess_def dest: reject_cases(1)
      split: if_splits subscription.splits list.splits)

lemma create_type_frame: "create_type L er s = Some (r, s') \<Longrightarrow> same_address (cworld s) (cworld s')"
  using establishment_frame[of "gsm L" "nas L" "config L" er "csess s"]
  by (auto simp: create_type_def same_address_def cchange_def set_sess_def csess_def Let_def dest!: reject_cases(1) split: if_splits)

lemma PCFSelection_frame: "PCFSelection A s = (r, s') \<Longrightarrow> cworld s' = cworld s"
  by (auto simp: PCFSelection_def split: search_answer.splits list.splits option.splits if_splits)

lemma create_policy_frame: "create_policy L E A d s = Some (r, s') \<Longrightarrow> same_address (cworld s) (cworld s')"
  by (cases "PCFSelection A s"; cases "fst (PCFSelection A s)")
    (auto simp: create_policy_def same_address_def cchange_def set_sess_def dest!: reject_cases(1) PCFSelection_frame split: result.splits)

lemma activate_path_frame: "activate_path L p pool s = Some (r, s') \<Longrightarrow> same_address (cworld s) (cworld s')"
  by (auto simp: activate_path_def same_address_def cchange_def set_sess_def split: option.splits)

lemma default_path_frame: "default_path L d s = Some (r, s') \<Longrightarrow> same_address (cworld s) (cworld s')"
  by (auto simp: default_path_def andthen_def Let_def same_address_def cchange_def set_sess_def dest!: activate_path_frame
      split: result.splits option.splits prod.splits)

lemma state_frame: "same_address (cworld t) (cworld (cchange (\<lambda>x. x\<lparr>ctx := ChangeState st (ctx x)\<rparr>) t))"
  by (simp add: same_address_def cchange_def set_sess_def ChangeState_def)

lemma create_path_frame: "create_path L E d s = Some (r, s') \<Longrightarrow> same_address (cworld s) (cworld s')"
proof -
  let ?s = "cchange (\<lambda>x. x\<lparr>Tunnel := Some (Some [])\<rparr>) s"
  have start: "same_address (cworld s) (cworld ?s)" by (simp add: same_address_def cchange_def set_sess_def)
  assume a: "create_path L E d s = Some (r, s')"
  show ?thesis
  proof (cases "UEPreConfigPaths E")
    case (Some pool)
    with a have "preconfigured_path L pool ?s = Some (r, s')" by (simp add: create_path_def)
    then have "same_address (cworld ?s) (cworld s')"
      by (auto simp: preconfigured_path_def dest!: activate_path_frame split: option.splits result.splits prod.splits)
    with start show ?thesis by (rule same_address_trans)
  next
    case None
    with a obtain q t where q: "default_path L d ?s = Some (q, t)" by (auto simp: create_path_def split: option.splits)
    have "same_address (cworld t) (cworld s')"
      using a None q state_frame[of t SmStateInit] by (cases q) (auto simp: create_path_def dest!: reject_cases(1) split: bool.splits)
    with default_path_frame[OF q] start show ?thesis by (blast intro: same_address_trans)
  qed
qed

lemma create_amf_frame: "create_amf L A s = Some (r, s') \<Longrightarrow> same_address (cworld s) (cworld s')"
  by (auto simp: create_amf_def dest: reject_cases(1) split: if_splits option.splits)

text \<open>The steps after the address was allocated.\<close>

definition create_rest :: "('p, 'g) lib \<Rightarrow> create_env \<Rightarrow> answers \<Rightarrow> create_data \<Rightarrow> establishment_request \<Rightarrow> 'g creation \<Rightarrow> (unit result \<times> 'g creation) option" where
  "create_rest L E A d er s =
     andthen (create_subscription L A d s) (\<lambda>_ s.
     andthen (create_type L er s) (\<lambda>_ s.
     andthen (create_policy L E A d s) (\<lambda>_ s.
     andthen (create_path L E d s) (\<lambda>_ s.
     create_amf L A s))))"

lemma andthen_frame:
  assumes "andthen m f = Some (r, s')" and "\<And>q t. m = Some (q, t) \<Longrightarrow> same_address w (cworld t)"
    and "\<And>x t. m = Some (Ok x, t) \<Longrightarrow> f x t = Some (r, s') \<Longrightarrow> same_address (cworld t) (cworld s')"
  shows "same_address w (cworld s')"
proof -
  from assms(1) obtain q t where m: "m = Some (q, t)" by (cases m) (auto simp: andthen_def)
  from assms(2)[OF m] have w: "same_address w (cworld t)" .
  show ?thesis
  proof (cases q)
    case (Ok x)
    with assms(1) m assms(3)[of x t] w show ?thesis by (auto intro: same_address_trans)
  qed (use assms(1) m w in auto)
qed

lemma create_rest_frame: "create_rest L E A d er s = Some (r, s') \<Longrightarrow> same_address (cworld s) (cworld s')"
  unfolding create_rest_def
  by (erule andthen_frame create_subscription_frame create_type_frame create_policy_frame create_path_frame create_amf_frame)+

section \<open>How a creation is answered\<close>

definition create_causes :: "(string \<times> string) list" where
  "create_causes = [(''SnssaiError'', ''DnnNotSupported''), (''UdmError'', ''UDMDiscoveryFailure''), (''IpAllocError'', ''IpAllocError''),
     (''SubscriptionError'', ''SubscriptionDataFetchError''), (''NoSubscriptionError'', ''SubscriptionDataLenError''),
     (''IPv4 PDU Session not supported'', ''PDUSessionTypeIPv4OnlyAllowed''), (''IPv6 PDU Session not supported'', ''PDUSessionTypeIPv4OnlyAllowed''),
     (''Ethernet PDU Session not supported'', ''PDUSessionTypeIPv4OnlyAllowed''),
     (''Unstructured PDU Session not supported'', ''PDUSessionTypeIPv4OnlyAllowed''), (''PcfError'', ''PCFDiscoveryFailure''),
     (''PcfAssoError'', ''PCFPolicyCreateFailure''), (''DataPathError'', ''UPFDataPathError''),
     (''InsufficientResourceSliceDnn'', ''InsufficientResourceSliceDnn''), (''AmfError'', ''AMFDiscoveryFailure'')]"

definition refused :: "string \<Rightarrow> 'g creation \<Rightarrow> bool" where
  "refused e s \<longleftrightarrow> (\<exists>cause h c. (e, cause) \<in> set create_causes \<and> answer s = Some (Rejected h) \<and> ErrorType cause = Some (Status h, c))"

lemma reject_refused: "reject G cause e s = Some (Err e', s') \<Longrightarrow> (e, cause) \<in> set create_causes \<Longrightarrow> refused e' s'"
  using reject_cases(3)[of G cause e s "Err e'" s'] by (auto simp: refused_def)

lemma reject_not_Ok: "reject G cause e s \<noteq> Some (Ok x, s')"
  using reject_cases(2)[of G cause e s "Ok x" s'] by auto

lemmas step_splits = option.splits result.splits prod.splits if_splits subscription.splits list.splits bool.splits search_answer.splits

lemma create_address_answer:
  "create_address L E A d s = Some (Err e, s') \<Longrightarrow> refused e s'"
  "create_address L E A d s = Some (Ok x, s') \<Longrightarrow> answer s' = answer s"
  by (auto simp: create_address_def Let_def cchange_def create_causes_def reject_not_Ok dest: reject_refused split: step_splits)

lemma create_subscription_answer:
  "create_subscription L A d s = Some (Err e, s') \<Longrightarrow> refused e s' \<or> e = ''response nil'' \<and> SmData A = NoResponse \<and> answer s' = answer s"
  "create_subscription L A d s = Some (Ok x, s') \<Longrightarrow> answer s' = answer s"
  by (auto simp: create_subscription_def cchange_def create_causes_def reject_not_Ok dest: reject_refused split: step_splits)

lemma refused_type:
  "t \<noteq> ModelsToPDUSessionType N IPV4_V6 \<Longrightarrow>
     (pduSessionTypeToString N t @ '' PDU Session not supported'', ''PDUSessionTypeIPv4OnlyAllowed'') \<in> set create_causes"
  by (simp add: pduSessionTypeToString_def create_causes_def)

lemma create_type_answer:
  "create_type L er s = Some (Err e, s') \<Longrightarrow> refused e s'"
  "create_type L er s = Some (Ok x, s') \<Longrightarrow> answer s' = answer s"
  by (auto simp: create_type_def Let_def cchange_def reject_not_Ok dest: reject_refused[OF _ refused_type] split: step_splits)

lemma PCFSelection_answer: "PCFSelection A s = (r, s') \<Longrightarrow> answer s' = answer s"
  by (auto simp: PCFSelection_def split: step_splits)

lemma create_policy_answer:
  "create_policy L E A d s = Some (Err e, s') \<Longrightarrow> refused e s'"
  "create_policy L E A d s = Some (Ok x, s') \<Longrightarrow> answer s' = answer s"
  by (auto simp: create_policy_def cchange_def create_causes_def reject_not_Ok dest: reject_refused PCFSelection_answer split: step_splits)

lemma activate_path_answer: "activate_path L p pool s = Some (r, s') \<Longrightarrow> answer s' = answer s"
  by (auto simp: activate_path_def cchange_def split: step_splits)

lemma default_path_answer: "default_path L d s = Some (r, s') \<Longrightarrow> answer s' = answer s"
  by (auto simp: default_path_def andthen_def Let_def cchange_def dest!: activate_path_answer split: step_splits)

lemma create_path_answer:
  "create_path L E d s = Some (Err e, s') \<Longrightarrow> refused e s'"
  "create_path L E d s = Some (Ok x, s') \<Longrightarrow> answer s' = answer s"
  by (auto simp: create_path_def preconfigured_path_def Let_def cchange_def create_causes_def reject_not_Ok
      dest: reject_refused default_path_answer activate_path_answer split: step_splits)

lemma create_amf_answer:
  "create_amf L A s = Some (Err e, s') \<Longrightarrow> refused e s'"
  "create_amf L A s = Some (Ok x, s') \<Longrightarrow> answer s' = Some (Created (Ref (ctx (csess s))) (SessSnssai (csess s)))"
  by (auto simp: create_amf_def create_causes_def reject_not_Ok dest: reject_refused split: step_splits)

lemma andthen_Some:
  assumes "andthen m f = Some (r, s')"
  obtains (Ok) x t where "m = Some (Ok x, t)" and "f x t = Some (r, s')"
    | (Err) e where "m = Some (Err e, s')" and "r = Err e"
    | (Panic) e where "m = Some (Panic e, s')" and "r = Panic e"
  using assms by (auto simp: andthen_def split: option.splits result.splits)

definition answered :: "answers \<Rightarrow> string \<Rightarrow> 'g creation \<Rightarrow> bool" where
  "answered A e s \<longleftrightarrow> refused e s \<or> e = ''response nil'' \<and> SmData A = NoResponse \<and> answer s = None"

lemmas create_frames = create_subscription_frame create_type_frame create_policy_frame create_path_frame

lemma create_rest_Ok:
  assumes "create_rest L E A d er s = Some (Ok x, s')"
  obtains t u v w where "create_subscription L A d s = Some (Ok (), t)" and "create_type L er t = Some (Ok (), u)"
    and "create_policy L E A d u = Some (Ok (), v)" and "create_path L E d v = Some (Ok (), w)"
    and "create_amf L A w = Some (Ok (), s')"
  using assms unfolding create_rest_def by (auto elim!: andthen_Some)

lemma create_rest_answer:
  assumes "create_rest L E A d er s = Some (r, s')" and "answer s = None"
  shows "r = Ok () \<Longrightarrow> answer s' = Some (Created (Ref (ctx (csess s))) (SessSnssai (csess s)))"
    and "r = Err e \<Longrightarrow> answered A e s'"
proof -
  assume "r = Ok ()"
  with assms(1) obtain t u v w where steps: "create_subscription L A d s = Some (Ok (), t)" "create_type L er t = Some (Ok (), u)"
      "create_policy L E A d u = Some (Ok (), v)" "create_path L E d v = Some (Ok (), w)" "create_amf L A w = Some (Ok (), s')"
    by (auto elim: create_rest_Ok)
  have "same_address (cworld s) (cworld w)"
    using create_frames(1)[OF steps(1)] create_frames(2)[OF steps(2)] create_frames(3)[OF steps(3)] create_frames(4)[OF steps(4)]
    by (blast intro: same_address_trans)
  with create_amf_answer(2)[OF steps(5)] show "answer s' = Some (Created (Ref (ctx (csess s))) (SessSnssai (csess s)))"
    by (simp add: same_address_def csess_def)
next
  assume "r = Err e"
  with assms show "answered A e s'"
    unfolding create_rest_def
    by (auto elim!: andthen_Some simp: answered_def
        dest: create_subscription_answer create_type_answer create_policy_answer create_path_answer create_amf_answer)
qed

lemma create_address_frame:
  assumes "create_address L E A d s = Some (r, s')"
  shows "Ref (ctx (csess s')) = Ref (ctx (csess s)) \<and> SessSnssai (csess s') = SessSnssai (csess s)"
  using assms
  by (auto simp: create_address_def allocate_address_def Let_def cchange_def set_sess_def csess_def dest!: reject_cases(1) split: step_splits)

text \<open>The procedure is the address step followed by the rest, for an establishment request.\<close>

lemma HandlePDUSessionSMContextCreate_establish:
  "GsmMessageDecode (gsm L) (cdN1 d) = Ok (EstablishmentRequest er) \<Longrightarrow>
     HandlePDUSessionSMContextCreate L E A d s = andthen (create_address L E A d (cchange (SetCreateData d) s)) (\<lambda>_. create_rest L E A d er)"
  by (simp add: HandlePDUSessionSMContextCreate_def create_rest_def[abs_def])

lemma HandlePDUSessionSMContextCreate_cases:
  assumes "HandlePDUSessionSMContextCreate L E A d s = Some (r, s')"
  obtains (Establish) er where "GsmMessageDecode (gsm L) (cdN1 d) = Ok (EstablishmentRequest er)"
      and "andthen (create_address L E A d (cchange (SetCreateData d) s)) (\<lambda>_. create_rest L E A d er) = Some (r, s')"
    | (Undecoded) "r = Err ''GsmMsgDecodeError''" and "s' = s\<lparr>answer := Some N1SmErrorResponse\<rparr>"
    | (Panic) e where "r = Panic e" and "s' = s"
  proof (cases "\<exists>er. GsmMessageDecode (gsm L) (cdN1 d) = Ok (EstablishmentRequest er)")
  case True
  then show ?thesis using Establish assms HandlePDUSessionSMContextCreate_establish by metis
next
  case False
  then show ?thesis
    using assms Undecoded Panic by (auto simp: HandlePDUSessionSMContextCreate_def split: result.splits gsm_request.splits)
qed

lemma create_outcome:
  assumes "HandlePDUSessionSMContextCreate L E A d s = Some (r, s')" and "answer s = None"
  shows "r = Ok () \<Longrightarrow> answer s' = Some (Created (Ref (ctx (csess s))) (cdSNssai d))"
    and "r = Err e \<Longrightarrow> e = ''GsmMsgDecodeError'' \<and> answer s' = Some N1SmErrorResponse \<or> answered A e s'"
proof -
  have "(r = Ok () \<longrightarrow> answer s' = Some (Created (Ref (ctx (csess s))) (cdSNssai d))) \<and>
      (r = Err e \<longrightarrow> e = ''GsmMsgDecodeError'' \<and> answer s' = Some N1SmErrorResponse \<or> answered A e s')"
    using assms(1)
  proof (cases rule: HandlePDUSessionSMContextCreate_cases)
    case (Establish er)
    from Establish(2) show ?thesis
    proof (cases rule: andthen_Some)
      case (Ok x t)
      have t: "answer t = None" "Ref (ctx (csess t)) = Ref (ctx (csess s))" "SessSnssai (csess t) = cdSNssai d"
        using create_address_answer(2)[OF Ok(1)] create_address_frame[OF Ok(1)] assms(2)
        by (simp_all add: cchange_def set_sess_def csess_def SetCreateData_def)
      show ?thesis using create_rest_answer[OF Ok(2) t(1)] t(2,3) by auto
    qed (auto dest: create_address_answer(1) simp: answered_def)
  qed simp_all
  then show "r = Ok () \<Longrightarrow> answer s' = Some (Created (Ref (ctx (csess s))) (cdSNssai d))"
    and "r = Err e \<Longrightarrow> e = ''GsmMsgDecodeError'' \<and> answer s' = Some N1SmErrorResponse \<or> answered A e s'" by auto
qed

text \<open>C37: Every creation that ends is answered.  A created session is announced under its reference with the
  slice of the request; a message that is no establishment request gets an N1 error; every other failure is
  answered by a reject whose HTTP status is the one the table of causes gives for the error.  The one
  failure without an answer is a UDM that does not respond.\<close>

theorem create_answered:
  fixes s :: "'g creation" and L :: "('p, 'g) lib"
  assumes "HandlePDUSessionSMContextCreate L E A d s = Some (r, s')" and "answer s = None"
  shows "(r = Ok () \<longrightarrow> answer s' = Some (Created (Ref (ctx (csess s))) (cdSNssai d))) \<and>
     (\<forall>e. r = Err e \<longrightarrow> e = ''GsmMsgDecodeError'' \<and> answer s' = Some N1SmErrorResponse \<or> refused e s' \<or>
        e = ''response nil'' \<and> SmData A = NoResponse \<and> answer s' = None)"
  using create_outcome[OF assms] by (auto simp: answered_def)

section \<open>A rejected creation\<close>

text \<open>The session has taken at most one address, from the allocator of its network; nothing else in
  the pools differs from \<^verbatim>\<open>pl\<close>.\<close>

definition own_address :: "string \<Rightarrow> sm_pools \<Rightarrow> sm_context \<Rightarrow> sm_pools \<Rightarrow> bool" where
  "own_address env pl c pl' \<longleftrightarrow>
     PDUAddress c = None \<and> pl' = pl \<or>
     (\<exists>x a. Allocate env (Supi c) (allocators pl (DNNInfo c)) = Ok (x, a) \<and> pl' = pl\<lparr>allocators := (allocators pl)(DNNInfo c := a)\<rparr> \<and>
       PDUAddress c = Some \<lparr>UeIp = x, UpfProvided = False\<rparr> \<and>
       allocator_wf env (allocators pl (DNNInfo c)) \<and> staticIp (Supi c) (g (allocators pl (DNNInfo c))) = [])"

lemma Allocate_nonempty:
  assumes "allocator_wf env a" and "staticIp imsi (g a) = []" and "Allocate env imsi a = Ok (x, b)"
  shows "x \<noteq> []"
proof -
  from assms obtain i where "x = IPAddrWithOffset (netIP a) i" by (rule Allocate_dynamic)
  with assms(1) have "length x = 4" by (simp add: allocator_wf_def)
  then show ?thesis by auto
qed

lemma own_address_released:
  assumes "own_address env pl c pl'"
  shows "\<exists>c' a. ReleaseUeIpAddr (ChangeState SmStateRelease c) (allocators pl' (DNNInfo c)) = Ok (c', a) \<and>
    isUsed (g a) = isUsed (g (allocators pl (DNNInfo c))) \<and> (\<forall>k. k \<noteq> DNNInfo c \<longrightarrow> allocators pl' k = allocators pl k)"
  using assms unfolding own_address_def
proof (elim disjE exE conjE)
  fix x a
  assume al: "Allocate env (Supi c) (allocators pl (DNNInfo c)) = Ok (x, a)"
    and pl': "pl' = pl\<lparr>allocators := (allocators pl)(DNNInfo c := a)\<rparr>"
    and c: "PDUAddress c = Some \<lparr>UeIp = x, UpfProvided = False\<rparr>"
    and wf: "allocator_wf env (allocators pl (DNNInfo c))" "staticIp (Supi c) (g (allocators pl (DNNInfo c))) = []"
  from Release_allocated[OF wf al] obtain b where "Release (Supi c) x a = Ok b" "isUsed (g b) = isUsed (g (allocators pl (DNNInfo c)))"
    by blast
  moreover have "x \<noteq> []" using Allocate_nonempty[OF wf al] .
  ultimately show ?thesis using c pl' by (auto simp: ReleaseUeIpAddr_def ChangeState_def)
qed (simp add: ReleaseUeIpAddr_def ChangeState_def)

lemma own_address_removed:
  assumes "own_address env pl (ctx (sess w)) (spools w)" and "smContextPool pl ref = Some (self w)"
  obtains w' where "remove_context ref w = (Ok (), w')" and "smContextPool (spools w') = (smContextPool pl)(ref := None)"
    and "smContextActive (spools w') = smContextActive pl - 1"
    and "\<forall>k. isUsed (g (allocators (spools w') k)) = isUsed (g (allocators pl k))"
proof -
  have full: "own_address env pl (full_ctx w) (spools w)" "DNNInfo (full_ctx w) = DNNInfo (ctx (sess w))"
    using assms(1) by (simp_all add: own_address_def full_ctx_def)
  have pools: "smContextPool (full_pools w) ref = Some (self w)" "heap (full_pools w) (self w) = Some (full_ctx w)"
      "allocators (full_pools w) = allocators (spools w)" "smContextPool (full_pools w) = smContextPool pl"
      "smContextActive (full_pools w) = smContextActive pl"
    using assms by (auto simp: full_pools_def own_address_def)
  from own_address_released[OF full(1)] obtain c' a where
    "ReleaseUeIpAddr (ChangeState SmStateRelease (full_ctx w)) (allocators (full_pools w) (DNNInfo (full_ctx w))) = Ok (c', a)"
    and a: "isUsed (g a) = isUsed (g (allocators pl (DNNInfo (full_ctx w))))" "\<forall>k. k \<noteq> DNNInfo (full_ctx w) \<longrightarrow> allocators (spools w) k = allocators pl k"
    using pools(3) by auto
  from RemoveSMContext_Some[OF pools(1,2) this(1)] obtain pl' where "RemoveSMContext ref (full_pools w) = Ok pl'"
    and "smContextPool pl' = (smContextPool pl)(ref := None)" "smContextActive pl' = smContextActive pl - 1"
    and "allocators pl' = (allocators (spools w))(DNNInfo (full_ctx w) := a)"
    using pools by auto
  with a show ?thesis by (intro that[of "put_pools pl' w"]) (auto simp: remove_context_def put_pools_def)
qed

lemma own_address_same:
  "own_address env pl (ctx (sess w)) (spools w) \<Longrightarrow> same_address w w' \<Longrightarrow> own_address env pl (ctx (sess w')) (spools w')"
  by (simp add: own_address_def same_address_def)

lemma create_address_own:
  assumes "create_address L E A d s = Some (r, s')" and "PDUAddress (ctx (csess s)) = None"
    and "\<forall>k. allocator_wf (count_env (pfcp L)) (allocators (spools (cworld s)) k) \<and> staticIp (Supi (ctx (csess s))) (g (allocators (spools (cworld s)) k)) = []"
  shows "own_address (count_env (pfcp L)) (spools (cworld s)) (ctx (csess s')) (spools (cworld s')) \<and> self (cworld s') = self (cworld s)"
  using assms
  by (auto simp: create_address_def allocate_address_def Let_def cchange_def set_sess_def csess_def own_address_def
      dest!: reject_cases(1) split: step_splits)

lemma create_own:
  assumes "HandlePDUSessionSMContextCreate L E A d s = Some (r, s')" and "PDUAddress (ctx (csess s)) = None"
    and "\<forall>k. allocator_wf (count_env (pfcp L)) (allocators (spools (cworld s)) k) \<and> staticIp (cdSupi d) (g (allocators (spools (cworld s)) k)) = []"
  shows "own_address (count_env (pfcp L)) (spools (cworld s)) (ctx (csess s')) (spools (cworld s')) \<and>
    self (cworld s') = self (cworld s) \<and> Ref (ctx (csess s')) = Ref (ctx (csess s))"
  using assms(1)
proof (cases rule: HandlePDUSessionSMContextCreate_cases)
  case (Establish er)
  let ?s = "cchange (SetCreateData d) s"
  have start: "PDUAddress (ctx (csess ?s)) = None" "Supi (ctx (csess ?s)) = cdSupi d" "spools (cworld ?s) = spools (cworld s)"
      "self (cworld ?s) = self (cworld s)" "Ref (ctx (csess ?s)) = Ref (ctx (csess s))"
    using assms(2) by (simp_all add: cchange_def set_sess_def csess_def SetCreateData_def)
  have first: "own_address (count_env (pfcp L)) (spools (cworld s)) (ctx (csess t)) (spools (cworld t)) \<and>
      self (cworld t) = self (cworld s) \<and> Ref (ctx (csess t)) = Ref (ctx (csess s))" if "create_address L E A d ?s = Some (q, t)" for q t
    using create_address_own[OF that] create_address_frame[OF that] start assms(3) by simp
  from Establish(2) show ?thesis
  proof (cases rule: andthen_Some)
    case (Ok x t)
    with create_rest_frame[OF Ok(2)] first[OF Ok(1)] show ?thesis
      using own_address_same[of _ _ "cworld t" "cworld s'"] by (auto simp: csess_def same_address_def)
  qed (use first in auto)
qed (use assms(2) in \<open>auto simp: own_address_def csess_def\<close>)

text \<open>C36: A creation that fails leaves nothing behind.  If the UDM responds at all, a failed creation of a
  session that is registered under its reference and had no address is answered, and the handler of
  the HTTP request then removes the context: the reference is free again, the count of active sessions
  goes down by one, and every allocator has the addresses in use that it had before.\<close>

theorem rejected_creation_undone:
  fixes s :: "'g creation" and L :: "('p, 'g) lib"
  assumes "HandlePDUSessionSMContextCreate L E A d s = Some (Err e, s')" and "answer s = None" and "SmData A \<noteq> NoResponse"
    and "PDUAddress (ctx (csess s)) = None" and "smContextPool (spools (cworld s)) (Ref (ctx (csess s))) = Some (self (cworld s))"
    and "\<forall>k. allocator_wf (count_env (pfcp L)) (allocators (spools (cworld s)) k) \<and> staticIp (cdSupi d) (g (allocators (spools (cworld s)) k)) = []"
  shows "\<exists>t. post_outcome s' = (Ok False, t) \<and>
    smContextPool (spools (cworld t)) = (smContextPool (spools (cworld s)))(Ref (ctx (csess s)) := None) \<and>
    smContextActive (spools (cworld t)) = smContextActive (spools (cworld s)) - 1 \<and>
    (\<forall>k. isUsed (g (allocators (spools (cworld t)) k)) = isUsed (g (allocators (spools (cworld s)) k)))"
proof -
  note own = create_own[OF assms(1,4,6)]
  then obtain w where w: "remove_context (Ref (ctx (csess s))) (cworld s') = (Ok (), w)"
    "smContextPool (spools w) = (smContextPool (spools (cworld s)))(Ref (ctx (csess s)) := None)"
    "smContextActive (spools w) = smContextActive (spools (cworld s)) - 1"
    "\<forall>k. isUsed (g (allocators (spools w) k)) = isUsed (g (allocators (spools (cworld s)) k))"
    using assms(5) own_address_removed[of "count_env (pfcp L)" "spools (cworld s)" "cworld s'" "Ref (ctx (csess s))"]
    unfolding csess_def by metis
  from create_outcome(2)[OF assms(1,2)] have "answered A e s' \<or> answer s' = Some N1SmErrorResponse" by blast
  with assms(3) have "\<exists>a. answer s' = Some a \<and> (\<forall>r n. a \<noteq> Created r n)"
    by (auto simp: answered_def refused_def)
  then have "post_outcome s' = (Ok False, s'\<lparr>cworld := w\<rparr>)"
    using w(1) own by (auto simp: post_outcome_def split: create_response.splits)
  with w(2-4) show ?thesis by auto
qed

section \<open>A created session\<close>

lemma reject_Ok [simp]: "reject G cause e s = Some (Ok x, s') \<longleftrightarrow> False"
  by (simp add: reject_not_Ok)

lemma create_address_Ok:
  assumes "create_address L E A d s = Some (Ok (), s')"
  obtains a b where "RetrieveDnnInformation (cdSNssai d) (cdDnn d) (cslices E) \<noteq> None"
    and "Allocate (count_env (pfcp L)) (Supi (ctx (csess s))) (allocators (spools (cworld s)) (dnn_key (cdSNssai d) (cdDnn d))) = Ok (a, b)"
    and "spools (cworld s') = (spools (cworld s))\<lparr>allocators := (allocators (spools (cworld s)))(dnn_key (cdSNssai d) (cdDnn d) := b)\<rparr>"
    and "csess s' = (csess s)\<lparr>ctx := (ctx (csess s))\<lparr>DNNInfo := dnn_key (cdSNssai d) (cdDnn d), PDUAddress := Some \<lparr>UeIp = a, UpfProvided = False\<rparr>\<rparr>\<rparr>"
    and "plane s' = plane s"
  using assms
  by (auto simp: create_address_def allocate_address_def Let_def cchange_def set_sess_def csess_def split: step_splits)

text \<open>What the later steps leave of the policy data, the topology and the session type.\<close>

definition same_policy :: "'g creation \<Rightarrow> 'g creation \<Rightarrow> bool" where
  "same_policy s s' \<longleftrightarrow> SmPolicyUpdates (ctx (csess s')) = SmPolicyUpdates (ctx (csess s)) \<and> SmPolicyData (ctx (csess s')) = SmPolicyData (ctx (csess s))
     \<and> Dnn (ctx (csess s')) = Dnn (ctx (csess s))"

lemma create_subscription_Ok:
  "create_subscription L A d s = Some (Ok (), s') \<Longrightarrow> same_policy s s' \<and> plane s' = plane s"
  by (auto simp: create_subscription_def same_policy_def cchange_def set_sess_def csess_def split: step_splits)

lemma create_type_Ok:
  assumes "create_type L er s = Some (Ok (), s')"
  shows "same_policy s s' \<and> plane s' = plane s"
    and "SelectedPDUSessionType (ctx (csess s')) \<in> {ModelsToPDUSessionType (nas L) IPV4, ModelsToPDUSessionType (nas L) IPV4_V6}"
  using assms establishment_frame[of "gsm L" "nas L" "config L" er "csess s"]
  by (auto simp: create_type_def same_policy_def cchange_def set_sess_def csess_def Let_def split: step_splits)

lemma PCFSelection_plane: "PCFSelection A s = (r, s') \<Longrightarrow> plane s' = plane s"
  by (auto simp: PCFSelection_def split: step_splits)

lemma create_policy_Ok:
  assumes "create_policy L E A d s = Some (Ok (), s')"
  obtains u n dec where "PDUAddress (ctx (csess s)) = Some u" and "cdServingNetwork d = Some n"
    and "SmPoliciesPost A (policy_context_of (nas L) (cself E) (UeIp u) n (csess s)) = Some dec" and "validateSmPolicyDecision dec = Ok ()"
    and "csess s' = (csess s)\<lparr>ctx := (ctx (csess s))\<lparr>SmPolicyUpdates :=
           SmPolicyUpdates (ctx (csess s)) @ [BuildSmPolicyUpdate (SmPolicyData (ctx (csess s))) dec]\<rparr>\<rparr>" and "plane s' = plane s"
proof -
  from assms obtain t where t: "PCFSelection A s = (Ok (), t)"
    by (auto simp: create_policy_def split: step_splits)
  with assms obtain dec where dec: "SendSMPolicyAssociationCreate (nas L) (cself E) A d t = Ok dec"
    and s': "s' = cchange (\<lambda>x. x\<lparr>ctx := (ctx x)\<lparr>SmPolicyUpdates := SmPolicyUpdates (ctx x) @ [BuildSmPolicyUpdate (SmPolicyData (ctx x)) dec]\<rparr>\<rparr>) t"
    by (auto simp: create_policy_def split: step_splits)
  have x: "csess t = csess s" using PCFSelection_frame[OF t] by (simp add: csess_def)
  from dec obtain u n where "PDUAddress (ctx (csess s)) = Some u" "cdServingNetwork d = Some n"
    "SmPoliciesPost A (policy_context_of (nas L) (cself E) (UeIp u) n (csess s)) = Some dec" "validateSmPolicyDecision dec = Ok ()"
    by (auto simp: SendSMPolicyAssociationCreate_def x split: step_splits)
  then show ?thesis
    using that x PCFSelection_plane[OF t] by (auto simp: s' cchange_def set_sess_def csess_def)
qed

text \<open>The default path of the topology for the slice and network, as one activated data path.\<close>

definition default_data_path :: "'g session \<Rightarrow> data_path" where
  "default_data_path x = NewDataPath\<lparr>FirstDPNode := Some (length (dpnodes (dps x))), IsDefaultPath := True, Activated := True\<rparr>"

lemma create_path_Ok:
  assumes "create_path L E d s = Some (Ok (), s')" and "UEPreConfigPaths E = None"
  obtains ns t where "GetDefaultUserPlanePathByDNN \<lparr>SelDnnList = [cdDnn d], SelSNssai = cdSNssai d, SelDnai = ''''\<rparr> (plane s) = Ok (Some ns, t)"
    and "ns \<noteq> []" and "Tunnel (csess s') = Some (Some (DataPathPool (AddDataPath (gens L) (default_data_path (csess s)) (NewUPTunnel (gens L)))))"
  using assms
  by (auto simp: create_path_def default_path_def Let_def andthen_def activate_path_def GenerateDataPath_def ActivateTunnelAndPDR_def
      cchange_def set_sess_def csess_def default_data_path_def split: step_splits)

lemma create_path_policy: "create_path L E d s = Some (Ok (), s') \<Longrightarrow> same_policy s s' \<and> 
    SelectedPDUSessionType (ctx (csess s')) = SelectedPDUSessionType (ctx (csess s))"
  by (auto simp: create_path_def preconfigured_path_def default_path_def Let_def andthen_def activate_path_def same_policy_def
      cchange_def set_sess_def csess_def split: step_splits)

lemma create_amf_Ok: "create_amf L A s = Some (Ok (), s') \<Longrightarrow> csess s' = csess s \<and> cworld s' = cworld s"
  by (auto simp: create_amf_def csess_def split: step_splits)

lemma create_Ok:
  assumes "HandlePDUSessionSMContextCreate L E A d s = Some (Ok (), s')"
  obtains er t u v w x where "create_address L E A d (cchange (SetCreateData d) s) = Some (Ok (), t)"
    and "create_subscription L A d t = Some (Ok (), u)" and "create_type L er u = Some (Ok (), v)"
    and "create_policy L E A d v = Some (Ok (), w)" and "create_path L E d w = Some (Ok (), x)" and "create_amf L A x = Some (Ok (), s')"
  using assms
proof (cases rule: HandlePDUSessionSMContextCreate_cases)
  case (Establish er)
  from Establish(2) obtain t where "create_address L E A d (cchange (SetCreateData d) s) = Some (Ok (), t)" "create_rest L E A d er t = Some (Ok (), s')"
    by (auto elim: andthen_Some)
  then show ?thesis by (auto elim: create_rest_Ok intro: that)
qed simp_all

text \<open>The decision was given by the PCF for a request with the data of the session.\<close>

definition decided :: "answers \<Rightarrow> create_data \<Rightarrow> ip \<Rightarrow> sm_policy_decision \<Rightarrow> bool" where
  "decided A d a dec \<longleftrightarrow> validateSmPolicyDecision dec = Ok () \<and>
     (\<exists>pc. SmPoliciesPost A pc = Some dec \<and> pcSupi pc = cdSupi d \<and> pcDnn pc = cdDnn d \<and> pcSlice pc = cdSNssai d \<and>
       pcIpv4Address pc = IPString (To4 a) \<and> Some (pcServingNetwork pc) = cdServingNetwork d)"

text \<open>The session before the policy step: an address was taken, the type is settled.\<close>

definition admitted :: "('p, 'g) lib \<Rightarrow> create_data \<Rightarrow> ip \<Rightarrow> ip_allocator \<Rightarrow> 'g creation \<Rightarrow> 'g creation \<Rightarrow> bool" where
  "admitted L d a b s v \<longleftrightarrow>
     Allocate (count_env (pfcp L)) (cdSupi d) (allocators (spools (cworld s)) (dnn_key (cdSNssai d) (cdDnn d))) = Ok (a, b) \<and>
     spools (cworld v) = (spools (cworld s))\<lparr>allocators := (allocators (spools (cworld s)))(dnn_key (cdSNssai d) (cdDnn d) := b)\<rparr> \<and>
     PDUAddress (ctx (csess v)) = Some \<lparr>UeIp = a, UpfProvided = False\<rparr> \<and> Supi (ctx (csess v)) = cdSupi d \<and> SessSnssai (csess v) = cdSNssai d \<and>
     Dnn (ctx (csess v)) = cdDnn d \<and> SmPolicyUpdates (ctx (csess v)) = SmPolicyUpdates (ctx (csess s)) \<and>
     SmPolicyData (ctx (csess v)) = SmPolicyData (ctx (csess s)) \<and> plane v = plane s \<and>
     SelectedPDUSessionType (ctx (csess v)) \<in> {ModelsToPDUSessionType (nas L) IPV4, ModelsToPDUSessionType (nas L) IPV4_V6}"

lemma create_admitted:
  assumes "create_address L E A d (cchange (SetCreateData d) s) = Some (Ok (), t)"
    and "create_subscription L A d t = Some (Ok (), u)" and "create_type L er u = Some (Ok (), v)"
  shows "RetrieveDnnInformation (cdSNssai d) (cdDnn d) (cslices E) \<noteq> None \<and> (\<exists>a b. admitted L d a b s v)"
proof -
  let ?s = "cchange (SetCreateData d) s"
  have start: "csess ?s = SetCreateData d (csess s)" "spools (cworld ?s) = spools (cworld s)" "plane ?s = plane s"
    by (simp_all add: cchange_def set_sess_def csess_def)
  have same: "same_policy t v" "plane v = plane t"
    and type: "SelectedPDUSessionType (ctx (csess v)) \<in> {ModelsToPDUSessionType (nas L) IPV4, ModelsToPDUSessionType (nas L) IPV4_V6}"
    using create_subscription_Ok[OF assms(2)] create_type_Ok[OF assms(3)] by (auto simp: same_policy_def)
  have tv: "same_address (cworld t) (cworld v)" using create_frames(1)[OF assms(2)] create_frames(2)[OF assms(3)] by (rule same_address_trans)
  from assms(1) show ?thesis
  proof (rule create_address_Ok)
    fix a b
    assume "RetrieveDnnInformation (cdSNssai d) (cdDnn d) (cslices E) \<noteq> None"
      and "Allocate (count_env (pfcp L)) (Supi (ctx (csess ?s))) (allocators (spools (cworld ?s)) (dnn_key (cdSNssai d) (cdDnn d))) = Ok (a, b)"
      and "spools (cworld t) = (spools (cworld ?s))\<lparr>allocators := (allocators (spools (cworld ?s)))(dnn_key (cdSNssai d) (cdDnn d) := b)\<rparr>"
      and "csess t = (csess ?s)\<lparr>ctx := (ctx (csess ?s))\<lparr>DNNInfo := dnn_key (cdSNssai d) (cdDnn d), PDUAddress := Some \<lparr>UeIp = a, UpfProvided = False\<rparr>\<rparr>\<rparr>"
      and "plane t = plane ?s"
    with same tv type show ?thesis
      unfolding start by (intro conjI exI[of _ a] exI[of _ b]) (auto simp: admitted_def same_address_def same_policy_def csess_def SetCreateData_def)
  qed
qed

lemma create_decided:
  assumes "admitted L d a b s v" and "create_policy L E A d v = Some (Ok (), w)"
  shows "\<exists>dec. decided A d a dec \<and> csess w = (csess v)\<lparr>ctx := (ctx (csess v))\<lparr>SmPolicyUpdates :=
      SmPolicyUpdates (ctx (csess s)) @ [BuildSmPolicyUpdate (SmPolicyData (ctx (csess s))) dec]\<rparr>\<rparr> \<and> plane w = plane s"
proof -
  from assms(2) obtain u n dec where "PDUAddress (ctx (csess v)) = Some u" "cdServingNetwork d = Some n"
      "SmPoliciesPost A (policy_context_of (nas L) (cself E) (UeIp u) n (csess v)) = Some dec" "validateSmPolicyDecision dec = Ok ()"
      "csess w = (csess v)\<lparr>ctx := (ctx (csess v))\<lparr>SmPolicyUpdates := SmPolicyUpdates (ctx (csess v)) @ [BuildSmPolicyUpdate (SmPolicyData (ctx (csess v))) dec]\<rparr>\<rparr>"
      "plane w = plane v" by (rule create_policy_Ok)
  moreover from this assms(1) have "decided A d a dec"
    unfolding decided_def admitted_def by (intro conjI exI[of _ "policy_context_of (nas L) (cself E) a n (csess v)"]) (auto simp: policy_context_of_def)
  ultimately show ?thesis using assms(1) by (auto simp: admitted_def)
qed

text \<open>C35: A session is created with what the specification of the procedure asks for: its network is configured
  for its slice, its address is a new one from that network's allocator and no other allocator changes,
  its type is IPv4 or IPv4v6, the PCF was asked with the subscriber, network, slice and that address and
  gave a decision in which every session rule has its bit rates and default QoS, the update computed
  from the decision is the last pending one, and, for a UE without configured paths, the data path is the
  activated default path that the topology has for the slice and network.\<close>

theorem created_session:
  fixes s :: "'g creation" and L :: "('p, 'g) lib"
  assumes "HandlePDUSessionSMContextCreate L E A d s = Some (Ok (), s')" and "UEPreConfigPaths E = None"
    and "gen_alloc (gens L) (gen_new (gens L) 1 2147483647) = Ok (i, gen')"
  shows "RetrieveDnnInformation (cdSNssai d) (cdDnn d) (cslices E) \<noteq> None \<and>
    SelectedPDUSessionType (ctx (csess s')) \<in> {ModelsToPDUSessionType (nas L) IPV4, ModelsToPDUSessionType (nas L) IPV4_V6} \<and>
    (\<exists>a b dec.
       Allocate (count_env (pfcp L)) (cdSupi d) (allocators (spools (cworld s)) (dnn_key (cdSNssai d) (cdDnn d))) = Ok (a, b) \<and>
       spools (cworld s') = (spools (cworld s))\<lparr>allocators := (allocators (spools (cworld s)))(dnn_key (cdSNssai d) (cdDnn d) := b)\<rparr> \<and>
       PDUAddress (ctx (csess s')) = Some \<lparr>UeIp = a, UpfProvided = False\<rparr> \<and> decided A d a dec \<and>
       SmPolicyUpdates (ctx (csess s')) = SmPolicyUpdates (ctx (csess s)) @ [BuildSmPolicyUpdate (SmPolicyData (ctx (csess s))) dec]) \<and>
    (\<exists>ns t. GetDefaultUserPlanePathByDNN \<lparr>SelDnnList = [cdDnn d], SelSNssai = cdSNssai d, SelDnai = ''''\<rparr> (plane s) = Ok (Some ns, t) \<and> ns \<noteq> []) \<and>
    (\<exists>p. Tunnel (csess s') = Some (Some [(i, p)]) \<and> IsDefaultPath p \<and> Activated p)"
proof -
  from assms(1) obtain er t u v w x where steps: "create_address L E A d (cchange (SetCreateData d) s) = Some (Ok (), t)"
      "create_subscription L A d t = Some (Ok (), u)" "create_type L er u = Some (Ok (), v)" "create_policy L E A d v = Some (Ok (), w)"
      "create_path L E d w = Some (Ok (), x)" "create_amf L A x = Some (Ok (), s')" by (rule create_Ok)
  from create_admitted[OF steps(1-3)] obtain a b where ab: "RetrieveDnnInformation (cdSNssai d) (cdDnn d) (cslices E) \<noteq> None" "admitted L d a b s v"
    by blast
  from create_decided[OF ab(2) steps(4)] obtain dec where dec: "decided A d a dec" "plane w = plane s" "csess w = (csess v)\<lparr>ctx := (ctx (csess v))\<lparr>SmPolicyUpdates :=
      SmPolicyUpdates (ctx (csess s)) @ [BuildSmPolicyUpdate (SmPolicyData (ctx (csess s))) dec]\<rparr>\<rparr>" by blast
  have same: "same_address (cworld v) (cworld s')" "csess s' = csess x"
    using create_frames(3)[OF steps(4)] create_frames(4)[OF steps(5)] create_amf_Ok[OF steps(6)] by (auto intro: same_address_trans)
  have x: "SmPolicyUpdates (ctx (csess x)) = SmPolicyUpdates (ctx (csess w))" "SelectedPDUSessionType (ctx (csess x)) = SelectedPDUSessionType (ctx (csess w))"
    using create_path_policy[OF steps(5)] by (auto simp: same_policy_def)
  obtain ns t' where "GetDefaultUserPlanePathByDNN \<lparr>SelDnnList = [cdDnn d], SelSNssai = cdSNssai d, SelDnai = ''''\<rparr> (plane w) = Ok (Some ns, t')"
      "ns \<noteq> []" "Tunnel (csess x) = Some (Some (DataPathPool (AddDataPath (gens L) (default_data_path (csess w)) (NewUPTunnel (gens L)))))"
    using create_path_Ok[OF steps(5) assms(2)] by blast
  then have path: "(\<exists>ns t. GetDefaultUserPlanePathByDNN \<lparr>SelDnnList = [cdDnn d], SelSNssai = cdSNssai d, SelDnai = ''''\<rparr> (plane s) = Ok (Some ns, t) \<and> ns \<noteq> []) \<and>
      (\<exists>p. Tunnel (csess s') = Some (Some [(i, p)]) \<and> IsDefaultPath p \<and> Activated p)"
    using dec(2) same(2) assms(3) by (auto simp: AddDataPath_def NewUPTunnel_def default_data_path_def)
  show ?thesis
    using ab dec(1) path same x dec(3) by (intro conjI exI[of _ a] exI[of _ b] exI[of _ dec]) (simp_all add: admitted_def same_address_def csess_def)
qed

section \<open>When the steps succeed\<close>

lemma create_address_runs:
  assumes "RetrieveDnnInformation (cdSNssai d) (cdDnn d) (cslices E) \<noteq> None" and "UdmDiscovery A = Discovered"
    and "Allocate (count_env (pfcp L)) (Supi (ctx (csess s))) (allocators (spools (cworld s)) (dnn_key (cdSNssai d) (cdDnn d))) = Ok (a, b)"
  shows "\<exists>s'. create_address L E A d s = Some (Ok (), s') \<and> plane s' = plane s \<and> csess s' = (csess s)\<lparr>ctx := (ctx (csess s))\<lparr>
     DNNInfo := dnn_key (cdSNssai d) (cdDnn d), PDUAddress := Some \<lparr>UeIp = a, UpfProvided = False\<rparr>\<rparr>\<rparr>"
  using assms by (auto simp: create_address_def allocate_address_def Let_def cchange_def set_sess_def csess_def)

lemma create_subscription_runs:
  assumes "cdServingNetwork d \<noteq> None" and "SmData A = Subscribed (m # ms)"
  shows "\<exists>s'. create_subscription L A d s = Some (Ok (), s') \<and> plane s' = plane s \<and>
     csess s' = (csess s)\<lparr>ctx := (ctx (csess s))\<lparr>AllowedSessionTypes := m (Dnn (ctx (csess s)))\<rparr>\<rparr>"
  using assms by (auto simp: create_subscription_def cchange_def set_sess_def csess_def)

lemma create_type_runs:
  fixes s :: "'g creation" and L :: "('p, 'g) lib" and er :: establishment_request
  defines "x \<equiv> HandlePDUSessionEstablishmentRequest (gsm L) (nas L) (config L) er (csess s)"
  assumes "SelectedPDUSessionType (ctx x) \<in> {ModelsToPDUSessionType (nas L) IPV4, ModelsToPDUSessionType (nas L) IPV4_V6}"
  shows "\<exists>s'. create_type L er s = Some (Ok (), s') \<and> plane s' = plane s \<and> csess s' = x"
  using assms by (auto simp: create_type_def cchange_def set_sess_def csess_def Let_def)

lemma create_policy_runs:
  assumes "PcfSearch A = Instances (Some services # ps)" and "''npcf-smpolicycontrol'' \<in> set services"
    and "PDUAddress (ctx (csess s)) = Some u" and "cdServingNetwork d = Some n"
    and "SmPoliciesPost A (policy_context_of (nas L) (cself E) (UeIp u) n (csess s)) = Some dec" and "validateSmPolicyDecision dec = Ok ()"
  shows "\<exists>s'. create_policy L E A d s = Some (Ok (), s') \<and> plane s' = plane s \<and> csess s' = (csess s)\<lparr>ctx := (ctx (csess s))\<lparr>SmPolicyUpdates :=
     SmPolicyUpdates (ctx (csess s)) @ [BuildSmPolicyUpdate (SmPolicyData (ctx (csess s))) dec]\<rparr>\<rparr>"
  using assms by (auto simp: create_policy_def PCFSelection_def SendSMPolicyAssociationCreate_def cchange_def set_sess_def csess_def)

lemma create_path_runs:
  assumes "UEPreConfigPaths E = None"
    and "GetDefaultUserPlanePathByDNN \<lparr>SelDnnList = [cdDnn d], SelSNssai = cdSNssai d, SelDnai = ''''\<rparr> (plane s) = Ok (Some ns, t)" and "ns \<noteq> []"
    and "ActivateTunnelAndPDR (gens L) (resolve (pfcp L)) (nas L) (net L) (bound L) (ctx (csess s)) 255
      (NewDataPath\<lparr>FirstDPNode := Some (length (dpnodes (dps (csess s)))), IsDefaultPath := True\<rparr>)
      (gen_nodes (map (\<lambda>n. NodeUPF (nodes t ! n)) ns) None (dps (csess s))) = Some (Ok (), p, dp)"
  shows "\<exists>s'. create_path L E d s = Some (Ok (), s')"
  using assms by (simp add: create_path_def default_path_def Let_def andthen_def activate_path_def GenerateDataPath_def cchange_def set_sess_def csess_def)

lemma create_amf_runs: "AmfDiscovery A = Discovered \<Longrightarrow> AmfServices A \<noteq> None \<Longrightarrow> \<exists>s'. create_amf L A s = Some (Ok (), s')"
  by (auto simp: create_amf_def)

lemma establishment_dps: "dps (HandlePDUSessionEstablishmentRequest G N cfg er x) = dps x"
  by (simp add: HandlePDUSessionEstablishmentRequest_def Let_def split: prod.split result.split option.split)

section \<open>Samples\<close>

definition sample_establishment :: establishment_request where
  "sample_establishment = \<lparr>erSessionID = 5, erPTI = 1, erType = Some 1, erOptions = None\<rparr>"

definition create_lib :: "(byte list, id_pool) lib" where
  "create_lib = sample_lib\<lparr>gsm := sample_gsm\<lparr>GsmMessageDecode := (\<lambda>b. if b = [46] then
     Ok (EstablishmentRequest sample_establishment) else Err ''short'')\<rparr>\<rparr>"

definition create_sample_env :: create_env where
  "create_sample_env = \<lparr>cslices = \<lparr>SnssaiInfos = [\<lparr>SmfSnssai = slice, SmfPlmnId = \<lparr>Mcc = ''208'', Mnc = ''93''\<rparr>,
       SmfDnnInfos = [(''internet'', \<lparr>DnsIPv4Addr = [8, 8, 8, 8], DnsIPv6Addr = [], MTU = 1400, UeIPAllocator = sample_allocator\<rparr>)]\<rparr>], StaticIpInfo = None\<rparr>,
     cself = \<lparr>NfInstanceID = ''smf'', URIScheme = ''http'', RegisterIPv4 = ''10.0.0.9'', SBIPort = 29502, ServiceNameList = []\<rparr>,
     UEPreConfigPaths = None\<rparr>"

definition sample_rule :: session_rule where
  "sample_rule = \<lparr>SessRuleId = ''r1'', AuthSessAmbr = Some \<lparr>Uplink = ''1 Mbps'', Downlink = ''2 Mbps''\<rparr>,
     AuthDefQos = Some \<lparr>AdqVar5qi = 9, AdqPriorityLevel = 1, AdqArp = None\<rparr>\<rparr>"

definition sample_decision :: sm_policy_decision where
  "sample_decision = \<lparr>PccRules = [], SessRules = [(''r1'', Some sample_rule)],
     QosDecs = [(''1'', Some (zero_qos_data\<lparr>QosId := ''1'', Var5qi := 9, DefQosFlowIndication := True\<rparr>))],
     TraffContDecs = []\<rparr>"

definition sample_answers :: answers where
  "sample_answers = \<lparr>UdmDiscovery = Discovered, SmData = Subscribed [[''internet'' \<mapsto> [IPV4]]], PcfSearch = Instances [Some [''npcf-smpolicycontrol'']],
     SmPoliciesPost = (\<lambda>_. Some sample_decision), AmfDiscovery = Discovered, AmfServices = Some [''namf-comm'']\<rparr>"

definition sample_request :: create_data where
  "sample_request = \<lparr>cdSupi = ''imsi-1'', cdDnn = ''internet'', cdSNssai = slice, cdServingNetwork = Some \<lparr>Mcc = ''208'', Mnc = ''93''\<rparr>,
     cdGuamiPlmn = None, cdN1 = [46]\<rparr>"

definition sample_creation :: "id_pool creation" where
  "sample_creation = \<lparr>cworld = (two_upf_smf SmStateInit)\<lparr>spools := sample_pools\<lparr>smContextPool := [''ref-1'' \<mapsto> 0], smContextActive := 1\<rparr>,
       sess := sample_session\<lparr>ctx := new_context ''ref-1'' ''imsi-1'' 5, Tunnel := None, dps := empty_dps\<rparr>\<rparr>,
     plane = empty_upi\<lparr>nodes := [new_up_node\<lparr>NodeUPF := Some 0\<rparr>],
       DefaultUserPlanePath := [(Selection_String (sel_dnn ''internet''), [0])]\<rparr>,
     bpManager = None, SMPolicyClient = False, CommunicationClient = False, answer = None\<rparr>"

lemma scan_after_first: "2 \<le> hi \<Longrightarrow> scan {1} 2 hi = Some 2"
  by (simp add: scan_Some_iff)

lemma sample_update:
  "PccRuleUpdate (BuildSmPolicyUpdate x sample_decision) = None" "SmPolicyDecision (BuildSmPolicyUpdate x sample_decision) = Some sample_decision"
  by (simp_all add: BuildSmPolicyUpdate_def GetPccRulesUpdate_def sample_decision_def)

lemma sample_rates: "BitRateTokbps ''1 Mbps'' = Ok 1000" "BitRateTokbps ''2 Mbps'' = Ok 2000"
  by (simp_all add: BitRateTokbps_def go_simps)

lemma sample_default_qos:
  "GetDefaultQoSDataFromPolicyDecision sample_decision = Ok (zero_qos_data\<lparr>QosId := ''1'', Var5qi := 9, DefQosFlowIndication := True\<rparr>)"
  by (simp add: GetDefaultQoSDataFromPolicyDecision_def sample_decision_def)

text \<open>Activating the path of one UPF computes.\<close>

lemmas path_eval = numeral_2_eq_2 the_upf_def empty_dps_def AddPrev_def AddNext_def upd_dpn_def NewDataPath_def sample_upf_def NewUPF_def
  then_loop_def validateDataPathUpfStatus_def AllocateLocalSEIDForDataPath_def allocate_seid_def AllocateLocalSEID_def node_key_def
  NewDataPathNode_def empty_tunnel_def Next_def Prev_def

lemmas tunnel_eval = ActivateUlDlTunnel_def ActivateUpLinkTunnel_def ActivateDownLinkTunnel_def activate_tunnel_def set_tunnel_def tunnel_def
  put_tunnel_pdr_def PutPDRtoPFCPSession_def on_upf_def AddPDR_def pdrID_def AddFAR_def farID_def pool_G_def allocate_def newIDPool_def
  sample_scan scan_after_first smod_nonneg no_rules_def Let_def nth_res_def

lemmas rule_eval = ActivateTunnelAndPDR_def activate_node_def CreateSessRuleQer_def AddQER_def qerID_def set_qer_def set_pdr_def set_far_def
  sample_default_qos sample_rates logged_def ActivateUpLinkPdr_def ActivateDlLinkPdr_def ue_ip_of_def tunnel_pdrs_def uplink_pdr_def
  downlink_pdr_def downlink_to_an_def uplink_fields_def downlink_fields_def add_def_qer_def anchor_pdr_def IsAnchorUPF_def new_pdr_def
  IsUpfSupportUeIpAddrAlloc_def

abbreviation (input) one_upf_path :: data_path where
  "one_upf_path \<equiv> NewDataPath\<lparr>FirstDPNode := Some 0, IsDefaultPath := True\<rparr>"

lemma sample_activation:
  assumes "SmPolicyUpdates c = [u]" and "PccRuleUpdate u = None" and "SmPolicyDecision u = Some sample_decision" and "PDUAddress c = Some ad"
    and "SelectedSessionRule c = Some sample_rule"
  shows "\<exists>d. ActivateTunnelAndPDR pool_G NodeIdValue nl nt 2 c 255 one_upf_path (gen_nodes [Some 0] None empty_dps) =
    Some (Ok (), one_upf_path\<lparr>Activated := True\<rparr>, d)"
  by (simp add: path_eval tunnel_eval rule_eval assms sample_rule_def)

lemma sample_library:
  "count_env (pfcp create_lib) = ''''" "gens create_lib = pool_G" "resolve (pfcp create_lib) = NodeIdValue" "bound create_lib = 2"
  "nas create_lib = nas_24501" "SupportedPDUSessionType (config create_lib) = ''IPv4''"
  "GsmMessageDecode (gsm create_lib) (cdN1 sample_request) = Ok (EstablishmentRequest sample_establishment)"
  by (simp_all add: create_lib_def sample_lib_def sample_env_def count_env_def sample_request_def sample_config_def sample_establishment_def)

lemma sample_addressed:
  assumes "UdmDiscovery A = Discovered"
  obtains t where "create_address create_lib create_sample_env A sample_request (cchange (SetCreateData sample_request) sample_creation) = Some (Ok (), t)"
    and "plane t = plane sample_creation" and "Dnn (ctx (csess t)) = ''internet''" and "SmPolicyUpdates (ctx (csess t)) = []"
    and "PDUAddress (ctx (csess t)) = Some \<lparr>UeIp = [10, 0, 0, 1], UpfProvided = False\<rparr>" and "dps (csess t) = empty_dps"
    and "SmPolicyData (ctx (csess t)) = SmPolicyData (new_context ''ref-1'' ''imsi-1'' 5)"
proof -
  let ?d = sample_request
  let ?s = "cchange (SetCreateData ?d) sample_creation"
  have d: "cdSupi ?d = ''imsi-1''" "cdDnn ?d = ''internet''" "cdSNssai ?d = slice" by (simp_all add: sample_request_def)
  have s: "Supi (ctx (csess ?s)) = ''imsi-1''" "Dnn (ctx (csess ?s)) = ''internet''" "SmPolicyUpdates (ctx (csess ?s)) = []"
      "allocators (spools (cworld ?s)) k = sample_allocator" "dps (csess ?s) = empty_dps" "plane ?s = plane sample_creation"
      "SmPolicyData (ctx (csess ?s)) = SmPolicyData (new_context ''ref-1'' ''imsi-1'' 5)" for k
    by (simp_all add: d cchange_def set_sess_def csess_def sample_creation_def two_upf_smf_def sample_pools_def SetCreateData_def new_context_def)
  from create_address_runs[of ?d create_sample_env A create_lib ?s "[10, 0, 0, 1]"] assms show ?thesis
    by (auto simp: s d sample_library sample_Allocate create_sample_env_def RetrieveDnnInformation_def intro: that)
qed

lemma sample_creates:
  "\<exists>s'. HandlePDUSessionSMContextCreate create_lib create_sample_env sample_answers sample_request sample_creation = Some (Ok (), s')"
proof -
  let ?L = create_lib and ?E = create_sample_env and ?A = sample_answers and ?d = sample_request and ?er = sample_establishment
  let ?c = "SmPolicyData (new_context ''ref-1'' ''imsi-1'' 5)"
  have d: "cdDnn ?d = ''internet''" "cdServingNetwork ?d = Some \<lparr>Mcc = ''208'', Mnc = ''93''\<rparr>" "cdSNssai ?d = slice" by (simp_all add: sample_request_def)
  obtain t where t: "create_address ?L ?E ?A ?d (cchange (SetCreateData ?d) sample_creation) = Some (Ok (), t)" "plane t = plane sample_creation"
      "Dnn (ctx (csess t)) = ''internet''" "SmPolicyUpdates (ctx (csess t)) = []" "PDUAddress (ctx (csess t)) = Some \<lparr>UeIp = [10, 0, 0, 1], UpfProvided = False\<rparr>"
      "dps (csess t) = empty_dps" "SmPolicyData (ctx (csess t)) = ?c" by (rule sample_addressed[of ?A]) (simp_all add: sample_answers_def)
  obtain u where u: "create_subscription ?L ?A ?d t = Some (Ok (), u)" "plane u = plane t"
      "csess u = (csess t)\<lparr>ctx := (ctx (csess t))\<lparr>AllowedSessionTypes := Some [IPV4]\<rparr>\<rparr>"
    using create_subscription_runs[of ?d ?A "[''internet'' \<mapsto> [IPV4]]" "[]" ?L t] by (auto simp: d t(3) sample_answers_def)
  have ty: "SelectedPDUSessionType (ctx (HandlePDUSessionEstablishmentRequest (gsm ?L) (nas ?L) (config ?L) ?er (csess u))) = ModelsToPDUSessionType (nas ?L) IPV4"
    by (simp add: HandlePDUSessionEstablishmentRequest_def sample_library u select_type_def nas_24501_def isAllowedPDUSessionType_def type_supported_def
        sample_establishment_def Let_def)
  then obtain v where v: "create_type ?L ?er u = Some (Ok (), v)" "plane v = plane u"
      "csess v = HandlePDUSessionEstablishmentRequest (gsm ?L) (nas ?L) (config ?L) ?er (csess u)"
    using create_type_runs[of ?L ?er u] by auto
  have keep: "PDUAddress (ctx (csess v)) = Some \<lparr>UeIp = [10, 0, 0, 1], UpfProvided = False\<rparr>" "SmPolicyUpdates (ctx (csess v)) = []"
      "SmPolicyData (ctx (csess v)) = ?c" "dps (csess v) = empty_dps"
    using establishment_frame[of "gsm ?L" "nas ?L" "config ?L" ?er "csess u"] by (simp_all add: v(3) establishment_dps u(3) t)
  have "validateSmPolicyDecision sample_decision = Ok ()" by (simp add: validateSmPolicyDecision_def sample_decision_def sample_rule_def)
  then obtain w where w: "create_policy ?L ?E ?A ?d v = Some (Ok (), w)" "plane w = plane v"
      "csess w = (csess v)\<lparr>ctx := (ctx (csess v))\<lparr>SmPolicyUpdates := [BuildSmPolicyUpdate ?c sample_decision]\<rparr>\<rparr>"
    using create_policy_runs[of ?A "[''npcf-smpolicycontrol'']" "[]" v _ ?d "\<lparr>Mcc = ''208'', Mnc = ''93''\<rparr>" ?L ?E sample_decision]
    by (auto simp: keep d sample_answers_def)
  have up: "SmPolicyUpdates (ctx (csess w)) = [BuildSmPolicyUpdate ?c sample_decision]"
      "PDUAddress (ctx (csess w)) = Some \<lparr>UeIp = [10, 0, 0, 1], UpfProvided = False\<rparr>" by (simp_all add: w(3) keep)
  have "SelectedSessionRule (ctx (csess w)) = Some sample_rule"
    by (simp add: w(3) SelectedSessionRule_def BuildSmPolicyUpdate_def GetSessionRulesUpdate_def sample_decision_def sample_rule_def new_context_def Initialize_def)
  from sample_activation[OF up(1) sample_update up(2) this, of "nas ?L" "net ?L"] obtain p dp where
    act: "ActivateTunnelAndPDR (gens ?L) (resolve (pfcp ?L)) (nas ?L) (net ?L) (bound ?L) (ctx (csess w)) 255 one_upf_path (gen_nodes [Some 0] None empty_dps) = Some (Ok (), p, dp)"
    unfolding sample_library by blast
  have "GetDefaultUserPlanePathByDNN \<lparr>SelDnnList = [cdDnn ?d], SelSNssai = cdSNssai ?d, SelDnai = ''''\<rparr> (plane w) = Ok (Some [0], plane sample_creation)"
    by (simp add: w(2) v(2) u(2) t(2) GetDefaultUserPlanePathByDNN_def d) (simp add: sample_creation_def sel_dnn_def)
  moreover have "nodes (plane sample_creation) ! 0 = new_up_node\<lparr>NodeUPF := Some 0\<rparr>" "dpnodes empty_dps = []" by (simp_all add: sample_creation_def empty_dps_def)
  ultimately obtain x where "create_path ?L ?E ?d w = Some (Ok (), x)"
    using create_path_runs[of ?E ?d w "[0]" "plane sample_creation" ?L p dp] act by (auto simp: w(3) keep create_sample_env_def)
  moreover obtain z where "create_amf ?L ?A x = Some (Ok (), z)" using create_amf_runs[of ?A ?L x] by (auto simp: sample_answers_def)
  ultimately show ?thesis
    unfolding HandlePDUSessionSMContextCreate_establish[OF sample_library(7)] create_rest_def using t(1) u(1) v(1) w(1) by simp
qed

theorem create_answered_witness:
  "\<exists>s'. HandlePDUSessionSMContextCreate create_lib create_sample_env sample_answers sample_request sample_creation = Some (Ok (), s') \<and>
     answer s' = Some (Created ''ref-1'' slice)"
proof -
  obtain s' where run: "HandlePDUSessionSMContextCreate create_lib create_sample_env sample_answers sample_request sample_creation = Some (Ok (), s')"
    using sample_creates by blast
  have "answer sample_creation = None" "Ref (ctx (csess sample_creation)) = ''ref-1''" "cdSNssai sample_request = slice"
    by (simp_all add: sample_creation_def csess_def new_context_def sample_request_def)
  with create_answered[OF run] run show ?thesis by auto
qed

theorem created_session_witness:
  "\<exists>s' p. HandlePDUSessionSMContextCreate create_lib create_sample_env sample_answers sample_request sample_creation = Some (Ok (), s') \<and>
     PDUAddress (ctx (csess s')) = Some \<lparr>UeIp = [10, 0, 0, 1], UpfProvided = False\<rparr> \<and> Tunnel (csess s') = Some (Some [(1, p)]) \<and> Activated p"
proof -
  obtain s' where run: "HandlePDUSessionSMContextCreate create_lib create_sample_env sample_answers sample_request sample_creation = Some (Ok (), s')"
    using sample_creates by blast
  have g: "gen_alloc (gens create_lib) (gen_new (gens create_lib) 1 2147483647) = Ok (1, (newIDPool '''' 1 2147483647)\<lparr>isUsed := {1}, index := 2\<rparr>)"
    by (simp add: sample_library pool_G_def allocate_def newIDPool_def sample_scan smod_nonneg Let_def)
  have "Allocate (count_env (pfcp create_lib)) (cdSupi sample_request) (allocators (spools (cworld sample_creation)) k) =
      Ok ([10, 0, 0, 1], sample_allocator\<lparr>g := sample_pool\<lparr>isUsed := {1}, index := 2\<rparr>\<rparr>)" for k
    by (simp add: sample_library sample_request_def sample_creation_def sample_pools_def sample_Allocate)
  with created_session[OF run _ g] show ?thesis using run by (auto simp: create_sample_env_def)
qed

text \<open>The UDM refuses: the address that was taken is given back and the reference is free again.\<close>

theorem rejected_creation_undone_witness:
  "\<exists>s' t. HandlePDUSessionSMContextCreate create_lib create_sample_env (sample_answers\<lparr>SmData := FetchError\<rparr>) sample_request sample_creation = Some (Err ''SubscriptionError'', s') \<and>
     isUsed (g (allocators (spools (cworld s')) (dnn_key slice ''internet''))) = {1} \<and> post_outcome s' = (Ok False, t) \<and>
     isUsed (g (allocators (spools (cworld t)) (dnn_key slice ''internet''))) = {} \<and> smContextPool (spools (cworld t)) ''ref-1'' = None"
proof -
  let ?L = create_lib and ?E = create_sample_env and ?A = "sample_answers\<lparr>SmData := FetchError\<rparr>" and ?d = sample_request
  obtain t where t: "create_address ?L ?E ?A ?d (cchange (SetCreateData ?d) sample_creation) = Some (Ok (), t)"
    by (rule sample_addressed[of ?A]) (simp_all add: sample_answers_def)
  have s: "answer sample_creation = None" "Ref (ctx (csess sample_creation)) = ''ref-1''" "PDUAddress (ctx (csess sample_creation)) = None"
      "smContextPool (spools (cworld sample_creation)) ''ref-1'' = Some (self (cworld sample_creation))" "allocators (spools (cworld sample_creation)) k = sample_allocator" for k
    by (simp_all add: sample_creation_def csess_def new_context_def two_upf_smf_def sample_pools_def)
  have "BuildGSMPDUSessionEstablishmentReject (gsm ?L) x c = Ok [46]" for x :: "id_pool session" and c
    by (simp add: BuildGSMPDUSessionEstablishmentReject_def create_lib_def sample_lib_def sample_gsm_def)
  moreover have "ErrorType ''SubscriptionDataFetchError'' = Some (500, ''REQUEST_REJECTED'')" by (simp add: ErrorType_def)
  ultimately obtain h where h: "GeneratePDUSessionEstablishmentReject (gsm ?L) ''SubscriptionDataFetchError'' (csess t) = Ok h"
    by (simp add: GeneratePDUSessionEstablishmentReject_def)
  let ?s = "t\<lparr>answer := Some (Rejected h)\<rparr>"
  have run: "HandlePDUSessionSMContextCreate ?L ?E ?A ?d sample_creation = Some (Err ''SubscriptionError'', ?s)"
    unfolding HandlePDUSessionSMContextCreate_establish[OF sample_library(7)] t create_rest_def
    by (simp add: create_subscription_def reject_def h sample_request_def)
  from rejected_creation_undone[OF run s(1) _ s(3)] obtain t' where t': "post_outcome ?s = (Ok False, t')"
    "smContextPool (spools (cworld t')) ''ref-1'' = None" "\<forall>k. isUsed (g (allocators (spools (cworld t')) k)) = {}"
    by (auto simp: s sample_library sample_allocator_wf sample_static) (auto simp: sample_allocator_def sample_pool_def)
  have "isUsed (g (allocators (spools (cworld t)) (dnn_key slice ''internet''))) = {1}"
    using t by (rule create_address_Ok)
      (auto simp: cchange_def set_sess_def csess_def SetCreateData_def sample_library sample_request_def sample_Allocate sample_creation_def sample_pools_def)
  with t' run show ?thesis by auto
qed

text \<open>A UDM that does not respond: the procedure ends without an answer, the handler of the HTTP request fails on the
  missing answer, and the address that was taken stays in use.\<close>

lemma unanswered_creation_keeps_address:
  assumes "GsmMessageDecode (gsm L) (cdN1 d) = Ok (EstablishmentRequest er)" and "SmData A = NoResponse" and "cdServingNetwork d \<noteq> None"
    and "create_address L E A d (cchange (SetCreateData d) s) = Some (Ok (), t)" and "answer s = None"
  shows "HandlePDUSessionSMContextCreate L E A d s = Some (Err ''response nil'', t)" and "post_outcome t = (Panic ''interface conversion'', t)"
  using assms create_address_answer(2)[OF assms(4)]
  by (simp_all add: HandlePDUSessionSMContextCreate_def create_subscription_def post_outcome_def cchange_def)

end
