(* ===== verification/Policy_Notify.thy ===== *)
theory Policy_Notify
  imports Session_Create
begin

text \<open>
  Policy decisions sent by the PCF during a session: \<^verbatim>\<open>src/producer/callback.go\<close> and the handler of the HTTP
  request in \<^verbatim>\<open>src/callback/api_default.go\<close>.  A notification is applied to every session of the data network
  \<^verbatim>\<open>ims\<close> of the subscriber it names: the update is computed, rules for the first UPF of every activated path
  are collected, the UPF is asked and then the UE and the access network are told.
\<close>

section \<open>The sessions concerned\<close>

text \<open>\<^verbatim>\<open>path.Base\<close> of Go's library.\<close>

definition path_Base :: "string \<Rightarrow> string" where
  "path_Base p = (if p = '''' then ''.''
     else let q = rev (dropWhile (\<lambda>ch. ch = CHR ''/'') (rev p)) in
       if q = '''' then ''/'' else rev (takeWhile (\<lambda>ch. ch \<noteq> CHR ''/'') (rev q)))"

text \<open>The text before the last dash, unless there is none or it is the first character.\<close>

definition cut_last_dash :: "string \<Rightarrow> string" where
  "cut_last_dash b = (let after = takeWhile (\<lambda>ch. ch \<noteq> CHR ''-'') (rev b) in
     if length b - length after > 1 then take (length b - length after - 1) b else b)"

text \<open>The argument is the path of the resource URI, nothing when \<^verbatim>\<open>url.Parse\<close> fails.\<close>

definition extractIMSIFromResourceURI :: "string option \<Rightarrow> string" where
  "extractIMSIFromResourceURI uriPath = (case uriPath of
      None \<Rightarrow> ''''
    | Some p \<Rightarrow> let base = cut_last_dash (path_Base p) in if take 5 base = ''imsi-'' then base else '''')"

text \<open>The contexts of the pool in the order of the iteration; a nil context is skipped.\<close>

fun matched_contexts :: "string \<Rightarrow> string \<Rightarrow> sm_context option list \<Rightarrow> int set \<Rightarrow> sm_context list" where
  "matched_contexts dnn imsi [] seen = []"
| "matched_contexts dnn imsi (None # cs) seen = matched_contexts dnn imsi cs seen"
| "matched_contexts dnn imsi (Some c # cs) seen =
     (if Dnn c \<noteq> dnn then matched_contexts dnn imsi cs seen
      else if imsi \<noteq> '''' \<and> Supi c \<noteq> imsi then matched_contexts dnn imsi cs seen
      else if PDUSessionID c \<in> seen then matched_contexts dnn imsi cs seen
      else c # matched_contexts dnn imsi cs (insert (PDUSessionID c) seen))"

definition GetSMContextsByDnnAndImsi :: "string \<Rightarrow> string \<Rightarrow> sm_context option list \<Rightarrow> sm_context list" where
  "GetSMContextsByDnnAndImsi dnn imsi cs = matched_contexts dnn imsi cs {}"

text \<open>The status of the response and the sessions that get the transaction.\<close>

definition HTTPSmPolicyUpdateNotification :: "string option \<Rightarrow> sm_context option list \<Rightarrow> int \<times> sm_context list" where
  "HTTPSmPolicyUpdateNotification uriPath cs =
     (let matched = GetSMContextsByDnnAndImsi ''ims'' (extractIMSIFromResourceURI uriPath) cs in
      (if matched = [] then 404 else 204, matched))"

section \<open>Rules for the update\<close>

text \<open>The name of the rule that is worked on is the last key the iteration has seen; a rule without a name
  ends it and makes the update a release.\<close>

fun last_rule :: "pcc_rule option go_map \<Rightarrow> string \<Rightarrow> bool \<times> string" where
  "last_rule [] ruleid = (False, ruleid)"
| "last_rule ((k, rule) # rs) ruleid =
     (if k = '''' \<or> (case rule of None \<Rightarrow> True | Some r \<Rightarrow> PccRuleId r = '''') then (True, k) else last_rule rs k)"

text \<open>\<^verbatim>\<open>pccPresent\<close>: the map of rules of the decision is not nil.\<close>

definition release_only :: "bool \<Rightarrow> sm_context \<Rightarrow> (bool \<times> string) result" where
  "release_only pccPresent c = (case SmPolicyUpdates c of
      [] \<Rightarrow> Ok (False, ''0'')
    | u # _ \<Rightarrow>
        (case SmPolicyDecision u of
           None \<Rightarrow> Panic ''nil pointer dereference''
         | Some d \<Rightarrow> Ok (if \<not> pccPresent then (False, ''0'')
             else if PccRules d = [] then (True, ''0'') else last_rule (PccRules d) ''0'')))"

record 'g collected =
  cdps :: "'g dp_state"
  cPending :: "string list"
  cParam :: modification

definition await_upf :: "(node_id \<Rightarrow> ip) \<Rightarrow> nat \<Rightarrow> 'g collected \<Rightarrow> unit result \<times> 'g collected" where
  "await_upf rs n b = (case the_upf n (cdps b) of
      Ok (_, u) \<Rightarrow> (Ok (), b\<lparr>cPending := List.insert (node_key rs u) (cPending b)\<rparr>)
    | Err e \<Rightarrow> (Err e, b) | Panic e \<Rightarrow> (Panic e, b))"

definition remove_rule :: "nat \<Rightarrow> 'g collected \<Rightarrow> unit result \<times> 'g collected" where
  "remove_rule p b = (case pdrs (rules (cdps b)) p of
      None \<Rightarrow> (Panic ''nil pointer dereference'', b)
    | Some x \<Rightarrow> (Ok (), b\<lparr>cParam := (cParam b)\<lparr>removePDR := removePDR (cParam b) @ [p],
         removeFAR := removeFAR (cParam b) @ (case FAR x of None \<Rightarrow> [] | Some f \<Rightarrow> [f]), removeQER := removeQER (cParam b) @ QER x\<rparr>\<rparr>))"

text \<open>The list of a rule holds the QER of the dedicated flow even when there is none.  Indices of rules are
  shared between all kinds of rules, so that the index of the detection rule itself stands for nil: there
  is never a QER at it.\<close>

definition qer_ref :: "nat \<Rightarrow> nat option \<Rightarrow> nat" where
  "qer_ref p ded = (case ded of None \<Rightarrow> p | Some q \<Rightarrow> q)"

definition dedicated_fields :: "nat \<Rightarrow> nat option \<Rightarrow> string \<Rightarrow> u8 \<Rightarrow> pdr \<Rightarrow> pdr" where
  "dedicated_fields p ded dnn src x = x\<lparr>QER := [qer_ref p ded], PdrPrecedence := (if PdrPrecedence x = 0 then 1 else PdrPrecedence x),
     PDI := (PDI x)\<lparr>SourceInterface := src, PdiNetworkInstance := dnn\<rparr>\<rparr>"

definition listed :: "nat \<Rightarrow> nat \<Rightarrow> nat list \<Rightarrow> 'g collected \<Rightarrow> 'g collected" where
  "listed p f qs b = b\<lparr>cParam := (cParam b)\<lparr>pdrList := pdrList (cParam b) @ [p], farList := farList (cParam b) @ [Some f],
     qerList := qerList (cParam b) @ qs\<rparr>\<rparr>"

definition buffer_action :: apply_action where
  "buffer_action = no_action\<lparr>Buff := True, Nocp := True\<rparr>"

definition downlink_rule :: "(node_id \<Rightarrow> ip) \<Rightarrow> string \<Rightarrow> nat \<Rightarrow> nat option \<Rightarrow> nat \<Rightarrow> 'g collected \<Rightarrow> unit result \<times> 'g collected" where
  "downlink_rule rs dnn n ded p b =
     (let b = b\<lparr>cdps := set_pdr p (dedicated_fields p ded dnn SourceInterfaceCore) (cdps b)\<rparr> in
      case far_of p (cdps b) of
        None \<Rightarrow> (Panic ''nil pointer dereference'', b)
      | Some (f, _) \<Rightarrow> await_upf rs n (listed p f (case ded of None \<Rightarrow> [] | Some q \<Rightarrow> [q])
          (b\<lparr>cdps := set_far f (\<lambda>y. y\<lparr>ApplyAction := buffer_action\<rparr>) (cdps b)\<rparr>)))"

definition core_parameters :: "string \<Rightarrow> forwarding_parameters" where
  "core_parameters dnn = \<lparr>OuterHeaderCreation = None, PFCPSMReqFlags = None, FwdNetworkInstance = bytes_of dnn,
     DestinationInterface = DestinationInterfaceCore\<rparr>"

definition uplink_dedicated :: "pdr \<Rightarrow> pdr" where
  "uplink_dedicated x = x\<lparr>PDI := (PDI x)\<lparr>LocalFTeidCh := Some True\<rparr>, OuterHeaderRemoval := Some OuterHeaderRemovalGtpUUdpIpv4\<rparr>"

definition uplink_rule :: "(node_id \<Rightarrow> ip) \<Rightarrow> string \<Rightarrow> nat \<Rightarrow> nat option \<Rightarrow> nat \<Rightarrow> 'g collected \<Rightarrow> unit result \<times> 'g collected" where
  "uplink_rule rs dnn n ded p b =
     (let b = b\<lparr>cdps := set_pdr p (\<lambda>x. uplink_dedicated (dedicated_fields p ded dnn SourceInterfaceAccess x)) (cdps b)\<rparr> in
      case far_of p (cdps b) of
        None \<Rightarrow> (Panic ''nil pointer dereference'', b)
      | Some (f, _) \<Rightarrow> await_upf rs n (listed p f []
          (b\<lparr>cdps := set_far f (\<lambda>y. y\<lparr>ApplyAction := no_action\<lparr>Forw := True\<rparr>, ForwardingParameters := Some (core_parameters dnn)\<rparr>) (cdps b)\<rparr>)))"

text \<open>The dedicated QER and the tunnels of a path; errors of both are logged.\<close>

definition dedicated :: "('p, 'g) lib \<Rightarrow> sm_context \<Rightarrow> data_path \<Rightarrow> nat \<Rightarrow> 'g collected \<Rightarrow> (nat option result \<times> 'g collected) option" where
  "dedicated L c d n b = (case CreateDedicatedQosQer (gens L) c n (cdps b) of
      (Panic e, s) \<Rightarrow> Some (Panic e, b\<lparr>cdps := s\<rparr>)
    | (r, s) \<Rightarrow>
        let ded = (case r of Ok q \<Rightarrow> q | _ \<Rightarrow> None) in
        (case ActivateUlDlTunnel (gens L) (resolve (pfcp L)) (bound L) c d s of
           None \<Rightarrow> None
         | Some (Panic e, s) \<Rightarrow> Some (Panic e, b\<lparr>cdps := s\<rparr>)
         | Some (_, s) \<Rightarrow> Some (Ok ded, b\<lparr>cdps := s\<rparr>)))"

definition uplink_part :: "('p, 'g) lib \<Rightarrow> sm_context \<Rightarrow> bool \<Rightarrow> string \<Rightarrow> nat \<Rightarrow> nat option \<Rightarrow> 'g collected \<Rightarrow> unit result \<times> 'g collected" where
  "uplink_part L c rel ruleid n ded b = (case map_of (tunnel_pdrs UL n (cdps b)) ruleid of
      None \<Rightarrow> (Ok (), b)
    | Some p \<Rightarrow> if rel then remove_rule p b else uplink_rule (resolve (pfcp L)) (Dnn c) n ded p b)"

definition build_path :: "('p, 'g) lib \<Rightarrow> sm_context \<Rightarrow> bool \<Rightarrow> string \<Rightarrow> data_path \<Rightarrow> 'g collected \<Rightarrow> (unit result \<times> 'g collected) option" where
  "build_path L c rel ruleid d b = (case FirstDPNode d of
      None \<Rightarrow> Some (Panic ''nil pointer dereference'', b)
    | Some n \<Rightarrow>
        (case the_upf n (cdps b) of
           Panic e \<Rightarrow> Some (Panic e, b)
         | Err e \<Rightarrow> Some (Err e, b)
         | Ok _ \<Rightarrow>
             andthen (if rel then Some (Ok None, b) else dedicated L c d n b) (\<lambda>ded b.
             case map_of (tunnel_pdrs DL n (cdps b)) ruleid of
               None \<Rightarrow> Some (uplink_part L c rel ruleid n ded b)
             | Some p \<Rightarrow>
                 if rel then Some (remove_rule p b)
                 else Some (seq (downlink_rule (resolve (pfcp L)) (Dnn c) n ded p b) (\<lambda>_. uplink_part L c rel ruleid n ded)))))"

fun build_paths :: "('p, 'g) lib \<Rightarrow> sm_context \<Rightarrow> bool \<Rightarrow> string \<Rightarrow> data_path list \<Rightarrow> 'g collected \<Rightarrow> (unit result \<times> 'g collected) option" where
  "build_paths L c rel ruleid [] b = Some (Ok (), b)"
| "build_paths L c rel ruleid (d # ds) b =
     (if \<not> Activated d then build_paths L c rel ruleid ds b
      else andthen (build_path L c rel ruleid d b) (\<lambda>_. build_paths L c rel ruleid ds))"

definition BuildPfcpParam :: "('p, 'g) lib \<Rightarrow> bool \<Rightarrow> 'g procedure \<Rightarrow> (unit result \<times> 'g procedure) option" where
  "BuildPfcpParam L pccPresent s =
     (let s = change (\<lambda>x. x\<lparr>Pending := []\<rparr>) s; x = session_of s in
      case release_only pccPresent (ctx x) of
        Panic e \<Rightarrow> Some (Panic e, s)
      | Err e \<Rightarrow> Some (Err e, s)
      | Ok (rel, ruleid) \<Rightarrow>
          (case Tunnel x of
             None \<Rightarrow> Some (Panic ''nil pointer dereference'', s)
           | Some pool \<Rightarrow>
               (case build_paths L (ctx x) rel ruleid (pool_paths pool) \<lparr>cdps = dps x, cPending = [], cParam = no_modification\<rparr> of
                  None \<Rightarrow> None
                | Some (r, b) \<Rightarrow> Some (r, (change (\<lambda>x. x\<lparr>dps := cdps b, Pending := cPending b\<rparr>) s)\<lparr>pfcpParam := cParam b\<rparr>))))"

section \<open>The procedure\<close>

definition BuildAndSendQosN1N2TransferMsg ::
    "('p, 'g) lib \<Rightarrow> (n1n2_request \<Rightarrow> transfer_answer) \<Rightarrow> bool \<Rightarrow> 'g procedure \<Rightarrow> (unit result \<times> 'g procedure) option" where
  "BuildAndSendQosN1N2TransferMsg L amf pccPresent s =
     built (BuildGSMPDUSessionModificationCommand (gsm L) (session_of s)) s (\<lambda>n1 s.
     built (BuildPDUSessionResourceModifyRequestTransfer (ngap L) pccPresent (session_of s)) s (\<lambda>n2 s.
     case amf \<lparr>tSession = PDUSessionID (ctx (session_of s)), tN1 = n1, tN2 = n2\<rparr> of
       TransferFailed \<Rightarrow> Some (Err ''N1N2Transfer failed'', s)
     | N1_MSG_NOT_TRANSFERRED \<Rightarrow> Some (Err ''N1N2MessageTransfer failure'', s)
     | Transferred \<Rightarrow> finish s))"

definition set_update :: "sm_policy_decision \<Rightarrow> 'g procedure \<Rightarrow> 'g procedure" where
  "set_update dec = change (\<lambda>x. x\<lparr>ctx := (ctx x)\<lparr>SmPolicyUpdates := [BuildSmPolicyUpdate (SmPolicyData (ctx x)) dec]\<rparr>\<rparr>)"

definition HandleSMPolicyUpdateNotify ::
    "('p, 'g) lib \<Rightarrow> (n1n2_request \<Rightarrow> transfer_answer) \<Rightarrow> bool \<Rightarrow> sm_policy_decision option \<Rightarrow> pfcp_event list \<Rightarrow> 'g smf \<Rightarrow> (unit result \<times> 'g procedure) option" where
  "HandleSMPolicyUpdateNotify L amf pccPresent decision evs w = (let s = new_procedure evs w in
     case decision of
       None \<Rightarrow> Some (Panic ''nil pointer dereference'', s)
     | Some dec \<Rightarrow>
         andthen (BuildPfcpParam L pccPresent (set_update dec s)) (\<lambda>_ s.
         (case SendPfcpSessionModifyReq L (to_state SmStatePfcpModify s) of
            None \<Rightarrow> None
          | Some (Panic e, s) \<Rightarrow> Some (Panic e, s)
          | Some (Err e, s) \<Rightarrow>
              andthen (makePduCtxtModifyErrRsp L e (to_state SmStateActive s)) (\<lambda>h s. Some (Err e, s\<lparr>httpRsp := Some h\<rparr>))
          | Some (Ok _, s) \<Rightarrow>
              andthen (BuildAndSendQosN1N2TransferMsg L amf pccPresent s) (\<lambda>_ s.
              finish ((to_state SmStateActive s)\<lparr>httpRsp := Some \<lparr>Status = 200, Body = NoBody\<rparr>\<rparr>)))))"

section \<open>Which sessions a notification reaches\<close>

definition concerned :: "string \<Rightarrow> string \<Rightarrow> sm_context option list \<Rightarrow> sm_context set" where
  "concerned dnn imsi cs = {c. Some c \<in> set cs \<and> Dnn c = dnn \<and> (imsi = '''' \<or> Supi c = imsi)}"

lemma concerned_simps [simp]:
  "concerned dnn imsi [] = {}" "concerned dnn imsi (None # cs) = concerned dnn imsi cs"
  "concerned dnn imsi (Some c # cs) = (if Dnn c = dnn \<and> (imsi = '''' \<or> Supi c = imsi) then insert c (concerned dnn imsi cs) else concerned dnn imsi cs)"
  by (auto simp: concerned_def)

lemma matched_contexts_sound: "set (matched_contexts dnn imsi cs seen) \<subseteq> concerned dnn imsi cs"
  by (induction dnn imsi cs seen rule: matched_contexts.induct) auto

lemma matched_contexts_fresh: "c \<in> set (matched_contexts dnn imsi cs seen) \<Longrightarrow> PDUSessionID c \<notin> seen"
  by (induction dnn imsi cs seen rule: matched_contexts.induct) (auto split: if_splits)

lemma matched_contexts_distinct: "distinct (map PDUSessionID (matched_contexts dnn imsi cs seen))"
  by (induction dnn imsi cs seen rule: matched_contexts.induct) (auto dest: matched_contexts_fresh)

lemma matched_contexts_complete:
  "PDUSessionID ` concerned dnn imsi cs \<subseteq> PDUSessionID ` set (matched_contexts dnn imsi cs seen) \<union> seen"
proof (induction dnn imsi cs seen rule: matched_contexts.induct)
  case (3 dnn imsi c cs seen)
  show ?case
  proof (cases "Dnn c = dnn \<and> (imsi = '''' \<or> Supi c = imsi)")
    case True
    show ?thesis
    proof (cases "PDUSessionID c \<in> seen")
      case False
      have "PDUSessionID ` concerned dnn imsi cs \<subseteq> PDUSessionID ` set (matched_contexts dnn imsi cs (insert (PDUSessionID c) seen)) \<union> insert (PDUSessionID c) seen"
        by (rule 3(4)) (use True False in auto)
      then show ?thesis using True False by auto
    qed (use True 3(3) in auto)
  qed (use 3(1,2) in auto)
qed auto

lemma GetSMContextsByDnnAndImsi_spec:
  fixes dnn imsi :: string and cs
  defines "r \<equiv> GetSMContextsByDnnAndImsi dnn imsi cs"
  shows "set r \<subseteq> concerned dnn imsi cs \<and> distinct (map PDUSessionID r) \<and> PDUSessionID ` set r = PDUSessionID ` concerned dnn imsi cs"
  using matched_contexts_sound[of dnn imsi cs "{}"] matched_contexts_distinct[of dnn imsi cs "{}"] matched_contexts_complete[of dnn imsi cs "{}"]
  unfolding r_def GetSMContextsByDnnAndImsi_def by auto

lemma path_Base_last:
  assumes "CHR ''/'' \<notin> set b" and "b \<noteq> []"
  shows "path_Base (p @ ''/'' @ b) = b"
proof -
  have "dropWhile (\<lambda>ch. ch = CHR ''/'') (rev b @ x) = rev b @ x" for x
    using assms by (cases "rev b") (auto simp: dropWhile_append)
  moreover have "takeWhile (\<lambda>ch. ch \<noteq> CHR ''/'') (rev b @ CHR ''/'' # rev p) = rev b"
    using assms(1) by (subst takeWhile_append2) auto
  ultimately show ?thesis by (simp add: path_Base_def Let_def)
qed

lemma cut_last_dash_last:
  assumes "CHR ''-'' \<notin> set n" and "b \<noteq> []"
  shows "cut_last_dash (b @ ''-'' @ n) = b"
proof -
  have "takeWhile (\<lambda>ch. ch \<noteq> CHR ''-'') (rev n @ CHR ''-'' # rev b) = rev n"
    using assms(1) by (subst takeWhile_append2) auto
  moreover have "0 < length b" using assms(2) by simp
  ultimately show ?thesis by (simp add: cut_last_dash_def)
qed

text \<open>C39: A notification for the resource of a subscriber's session, \<^verbatim>\<open>.../imsi-<digits>-<session>\<close>, is applied to
  sessions of the data network \<^verbatim>\<open>ims\<close> of that subscriber only, to one for each of their session
  identifiers, whichever session the resource names; it is answered 404 exactly when there is none.\<close>

theorem notification_sessions:
  assumes "CHR ''/'' \<notin> set ds" and "CHR ''/'' \<notin> set n" and "CHR ''-'' \<notin> set n"
    and "HTTPSmPolicyUpdateNotification (Some (p @ ''/imsi-'' @ ds @ ''-'' @ n)) cs = (status, matched)"
  shows "set matched \<subseteq> {c. Some c \<in> set cs \<and> Dnn c = ''ims'' \<and> Supi c = ''imsi-'' @ ds} \<and> distinct (map PDUSessionID matched) \<and>
    PDUSessionID ` set matched = PDUSessionID ` {c. Some c \<in> set cs \<and> Dnn c = ''ims'' \<and> Supi c = ''imsi-'' @ ds} \<and>
    (status = 404 \<longleftrightarrow> (\<forall>c. Some c \<in> set cs \<longrightarrow> Dnn c = ''ims'' \<longrightarrow> Supi c \<noteq> ''imsi-'' @ ds))"
proof -
  let ?i = "''imsi-'' @ ds"
  have "path_Base (p @ ''/'' @ (?i @ ''-'' @ n)) = ?i @ ''-'' @ n" by (rule path_Base_last) (use assms in auto)
  moreover have "cut_last_dash (?i @ ''-'' @ n) = ?i" by (rule cut_last_dash_last) (use assms in auto)
  ultimately have "extractIMSIFromResourceURI (Some (p @ ''/imsi-'' @ ds @ ''-'' @ n)) = ?i"
    by (simp add: extractIMSIFromResourceURI_def)
  with assms(4) have m: "matched = GetSMContextsByDnnAndImsi ''ims'' ?i cs" "status = (if matched = [] then 404 else 204)"
    by (auto simp: HTTPSmPolicyUpdateNotification_def Let_def)
  have c: "concerned ''ims'' ?i cs = {c. Some c \<in> set cs \<and> Dnn c = ''ims'' \<and> Supi c = ?i}" by (simp add: concerned_def)
  note spec = GetSMContextsByDnnAndImsi_spec[of "''ims''" ?i cs, folded m(1), unfolded c]
  from spec have "matched = [] \<longleftrightarrow> {c. Some c \<in> set cs \<and> Dnn c = ''ims'' \<and> Supi c = ?i} = {}" by (cases matched) auto
  with spec m(2) show ?thesis by auto
qed

text \<open>When the resource cannot be read, the sessions of every subscriber are concerned, and of the sessions with
  the same identifier only one gets the update.\<close>

lemma unreadable_resource_reaches_others:
  assumes "extractIMSIFromResourceURI uri = ''''" and "Dnn a = ''ims''" and "Dnn b = ''ims''" and "Supi a \<noteq> Supi b"
  shows "snd (HTTPSmPolicyUpdateNotification uri [Some a, Some b]) = (if PDUSessionID a = PDUSessionID b then [a] else [a, b])"
  using assms by (simp add: HTTPSmPolicyUpdateNotification_def GetSMContextsByDnnAndImsi_def Let_def)

section \<open>A release\<close>

text \<open>The rule of a path that a release removes: the downlink one if there is one.\<close>

definition released_rule :: "string \<Rightarrow> 'g dp_state \<Rightarrow> data_path \<Rightarrow> nat option" where
  "released_rule ruleid s d = Option.bind (FirstDPNode d) (\<lambda>n. case map_of (tunnel_pdrs DL n s) ruleid of
      Some p \<Rightarrow> Some p | None \<Rightarrow> map_of (tunnel_pdrs UL n s) ruleid)"

definition released :: "'g dp_state \<Rightarrow> nat list \<Rightarrow> modification \<Rightarrow> modification" where
  "released s ps m = m\<lparr>removePDR := removePDR m @ ps,
     removeFAR := removeFAR m @ List.map_filter (\<lambda>p. Option.bind (pdrs (rules s) p) FAR) ps,
     removeQER := removeQER m @ concat (map (\<lambda>p. case pdrs (rules s) p of None \<Rightarrow> [] | Some x \<Rightarrow> QER x) ps)\<rparr>"

lemma remove_rule_released:
  "remove_rule p b = (Ok (), b') \<Longrightarrow> b' = b\<lparr>cParam := released (cdps b) [p] (cParam b)\<rparr>"
  by (auto simp: remove_rule_def released_def List.map_filter_simps split: option.splits)

lemma released_append: "released s qs (released s ps m) = released s (ps @ qs) m"
  by (simp add: released_def List.map_filter_def)

lemma released_Nil [simp]: "released s [] m = m"
  by (simp add: released_def List.map_filter_simps)

lemma build_path_releases:
  assumes "build_path L c True ruleid d b = Some (Ok (), b')"
  shows "b' = b\<lparr>cParam := released (cdps b) (case released_rule ruleid (cdps b) d of None \<Rightarrow> [] | Some p \<Rightarrow> [p]) (cParam b)\<rparr>"
  using assms
  by (auto simp: build_path_def uplink_part_def released_rule_def dest: remove_rule_released split: option.splits result.splits)

lemma build_paths_release:
  assumes "build_paths L c True ruleid ds b = Some (Ok (), b')"
  shows "b' = b\<lparr>cParam := released (cdps b) (List.map_filter (released_rule ruleid (cdps b)) (filter Activated ds)) (cParam b)\<rparr>"
  using assms
proof (induction ds arbitrary: b)
  case (Cons d ds)
  show ?case
  proof (cases "Activated d")
    case True
    with Cons.prems obtain t where t: "build_path L c True ruleid d b = Some (Ok (), t)" "build_paths L c True ruleid ds t = Some (Ok (), b')"
      by (auto elim: andthen_OkE)
    from Cons.IH[OF t(2)] show ?thesis
      unfolding build_path_releases[OF t(1)] using True
      by (simp add: released_append List.map_filter_simps split: option.split)
  qed (use Cons in simp)
qed (simp add: List.map_filter_simps)

lemma release_collected:
  fixes L :: "('p, 'g) lib" and s s' :: "'g procedure"
  assumes "release_only pccPresent (ctx (session_of s)) = Ok (True, ruleid)" and "Tunnel (session_of s) = Some pool"
    and "BuildPfcpParam L pccPresent s = Some (Ok (), s')"
  shows "dps (session_of s') = dps (session_of s) \<and> Pending (session_of s') = [] \<and> pfcpParam s' =
    released (dps (session_of s)) (List.map_filter (released_rule ruleid (dps (session_of s))) (filter Activated (pool_paths pool))) no_modification"
proof -
  let ?b = "\<lparr>cdps = dps (session_of s), cPending = [], cParam = no_modification\<rparr>"
  from assms obtain b where b: "build_paths L (ctx (session_of s)) True ruleid (pool_paths pool) ?b = Some (Ok (), b)"
    and s': "s' = (change (\<lambda>x. x\<lparr>dps := cdps b, Pending := cPending b\<rparr>) (change (\<lambda>x. x\<lparr>Pending := []\<rparr>) s))\<lparr>pfcpParam := cParam b\<rparr>"
    by (auto simp: BuildPfcpParam_def Let_def split: option.splits)
  show ?thesis unfolding s' build_paths_release[OF b] by simp
qed

text \<open>A decision without usable rules releases the dedicated flow of its rule name: no rule is created or changed,
  no UPF is awaited, and per activated path exactly one detection rule is listed for removal together with its
  forwarding and QoS rules: the downlink rule of that name, the uplink rule only when there is no downlink one.\<close>

lemma release_removes_one_rule_per_path:
  fixes L :: "('p, 'g) lib" and s s' :: "'g procedure"
  assumes "release_only pccPresent (ctx (session_of s)) = Ok (True, ruleid)" and "Tunnel (session_of s) = Some pool"
    and "BuildPfcpParam L pccPresent s = Some (Ok (), s')"
  shows "dps (session_of s') = dps (session_of s) \<and> Pending (session_of s') = [] \<and>
    pdrList (pfcpParam s') = [] \<and> farList (pfcpParam s') = [] \<and> qerList (pfcpParam s') = [] \<and>
    removePDR (pfcpParam s') = List.map_filter (released_rule ruleid (dps (session_of s))) (filter Activated (pool_paths pool)) \<and>
    removeFAR (pfcpParam s') = List.map_filter (\<lambda>p. Option.bind (pdrs (rules (dps (session_of s))) p) FAR) (removePDR (pfcpParam s')) \<and>
    removeQER (pfcpParam s') = concat (map (\<lambda>p. case pdrs (rules (dps (session_of s))) p of None \<Rightarrow> [] | Some x \<Rightarrow> QER x) (removePDR (pfcpParam s')))"
  using release_collected[OF assms] by (simp add: released_def no_modification_def)

text \<open>An empty map of rules names no rule, and the name \<^verbatim>\<open>0\<close> is looked up: nothing is removed.\<close>

lemma empty_decision_removes_nothing:
  fixes L :: "('p, 'g) lib" and s s' :: "'g procedure"
  assumes "SmPolicyUpdates (ctx (session_of s)) = [u]" and "SmPolicyDecision u = Some dec" and "PccRules dec = []" and "pccPresent"
    and "Tunnel (session_of s) = Some pool" and "BuildPfcpParam L pccPresent s = Some (Ok (), s')"
    and "\<forall>d \<in> set (pool_paths pool). \<forall>n. FirstDPNode d = Some n \<longrightarrow>
       ''0'' \<notin> fst ` set (tunnel_pdrs DL n (dps (session_of s))) \<and> ''0'' \<notin> fst ` set (tunnel_pdrs UL n (dps (session_of s)))"
  shows "pfcpParam s' = no_modification"
proof -
  have r: "release_only pccPresent (ctx (session_of s)) = Ok (True, ''0'')" using assms(1-4) by (simp add: release_only_def)
  have "released_rule ''0'' (dps (session_of s)) d = None" if "d \<in> set (pool_paths pool)" for d
    using assms(7) that by (cases "FirstDPNode d") (auto simp: released_rule_def map_of_eq_None_iff split: option.split)
  then have "List.map_filter (released_rule ''0'' (dps (session_of s))) (filter Activated (pool_paths pool)) = []"
    by (auto simp: List.map_filter_def filter_empty_conv)
  with release_collected[OF r assms(5,6)] show ?thesis by simp
qed

section \<open>A dedicated flow\<close>

lemma await_upf_Ok:
  "await_upf rs n b = (Ok (), b') \<Longrightarrow> \<exists>k u. the_upf n (cdps b) = Ok (k, u) \<and> b' = b\<lparr>cPending := List.insert (node_key rs u) (cPending b)\<rparr>"
  by (auto simp: await_upf_def split: result.splits)

lemma the_upf_rules [simp]: "the_upf n (set_pdr p f s) = the_upf n s" "the_upf n (set_far q h s) = the_upf n s"
  by (simp_all add: the_upf_def set_pdr_def set_far_def split: option.split)

text \<open>C38: A rule of a decision becomes a pair of rules at the first UPF of a path.  After the tunnels of the path were
  set up, the downlink and the uplink rule of that name are listed with their forwarding rules and the QER of
  the dedicated flow; both refer to that QER alone, the downlink rule buffers and notifies, the uplink rule matches
  the access side of the network, removes the tunnel header and forwards to the core, and the UPF is awaited.\<close>

theorem dedicated_flow_rules:
  fixes L :: "('p, 'g) lib" and b b1 b' :: "'g collected"
  assumes "build_path L c False ruleid d b = Some (Ok (), b')" and "FirstDPNode d = Some n" and "dedicated L c d n b = Some (Ok (Some q), b1)"
    and "map_of (tunnel_pdrs DL n (cdps b1)) ruleid = Some p" and "far_of p (cdps b1) = Some (f, y)"
    and "map_of (tunnel_pdrs UL n (cdps b1)) ruleid = Some p'" and "far_of p' (cdps b1) = Some (f', y')" and "p \<noteq> p'" and "f \<noteq> f'"
  shows "pdrList (cParam b') = pdrList (cParam b1) @ [p, p'] \<and> farList (cParam b') = farList (cParam b1) @ [Some f, Some f'] \<and>
    qerList (cParam b') = qerList (cParam b1) @ [q] \<and>
    (\<exists>x. pdrs (rules (cdps b')) p = Some x \<and> QER x = [q] \<and> SourceInterface (PDI x) = SourceInterfaceCore \<and> FAR x = Some f) \<and>
    (\<exists>x. pdrs (rules (cdps b')) p' = Some x \<and> QER x = [q] \<and> SourceInterface (PDI x) = SourceInterfaceAccess \<and> FAR x = Some f' \<and>
       OuterHeaderRemoval x = Some OuterHeaderRemovalGtpUUdpIpv4) \<and>
    fars (rules (cdps b')) f = Some (y\<lparr>ApplyAction := buffer_action\<rparr>) \<and>
    fars (rules (cdps b')) f' = Some (y'\<lparr>ApplyAction := no_action\<lparr>Forw := True\<rparr>, ForwardingParameters := Some (core_parameters (Dnn c))\<rparr>) \<and>
    (\<exists>k u. the_upf n (cdps b') = Ok (k, u) \<and> node_key (resolve (pfcp L)) u \<in> set (cPending b'))"
proof -
  from assms(5,7) obtain x x' where x: "pdrs (rules (cdps b1)) p = Some x" "FAR x = Some f" "fars (rules (cdps b1)) f = Some y"
    and x': "pdrs (rules (cdps b1)) p' = Some x'" "FAR x' = Some f'" "fars (rules (cdps b1)) f' = Some y'"
    by (auto simp: far_of_def bind_eq_Some_conv)
  from assms(1-4) have "seq (downlink_rule (resolve (pfcp L)) (Dnn c) n (Some q) p b1) (\<lambda>_. uplink_part L c False ruleid n (Some q)) = (Ok (), b')"
    by (auto simp: build_path_def split: result.splits)
  then obtain b2 where b2: "downlink_rule (resolve (pfcp L)) (Dnn c) n (Some q) p b1 = (Ok (), b2)" "uplink_part L c False ruleid n (Some q) b2 = (Ok (), b')"
    by (auto elim: seq_OkE)
  let ?s1 = "set_far f (\<lambda>y. y\<lparr>ApplyAction := buffer_action\<rparr>) (set_pdr p (dedicated_fields p (Some q) (Dnn c) SourceInterfaceCore) (cdps b1))"
  have f1: "far_of p (set_pdr p (dedicated_fields p (Some q) (Dnn c) SourceInterfaceCore) (cdps b1)) = Some (f, y)"
    using x by (simp add: far_of_def set_pdr_def dedicated_fields_def)
  from b2(1) obtain k u where u: "the_upf n (cdps b1) = Ok (k, u)"
    and b2': "b2 = (listed p f [q] (b1\<lparr>cdps := ?s1\<rparr>))\<lparr>cPending := List.insert (node_key (resolve (pfcp L)) u) (cPending b1)\<rparr>"
    by (auto simp: downlink_rule_def Let_def f1 listed_def dest!: await_upf_Ok)
  have s1: "tunnel_pdrs UL n ?s1 = tunnel_pdrs UL n (cdps b1)" "pdrs (rules ?s1) p' = Some x'" "fars (rules ?s1) f' = Some y'"
    using assms(8,9) x' by (simp_all add: tunnel_pdrs_def set_far_def set_pdr_def)
  have f2: "far_of p' (set_pdr p' (\<lambda>x. uplink_dedicated (dedicated_fields p' (Some q) (Dnn c) SourceInterfaceAccess x)) ?s1) = Some (f', y')"
    using s1 x' by (simp add: far_of_def set_pdr_def set_far_def dedicated_fields_def uplink_dedicated_def)
  have "cdps b2 = ?s1" by (simp add: b2' listed_def)
  with b2(2) have "uplink_rule (resolve (pfcp L)) (Dnn c) n (Some q) p' b2 = (Ok (), b')"
    by (simp add: uplink_part_def s1(1) assms(6))
  then have b': "b' = (listed p' f' [] (b2\<lparr>cdps := set_far f' (\<lambda>y. y\<lparr>ApplyAction := no_action\<lparr>Forw := True\<rparr>, ForwardingParameters := Some (core_parameters (Dnn c))\<rparr>)
      (set_pdr p' (\<lambda>x. uplink_dedicated (dedicated_fields p' (Some q) (Dnn c) SourceInterfaceAccess x)) ?s1)\<rparr>))\<lparr>cPending := List.insert (node_key (resolve (pfcp L)) u) (cPending b2)\<rparr>"
    using u \<open>cdps b2 = ?s1\<close> by (auto simp: uplink_rule_def Let_def f2 listed_def dest!: await_upf_Ok)
  have "the_upf n (cdps b') = Ok (k, u)" "node_key (resolve (pfcp L)) u \<in> set (cPending b')" by (simp_all add: b' listed_def u)
  then show ?thesis
    using x x' assms(8,9)
    by (simp add: b' b2' listed_def set_far_def set_pdr_def dedicated_fields_def uplink_dedicated_def qer_ref_def)
qed

section \<open>How a notification is answered\<close>

lemma the_upf_not_Err [simp]: "the_upf n s \<noteq> Err e"
  by (simp add: the_upf_def split: option.split)

lemma await_upf_not_Err [simp]: "await_upf rs n b \<noteq> (Err e, b')"
  by (simp add: await_upf_def split: result.split)

lemma rule_not_Err [simp]:
  "remove_rule p b \<noteq> (Err e, b')" "downlink_rule rs dnn n ded p b \<noteq> (Err e, b')" "uplink_rule rs dnn n ded p b \<noteq> (Err e, b')"
  by (auto simp: remove_rule_def downlink_rule_def uplink_rule_def Let_def split: option.split)

lemma uplink_part_not_Err [simp]: "uplink_part L c rel ruleid n ded b \<noteq> (Err e, b')"
  by (simp add: uplink_part_def split: option.split)

lemma seq_Err: "seq m f = (Err e, s') \<Longrightarrow> m = (Err e, s') \<or> (\<exists>x t. m = (Ok x, t) \<and> f x t = (Err e, s'))"
  by (cases m; cases "fst m") auto

lemma dedicated_not_Err [simp]: "dedicated L c d n b \<noteq> Some (Err e, b')"
  by (auto simp: dedicated_def Let_def split: prod.splits result.splits option.splits)

lemma andthen_Err: "andthen m f = Some (Err e, s') \<Longrightarrow> m = Some (Err e, s') \<or> (\<exists>x t. m = Some (Ok x, t) \<and> f x t = Some (Err e, s'))"
  by (auto simp: andthen_def split: option.splits result.splits)

lemma build_path_not_Err [simp]: "build_path L c rel ruleid d b \<noteq> Some (Err e, b')"
  by (auto simp: build_path_def split: option.splits result.splits if_splits dest!: andthen_Err seq_Err)

lemma build_paths_not_Err [simp]: "build_paths L c rel ruleid ds b \<noteq> Some (Err e, b')"
  by (induction ds arbitrary: b) (auto dest!: andthen_Err)

lemma BuildPfcpParam_cases:
  assumes "BuildPfcpParam L pccPresent s = Some (r, s')"
  shows "r \<noteq> Err e" and "httpRsp s' = httpRsp s"
  using assms
  by (auto simp: BuildPfcpParam_def Let_def release_only_def change_def split: option.splits result.splits list.splits if_splits)

lemma SendPfcpSessionModifyReq_rsp: "SendPfcpSessionModifyReq L s = Some (r, s') \<Longrightarrow> httpRsp s' = httpRsp s"
  by (auto simp: SendPfcpSessionModifyReq_def andthen_def log_error_def on_world_def wait_status_def finish_def
      split: result.splits option.splits prod.splits if_splits)

lemma transfer_cases:
  assumes "BuildAndSendQosN1N2TransferMsg L amf pccPresent s = Some (r, s')"
  shows "s' = s \<and> (r = Ok () \<longrightarrow> (\<exists>q. amf q = Transferred \<and> tSession q = PDUSessionID (ctx (session_of s)))) \<and>
    (\<forall>e. r = Err e \<longrightarrow> (\<exists>q. amf q \<noteq> Transferred \<and> tSession q = PDUSessionID (ctx (session_of s))))"
  using assms
  by (auto simp: BuildAndSendQosN1N2TransferMsg_def built_def finish_def split: result.splits transfer_answer.splits)
    (metis n1n2_request.select_convs(1) transfer_answer.distinct)+

lemma to_state_id [simp]: "PDUSessionID (ctx (session_of (to_state st s))) = PDUSessionID (ctx (session_of s))"
  by (simp add: to_state_def ChangeState_def)


section \<open>Samples\<close>

definition dedicated_update :: policy_update where
  "dedicated_update = \<lparr>SessRuleUpdate = None, PccRuleUpdate = None, QosFlowUpdate = None, TCUpdate = None,
     SmPolicyDecision = Some (sample_decision\<lparr>QosDecs := [(''2'', Some (zero_qos_data\<lparr>QosId := ''2'', Var5qi := 1\<rparr>))]\<rparr>)\<rparr>"

definition one_path :: data_path where
  "one_path = NewDataPath\<lparr>FirstDPNode := Some 0, Activated := True, IsDefaultPath := True\<rparr>"

definition one_upf_state :: "id_pool collected" where
  "one_upf_state = \<lparr>cdps = (gen_nodes [Some 0] None empty_dps)\<lparr>sessions := [(node_key NodeIdValue sample_upf, pfcp_of ''10.0.0.1'' 1 11)]\<rparr>,
     cPending = [], cParam = no_modification\<rparr>"

lemma sample_dedicated:
  "\<exists>b. dedicated create_lib (sample_context\<lparr>SmPolicyUpdates := [dedicated_update]\<rparr>) one_path 0 one_upf_state = Some (Ok (Some 0), b) \<and>
     tunnel_pdrs DL 0 (cdps b) = [(''default'', 3)] \<and> tunnel_pdrs UL 0 (cdps b) = [(''default'', 1)] \<and>
     (\<exists>y. far_of 3 (cdps b) = Some (4, y)) \<and> (\<exists>y. far_of 1 (cdps b) = Some (2, y)) \<and> the_upf 0 (cdps b) = Ok (0, dupfs (cdps b) ! 0) \<and> cParam b = no_modification"
  by (simp add: dedicated_def one_path_def one_upf_state_def sample_library CreateDedicatedQosQer_def dedicated_update_def path_eval tunnel_eval AddQER_def qerID_def
    set_qer_def rate_pair_def zero_qos_data_def far_of_def tunnel_pdrs_def numeral_eq_Suc[of "num.Bit1 num.One"] numeral_eq_Suc[of "num.Bit0 (num.Bit0 num.One)"] new_pdr_def)

lemma far_of_dedicated:
  "far_of q (set_pdr p (dedicated_fields r ded dnn src) s) = far_of q s"
  "far_of q (set_pdr p (\<lambda>x. uplink_dedicated (dedicated_fields r ded dnn src x)) s) = far_of q s"
  by (cases "pdrs (rules s) p"; simp add: far_of_def set_pdr_def dedicated_fields_def uplink_dedicated_def)+

lemma far_of_set_far: "far_of q (set_far f h s) = map_option (\<lambda>(f', y). (f', if f' = f then h y else y)) (far_of q s)"
proof (cases "Option.bind (pdrs (rules s) q) FAR")
  case (Some f')
  then show ?thesis by (cases "fars (rules s) f'") (auto simp: far_of_def set_far_def bind_eq_Some_conv)
qed (cases "pdrs (rules s) q"; simp add: far_of_def)

lemma tunnel_pdrs_rules [simp]: "tunnel_pdrs dir n (set_pdr p h1 s) = tunnel_pdrs dir n s" "tunnel_pdrs dir n (set_far f h s) = tunnel_pdrs dir n s"
  by (simp_all add: tunnel_pdrs_def set_pdr_def set_far_def)

theorem dedicated_flow_rules_witness:
  "\<exists>b'. build_path create_lib (sample_context\<lparr>SmPolicyUpdates := [dedicated_update]\<rparr>) False ''default'' one_path one_upf_state = Some (Ok (), b') \<and>
     pdrList (cParam b') = [3, 1] \<and> qerList (cParam b') = [0] \<and> (\<exists>x. pdrs (rules (cdps b')) 3 = Some x \<and> QER x = [0])"
proof -
  let ?c = "sample_context\<lparr>SmPolicyUpdates := [dedicated_update]\<rparr>"
  obtain b y y' where b: "dedicated create_lib ?c one_path 0 one_upf_state = Some (Ok (Some 0), b)" "tunnel_pdrs DL 0 (cdps b) = [(''default'', 3)]"
      "tunnel_pdrs UL 0 (cdps b) = [(''default'', 1)]" "far_of 3 (cdps b) = Some (4, y)" "far_of 1 (cdps b) = Some (2, y')"
      "the_upf 0 (cdps b) = Ok (0, dupfs (cdps b) ! 0)" "cParam b = no_modification"
    using sample_dedicated by blast
  have d: "FirstDPNode one_path = Some 0" by (simp add: one_path_def)
  have u: "the_upf 0 (cdps one_upf_state) = Ok (0, sample_upf)" by (simp add: one_upf_state_def path_eval)
  obtain b' where run: "build_path create_lib ?c False ''default'' one_path one_upf_state = Some (Ok (), b')"
    by (simp add: build_path_def d u b b(3,5)[unfolded One_nat_def] downlink_rule_def uplink_part_def uplink_rule_def await_upf_def listed_def far_of_dedicated far_of_set_far Let_def)
  have "map_of (tunnel_pdrs DL 0 (cdps b)) ''default'' = Some 3" "map_of (tunnel_pdrs UL 0 (cdps b)) ''default'' = Some 1" by (simp_all add: b)
  from dedicated_flow_rules[OF run d b(1) this(1) b(4) this(2) b(5)] show ?thesis using run b(7) by (auto simp: no_modification_def)
qed

theorem notification_sessions_witness:
  "snd (HTTPSmPolicyUpdateNotification (Some ''/npcf-smpolicycontrol/v1/sm-policies/imsi-1-5'')
     [Some (sample_context\<lparr>Dnn := ''ims''\<rparr>), None, Some (sample_context\<lparr>Dnn := ''ims'', Supi := ''imsi-2''\<rparr>)]) = [sample_context\<lparr>Dnn := ''ims''\<rparr>]"
proof -
  let ?a = "sample_context\<lparr>Dnn := ''ims''\<rparr>" and ?b = "sample_context\<lparr>Dnn := ''ims'', Supi := ''imsi-2''\<rparr>"
  obtain st m where run: "HTTPSmPolicyUpdateNotification (Some (''/npcf-smpolicycontrol/v1/sm-policies'' @ ''/imsi-'' @ ''1'' @ ''-'' @ ''5'')) [Some ?a, None, Some ?b] = (st, m)"
    by (meson surj_pair)
  have "Supi sample_context = ''imsi-1''" by (simp add: sample_context_def)
  then have e: "{c. Some c \<in> set [Some ?a, None, Some ?b] \<and> Dnn c = ''ims'' \<and> Supi c = ''imsi-'' @ ''1''} = {?a}" by auto
  from notification_sessions[OF _ _ _ run] have m: "set m \<subseteq> {?a}" "distinct (map PDUSessionID m)" "PDUSessionID ` set m = PDUSessionID ` {?a}"
    unfolding e by (simp_all del: append.simps)
  then have "m = [?a]" by (cases m; cases "tl m") auto
  with run show ?thesis by simp
qed

definition released_decision :: sm_policy_decision where
  "released_decision = sample_decision\<lparr>PccRules := [(''default'', None)]\<rparr>"

definition notified_smf :: "SMContextState \<Rightarrow> id_pool smf" where
  "notified_smf st = (two_upf_smf st)\<lparr>sess := (sess (two_upf_smf st))\<lparr>ctx := (sample_context\<lparr>State := st\<rparr>)\<lparr>SmPolicyUpdates :=
     [BuildSmPolicyUpdate (SmPolicyData sample_context) released_decision]\<rparr>, Pending := []\<rparr>\<rparr>"

lemma sample_tunnel:
  "Tunnel (sess (two_upf_smf st)) = Some (Some [(1, NewDataPath\<lparr>FirstDPNode := Some 0, Activated := True, IsDefaultPath := True\<rparr>)])"
  "tunnel_pdrs DL 0 (dps (sess (two_upf_smf st))) = [(''default'', 0)]" "pdrs (rules (dps (sess (two_upf_smf st)))) 0 = Some (new_pdr\<lparr>PDRID := 1, FAR := Some 1\<rparr>)"
  "the_upf 0 (dps (sess (two_upf_smf st))) = Ok (0, sample_upf)" "fars (rules (dps (sess (two_upf_smf st)))) (Suc 0) = Some sample_far"
  by (simp_all add: two_upf_smf_def sample_session_def sample_dps_def tunnel_pdrs_def tunnel_def the_upf_def sample_upf_def)

lemma sample_release:
  "BuildPfcpParam sample_lib True (set_update released_decision (new_procedure evs (two_upf_smf st))) =
     Some (Ok (), (new_procedure evs (notified_smf st))\<lparr>pfcpParam := no_modification\<lparr>removePDR := [0], removeFAR := [Suc 0]\<rparr>\<rparr>)"
proof -
  have r: "release_only True (ctx (sess (world (change (\<lambda>x. x\<lparr>Pending := []\<rparr>) (set_update released_decision (new_procedure evs (two_upf_smf st))))))) = Ok (True, ''default'')"
    by (simp add: release_only_def set_update_def BuildSmPolicyUpdate_def released_decision_def)
  have c: "ctx (sess (two_upf_smf st)) = sample_context\<lparr>State := st\<rparr>" by (simp add: two_upf_smf_def)
  show ?thesis
    unfolding BuildPfcpParam_def Let_def r
    by (simp add: set_update_def new_procedure_def sample_tunnel pool_paths_def build_path_def remove_rule_def no_modification_def change_def set_sess_def
        new_pdr_def notified_smf_def c)
qed

lemma sample_refused:
  "\<exists>s. HandleSMPolicyUpdateNotify sample_lib amf True (Some released_decision) [ModificationResponseEv 1 (Some 1) (Some (Ok 64))] (two_upf_smf SmStateActive)
     = Some (Err ''pfcp modification failure'', s)"
proof -
  let ?ev = "ModificationResponseEv 1 (Some 1) (Some (Ok 64))"
  let ?m = "no_modification\<lparr>removePDR := [0], removeFAR := [Suc 0]\<rparr>"
  let ?t = "(new_procedure [?ev] (notified_smf SmStatePfcpModify))\<lparr>pfcpParam := ?m\<rparr>"
  have t: "to_state SmStatePfcpModify ((new_procedure [?ev] (notified_smf SmStateActive))\<lparr>pfcpParam := ?m\<rparr>) = ?t"
    by (simp add: to_state_def change_def set_sess_def new_procedure_def notified_smf_def ChangeState_def two_upf_smf_def)
  have E: "pfcp sample_lib = sample_env" by (simp add: sample_lib_def)
  have w: "sess (notified_smf st) = (sess (two_upf_smf st))\<lparr>ctx := ctx (sess (notified_smf st)), Pending := []\<rparr>"
      "spools (notified_smf st) = spools (two_upf_smf st)" "self (notified_smf st) = 0" "State (ctx (sess (notified_smf st))) = st" "chan (sess (notified_smf st)) = []" for st
    by (simp_all add: notified_smf_def two_upf_smf_def sample_session_def)
  have an: "an_upf (sess (notified_smf st)) = Ok (0, sample_upf)" for st
    by (subst w(1)) (simp add: an_upf_def sample_tunnel GetDefaultPath_def)
  have pc: "pfcp_context sample_env (NodeID sample_upf) (notified_smf st\<lparr>pseq := q\<rparr>) = Some (pfcp_of ''10.0.0.1'' 1 11)" for q st
    by (simp add: pfcp_context_def sample_upf_def NewUPF_def sample_addresses notified_smf_def two_upf_smf_def)
  have rules: "pdrs (rules (dps (sess (notified_smf st)))) 0 = Some (new_pdr\<lparr>PDRID := 1, FAR := Some 1\<rparr>)"
      "fars (rules (dps (sess (notified_smf st)))) (Suc 0) = Some sample_far" for st
    by (subst w(1), simp add: sample_tunnel)+
  obtain w1 where w1: "SendPfcpSessionModificationRequest sample_env (NodeID sample_upf) ?m (notified_smf SmStatePfcpModify) = (Ok (), w1)"
     "sess w1 = sess (notified_smf SmStatePfcpModify)" "spools w1 = spools (notified_smf SmStatePfcpModify)" "self w1 = 0"
    by (auto simp: rules SendPfcpSessionModificationRequest_def getSeqNumber_def Let_def pc logged_rules_def no_modification_def on_dps_def InsertPfcpTxn_def
      buildRemovePDRIE_def buildRemoveFARIE_def BuildPfcpSessionModificationRequest_def SendPfcp_def w(2-5)) (simp add: sample_env_def w(2-5))
  have own: "find_context 1 w1 = (Some 0, put_pools (full_pools w1) w1)"
    by (simp add: find_context_def GetSMContextBySEID_def full_pools_def w1 w(2-5) two_upf_smf_def)
  let ?w2 = "put_pools (full_pools w1) w1"
  have w2: "self ?w2 = 0" "State (ctx (sess ?w2)) = SmStatePfcpModify" "chan (sess ?w2) = []" by (simp_all add: put_full_pools w1 w(2-5))
  have disp: "Dispatch sample_env ?ev w1 = (Ok (), notify 0 SessionUpdateFailed ?w2)"
    by (simp add: Dispatch_def HandlePfcpSessionModificationResponse_def rsp_seid_def own w2) (simp add: sample_env_def)
  have ch: "chan (sess w1) = []" "chan (sess (notify 0 SessionUpdateFailed ?w2)) = [SessionUpdateFailed]"
    using w1(2) w(5) w2 by (simp_all add: notify_def)
  have rec: "receive sample_env [?ev] w1 = Some (Ok SessionUpdateFailed, [], set_sess (\<lambda>x. x\<lparr>chan := []\<rparr>) (notify 0 SessionUpdateFailed ?w2))"
    by (subst receive.simps) (simp add: ch disp receive.simps[of _ "[]"])
  obtain u where u: "SendPfcpSessionModifyReq sample_lib ?t = Some (Err ''pfcp modification failure'', u)"
    by (simp add: SendPfcpSessionModifyReq_def new_procedure_def an E log_error_def on_world_def logged_def w1 wait_status_def rec)
  have "\<exists>h. makePduCtxtModifyErrRsp sample_lib e v = Some (Ok h, v)" for e v
    by (simp add: makePduCtxtModifyErrRsp_def built_def BuildGSMPDUSessionReleaseCommand_def BuildPDUSessionResourceReleaseCommandTransfer_def
        sample_lib_def sample_gsm_def sample_ngap_def)
  then obtain h where h: "makePduCtxtModifyErrRsp sample_lib ''pfcp modification failure'' (to_state SmStateActive u) = Some (Ok h, to_state SmStateActive u)" by blast
  show ?thesis by (simp add: HandleSMPolicyUpdateNotify_def sample_release t u h)
qed


theorem release_removes_one_rule_per_path_witness:
  "\<exists>s. BuildPfcpParam sample_lib True (set_update released_decision (new_procedure [] (two_upf_smf SmStateActive))) = Some (Ok (), s) \<and>
     removePDR (pfcpParam s) = [0] \<and> removeFAR (pfcpParam s) = [1]"
proof -
  let ?s = "set_update released_decision (new_procedure [] (two_upf_smf SmStateActive))"
  obtain s where run: "BuildPfcpParam sample_lib True ?s = Some (Ok (), s)" using sample_release by blast
  have r: "release_only True (ctx (session_of ?s)) = Ok (True, ''default'')"
    by (simp add: release_only_def set_update_def BuildSmPolicyUpdate_def released_decision_def)
  have x: "session_of ?s = (sess (two_upf_smf SmStateActive))\<lparr>ctx := ctx (session_of ?s)\<rparr>" by (simp add: set_update_def new_procedure_def)
  have t: "Tunnel (session_of ?s) = Some (Some [(1, one_path)])" "dps (session_of ?s) = dps (sess (two_upf_smf SmStateActive))"
    by (subst x, simp add: sample_tunnel one_path_def)+
  from release_removes_one_rule_per_path[OF r t(1) run] run show ?thesis
    by (auto simp: t(2) pool_paths_def one_path_def released_rule_def sample_tunnel List.map_filter_simps)
qed

end
