(* ===== verification/Spec2Isabelle.thy ===== *)
theory Spec2Isabelle
  imports IP_Allocator Bit_Rate Qos_Policy Qos_Rule Qos_Flow Pfcp_Transport Sm_Context Txn_Fsm Upf Data_Path N2_Transfer N1_Message Pfcp_Build Pfcp_Session Session_Update Session_Rules Config_Update Session_Create Policy_Notify
begin

text \<open>
  A verification of the session management function (SMF) of a 5G core, a Go program.  The SMF
  creates, changes and releases the data sessions of user equipment (UE).  A request of the access and
  mobility function becomes a \<^emph>\<open>transaction\<close>, transactions of one session run one after another through two
  state machines, and a procedure of the producer package does the work: it allocates an address for
  the UE, applies a policy decision, chooses user plane functions (UPFs), fills a data path with
  detection, forwarding and QoS rules, and exchanges messages with the UPFs (PFCP), the access network
  (N2) and the UE (N1).

  The program's parts, the theories that model them and what the lemmas show:

  \<^item> \<^verbatim>\<open>Smf_Prelude\<close>: results of Go functions (value, error, panic), 64-bit integers, the string, address
    and map functions of Go's library.  A Go map is an association list, so that a statement about all
    lists covers every iteration order.
  \<^item> \<^verbatim>\<open>IP_Allocator\<close> (\<^verbatim>\<open>context/ip_allocator.go\<close>): identifier pool and address arithmetic.  The locale
    \<^verbatim>\<open>identifier_pool\<close> states what the allocator needs of a pool.  Addresses in use are distinct and within
    the range of the instance, reserved addresses are never handed out, allocation fails exactly when the
    range is used up, release undoes allocation.
  \<^item> \<^verbatim>\<open>Bit_Rate\<close> (\<^verbatim>\<open>util/qos_convert.go\<close>): the value of a rate written as text.
  \<^item> \<^verbatim>\<open>Qos_Policy\<close> (\<^verbatim>\<open>qos/\<close>): a decision of the policy server is compared with the data of the session
    and committed.  The locale \<^verbatim>\<open>policy_store\<close> is the abstract contract; rules, flows and traffic control data
    refine it.
  \<^item> \<^verbatim>\<open>Qos_Rule\<close>, \<^verbatim>\<open>Qos_Flow\<close> (\<^verbatim>\<open>qos/qos_rule.go\<close>, \<^verbatim>\<open>qos/qos_flow.go\<close>): rules and flow descriptions sent to
    the UE; the locale \<^verbatim>\<open>codec\<close> gives round trips for all of them, with lengths and wrap-around.
  \<^item> \<^verbatim>\<open>Pfcp_Transport\<close> (\<^verbatim>\<open>pfcp/udp\<close>): outstanding requests, retransmission and the read loop as a step
    relation; the locale \<^verbatim>\<open>registry\<close> is the contract of the table.  Bounded retransmission, matching of
    responses, one failure report per request, and the interleavings that block or lose a request.
  \<^item> \<^verbatim>\<open>Sm_Context\<close> (\<^verbatim>\<open>context/sm_context.go\<close>): contexts and their pools, session types, pending updates.
  \<^item> \<^verbatim>\<open>Txn_Fsm\<close> (\<^verbatim>\<open>transaction/\<close>, \<^verbatim>\<open>fsm/\<close>): life cycle of transactions and the state machine of a session.
    Queued transactions run in order and the loop ends.
  \<^item> \<^verbatim>\<open>Upf\<close> (\<^verbatim>\<open>context/upf.go\<close>, \<^verbatim>\<open>context/nodeid.go\<close>, \<^verbatim>\<open>context/pfcp_rules.go\<close>): UPFs and rules.  The locale
    \<^verbatim>\<open>id_generator\<close> is the contract of the generator library, interpreted on the program's own pool.
  \<^item> \<^verbatim>\<open>User_Plane\<close> (\<^verbatim>\<open>context/user_plane_information.go\<close>): the topology and the search for default paths.
  \<^item> \<^verbatim>\<open>Data_Path\<close> (\<^verbatim>\<open>context/datapath.go\<close>, \<^verbatim>\<open>context/ue_datapath.go\<close>, \<^verbatim>\<open>context/bp_manager.go\<close>, \<^verbatim>\<open>releaseTunnel\<close> of
    \<^verbatim>\<open>producer/pdu_session.go\<close>): data paths with their rules and PFCP sessions.
  \<^item> \<^verbatim>\<open>N2_Transfer\<close> (\<^verbatim>\<open>context/ngap_build.go\<close>, \<^verbatim>\<open>context/ngap_handler.go\<close>): containers for the access network.
  \<^item> \<^verbatim>\<open>N1_Message\<close> (\<^verbatim>\<open>context/gsm_build.go\<close>, \<^verbatim>\<open>context/gsm_handler.go\<close>, \<^verbatim>\<open>smferrors\<close>): messages for the UE.
  \<^item> \<^verbatim>\<open>Pfcp_Build\<close>, \<^verbatim>\<open>Pfcp_Session\<close> (\<^verbatim>\<open>pfcp/message\<close>, \<^verbatim>\<open>pfcp/handler\<close>, \<^verbatim>\<open>pfcp/upf\<close>, \<^verbatim>\<open>producer/datapath.go\<close>): the
    requests for UPFs, their responses, heartbeats and time-outs.
  \<^item> \<^verbatim>\<open>Session_Update\<close>, \<^verbatim>\<open>Session_Rules\<close> (\<^verbatim>\<open>producer/n1n2_data_handler.go\<close>, \<^verbatim>\<open>producer/sm_pfcp_handling.go\<close>,
    \<^verbatim>\<open>producer/pdu_session.go\<close>): update, release and failed paging of a session; a procedure that waits for the
    UPFs is given the PFCP events that arrive, and \<^verbatim>\<open>None\<close> means that it never returns.
  \<^item> \<^verbatim>\<open>Config_Update\<close> (\<^verbatim>\<open>factory/config.go\<close>, \<^verbatim>\<open>context/config.go\<close>, \<^verbatim>\<open>ProcessConfigUpdate\<close>): configuration updates at run
    time.  The locale \<^verbatim>\<open>config_store\<close> is the contract of a table of configured items, interpreted on the
    slices and on the user plane nodes; a well-formed update leaves the SMF in agreement with the message.
  \<^item> \<^verbatim>\<open>Session_Create\<close> (\<^verbatim>\<open>HandlePDUSessionSMContextCreate\<close> of \<^verbatim>\<open>producer/pdu_session.go\<close>, \<^verbatim>\<open>consumer/sm_policy.go\<close>): the
    establishment of a session, from the request of the mobility function to the activated default path.  What a
    created session has, that a rejected one leaves nothing behind, and how each failure is answered.
  \<^item> \<^verbatim>\<open>Policy_Notify\<close> (\<^verbatim>\<open>producer/callback.go\<close>, \<^verbatim>\<open>callback/api_default.go\<close>): decisions of the policy server during a session.
    Which sessions a notification reaches, the rules of a dedicated flow, and what a release removes.

  Bounds.  Loops over the nodes of a path take the number of iterations as an argument; the length of
  a generated path is enough (\<^verbatim>\<open>GenerateDataPath_linked\<close>).  The life cycle of transactions has five steps
  per queued transaction.  Decoders have the length of their input.  The comparison of nodes by
  \<^verbatim>\<open>reflect.DeepEqual\<close> explores at most all pairs of nodes, and the search for paths is total.

  Arguments of the model: name resolution, the NAS and NGAP libraries, generators of identifiers and
  UUIDs, and the answers of other network functions.  Hypotheses about them are named in the statements
  and each statement has an instance in which they hold.

  Not modelled: logging and metrics, HTTP servers and clients (\<^verbatim>\<open>consumer\<close>, \<^verbatim>\<open>pdusession\<close>, \<^verbatim>\<open>callback\<close>, \<^verbatim>\<open>oam\<close>,
  \<^verbatim>\<open>eventexposure\<close>), start-up and signal handling (\<^verbatim>\<open>service\<close>), the database driver; they are input and
  output around the modelled state.
\<close>

end
